(* ===== verification/Prelude.thy ===== *)
theory Prelude
  imports
    "HOL-Library.AList"
    "HOL-Library.Sublist"
    "HOL-Library.List_Lexorder"
    "HOL-Library.Char_ord"
    "HOL-Library.Multiset"
begin

text \<open>
  What every component shares: the names of the Go types, the collections of facts the
  component proofs use, and generic lemmas on lists, association lists and sums.

  Conventions of the whole development:
  \<^item> Go's \<open>int32\<close>, \<open>int64\<close> and \<open>time.Duration\<close> values that the code only stores, compares and
    ships are \<open>int\<close>; where the code does arithmetic whose wrap-around is observable the model
    uses \<open>HOL-Library.Word\<close> (see the theories that import it).
  \<^item> Go's \<open>string\<close> is \<open>string\<close>, a list of bytes; \<open><\<close> on it is the byte-wise lexicographic
    order of Go's \<open><\<close> (\<open>List_Lexorder\<close> over \<open>Char_ord\<close>).
  \<^item> A pointer that may be nil is an \<open>option\<close>; a slice whose nil-ness the code distinguishes from
    an empty slice is a \<open>list option\<close>.
  \<^item> An instant is an \<open>int\<close> of nanoseconds, and so is a duration.
  \<^item> A value of a third-party package (a kadm response) is the data the code reads off it; a
    third-party function is a parameter of the definitions that call it.
\<close>

type_synonym int32 = int
type_synonym int64 = int
type_synonym int16 = int
type_synonym gotime = int
type_synonym duration = int

named_theorems sec_simps \<open>observations of the section operations\<close>
named_theorems sec_intros \<open>preservation of the section invariant\<close>

subsection \<open>Durations\<close>

definition nanosecond :: duration where "nanosecond = 1"
definition millisecond :: duration where "millisecond = 1000000"
definition second :: duration where "second = 1000000000"
definition minute :: duration where "minute = 60000000000"

text \<open>Go's integer division truncates towards zero.\<close>

definition go_div :: "int \<Rightarrow> int \<Rightarrow> int" where
  "go_div a b = sgn a * sgn b * (\<bar>a\<bar> div \<bar>b\<bar>)"

lemma go_div_nonneg: "0 \<le> a \<Longrightarrow> 0 < b \<Longrightarrow> go_div a b = a div b"
  by (cases "a = 0") (simp_all add: go_div_def)

lemma go_div_nonneg_ge_0 [simp]: "0 \<le> a \<Longrightarrow> 0 < b \<Longrightarrow> 0 \<le> go_div a b"
  by (simp add: go_div_nonneg pos_imp_zdiv_nonneg_iff)

lemma go_div_neg_le_0: "a \<le> 0 \<Longrightarrow> 0 < b \<Longrightarrow> go_div a b \<le> 0"
  by (auto simp: go_div_def sgn_if pos_imp_zdiv_nonneg_iff)

text \<open>\<open>time.Duration.Milliseconds\<close>, \<open>.Microseconds\<close>.\<close>

definition milliseconds :: "duration \<Rightarrow> int64" where
  "milliseconds d = go_div d 1000000"

definition microseconds :: "duration \<Rightarrow> int64" where
  "microseconds d = go_div d 1000"

subsection \<open>Lists\<close>

lemma sum_list_if_filter:
  "sum_list (map (\<lambda>x. if P x then (1::nat) else 0) xs) = length (filter P xs)"
  by (induction xs) auto

lemma length_filter_compl:
  "length (filter P xs) + length (filter (\<lambda>x. \<not> P x) xs) = length xs"
  by (induction xs) auto

lemma filter_mset_length: "mset xs = mset ys \<Longrightarrow> length (filter P xs) = length (filter P ys)"
  by (metis mset_filter size_mset)

lemma sorted_wrt_concat_map:
  assumes "\<And>x. x \<in> set xs \<Longrightarrow> sorted_wrt P (f x)"
    and "sorted_wrt (\<lambda>x y. \<forall>a \<in> set (f x). \<forall>b \<in> set (f y). P a b) xs"
  shows "sorted_wrt P (concat (map f xs))"
  using assms by (induction xs) (auto simp: sorted_wrt_append)

lemma sorted_wrt_filterI: "sorted_wrt P xs \<Longrightarrow> sorted_wrt P (filter Q xs)"
  by (induction xs) auto

lemma map_filter_subseq: "subseq (map f (filter P xs)) (map f xs)"
  by (induction xs) auto

lemma distinct_map_filterI: "distinct (map f xs) \<Longrightarrow> distinct (map f (filter P xs))"
  by (rule distinct_map_filter)

subsection \<open>Association lists as Go maps\<close>

text \<open>
  A Go map that the code also measures with \<open>len\<close> is an association list without repeated
  keys; \<open>AList.update\<close> is the assignment \<open>m[k] = v\<close>.
\<close>

lemma length_alist_update:
  "length (AList.update k v al) = (if k \<in> fst ` set al then length al else Suc (length al))"
  by (induction al) auto

lemma map_of_eq_None_fst: "map_of al k = None \<longleftrightarrow> k \<notin> fst ` set al"
  by (rule map_of_eq_None_iff)

lemma alist_update_new: "map_of al k = None \<Longrightarrow> AList.update k v al = al @ [(k, v)]"
  by (induction al) (auto split: if_splits)

lemma sum_list_alist_update:
  fixes f :: "'k \<Rightarrow> 'v \<Rightarrow> nat"
  assumes "distinct (map fst al)" "map_of al k = Some v"
  shows "(\<Sum>(k', w) \<leftarrow> AList.update k v' al. f k' w) + f k v = (\<Sum>(k', w) \<leftarrow> al. f k' w) + f k v'"
  using assms
proof (induction al)
  case Nil
  then show ?case by simp
next
  case (Cons p al)
  obtain k0 v0 where p: "p = (k0, v0)" by (cases p)
  show ?case
  proof (cases "k0 = k")
    case True
    with Cons.prems p show ?thesis by simp
  next
    case False
    with Cons p show ?thesis by (simp add: add.assoc)
  qed
qed

end
