(* ===== verification/Wire.thy ===== *)
theory Wire
  imports Prelude
begin

text \<open>
  The wire contract, \<open>src/internal/metrics/types.go\<close>: one record per Go struct, with the
  source's fields in the source's order (prefixed, since Isabelle's field names are global),
  the closed enumeration of section statuses, and the two operations the package defines on its
  data, \<open>Truncation.Add\<close> and the fixed-bucket \<open>LatencyHistogram\<close>.

  A pointer field is an \<open>option\<close>. A slice is a \<open>list\<close>; it is a \<open>list option\<close> where the code
  distinguishes nil (JSON null) from an empty slice. \<open>map[string]bool\<close> is an association list.
\<close>

type_synonym uint64 = nat

subsection \<open>Section health\<close>

datatype section_status =
    SectionOK
  | SectionSkipped
  | SectionPartial
  | SectionFailed
  | SectionUnauthorized

record section_wire =
  sw_name :: string
  sw_status :: section_status
  sw_sampled_at :: gotime
  sw_duration_ms :: int64
  sw_error_count :: int
  sw_errors_collapsed :: nat
  sw_errors_dropped :: nat
  sw_truncated :: bool

datatype error_kind =
    KindNone
  | KindAuthorization
  | KindCoordinator
  | KindTransport
  | KindUnsupported
  | KindOther

record collection_error =
  ce_section :: string
  ce_api :: string
  ce_broker :: "int32 option"
  ce_topic :: string
  ce_partition :: "int32 option"
  ce_dir :: string
  ce_group :: string
  ce_code :: int16
  ce_kind :: error_kind
  ce_message :: string
  ce_count :: nat

record truncation =
  tr_collapsed :: nat
  tr_dropped :: nat

definition no_truncation :: truncation where
  "no_truncation = \<lparr>tr_collapsed = 0, tr_dropped = 0\<rparr>"

definition truncation_add :: "truncation \<Rightarrow> truncation \<Rightarrow> truncation" where
  "truncation_add t o' =
     \<lparr>tr_collapsed = tr_collapsed t + tr_collapsed o', tr_dropped = tr_dropped t + tr_dropped o'\<rparr>"

record selection =
  sel_topic_include :: "string list"
  sel_topic_exclude :: "string list"
  sel_group_include :: "string list"
  sel_group_exclude :: "string list"
  sel_group_states :: "string list"
  sel_include_internal :: bool

subsection \<open>Latency histograms\<close>

text \<open>
  \<open>h_buckets = None\<close> is the zero histogram, whose two slices are nil; the code installs
  \<open>BoundsUs\<close> and \<open>Counts\<close> together, and tests \<open>Counts == nil\<close>.
\<close>

record latency_histogram =
  h_count :: int64
  h_sum_us :: int64
  h_max_us :: "int64 option"
  h_bounds :: "int64 list"
  h_counts :: "int64 list option"

definition zero_histogram :: latency_histogram where
  "zero_histogram = \<lparr>h_count = 0, h_sum_us = 0, h_max_us = None, h_bounds = [], h_counts = None\<rparr>"

definition default_latency_bounds_us :: "int64 list" where
  "default_latency_bounds_us =
     [500, 1000, 2500, 5000, 10000, 25000, 50000, 100000, 500000, 1000000, 5000000]"

definition ensure_buckets :: "latency_histogram \<Rightarrow> latency_histogram" where
  "ensure_buckets h =
     (case h_counts h of
        None \<Rightarrow> h\<lparr>h_bounds := default_latency_bounds_us,
                 h_counts := Some (replicate (length default_latency_bounds_us + 1) 0)\<rparr>
      | Some _ \<Rightarrow> h)"

text \<open>The bucket loop \<open>for i < len(bounds) && us > bounds[i] { i++ }\<close>.\<close>

fun bucket_index :: "int64 list \<Rightarrow> int64 \<Rightarrow> nat" where
  "bucket_index [] us = 0"
| "bucket_index (b # bs) us = (if us > b then Suc (bucket_index bs us) else 0)"

text \<open>
  \<open>Counts[i]++\<close> panics when \<open>i\<close> is out of range: \<open>None\<close>. \<open>Hooks\<close> proves that it never
  happens on a histogram this package initialised.
\<close>

definition observe :: "latency_histogram \<Rightarrow> duration \<Rightarrow> latency_histogram option" where
  "observe h0 d =
     (let h = ensure_buckets h0;
          us = (if microseconds d < 0 then 0 else microseconds d);
          h1 = h\<lparr>h_count := h_count h + 1,
                 h_sum_us := h_sum_us h + us,
                 h_max_us := (case h_max_us h of
                                None \<Rightarrow> Some us
                              | Some m \<Rightarrow> if us > m then Some us else Some m)\<rparr>;
          i = bucket_index (h_bounds h1) us
      in case h_counts h1 of
           None \<Rightarrow> None
         | Some cs \<Rightarrow>
             if i < length cs then Some (h1\<lparr>h_counts := Some (cs[i := cs ! i + 1])\<rparr>) else None)"

subsection \<open>Agent self-telemetry and broker RPC health\<close>

record broker_api_rpc =
  ar_api :: string
  ar_e2e :: latency_histogram
  ar_write_wait :: latency_histogram
  ar_errors :: uint64
  ar_bytes_written :: int64
  ar_bytes_read :: int64

record broker_rpc =
  br_broker_id :: int32
  br_requests :: "broker_api_rpc list"
  br_connect_attempts :: uint64
  br_connect_failures :: uint64
  br_connect_latency :: latency_histogram
  br_disconnects :: uint64
  br_last_connect_error :: string
  br_throttle_events :: uint64
  br_throttled_ms :: int64

record rpc_stats =
  rs_window_ms :: int64
  rs_brokers :: "broker_rpc list"

record agent_stats =
  as_uptime_sec :: int64
  as_batches_collected :: uint64
  as_batches_exported :: uint64
  as_batches_dropped :: uint64
  as_batches_rejected :: uint64
  as_export_retries :: uint64
  as_queue_depth :: int
  as_last_export_error :: string
  as_rpc :: "rpc_stats option"

subsection \<open>Cluster\<close>

record broker =
  b_id :: int32
  b_host :: string
  b_port :: int32
  b_rack :: "string option"

record broker_capability =
  bc_broker_id :: int32
  bc_software_version :: string
  bc_api_max_versions :: "(string \<times> int16) list"

record cluster_capabilities =
  cc_features :: "(string \<times> bool) list"
  cc_software_versions :: "string list"
  cc_mixed_versions :: bool
  cc_brokers :: "broker_capability list"

record cluster_metrics =
  cl_id :: string
  cl_broker_count :: nat
  cl_brokers :: "broker list"
  cl_capabilities :: "cluster_capabilities option"

subsection \<open>Topics and partitions\<close>

record max_timestamp_offset =
  mt_offset :: "int64 option"
  mt_timestamp_ms :: "int64 option"
  mt_leader_epoch :: int32
  mt_error_code :: int16

record tiered_offsets =
  ti_local_start :: "int64 option"
  ti_remote_end :: "int64 option"

record window_offset =
  wo_offset :: "int64 option"
  wo_timestamp_ms :: "int64 option"
  wo_leader_epoch :: int32
  wo_error_code :: int16

record throughput_window =
  tw_requested_ms :: int64
  tw_width_ms :: int64

record partition_metrics =
  p_id :: int32
  p_leader :: int32
  p_leader_epoch :: int32
  p_replicas :: "int32 list"
  p_isr :: "int32 list"
  p_offline :: "int32 list"
  p_start_offset :: "int64 option"
  p_end_offset :: "int64 option"
  p_last_stable_offset :: "int64 option"
  p_max_timestamp :: "max_timestamp_offset option"
  p_tiered :: "tiered_offsets option"
  p_window :: "window_offset option"
  p_error_code :: int16

record topic_metrics =
  t_name :: string
  t_id :: string
  t_internal :: bool
  t_partition_count :: nat
  t_replication_factor :: nat
  t_partitions :: "partition_metrics list"
  t_error_code :: int16

subsection \<open>Groups and committed offsets\<close>

record topic_partition =
  tp_topic :: string
  tp_partition :: int32

record group_member =
  gm_member_id :: string
  gm_instance_id :: "string option"
  gm_client_id :: string
  gm_host :: string
  gm_rack :: "string option"
  gm_subscribed :: "string list"
  gm_assignment :: "topic_partition list"
  gm_owned :: "topic_partition list"
  gm_member_epoch :: "int32 option"
  gm_target_assignment :: "topic_partition list"
  gm_subscribed_regex :: "string option"

record group_metrics =
  g_id :: string
  g_state :: string
  g_coordinator :: int32
  g_generation :: int32
  g_protocol :: string
  g_protocol_type :: string
  g_group_type :: string
  g_member_count :: nat
  g_members :: "group_member list"
  g_error_code :: int16
  g_group_epoch :: "int32 option"
  g_assignment_epoch :: "int32 option"
  g_assignor :: string

record partition_offset =
  po_topic :: string
  po_partition :: int32
  po_offset :: "int64 option"
  po_leader_epoch :: int32
  po_metadata :: string
  po_error_code :: int16

record consumer_offset =
  co_group_id :: string
  co_error_code :: int16
  co_offsets :: "partition_offset list option"
  co_offset_count :: nat

subsection \<open>The optional and the triggered phases\<close>

record reassignment =
  ra_topic :: string
  ra_partition :: int32
  ra_replicas :: "int32 list"
  ra_adding :: "int32 list"
  ra_removing :: "int32 list"

record epoch_probe =
  ep_topic :: string
  ep_topic_id :: string
  ep_partition :: int32
  ep_group_id :: string
  ep_committed_offset :: "int64 option"
  ep_committed_epoch :: int32
  ep_current_leader_epoch :: int32
  ep_returned_epoch :: "int32 option"
  ep_end_offset :: "int64 option"
  ep_node_id :: "int32 option"
  ep_error_code :: int16

record log_dir_partition =
  ldp_topic :: string
  ldp_partition :: int32
  ldp_size :: int64
  ldp_offset_lag :: int64
  ldp_is_future :: bool

record log_dir =
  ld_broker :: int32
  ld_dir :: string
  ld_total_bytes :: "int64 option"
  ld_usable_bytes :: "int64 option"
  ld_error_code :: int16
  ld_partitions :: "log_dir_partition list option"

record config_entry =
  cf_key :: string
  cf_value :: "string option"
  cf_sensitive :: bool
  cf_source :: string

record topic_config =
  tc_topic :: string
  tc_error_code :: int16
  tc_configs :: "config_entry list option"

record broker_config =
  bcf_broker :: int32
  bcf_error_code :: int16
  bcf_configs :: "config_entry list option"

record share_group_member =
  sm_member_id :: string
  sm_client_id :: string
  sm_host :: string
  sm_rack :: "string option"
  sm_member_epoch :: int32
  sm_subscribed :: "string list"
  sm_assignment :: "topic_partition list"

record share_group_offset =
  so_topic :: string
  so_partition :: int32
  so_start_offset :: "int64 option"
  so_leader_epoch :: int32
  so_error_code :: int16

record share_group =
  sg_id :: string
  sg_state :: string
  sg_coordinator :: int32
  sg_group_epoch :: int32
  sg_assignment_epoch :: int32
  sg_assignor :: string
  sg_error_code :: int16
  sg_member_count :: nat
  sg_members :: "share_group_member list"
  sg_start_offsets :: "share_group_offset list"

subsection \<open>The batch\<close>

definition schema_version :: int where "schema_version = 1"

record batch =
  ba_schema_version :: int
  ba_agent_version :: string
  ba_instance_id :: string
  ba_seq :: uint64
  ba_collected_at :: gotime
  ba_collection_ms :: int64
  ba_cluster :: "cluster_metrics option"
  ba_topics :: "topic_metrics list"
  ba_groups :: "group_metrics list"
  ba_offsets :: "consumer_offset list"
  ba_log_dirs :: "log_dir list"
  ba_window :: "throughput_window option"
  ba_reassignments :: "reassignment list"
  ba_epoch_probes :: "epoch_probe list"
  ba_topic_configs :: "topic_config list"
  ba_broker_configs :: "broker_config list"
  ba_share_groups :: "share_group list"
  ba_principal :: string
  ba_agent :: agent_stats
  ba_sections :: "section_wire list"
  ba_errors :: "collection_error list"
  ba_truncation :: "truncation option"
  ba_selection :: "selection option"

end
