(* ===== verification/GoError.thy ===== *)
theory GoError
  imports Wire
begin

text \<open>
  Go errors as the collector observes them, and their classification
  (\<open>src/internal/collector/errors.go\<close>, \<open>classify\<close>, \<open>kindForCode\<close>, \<open>errorCode\<close>).

  The concrete error types belong to kadm, kerr, net and context. The code never looks inside
  them except through \<open>errors.As\<close> and \<open>errors.Is\<close>, so an error value is the record of what
  those calls answer on it, together with its \<open>Error()\<close> text:
  \<^item> \<open>err_shards\<close>: \<open>errors.As(err, **kadm.ShardErrors)\<close>, with the shard list (the node id of
    each shard's broker and the shard's own error) and \<open>AllFailed\<close>;
  \<^item> \<open>err_auth\<close>: \<open>errors.As(err, **kadm.AuthError)\<close>, with the error inside it;
  \<^item> \<open>err_kerr\<close>: \<open>errors.As(err, **kerr.Error)\<close>, with its \<open>Code\<close>;
  \<^item> \<open>err_deadline\<close>, \<open>err_canceled\<close>: the two \<open>errors.Is\<close> tests on the context errors;
  \<^item> \<open>err_net\<close>: \<open>errors.As(err, *net.Error)\<close>.
  A nil \<open>error\<close> is \<open>None\<close>.

  The numeric codes are package variables of \<open>kerr\<close>: the parameter \<open>kc\<close> of every definition that
  compares one.
\<close>

datatype goerr =
  GoErr
    (err_shards: "((int32 \<times> goerr) list \<times> bool) option")
    (err_auth: "goerr option")
    (err_kerr: "int16 option")
    (err_deadline: bool)
    (err_canceled: bool)
    (err_net: bool)
    (err_text: string)

text \<open>\<open>errors.New(text)\<close>: nothing but its text.\<close>

definition plain_error :: "string \<Rightarrow> goerr" where
  "plain_error t = GoErr None None None False False False t"

definition errTopicNotListed :: goerr where
  "errTopicNotListed = plain_error ''broker returned no offsets for topic''"

definition errNotListed :: goerr where
  "errNotListed = plain_error ''broker returned no offset for partition''"

definition errNegativeOffset :: goerr where
  "errNegativeOffset = plain_error ''broker returned a negative offset with no error''"

definition errNoResponse :: goerr where
  "errNoResponse = plain_error ''no offset fetch response for group''"

definition errNoLogDirs :: goerr where
  "errNoLogDirs = plain_error ''broker returned no log directories''"

definition errEpochNotReturned :: goerr where
  "errEpochNotReturned = plain_error ''broker returned no leader epoch offset for partition''"

definition errNotLogDirsResponse :: goerr where
  "errNotLogDirsResponse = plain_error ''broker answered DescribeLogDirs with another response type''"

lemmas err_defs = errTopicNotListed_def errNotListed_def errNegativeOffset_def errNoResponse_def
  errNoLogDirs_def errEpochNotReturned_def errNotLogDirsResponse_def plain_error_def

subsection \<open>Classification\<close>

text \<open>The broker error names the classification switches on.\<close>

datatype kerr_name =
    TopicAuthorizationFailed
  | GroupAuthorizationFailed
  | ClusterAuthorizationFailed
  | TransactionalIDAuthorizationFailed
  | DelegationTokenAuthorizationFailed
  | CoordinatorNotAvailable
  | NotCoordinator
  | CoordinatorLoadInProgress
  | UnsupportedVersion
  | UnsupportedForMessageFormat

type_synonym kerr_codes = "kerr_name \<Rightarrow> int16"

definition kindForCode :: "kerr_codes \<Rightarrow> int16 \<Rightarrow> error_kind" where
  "kindForCode kc code =
     (if code \<in> set (map kc [TopicAuthorizationFailed, GroupAuthorizationFailed,
                              ClusterAuthorizationFailed, TransactionalIDAuthorizationFailed,
                              DelegationTokenAuthorizationFailed]) then KindAuthorization
      else if code \<in> set (map kc [CoordinatorNotAvailable, NotCoordinator,
                                   CoordinatorLoadInProgress]) then KindCoordinator
      else if code \<in> set (map kc [UnsupportedVersion, UnsupportedForMessageFormat])
        then KindUnsupported
      else KindOther)"

definition errorCode :: "goerr option \<Rightarrow> int16" where
  "errorCode err =
     (case err of
        None \<Rightarrow> 0
      | Some e \<Rightarrow> (case err_kerr e of Some code \<Rightarrow> code | None \<Rightarrow> 0))"

definition classify :: "kerr_codes \<Rightarrow> goerr option \<Rightarrow> error_kind \<times> int16" where
  "classify kc err =
     (case err of
        None \<Rightarrow> (KindNone, 0)
      | Some e \<Rightarrow>
          (case err_auth e of
             Some inner \<Rightarrow> (KindAuthorization, errorCode (Some inner))
           | None \<Rightarrow>
               (case err_kerr e of
                  Some code \<Rightarrow> (kindForCode kc code, code)
                | None \<Rightarrow>
                    if err_deadline e \<or> err_canceled e then (KindTransport, 0)
                    else if err_net e then (KindTransport, 0)
                    else (KindOther, 0))))"

text \<open>
  \<open>kerr.ErrorForCode\<close> is third-party: a parameter of type \<open>int16 \<Rightarrow> goerr option\<close>. What the code
  relies on is that code 0 is no error, that every other code is one, and that the error carries
  the code.
\<close>

definition error_for_code_ok :: "(int16 \<Rightarrow> goerr option) \<Rightarrow> bool" where
  "error_for_code_ok efc \<longleftrightarrow>
     efc 0 = None \<and> (\<forall>c. c \<noteq> 0 \<longrightarrow> (\<exists>e. efc c = Some e \<and> err_kerr e = Some c))"

lemma classify_None [simp]: "classify kc None = (KindNone, 0)"
  by (simp add: classify_def)

lemma classify_kind_Some: "fst (classify kc (Some e)) \<noteq> KindNone"
  by (auto simp: classify_def kindForCode_def split: option.splits)

lemma classify_auth: "err_auth e = Some inner \<Longrightarrow> fst (classify kc (Some e)) = KindAuthorization"
  by (simp add: classify_def)

lemma classify_plain [simp]: "classify kc (Some (plain_error t)) = (KindOther, 0)"
  by (simp add: classify_def plain_error_def)

lemma errorCode_None [simp]: "errorCode None = 0"
  by (simp add: errorCode_def)

lemma errorCode_plain [simp]: "errorCode (Some (plain_error t)) = 0"
  by (simp add: errorCode_def plain_error_def)

lemma errorCode_for_code:
  assumes "error_for_code_ok efc"
  shows "errorCode (efc c) = c"
proof (cases "c = 0")
  case True
  with assms show ?thesis by (simp add: error_for_code_ok_def)
next
  case False
  with assms obtain e where "efc c = Some e" "err_kerr e = Some c"
    by (auto simp: error_for_code_ok_def)
  then show ?thesis by (simp add: errorCode_def)
qed

end
