(* ===== verification/Sections.thy ===== *)
theory Sections
  imports GoError
begin

text \<open>
  The section machinery, \<open>src/internal/collector/errors.go\<close> and the first half of
  \<open>limits.go\<close>: the per-phase record of status, timing and attributed errors, the single
  admission funnel \<open>record\<close> with its deduplication and budgets, and the two entry points for
  the outcome of a whole API call, \<open>request\<close> and \<open>requestPartial\<close>.

  A method on \<open>*section\<close> is a function that takes the section last and returns it updated.
  \<open>keys\<close>, a Go map measured with \<open>len\<close>, is an association list (nil and empty are read alike).
\<close>

subsection \<open>Section names and status order\<close>

definition sectionNames :: "string list" where
  "sectionNames =
     [''cluster'',
      ''topics'', ''topics_window'', ''topics_lso'', ''topics_end'',
      ''topics_max_timestamp'', ''topics_local_start'', ''topics_remote_end'',
      ''groups'', ''offsets'',
      ''epoch_probes'',
      ''log_dirs'', ''reassignments'',
      ''topic_configs'', ''broker_configs'', ''share_groups'',
      ''broker_rpc'']"

fun statusRank :: "section_status \<Rightarrow> nat" where
  "statusRank SectionOK = 0"
| "statusRank SectionSkipped = 1"
| "statusRank SectionPartial = 2"
| "statusRank SectionFailed = 3"
| "statusRank SectionUnauthorized = 4"

lemma statusRank_inject [simp]: "statusRank s = statusRank t \<longleftrightarrow> s = t"
  by (cases s; cases t) simp_all

text \<open>The rank is injective, so it makes the statuses a linear order.\<close>

instantiation section_status :: linorder
begin

definition less_eq_section_status :: "section_status \<Rightarrow> section_status \<Rightarrow> bool" where
  "s \<le> t \<longleftrightarrow> statusRank s \<le> statusRank t"

definition less_section_status :: "section_status \<Rightarrow> section_status \<Rightarrow> bool" where
  "s < t \<longleftrightarrow> statusRank s < statusRank t"

instance
  by standard (auto simp: less_eq_section_status_def less_section_status_def)

end

lemma SectionOK_le [simp]: "SectionOK \<le> s"
  by (simp add: less_eq_section_status_def)

lemma le_SectionUnauthorized [simp]: "s \<le> SectionUnauthorized"
  by (cases s) (simp_all add: less_eq_section_status_def)

lemmas status_order = less_eq_section_status_def less_section_status_def max_def

subsection \<open>Limits\<close>

record limits =
  lim_max_errors :: int
  lim_max_error_samples :: int

definition no_limits :: limits where
  "no_limits = \<lparr>lim_max_errors = 0, lim_max_error_samples = 0\<rparr>"

definition math_MaxInt :: int where "math_MaxInt = 9223372036854775807"

definition errorSamples :: "limits \<Rightarrow> int" where
  "errorSamples l = (if lim_max_error_samples l < 1 then 1 else lim_max_error_samples l)"

definition perSectionErrorBudget :: "limits \<Rightarrow> int" where
  "perSectionErrorBudget l = (if lim_max_errors l \<le> 0 then math_MaxInt else lim_max_errors l)"

definition capLen :: "nat \<Rightarrow> int \<Rightarrow> nat \<times> nat" where
  "capLen n ceiling =
     (if ceiling \<le> 0 \<or> int n \<le> ceiling then (n, 0) else (nat ceiling, n - nat ceiling))"

definition noBroker :: int32 where "noBroker = -2147483648"

definition maxDistinctErrorKeys :: nat where "maxDistinctErrorKeys = 256"

subsection \<open>Deduplication keys and admission priorities\<close>

record err_key =
  ek_api :: string
  ek_kind :: error_kind
  ek_code :: int16
  ek_broker :: int32

definition keyOf :: "collection_error \<Rightarrow> err_key" where
  "keyOf ce =
     \<lparr>ek_api = ce_api ce, ek_kind = ce_kind ce, ek_code = ce_code ce,
      ek_broker = (case ce_broker ce of None \<Rightarrow> noBroker | Some b \<Rightarrow> b)\<rparr>"

definition prioRequest :: nat where "prioRequest = 0"
definition prioAuth :: nat where "prioAuth = 1"
definition prioUnsupported :: nat where "prioUnsupported = 2"
definition prioCoordinator :: nat where "prioCoordinator = 3"
definition prioTransport :: nat where "prioTransport = 4"
definition prioEntity :: nat where "prioEntity = 5"

lemmas prio_defs = prioRequest_def prioAuth_def prioUnsupported_def prioCoordinator_def
  prioTransport_def prioEntity_def

definition errPriority :: "collection_error \<Rightarrow> bool \<Rightarrow> nat" where
  "errPriority ce requestScoped =
     (if requestScoped then prioRequest
      else case ce_kind ce of
             KindAuthorization \<Rightarrow> prioAuth
           | KindUnsupported \<Rightarrow> prioUnsupported
           | KindCoordinator \<Rightarrow> prioCoordinator
           | KindTransport \<Rightarrow> prioTransport
           | _ \<Rightarrow> prioEntity)"

lemma errPriority_le: "errPriority ce rs \<le> prioEntity"
  by (auto simp: errPriority_def prio_defs split: error_kind.splits)

lemma errPriority_auth: "ce_kind ce = KindAuthorization \<Longrightarrow> errPriority ce rs \<noteq> prioEntity"
  by (auto simp: errPriority_def prio_defs)

subsection \<open>The section\<close>

text \<open>\<open>repIdx = -1\<close>, a key refused outright, is \<open>eb_rep = None\<close>.\<close>

record err_bucket =
  eb_rep :: "nat option"
  eb_samples :: nat
  eb_seen :: nat

record sect =
  s_name :: string
  s_started :: gotime
  s_duration :: duration
  s_status :: section_status
  s_lim :: limits
  s_errs :: "collection_error list"
  s_prios :: "nat list"
  s_keys :: "(err_key \<times> err_bucket) list"
  s_dropped :: truncation
  s_global_dropped :: nat
  s_truncated :: bool

definition newSectionAt :: "string \<Rightarrow> gotime \<Rightarrow> sect" where
  "newSectionAt name at =
     \<lparr>s_name = name, s_started = at, s_duration = 0, s_status = SectionOK, s_lim = no_limits,
      s_errs = [], s_prios = [], s_keys = [], s_dropped = no_truncation,
      s_global_dropped = 0, s_truncated = False\<rparr>"

text \<open>The Collector's constructor stamps the configured limits.\<close>

definition c_newSectionAt :: "limits \<Rightarrow> string \<Rightarrow> gotime \<Rightarrow> sect" where
  "c_newSectionAt lim name at = (newSectionAt name at)\<lparr>s_lim := lim\<rparr>"

definition stop :: "gotime \<Rightarrow> sect \<Rightarrow> sect" where
  "stop now s = s\<lparr>s_duration := now - s_started s\<rparr>"

definition finish :: "sect option \<Rightarrow> section_wire" where
  "finish so =
     (case so of
        None \<Rightarrow> \<lparr>sw_name = [], sw_status = SectionSkipped, sw_sampled_at = 0, sw_duration_ms = 0,
                 sw_error_count = 0, sw_errors_collapsed = 0, sw_errors_dropped = 0,
                 sw_truncated = False\<rparr>
      | Some s \<Rightarrow> \<lparr>sw_name = s_name s, sw_status = s_status s, sw_sampled_at = s_started s,
                   sw_duration_ms = milliseconds (s_duration s),
                   sw_error_count = int (length (s_errs s)) - int (s_global_dropped s),
                   sw_errors_collapsed = tr_collapsed (s_dropped s),
                   sw_errors_dropped = tr_dropped (s_dropped s),
                   sw_truncated = s_truncated s\<rparr>)"

definition downgrade :: "section_status \<Rightarrow> sect \<Rightarrow> sect" where
  "downgrade st s = (if statusRank st > statusRank (s_status s) then s\<lparr>s_status := st\<rparr> else s)"

definition newError :: "kerr_codes \<Rightarrow> string \<Rightarrow> goerr \<Rightarrow> sect \<Rightarrow> collection_error" where
  "newError kc api err s =
     (let (kind, code) = classify kc (Some err)
      in \<lparr>ce_section = s_name s, ce_api = api, ce_broker = None, ce_topic = [],
          ce_partition = None, ce_dir = [], ce_group = [], ce_code = code, ce_kind = kind,
          ce_message = err_text err, ce_count = 0\<rparr>)"

definition emit :: "collection_error \<Rightarrow> nat \<Rightarrow> sect \<Rightarrow> sect" where
  "emit ce prio s = s\<lparr>s_errs := s_errs s @ [ce], s_prios := s_prios s @ [prio]\<rparr>"

text \<open>
  \<open>record\<close>, the admission funnel (\<open>record\<close> is an Isabelle keyword). The two halves are the
  branch for a key seen before and the branch for a new key. The index \<open>rep\<close> is in range on
  every reachable section (\<open>sec_inv\<close> below), so the list update is the Go assignment.
\<close>

definition record_known :: "collection_error \<Rightarrow> nat \<Rightarrow> err_bucket \<Rightarrow> sect \<Rightarrow> sect" where
  "record_known ce prio b0 s0 =
     (let k = keyOf ce;
          b = b0\<lparr>eb_seen := eb_seen b0 + 1\<rparr>;
          s = s0\<lparr>s_keys := AList.update k b (s_keys s0)\<rparr>
      in case eb_rep b of
           None \<Rightarrow> s
         | Some rep \<Rightarrow>
             if int (eb_samples b) < errorSamples (s_lim s) \<and>
                (prio < prioEntity \<or> int (length (s_errs s)) < perSectionErrorBudget (s_lim s))
             then (emit ce prio s)
                    \<lparr>s_keys := AList.update k (b\<lparr>eb_samples := eb_samples b + 1\<rparr>) (s_keys s)\<rparr>
             else s\<lparr>s_errs := (s_errs s)[rep := (s_errs s ! rep)
                        \<lparr>ce_count := eb_seen b - (eb_samples b - 1)\<rparr>],
                    s_dropped := truncation_add (s_dropped s) \<lparr>tr_collapsed = 1, tr_dropped = 0\<rparr>,
                    s_truncated := True\<rparr>)"

definition record_new :: "collection_error \<Rightarrow> nat \<Rightarrow> sect \<Rightarrow> sect" where
  "record_new ce prio s =
     (let k = keyOf ce;
          mapFull = (length (s_keys s) \<ge> maxDistinctErrorKeys)
      in if prio = prioEntity \<and>
            (int (length (s_errs s)) \<ge> perSectionErrorBudget (s_lim s) \<or> mapFull)
         then s\<lparr>s_dropped := truncation_add (s_dropped s) \<lparr>tr_collapsed = 0, tr_dropped = 1\<rparr>,
                s_truncated := True,
                s_keys := (if \<not> mapFull
                           then AList.update k \<lparr>eb_rep = None, eb_samples = 0, eb_seen = 1\<rparr> (s_keys s)
                           else s_keys s)\<rparr>
         else (emit ce prio s)
                \<lparr>s_keys := AList.update k
                   \<lparr>eb_rep = Some (length (s_errs s)), eb_samples = 1, eb_seen = 1\<rparr> (s_keys s)\<rparr>)"

definition record_error :: "collection_error \<Rightarrow> bool \<Rightarrow> sect \<Rightarrow> sect" where
  "record_error ce requestScoped s0 =
     (let s = (if \<not> requestScoped then downgrade SectionPartial s0 else s0);
          prio = errPriority ce requestScoped
      in case map_of (s_keys s) (keyOf ce) of
           Some b \<Rightarrow> record_known ce prio b s
         | None \<Rightarrow> record_new ce prio s)"

definition add_error :: "collection_error \<Rightarrow> sect \<Rightarrow> sect" where
  "add_error ce s = record_error ce False s"

definition recordTopic :: "kerr_codes \<Rightarrow> string \<Rightarrow> string \<Rightarrow> goerr \<Rightarrow> sect \<Rightarrow> sect" where
  "recordTopic kc api topic err s = add_error ((newError kc api err s)\<lparr>ce_topic := topic\<rparr>) s"

definition recordPartition ::
    "kerr_codes \<Rightarrow> string \<Rightarrow> string \<Rightarrow> int32 \<Rightarrow> goerr \<Rightarrow> sect \<Rightarrow> sect" where
  "recordPartition kc api topic pid err s =
     add_error ((newError kc api err s)\<lparr>ce_topic := topic, ce_partition := Some pid\<rparr>) s"

definition recordLogDir ::
    "kerr_codes \<Rightarrow> string \<Rightarrow> int32 \<Rightarrow> string \<Rightarrow> goerr \<Rightarrow> sect \<Rightarrow> sect" where
  "recordLogDir kc api brk dir err s =
     add_error ((newError kc api err s)\<lparr>ce_broker := Some brk, ce_dir := dir\<rparr>) s"

definition recordGroup :: "kerr_codes \<Rightarrow> string \<Rightarrow> string \<Rightarrow> goerr \<Rightarrow> sect \<Rightarrow> sect" where
  "recordGroup kc api grp err s = add_error ((newError kc api err s)\<lparr>ce_group := grp\<rparr>) s"

subsection \<open>The outcome of a whole call\<close>

text \<open>The loop over the shard errors; it also reports whether one of them was an authorization.\<close>

fun request_shards ::
    "kerr_codes \<Rightarrow> string \<Rightarrow> (int32 \<times> goerr) list \<Rightarrow> sect \<Rightarrow> bool \<times> sect" where
  "request_shards kc api [] s = (False, s)"
| "request_shards kc api ((node, e) # ses) s =
     (let ce0 = newError kc api e s;
          ce = (if node \<ge> 0 then ce0\<lparr>ce_broker := Some node\<rparr> else ce0);
          (unauthorized, s') = request_shards kc api ses (record_error ce True s)
      in (ce_kind ce = KindAuthorization \<or> unauthorized, s'))"

definition request :: "kerr_codes \<Rightarrow> string \<Rightarrow> goerr option \<Rightarrow> sect \<Rightarrow> bool \<times> sect" where
  "request kc api err s =
     (case err of
        None \<Rightarrow> (True, s)
      | Some e \<Rightarrow>
          (case err_shards e of
             Some (errs, allFailed) \<Rightarrow>
               (let (unauthorized, s1) = request_shards kc api errs s
                in (\<not> allFailed,
                    downgrade (if allFailed \<and> unauthorized then SectionUnauthorized
                               else if allFailed then SectionFailed
                               else SectionPartial) s1))
           | None \<Rightarrow>
               (case err_auth e of
                  Some _ \<Rightarrow>
                    (False, downgrade SectionUnauthorized (record_error (newError kc api e s) True s))
                | None \<Rightarrow>
                    (let ce = newError kc api e s; s1 = record_error ce True s
                     in (False, downgrade (if ce_kind ce = KindAuthorization
                                           then SectionUnauthorized else SectionFailed) s1)))))"

definition requestPartial ::
    "kerr_codes \<Rightarrow> string \<Rightarrow> goerr option \<Rightarrow> bool \<Rightarrow> sect \<Rightarrow> bool \<times> sect" where
  "requestPartial kc api err gotData s =
     (let (usable, s1) = request kc api err s
      in if usable then (True, s1)
         else if \<not> gotData then (False, s1)
         else (True, if s_status s1 = SectionFailed \<or> s_status s1 = SectionUnauthorized
                     then s1\<lparr>s_status := SectionPartial\<rparr> else s1))"

end
