(* ===== verification/Section_Inv.thy ===== *)
theory Section_Inv
  imports Sections
begin

text \<open>
  The invariant of a section, that the admission funnel keeps it, and what the funnel accounts
  for: every occurrence of an admitted failure mode is represented, in an entry of its own or in its
  exemplar's count; of a refused mode only the first occurrence is counted, as a drop; an entry of a
  better priority is never evicted for a worse one.
\<close>

subsection \<open>Generic steps\<close>

lemma sum_filter_update:
  fixes w :: "'a \<Rightarrow> nat"
  assumes "i < length xs" "P y = P (xs ! i)"
  shows "sum_list (map w (filter P (xs[i := y]))) + (if P (xs ! i) then w (xs ! i) else 0)
       = sum_list (map w (filter P xs)) + (if P y then w y else 0)"
  using assms
proof (induction xs arbitrary: i)
  case Nil
  then show ?case by simp
next
  case (Cons x xs)
  then show ?case by (cases i) (auto simp: add.assoc)
qed

lemma length_filter_update:
  "i < length xs \<Longrightarrow> P y = P (xs ! i) \<Longrightarrow> length (filter P (xs[i := y])) = length (filter P xs)"
proof (induction xs arbitrary: i)
  case Nil
  then show ?case by simp
next
  case (Cons x xs)
  then show ?case by (cases i) auto
qed

lemma image_update_same: "i < length xs \<Longrightarrow> f y = f (xs ! i) \<Longrightarrow> f ` set (xs[i := y]) = f ` set xs"
proof (induction xs arbitrary: i)
  case Nil
  then show ?case by simp
next
  case (Cons x xs)
  then show ?case by (cases i) auto
qed

lemma set_alist_update:
  "distinct (map fst al) \<Longrightarrow>
     set (AList.update k v al) = insert (k, v) {p \<in> set al. fst p \<noteq> k}"
  by (induction al) (auto simp: image_iff)

lemma fst_set_alist_update: "fst ` set (AList.update k v al) = insert k (fst ` set al)"
  by (simp add: dom_update flip: dom_map_of_conv_image_fst) (auto simp: update_conv')

subsection \<open>The invariant\<close>

text \<open>The occurrences one entry stands for: \<open>count\<close> is omitted on the wire when it is 1.\<close>

definition weight :: "collection_error \<Rightarrow> nat" where
  "weight e = (if ce_count e = 0 then 1 else ce_count e)"

definition key_errs :: "err_key \<Rightarrow> collection_error list \<Rightarrow> collection_error list" where
  "key_errs k errs = filter (\<lambda>e. keyOf e = k) errs"

definition bucket_ok :: "collection_error list \<Rightarrow> err_key \<Rightarrow> err_bucket \<Rightarrow> bool" where
  "bucket_ok errs k b \<longleftrightarrow>
     (case eb_rep b of
        None \<Rightarrow> k \<notin> keyOf ` set errs
      | Some i \<Rightarrow>
          i < length errs \<and> keyOf (errs ! i) = k \<and> 1 \<le> eb_samples b \<and>
          eb_samples b = length (key_errs k errs) \<and>
          weight (errs ! i) + (eb_samples b - 1) = eb_seen b \<and>
          sum_list (map weight (key_errs k errs)) = eb_seen b)"

definition keys_inv :: "collection_error list \<Rightarrow> (err_key \<times> err_bucket) list \<Rightarrow> bool" where
  "keys_inv errs keys \<longleftrightarrow>
     distinct (map fst keys) \<and>
     (\<forall>(k, b) \<in> set keys. bucket_ok errs k b) \<and>
     keyOf ` set errs \<subseteq> fst ` set keys"

definition sec_inv :: "sect \<Rightarrow> bool" where
  "sec_inv s \<longleftrightarrow>
     length (s_prios s) = length (s_errs s) \<and>
     (\<forall>p \<in> set (s_prios s). p \<le> prioEntity) \<and>
     keys_inv (s_errs s) (s_keys s) \<and>
     (\<forall>e \<in> set (s_errs s). ce_section e = s_name s) \<and>
     sum_list (map weight (s_errs s)) = length (s_errs s) + tr_collapsed (s_dropped s) \<and>
     (tr_dropped (s_dropped s) = 0 \<longrightarrow> (\<forall>b \<in> snd ` set (s_keys s). eb_rep b \<noteq> None)) \<and>
     (s_dropped s \<noteq> no_truncation \<longrightarrow> s_truncated s) \<and>
     s_global_dropped s = 0"

lemma keyOf_count [simp]: "keyOf (e\<lparr>ce_count := n\<rparr>) = keyOf e"
  by (simp add: keyOf_def)

lemma weight_ge_1 [simp]: "1 \<le> weight e"
  by (simp add: weight_def)

lemma weight_count [simp]: "0 < n \<Longrightarrow> weight (e\<lparr>ce_count := n\<rparr>) = n"
  by (simp add: weight_def)

lemma key_errs_append [simp]:
  "key_errs k (errs @ [ce]) = key_errs k errs @ (if keyOf ce = k then [ce] else [])"
  by (simp add: key_errs_def)

lemma key_errs_Nil: "k \<notin> keyOf ` set errs \<Longrightarrow> key_errs k errs = []"
  by (auto simp: key_errs_def filter_empty_conv)

lemma sec_inv_fresh [simp, sec_intros]: "sec_inv (c_newSectionAt lim name at)"
  by (simp add: sec_inv_def keys_inv_def c_newSectionAt_def newSectionAt_def no_truncation_def)

lemma sec_inv_status [simp, sec_intros]: "sec_inv (s\<lparr>s_status := st\<rparr>) = sec_inv s"
  by (simp add: sec_inv_def)

lemma sec_inv_downgrade [simp, sec_intros]: "sec_inv (downgrade st s) = sec_inv s"
  by (simp add: downgrade_def)

lemma sec_inv_stop [simp, sec_intros]: "sec_inv (stop now s) = sec_inv s"
  by (simp add: sec_inv_def stop_def)

subsection \<open>Buckets\<close>

lemma bucket_ok_append_other:
  "bucket_ok errs k b \<Longrightarrow> keyOf ce \<noteq> k \<Longrightarrow> bucket_ok (errs @ [ce]) k b"
  by (auto simp: bucket_ok_def nth_append split: option.splits)

lemma bucket_ok_append_same:
  assumes "bucket_ok errs k b" "eb_rep b = Some i" "keyOf ce = k" "ce_count ce = 0"
  shows "bucket_ok (errs @ [ce]) k (b\<lparr>eb_seen := Suc (eb_seen b), eb_samples := Suc (eb_samples b)\<rparr>)"
  using assms by (auto simp: bucket_ok_def nth_append weight_def)

lemma bucket_ok_fresh:
  "k \<notin> keyOf ` set errs \<Longrightarrow> keyOf ce = k \<Longrightarrow> ce_count ce = 0 \<Longrightarrow>
     bucket_ok (errs @ [ce]) k \<lparr>eb_rep = Some (length errs), eb_samples = 1, eb_seen = 1\<rparr>"
  by (simp add: bucket_ok_def key_errs_Nil weight_def)

lemma bucket_ok_seen: "bucket_ok errs k b \<Longrightarrow> eb_rep b = Some i \<Longrightarrow> eb_samples b \<le> eb_seen b"
  using weight_ge_1 [of "errs ! i"] by (auto simp: bucket_ok_def)

text \<open>The exemplar absorbs one more occurrence.\<close>

lemma bucket_ok_fold_same:
  assumes ok: "bucket_ok errs k b" and rep: "eb_rep b = Some i"
  shows "bucket_ok (errs[i := (errs ! i)\<lparr>ce_count := Suc (eb_seen b) - (eb_samples b - 1)\<rparr>]) k
           (b\<lparr>eb_seen := Suc (eb_seen b)\<rparr>)"
proof -
  let ?c = "Suc (eb_seen b) - (eb_samples b - 1)"
  let ?y = "(errs ! i)\<lparr>ce_count := ?c\<rparr>"
  from ok rep have i: "i < length errs" "keyOf (errs ! i) = k" "1 \<le> eb_samples b"
    and n: "eb_samples b = length (key_errs k errs)"
    and w: "weight (errs ! i) + (eb_samples b - 1) = eb_seen b"
    and t: "sum_list (map weight (key_errs k errs)) = eb_seen b"
    by (auto simp: bucket_ok_def)
  have le: "eb_samples b \<le> eb_seen b" using ok rep by (rule bucket_ok_seen)
  then have wy: "weight ?y = ?c" by simp
  have "length (key_errs k (errs[i := ?y])) = length (key_errs k errs)"
    using i by (simp add: key_errs_def length_filter_update)
  moreover have "sum_list (map weight (key_errs k (errs[i := ?y]))) + weight (errs ! i) =
      sum_list (map weight (key_errs k errs)) + weight ?y"
    using sum_filter_update [of i errs "\<lambda>e. keyOf e = k" ?y weight] i
    by (simp add: key_errs_def)
  ultimately show ?thesis
    using i n w t le wy rep by (simp add: bucket_ok_def)
qed

lemma bucket_ok_fold_other:
  assumes ok: "bucket_ok errs k b" and i: "i < length errs" "keyOf (errs ! i) \<noteq> k"
  shows "bucket_ok (errs[i := (errs ! i)\<lparr>ce_count := c\<rparr>]) k b"
proof -
  let ?y = "(errs ! i)\<lparr>ce_count := c\<rparr>"
  have "key_errs k (errs[i := ?y]) = key_errs k errs"
  proof -
    have "\<not> (keyOf ?y = k)" using i by simp
    then show ?thesis
      using i by (induction errs arbitrary: i) (auto simp: key_errs_def split: nat.splits)
  qed
  moreover have "keyOf ` set (errs[i := ?y]) = keyOf ` set errs"
    using i by (intro image_update_same) simp_all
  ultimately show ?thesis
    using ok i by (cases "eb_rep b") (auto simp: bucket_ok_def nth_list_update)
qed

lemma keys_inv_lookup: "keys_inv errs keys \<Longrightarrow> map_of keys k = Some b \<Longrightarrow> bucket_ok errs k b"
  by (auto simp: keys_inv_def dest: map_of_SomeD)

lemma keys_inv_new: "keys_inv errs keys \<Longrightarrow> map_of keys k = None \<Longrightarrow> k \<notin> keyOf ` set errs"
  by (auto simp: keys_inv_def map_of_eq_None_iff)

lemma keys_inv_update:
  assumes "keys_inv errs keys"
    and "\<And>k' b'. k' \<noteq> k \<Longrightarrow> bucket_ok errs k' b' \<Longrightarrow> bucket_ok errs' k' b'"
    and "bucket_ok errs' k b"
    and "keyOf ` set errs' \<subseteq> insert k (keyOf ` set errs)"
  shows "keys_inv errs' (AList.update k b keys)"
proof -
  have "distinct (map fst (AList.update k b keys))"
    using assms(1) by (simp add: keys_inv_def distinct_update)
  moreover have "\<forall>(k', b') \<in> set (AList.update k b keys). bucket_ok errs' k' b'"
    using assms by (auto simp: keys_inv_def set_alist_update)
  moreover have "keyOf ` set errs' \<subseteq> fst ` set (AList.update k b keys)"
    using assms(1,4) by (force simp: keys_inv_def fst_set_alist_update)
  ultimately show ?thesis by (simp add: keys_inv_def)
qed

lemma alist_update_twice [simp]:
  "AList.update k v2 (AList.update k v1 al) = AList.update k v2 al"
  by (induction al) auto

lemma alist_update_all:
  "\<forall>b \<in> snd ` set al. P b \<Longrightarrow> P v \<Longrightarrow> \<forall>b \<in> snd ` set (AList.update k v al). P b"
  by (induction al) auto

subsection \<open>The funnel keeps the invariant\<close>

lemma record_known_refused_inv:
  assumes inv: "sec_inv s" and b: "map_of (s_keys s) (keyOf ce) = Some b" and rep: "eb_rep b = None"
  shows "sec_inv (record_known ce prio b s)"
proof -
  let ?b = "b\<lparr>eb_seen := Suc (eb_seen b)\<rparr>"
  from inv have ks: "keys_inv (s_errs s) (s_keys s)" by (simp add: sec_inv_def)
  have "b \<in> snd ` set (s_keys s)" using map_of_SomeD [OF b] by force
  with rep inv have refused: "tr_dropped (s_dropped s) \<noteq> 0" by (auto simp: sec_inv_def)
  have "bucket_ok (s_errs s) (keyOf ce) ?b"
    using keys_inv_lookup [OF ks b] rep by (simp add: bucket_ok_def)
  then have "keys_inv (s_errs s) (AList.update (keyOf ce) ?b (s_keys s))"
    by (intro keys_inv_update [OF ks]) auto
  with inv refused rep show ?thesis by (simp add: record_known_def sec_inv_def)
qed

lemma record_known_emit_inv:
  assumes inv: "sec_inv s" and b: "map_of (s_keys s) (keyOf ce) = Some b" and rep: "eb_rep b = Some i"
    and ce: "ce_count ce = 0" "ce_section ce = s_name s" and prio: "prio \<le> prioEntity"
    and emit: "int (eb_samples b) < errorSamples (s_lim s)"
      "prio < prioEntity \<or> int (length (s_errs s)) < perSectionErrorBudget (s_lim s)"
  shows "sec_inv (record_known ce prio b s)"
proof -
  let ?b = "b\<lparr>eb_seen := Suc (eb_seen b), eb_samples := Suc (eb_samples b)\<rparr>"
  from inv have ks: "keys_inv (s_errs s) (s_keys s)" by (simp add: sec_inv_def)
  have "bucket_ok (s_errs s @ [ce]) (keyOf ce) ?b"
    using keys_inv_lookup [OF ks b] rep refl ce(1) by (rule bucket_ok_append_same)
  then have ks': "keys_inv (s_errs s @ [ce]) (AList.update (keyOf ce) ?b (s_keys s))"
    by (rule keys_inv_update [OF ks, rotated]) (auto intro: bucket_ok_append_other)
  have alive: "\<forall>b' \<in> snd ` set (AList.update (keyOf ce) ?b (s_keys s)). eb_rep b' \<noteq> None"
    if "\<forall>b' \<in> snd ` set (s_keys s). eb_rep b' \<noteq> None"
    using that rep by (intro alist_update_all) auto
  from inv ks' alive emit rep ce prio show ?thesis
    by (simp add: record_known_def sec_inv_def emit_def weight_def Let_def)
qed

lemma record_known_fold_inv:
  assumes inv: "sec_inv s" and b: "map_of (s_keys s) (keyOf ce) = Some b" and rep: "eb_rep b = Some i"
    and fold: "\<not> (int (eb_samples b) < errorSamples (s_lim s) \<and>
      (prio < prioEntity \<or> int (length (s_errs s)) < perSectionErrorBudget (s_lim s)))"
  shows "sec_inv (record_known ce prio b s)"
proof -
  let ?y = "(s_errs s ! i)\<lparr>ce_count := Suc (eb_seen b) - (eb_samples b - 1)\<rparr>"
  let ?errs = "(s_errs s)[i := ?y]" and ?b = "b\<lparr>eb_seen := Suc (eb_seen b)\<rparr>"
  from inv have ks: "keys_inv (s_errs s) (s_keys s)" by (simp add: sec_inv_def)
  note ok = keys_inv_lookup [OF ks b]
  then have i: "i < length (s_errs s)" "keyOf (s_errs s ! i) = keyOf ce"
    and w: "weight (s_errs s ! i) + (eb_samples b - 1) = eb_seen b" "1 \<le> eb_samples b"
    using rep by (auto simp: bucket_ok_def)
  have le: "eb_samples b \<le> eb_seen b" using ok rep by (rule bucket_ok_seen)
  have "sum_list (map weight ?errs) + weight (s_errs s ! i) =
      sum_list (map weight (s_errs s)) + weight ?y"
    using sum_filter_update [of i "s_errs s" "\<lambda>_. True" ?y weight] i by simp
  moreover have "weight ?y = Suc (weight (s_errs s ! i))" using w le by simp
  ultimately have total: "sum_list (map weight ?errs) = Suc (sum_list (map weight (s_errs s)))"
    by simp
  have named: "\<forall>e \<in> set ?errs. ce_section e = s_name s"
    using inv i by (auto simp: sec_inv_def dest!: set_update_subset_insert [THEN subsetD])
  have "keyOf ` set ?errs = keyOf ` set (s_errs s)"
    using i by (intro image_update_same) simp_all
  then have ks': "keys_inv ?errs (AList.update (keyOf ce) ?b (s_keys s))"
    using i bucket_ok_fold_same [OF ok rep]
    by (intro keys_inv_update [OF ks]) (auto intro: bucket_ok_fold_other)
  have alive: "\<forall>b' \<in> snd ` set (AList.update (keyOf ce) ?b (s_keys s)). eb_rep b' \<noteq> None"
    if "\<forall>b' \<in> snd ` set (s_keys s). eb_rep b' \<noteq> None"
    using that rep by (intro alist_update_all) auto
  have "record_known ce prio b s =
      s\<lparr>s_keys := AList.update (keyOf ce) ?b (s_keys s), s_errs := ?errs,
        s_dropped := truncation_add (s_dropped s) \<lparr>tr_collapsed = 1, tr_dropped = 0\<rparr>,
        s_truncated := True\<rparr>"
    using fold rep by (auto simp: record_known_def Let_def)
  with inv total named ks' alive show ?thesis
    by (simp add: sec_inv_def truncation_add_def)
qed

lemma record_new_emit_inv:
  assumes inv: "sec_inv s" and b: "map_of (s_keys s) (keyOf ce) = None"
    and ce: "ce_count ce = 0" "ce_section ce = s_name s" and prio: "prio \<le> prioEntity"
    and room: "\<not> (prio = prioEntity \<and> (int (length (s_errs s)) \<ge> perSectionErrorBudget (s_lim s) \<or>
      length (s_keys s) \<ge> maxDistinctErrorKeys))"
  shows "sec_inv (record_new ce prio s)"
proof -
  let ?b = "\<lparr>eb_rep = Some (length (s_errs s)), eb_samples = 1, eb_seen = 1\<rparr>"
  from inv have ks: "keys_inv (s_errs s) (s_keys s)" by (simp add: sec_inv_def)
  have "bucket_ok (s_errs s @ [ce]) (keyOf ce) ?b"
    using keys_inv_new [OF ks b] refl ce(1) by (rule bucket_ok_fresh)
  then have ks': "keys_inv (s_errs s @ [ce]) (AList.update (keyOf ce) ?b (s_keys s))"
    by (rule keys_inv_update [OF ks, rotated]) (auto intro: bucket_ok_append_other)
  have alive: "\<forall>b' \<in> snd ` set (AList.update (keyOf ce) ?b (s_keys s)). eb_rep b' \<noteq> None"
    if "\<forall>b' \<in> snd ` set (s_keys s). eb_rep b' \<noteq> None"
    using that by (intro alist_update_all) auto
  have "record_new ce prio s = (emit ce prio s)\<lparr>s_keys := AList.update (keyOf ce) ?b (s_keys s)\<rparr>"
    using room unfolding record_new_def Let_def by (simp only: if_False)
  with inv ks' alive ce prio show ?thesis
    by (simp add: sec_inv_def emit_def weight_def)
qed

lemma record_new_refuse_inv:
  assumes inv: "sec_inv s" and b: "map_of (s_keys s) (keyOf ce) = None"
    and full: "prio = prioEntity"
      "int (length (s_errs s)) \<ge> perSectionErrorBudget (s_lim s) \<or>
       length (s_keys s) \<ge> maxDistinctErrorKeys"
  shows "sec_inv (record_new ce prio s)"
proof -
  let ?b = "\<lparr>eb_rep = None, eb_samples = 0, eb_seen = 1\<rparr>"
  from inv have ks: "keys_inv (s_errs s) (s_keys s)" by (simp add: sec_inv_def)
  have "bucket_ok (s_errs s) (keyOf ce) ?b"
    using keys_inv_new [OF ks b] by (simp add: bucket_ok_def)
  then have "keys_inv (s_errs s) (AList.update (keyOf ce) ?b (s_keys s))"
    by (intro keys_inv_update [OF ks]) auto
  with inv ks full show ?thesis
    by (simp add: record_new_def sec_inv_def truncation_add_def no_truncation_def Let_def)
qed

lemma record_error_inv [sec_intros]:
  assumes "sec_inv s" "ce_count ce = 0" "ce_section ce = s_name s"
  shows "sec_inv (record_error ce rs s)"
proof -
  let ?s = "if \<not> rs then downgrade SectionPartial s else s"
  have inv: "sec_inv ?s" "ce_section ce = s_name ?s"
    using assms by (simp_all add: downgrade_def)
  note prio = errPriority_le [of ce rs]
  have "sec_inv (record_known ce (errPriority ce rs) b ?s)"
    if "map_of (s_keys ?s) (keyOf ce) = Some b" for b
    using inv prio that assms(2)
    by (cases "eb_rep b")
      (blast intro: record_known_refused_inv record_known_emit_inv record_known_fold_inv)+
  moreover have "sec_inv (record_new ce (errPriority ce rs) ?s)"
    if "map_of (s_keys ?s) (keyOf ce) = None"
    using inv prio that assms(2) by (blast intro: record_new_emit_inv record_new_refuse_inv)
  ultimately show ?thesis
    by (auto simp: record_error_def Let_def split: option.splits)
qed

subsection \<open>What an operation on a section observes and changes\<close>

lemma downgrade_status [simp, sec_simps]: "s_status (downgrade st s) = max (s_status s) st"
  by (auto simp: downgrade_def status_order)

lemma downgrade_frame [simp, sec_simps]:
  "s_name (downgrade st s) = s_name s" "s_lim (downgrade st s) = s_lim s"
  "s_errs (downgrade st s) = s_errs s" "s_prios (downgrade st s) = s_prios s"
  "s_keys (downgrade st s) = s_keys s" "s_dropped (downgrade st s) = s_dropped s"
  "s_started (downgrade st s) = s_started s" "s_truncated (downgrade st s) = s_truncated s"
  "s_global_dropped (downgrade st s) = s_global_dropped s"
  by (simp_all add: downgrade_def)

lemma emit_frame [simp, sec_simps]:
  "s_name (emit ce p s) = s_name s" "s_lim (emit ce p s) = s_lim s"
  "s_errs (emit ce p s) = s_errs s @ [ce]" "s_prios (emit ce p s) = s_prios s @ [p]"
  "s_keys (emit ce p s) = s_keys s" "s_dropped (emit ce p s) = s_dropped s"
  "s_started (emit ce p s) = s_started s" "s_status (emit ce p s) = s_status s"
  "s_global_dropped (emit ce p s) = s_global_dropped s"
  by (simp_all add: emit_def)

lemma record_error_frame [simp, sec_simps]:
  "s_name (record_error ce rs s) = s_name s" "s_lim (record_error ce rs s) = s_lim s"
  "s_started (record_error ce rs s) = s_started s"
  by (auto simp: record_error_def record_known_def record_new_def Let_def split: option.splits)

text \<open>A request-scoped record leaves the status alone; any other makes it at least partial.\<close>

lemma record_error_status [simp, sec_simps]:
  "s_status (record_error ce rs s) =
     (if rs then s_status s else max (s_status s) SectionPartial)"
  by (auto simp: record_error_def record_known_def record_new_def Let_def split: option.splits)

lemma newError_fields [simp, sec_simps]:
  "ce_section (newError kc api e s) = s_name s" "ce_api (newError kc api e s) = api"
  "ce_count (newError kc api e s) = 0" "ce_broker (newError kc api e s) = None"
  "ce_kind (newError kc api e s) = fst (classify kc (Some e))"
  "ce_code (newError kc api e s) = snd (classify kc (Some e))"
  "ce_message (newError kc api e s) = err_text e"
  by (simp_all add: newError_def split_beta)

lemma newError_cong: "s_name s = s_name s' \<Longrightarrow> newError kc api e s = newError kc api e s'"
  by (simp add: newError_def)

subsection \<open>Runs of the funnel\<close>

text \<open>One occurrence is an error and whether it is request-scoped.\<close>

type_synonym occurrence = "collection_error \<times> bool"

definition record_all :: "occurrence list \<Rightarrow> sect \<Rightarrow> sect" where
  "record_all occs s = fold (\<lambda>(ce, rs). record_error ce rs) occs s"

definition occs_ok :: "string \<Rightarrow> occurrence list \<Rightarrow> bool" where
  "occs_ok name occs \<longleftrightarrow> (\<forall>(ce, rs) \<in> set occs. ce_count ce = 0 \<and> ce_section ce = name)"

lemma record_all_simps [simp]:
  "record_all [] s = s"
  "record_all ((ce, rs) # occs) s = record_all occs (record_error ce rs s)"
  by (simp_all add: record_all_def)

lemma occs_ok_simps [simp]:
  "occs_ok name []"
  "occs_ok name ((ce, rs) # occs) \<longleftrightarrow> ce_count ce = 0 \<and> ce_section ce = name \<and> occs_ok name occs"
  by (auto simp: occs_ok_def)

lemma record_all_append: "record_all (xs @ ys) s = record_all ys (record_all xs s)"
  by (simp add: record_all_def)

lemma record_all_frame [simp]:
  "s_name (record_all occs s) = s_name s" "s_lim (record_all occs s) = s_lim s"
  "s_started (record_all occs s) = s_started s"
  by (induction occs arbitrary: s) auto

lemma record_all_inv [sec_intros]:
  "sec_inv s \<Longrightarrow> occs_ok (s_name s) occs \<Longrightarrow> sec_inv (record_all occs s)"
  by (induction occs arbitrary: s) (auto simp: record_error_inv)

lemma record_all_induct [consumes 2, case_names Start Step]:
  assumes "sec_inv s" "occs_ok (s_name s) occs"
    and "P [] s"
    and "\<And>xs ce rs t. sec_inv t \<Longrightarrow> s_lim t = s_lim s \<Longrightarrow> ce_count ce = 0 \<Longrightarrow>
      ce_section ce = s_name t \<Longrightarrow> P xs t \<Longrightarrow> P (xs @ [(ce, rs)]) (record_error ce rs t)"
  shows "P occs (record_all occs s)"
  using assms(2)
proof (induction occs rule: rev_induct)
  case Nil
  show ?case using assms(3) by simp
next
  case (snoc o' xs)
  obtain ce rs where o': "o' = (ce, rs)" by (cases o')
  from snoc.prems have "occs_ok (s_name s) xs" "ce_count ce = 0" "ce_section ce = s_name s"
    by (auto simp: occs_ok_def o')
  with snoc.IH assms(1) have "P (xs @ [(ce, rs)]) (record_error ce rs (record_all xs s))"
    by (intro assms(4)) (auto intro: record_all_inv)
  then show ?case by (simp add: record_all_append o')
qed

subsection \<open>Accounting\<close>

definition accounted :: "sect \<Rightarrow> nat" where
  "accounted s = length (s_errs s) + tr_collapsed (s_dropped s) + tr_dropped (s_dropped s)"

text \<open>
  Every occurrence becomes an entry, is folded into an exemplar, is counted as dropped, or
  repeats a failure mode that was refused and counted before.
\<close>

lemma record_error_accounted:
  assumes "sec_inv s"
  shows "accounted (record_error ce rs s) = Suc (accounted s) \<or>
    (accounted (record_error ce rs s) = accounted s \<and> 0 < tr_dropped (s_dropped s))"
proof (cases "map_of (s_keys s) (keyOf ce)")
  case None
  then show ?thesis
    by (auto simp: record_error_def record_new_def accounted_def truncation_add_def Let_def)
next
  case (Some b)
  then have "b \<in> snd ` set (s_keys s)" by (force dest: map_of_SomeD)
  with assms have "eb_rep b = None \<Longrightarrow> 0 < tr_dropped (s_dropped s)"
    by (auto simp: sec_inv_def)
  with Some show ?thesis
    by (auto simp: record_error_def record_known_def accounted_def truncation_add_def Let_def
        split: option.splits)
qed

lemma record_error_dropped_mono:
  "tr_dropped (s_dropped s) \<le> tr_dropped (s_dropped (record_error ce rs s))"
  by (auto simp: record_error_def record_known_def record_new_def truncation_add_def Let_def
      split: option.splits)

lemma record_all_accounted:
  assumes "sec_inv s" "occs_ok (s_name s) occs"
  shows "accounted (record_all occs s) \<le> accounted s + length occs \<and>
    (tr_dropped (s_dropped (record_all occs s)) = 0 \<longrightarrow>
       accounted (record_all occs s) = accounted s + length occs)"
  using assms
proof (induction rule: record_all_induct)
  case Start
  then show ?case by simp
next
  case (Step xs ce rs t)
  with record_error_accounted [of t ce rs] record_error_dropped_mono [of t ce rs]
  show ?case by auto
qed


subsection \<open>Budgets\<close>

text \<open>Refused failure modes are never those that carry information nothing else carries.\<close>

definition refused_flood :: "sect \<Rightarrow> bool" where
  "refused_flood s \<longleftrightarrow>
     (\<forall>k b. map_of (s_keys s) k = Some b \<longrightarrow> eb_rep b = None \<longrightarrow>
        ek_kind k = KindOther \<or> ek_kind k = KindNone)"

lemma refused_floodD:
  "refused_flood s \<Longrightarrow> map_of (s_keys s) k = Some b \<Longrightarrow> eb_rep b = None \<Longrightarrow>
     ek_kind k = KindOther \<or> ek_kind k = KindNone"
  by (simp add: refused_flood_def)

lemma sec_inv_lookup: "sec_inv s \<Longrightarrow> map_of (s_keys s) k = Some b \<Longrightarrow> bucket_ok (s_errs s) k b"
  by (auto simp: sec_inv_def intro: keys_inv_lookup)

lemma errPriority_entity:
  "errPriority ce rs = prioEntity \<Longrightarrow>
     \<not> rs \<and> (ce_kind ce = KindOther \<or> ce_kind ce = KindNone)"
  by (cases "ce_kind ce") (auto simp: errPriority_def prio_defs split: if_splits)

lemma keyOf_kind [simp]: "ek_kind (keyOf ce) = ce_kind ce"
  by (simp add: keyOf_def)

text \<open>The bucket a record leaves behind for its own key, and that it leaves the others alone.\<close>

lemma record_error_other_key:
  "k \<noteq> keyOf ce \<Longrightarrow> map_of (s_keys (record_error ce rs s)) k = map_of (s_keys s) k"
  by (auto simp: record_error_def record_known_def record_new_def Let_def update_conv'
      split: option.splits)

lemma record_error_known_key:
  "map_of (s_keys s) (keyOf ce) = Some b \<Longrightarrow>
     \<exists>b'. map_of (s_keys (record_error ce rs s)) (keyOf ce) = Some b' \<and>
       eb_rep b' = eb_rep b \<and> eb_seen b' = Suc (eb_seen b) \<and>
       (eb_samples b' = eb_samples b \<or>
        eb_samples b' = Suc (eb_samples b) \<and> int (eb_samples b) < errorSamples (s_lim s))"
  by (auto simp: record_error_def record_known_def Let_def update_conv' split: option.splits)

lemma record_error_new_key:
  "map_of (s_keys s) (keyOf ce) = None \<Longrightarrow>
     (\<exists>b'. map_of (s_keys (record_error ce rs s)) (keyOf ce) = Some b' \<and> eb_seen b' = 1 \<and>
        eb_samples b' \<le> 1 \<and> (eb_rep b' = None \<longrightarrow> errPriority ce rs = prioEntity)) \<or>
     (map_of (s_keys (record_error ce rs s)) (keyOf ce) = None \<and>
        errPriority ce rs = prioEntity \<and> maxDistinctErrorKeys \<le> length (s_keys s))"
  by (auto simp: record_error_def record_new_def Let_def update_conv')

lemma record_error_refused_flood:
  assumes "refused_flood s"
  shows "refused_flood (record_error ce rs s)"
  unfolding refused_flood_def
proof (intro allI impI)
  fix k b
  assume kb: "map_of (s_keys (record_error ce rs s)) k = Some b" "eb_rep b = None"
  show "ek_kind k = KindOther \<or> ek_kind k = KindNone"
  proof (cases "k = keyOf ce")
    case False
    with kb assms show ?thesis
      by (auto simp: refused_flood_def record_error_other_key)
  next
    case True
    show ?thesis
    proof (cases "map_of (s_keys s) (keyOf ce)")
      case None
      with kb True record_error_new_key [of s ce rs] show ?thesis
        by (auto dest: errPriority_entity)
    next
      case (Some b0)
      with kb True record_error_known_key [of s ce b0 rs] have "eb_rep b0 = None" by auto
      with refused_floodD [OF assms Some] True show ?thesis by blast
    qed
  qed
qed

definition has_entry :: "sect \<Rightarrow> err_key \<Rightarrow> bool" where
  "has_entry s k \<longleftrightarrow> k \<in> keyOf ` set (s_errs s)"

lemma has_entryI:
  "sec_inv s \<Longrightarrow> map_of (s_keys s) k = Some b \<Longrightarrow> eb_rep b = Some i \<Longrightarrow> has_entry s k"
  unfolding has_entry_def sec_inv_def
  by (metis (mono_tags, lifting) bucket_ok_def image_eqI keys_inv_lookup nth_mem option.simps(5))

lemma record_error_entries_mono:
  assumes "sec_inv s" "has_entry s k"
  shows "has_entry (record_error ce rs s) k"
proof -
  have "keyOf ` set (s_errs s) \<subseteq> keyOf ` set (s_errs (record_error ce rs s))"
  proof (cases "map_of (s_keys s) (keyOf ce)")
    case None
    then show ?thesis by (auto simp: record_error_def record_new_def Let_def)
  next
    case (Some b)
    have "keyOf ` set ((s_errs s)[i := (s_errs s ! i)\<lparr>ce_count := c\<rparr>]) = keyOf ` set (s_errs s)"
      if "eb_rep b = Some i" for i c
    proof -
      have "bucket_ok (s_errs s) (keyOf ce) b"
        using assms(1) Some by (rule sec_inv_lookup)
      then have "i < length (s_errs s)" using that by (simp add: bucket_ok_def)
      then show ?thesis by (rule image_update_same) simp
    qed
    with Some show ?thesis
      by (auto simp: record_error_def record_known_def Let_def split: option.splits)
  qed
  with assms(2) show ?thesis by (auto simp: has_entry_def)
qed

lemma record_error_admits:
  assumes inv: "sec_inv s" "refused_flood s" and ce: "ce_count ce = 0" "ce_section ce = s_name s"
    and kind: "ce_kind ce \<noteq> KindOther" "ce_kind ce \<noteq> KindNone"
  shows "has_entry (record_error ce rs s) (keyOf ce)"
proof -
  have prio: "errPriority ce rs \<noteq> prioEntity" using kind errPriority_entity by blast
  note inv' = record_error_inv [OF inv(1) ce, of rs]
  obtain b' i where "map_of (s_keys (record_error ce rs s)) (keyOf ce) = Some b'" "eb_rep b' = Some i"
  proof (cases "map_of (s_keys s) (keyOf ce)")
    case None
    with prio that show ?thesis using record_error_new_key [of s ce rs] by fastforce
  next
    case (Some b)
    have "eb_rep b \<noteq> None" using refused_floodD [OF inv(2) Some] kind by auto
    with Some that show ?thesis using record_error_known_key [of s ce b rs] by fastforce
  qed
  then show ?thesis by (rule has_entryI [OF inv'])
qed

text \<open>No order and no volume of other failures evicts a failure of an actionable kind.\<close>

lemma record_all_admits:
  assumes "sec_inv s" "occs_ok (s_name s) occs" "refused_flood s"
  shows "refused_flood (record_all occs s) \<and>
    (\<forall>(ce, rs) \<in> set occs. ce_kind ce \<noteq> KindOther \<longrightarrow> ce_kind ce \<noteq> KindNone \<longrightarrow>
       has_entry (record_all occs s) (keyOf ce))"
  using assms(1,2)
proof (induction rule: record_all_induct)
  case Start
  with assms show ?case by simp
next
  case (Step xs ce rs t)
  then show ?case
    by (auto simp: record_error_refused_flood record_error_admits record_error_entries_mono)
qed

text \<open>The priority noted beside an entry is one its kind admits; folding leaves it alone.\<close>

definition prios_ok :: "sect \<Rightarrow> bool" where
  "prios_ok s \<longleftrightarrow>
     list_all2 (\<lambda>e p. ce_kind e \<noteq> KindOther \<longrightarrow> ce_kind e \<noteq> KindNone \<longrightarrow> p < prioEntity)
       (s_errs s) (s_prios s)"

lemma errPriority_less:
  "ce_kind ce \<noteq> KindOther \<Longrightarrow> ce_kind ce \<noteq> KindNone \<Longrightarrow> errPriority ce rs < prioEntity"
  using errPriority_entity [of ce rs] errPriority_le [of ce rs] by fastforce

lemma prios_ok_emit:
  "prios_ok s \<Longrightarrow> s_errs t = s_errs s @ [ce] \<Longrightarrow> s_prios t = s_prios s @ [errPriority ce rs] \<Longrightarrow>
     prios_ok t"
  unfolding prios_ok_def by (auto intro!: list_all2_appendI errPriority_less)

lemma prios_ok_fold:
  assumes "prios_ok s" "s_errs t = (s_errs s)[i := (s_errs s ! i)\<lparr>ce_count := n\<rparr>]"
    and "s_prios t = s_prios s"
  shows "prios_ok t"
proof -
  have "ce_kind (s_errs t ! j) = ce_kind (s_errs s ! j)" if "j < length (s_errs s)" for j
    using that by (cases "i = j") (simp_all add: assms(2))
  moreover have "length (s_errs t) = length (s_errs s)" by (simp add: assms(2))
  ultimately show ?thesis
    using assms(1,3) by (simp add: prios_ok_def list_all2_conv_all_nth)
qed

lemma prios_ok_same: "prios_ok s \<Longrightarrow> s_errs t = s_errs s \<Longrightarrow> s_prios t = s_prios s \<Longrightarrow> prios_ok t"
  by (simp add: prios_ok_def)

lemma record_error_rows:
  "(s_errs (record_error ce rs s) = s_errs s @ [ce] \<and>
      s_prios (record_error ce rs s) = s_prios s @ [errPriority ce rs]) \<or>
   s_prios (record_error ce rs s) = s_prios s \<and>
     (s_errs (record_error ce rs s) = s_errs s \<or>
      (\<exists>i n. s_errs (record_error ce rs s) = (s_errs s)[i := (s_errs s ! i)\<lparr>ce_count := n\<rparr>]))"
  by (auto simp: record_error_def record_known_def record_new_def Let_def split: option.split)

lemma record_error_prios: "prios_ok s \<Longrightarrow> prios_ok (record_error ce rs s)"
  using record_error_rows [of ce rs s] by (metis prios_ok_emit prios_ok_fold prios_ok_same)

lemma record_all_prios: "prios_ok s \<Longrightarrow> prios_ok (record_all occs s)"
proof (induction occs arbitrary: s)
  case (Cons o' occs)
  then show ?case by (cases o') (simp add: record_error_prios)
qed simp

lemma record_error_entity_budget:
  assumes "int (length (filter (\<lambda>p. p = prioEntity) (s_prios s))) \<le> perSectionErrorBudget (s_lim s)"
    and "length (s_prios s) = length (s_errs s)"
  shows "int (length (filter (\<lambda>p. p = prioEntity) (s_prios (record_error ce rs s))))
    \<le> perSectionErrorBudget (s_lim s)"
proof -
  have le: "int (length (filter (\<lambda>p. p = prioEntity) (s_prios s))) \<le> int (length (s_errs s))"
    using length_filter_le [of "\<lambda>p. p = prioEntity" "s_prios s"] assms(2) by linarith
  show ?thesis
    using assms(1) le
    by (auto simp: record_error_def record_known_def record_new_def Let_def split: option.splits)
qed

lemma record_all_entity_budget:
  assumes "sec_inv s" "occs_ok (s_name s) occs"
    and "int (length (filter (\<lambda>p. p = prioEntity) (s_prios s))) \<le> perSectionErrorBudget (s_lim s)"
  shows "int (length (filter (\<lambda>p. p = prioEntity) (s_prios (record_all occs s))))
    \<le> perSectionErrorBudget (s_lim s)"
  using assms(1,2)
proof (induction rule: record_all_induct)
  case Start
  then show ?case using assms(3) by simp
next
  case (Step xs ce rs t)
  then show ?case
    using record_error_entity_budget [of t ce rs] by (simp add: sec_inv_def)
qed

lemma perSectionErrorBudget_pos: "0 < perSectionErrorBudget l"
  by (simp add: perSectionErrorBudget_def math_MaxInt_def)

text \<open>No failure mode has more verbatim entries than the configured number of samples.\<close>

definition samples_ok :: "sect \<Rightarrow> bool" where
  "samples_ok s \<longleftrightarrow>
     (\<forall>k b. map_of (s_keys s) k = Some b \<longrightarrow> int (eb_samples b) \<le> errorSamples (s_lim s))"

lemma errorSamples_pos: "1 \<le> errorSamples l"
  by (simp add: errorSamples_def)

lemma record_error_samples:
  assumes "samples_ok s"
  shows "samples_ok (record_error ce rs s)"
  unfolding samples_ok_def
proof (intro allI impI)
  fix k b
  assume kb: "map_of (s_keys (record_error ce rs s)) k = Some b"
  have "int (eb_samples b) \<le> errorSamples (s_lim s)"
  proof (cases "k = keyOf ce")
    case False
    with kb assms show ?thesis by (simp add: samples_ok_def record_error_other_key)
  next
    case True
    show ?thesis
    proof (cases "map_of (s_keys s) (keyOf ce)")
      case None
      with kb True record_error_new_key [of s ce rs] errorSamples_pos [of "s_lim s"]
      show ?thesis by auto
    next
      case (Some b0)
      with assms have "int (eb_samples b0) \<le> errorSamples (s_lim s)" by (simp add: samples_ok_def)
      with kb True record_error_known_key [OF Some, of rs] show ?thesis by auto
    qed
  qed
  then show "int (eb_samples b) \<le> errorSamples (s_lim (record_error ce rs s))" by simp
qed

lemma record_all_samples:
  assumes "sec_inv s" "occs_ok (s_name s) occs" "samples_ok s"
  shows "samples_ok (record_all occs s)"
  using assms(1,2)
proof (induction rule: record_all_induct)
  case Start
  then show ?case using assms(3) by simp
next
  case (Step xs ce rs t)
  then show ?case by (simp add: record_error_samples)
qed

lemma samples_ok_count:
  assumes "sec_inv s" "samples_ok s"
  shows "int (length (key_errs k (s_errs s))) \<le> errorSamples (s_lim s)"
proof (cases "k \<in> keyOf ` set (s_errs s)")
  case False
  then show ?thesis using errorSamples_pos [of "s_lim s"] by (simp add: key_errs_Nil)
next
  case True
  with assms(1) have "k \<in> fst ` set (s_keys s)" by (auto simp: sec_inv_def keys_inv_def)
  then obtain b where b: "map_of (s_keys s) k = Some b"
    by (metis map_of_eq_None_iff not_Some_eq)
  with True sec_inv_lookup [OF assms(1) b] have "eb_samples b = length (key_errs k (s_errs s))"
    by (auto simp: bucket_ok_def split: option.splits)
  moreover from assms(2) b have "int (eb_samples b) \<le> errorSamples (s_lim s)"
    by (simp add: samples_ok_def)
  ultimately show ?thesis by simp
qed


subsection \<open>Exact counts per failure mode\<close>

definition occs_of :: "err_key \<Rightarrow> occurrence list \<Rightarrow> nat" where
  "occs_of k occs = length (filter (\<lambda>(ce, rs). keyOf ce = k) occs)"

lemma occs_of_snoc: "occs_of k (xs @ [(ce, rs)]) = occs_of k xs + (if keyOf ce = k then 1 else 0)"
  by (simp add: occs_of_def)

text \<open>
  The failure modes of a run, and the modes a section refused: known, but without an entry. Up to
  256 modes, every mode that occurred is known, and each refused one was dropped exactly once.
\<close>

definition modes :: "occurrence list \<Rightarrow> err_key set" where
  "modes occs = (\<lambda>(ce, rs). keyOf ce) ` set occs"

definition refused :: "sect \<Rightarrow> err_key set" where
  "refused s = {k. \<exists>b. map_of (s_keys s) k = Some b \<and> eb_rep b = None}"

lemma modes_simps [simp]: "modes [] = {}" "modes (xs @ [(ce, rs)]) = insert (keyOf ce) (modes xs)"
  by (auto simp: modes_def)

lemma finite_modes [simp]: "finite (modes occs)"
  by (simp add: modes_def)

lemma finite_refused [simp]: "finite (refused s)"
  by (rule finite_subset [of _ "dom (map_of (s_keys s))"]) (auto simp: refused_def finite_dom_map_of)

lemma modes_occs_of: "k \<in> modes occs \<longleftrightarrow> occs_of k occs \<noteq> 0"
  by (auto simp: modes_def occs_of_def filter_empty_conv)

lemma record_error_dom:
  "keyOf ce \<in> fst ` set (s_keys s) \<or> length (s_keys s) < maxDistinctErrorKeys \<Longrightarrow>
     fst ` set (s_keys (record_error ce rs s)) = insert (keyOf ce) (fst ` set (s_keys s))"
  by (auto simp: record_error_def record_known_def record_new_def Let_def fst_set_alist_update
      dest: map_of_SomeD simp: map_of_eq_None_iff split: option.splits)

lemma record_error_refused:
  assumes "keyOf ce \<in> fst ` set (s_keys s) \<or> length (s_keys s) < maxDistinctErrorKeys"
  shows "tr_dropped (s_dropped (record_error ce rs s)) + card (refused s) =
    tr_dropped (s_dropped s) + card (refused (record_error ce rs s))"
proof (cases "map_of (s_keys s) (keyOf ce)")
  case (Some b)
  then have "refused (record_error ce rs s) = refused s"
    by (auto simp: refused_def record_error_def record_known_def Let_def update_conv'
        split: option.splits if_splits)
  moreover from Some have "tr_dropped (s_dropped (record_error ce rs s)) = tr_dropped (s_dropped s)"
    by (auto simp: record_error_def record_known_def truncation_add_def Let_def
        split: option.splits)
  ultimately show ?thesis by simp
next
  case None
  then have room: "length (s_keys s) < maxDistinctErrorKeys"
    using assms by (auto simp: map_of_eq_None_iff)
  have fresh: "keyOf ce \<notin> refused s" using None by (simp add: refused_def)
  have "refused (record_error ce rs s) = insert (keyOf ce) (refused s) \<and>
        tr_dropped (s_dropped (record_error ce rs s)) = Suc (tr_dropped (s_dropped s)) \<or>
      refused (record_error ce rs s) = refused s \<and>
        tr_dropped (s_dropped (record_error ce rs s)) = tr_dropped (s_dropped s)"
    using None room
    by (auto simp: refused_def record_error_def record_new_def truncation_add_def Let_def update_conv'
        split: if_splits)
  with fresh show ?thesis by auto
qed

lemma record_all_modes:
  assumes "sec_inv s" "occs_ok (s_name s) occs" "s_keys s = []" "tr_dropped (s_dropped s) = 0"
    and "card (modes occs) \<le> maxDistinctErrorKeys"
  shows "fst ` set (s_keys (record_all occs s)) = modes occs \<and>
    tr_dropped (s_dropped (record_all occs s)) = card (refused (record_all occs s)) \<and>
    (\<forall>k b. map_of (s_keys (record_all occs s)) k = Some b \<longrightarrow> eb_seen b = occs_of k occs)"
proof -
  let ?P = "\<lambda>xs t. fst ` set (s_keys t) = modes xs \<and>
    tr_dropped (s_dropped t) = card (refused t) \<and>
    (\<forall>k b. map_of (s_keys t) k = Some b \<longrightarrow> eb_seen b = occs_of k xs)"
  have "card (modes occs) \<le> maxDistinctErrorKeys \<longrightarrow> ?P occs (record_all occs s)"
    using assms(1,2)
  proof (induction rule: record_all_induct)
    case Start
    then show ?case using assms(3,4) by (simp add: refused_def)
  next
    case (Step xs ce rs t)
    show ?case
    proof
      assume few: "card (modes (xs @ [(ce, rs)])) \<le> maxDistinctErrorKeys"
      have P: "?P xs t"
        using Step.IH few card_insert_le [of "modes xs" "keyOf ce"] by auto
      have "distinct (map fst (s_keys t))"
        using Step.hyps(1) by (simp add: sec_inv_def keys_inv_def)
      then have "length (s_keys t) = card (modes xs)"
        using P by (metis distinct_card length_map set_map)
      with few P have known: "keyOf ce \<in> fst ` set (s_keys t) \<or>
          length (s_keys t) < maxDistinctErrorKeys"
        by (cases "keyOf ce \<in> modes xs") auto
      have seen: "eb_seen b = occs_of k (xs @ [(ce, rs)])"
        if "map_of (s_keys (record_error ce rs t)) k = Some b" for k b
      proof (cases "k = keyOf ce")
        case False
        with that P show ?thesis by (simp add: record_error_other_key occs_of_snoc)
      next
        case True
        show ?thesis
        proof (cases "map_of (s_keys t) (keyOf ce)")
          case None
          then have "occs_of k xs = 0"
            using P True modes_occs_of [of k xs] by (auto simp: map_of_eq_None_iff)
          with that True record_error_new_key [OF None, of rs] show ?thesis
            by (auto simp: occs_of_snoc)
        next
          case (Some b0)
          with that P True record_error_known_key [OF Some, of rs] show ?thesis
            by (auto simp: occs_of_snoc)
        qed
      qed
      show "?P (xs @ [(ce, rs)]) (record_error ce rs t)"
        using P seen record_error_dom [OF known, of rs] record_error_refused [OF known, of rs]
        by simp
    qed
  qed
  with assms(5) show ?thesis by blast
qed

text \<open>A known mode without an entry is a refused one.\<close>

lemma refused_eq:
  assumes "sec_inv s"
  shows "refused s = fst ` set (s_keys s) - keyOf ` set (s_errs s)"
proof (intro set_eqI iffI)
  fix k assume "k \<in> refused s"
  then obtain b where b: "map_of (s_keys s) k = Some b" "eb_rep b = None"
    by (auto simp: refused_def)
  with sec_inv_lookup [OF assms b(1)] show "k \<in> fst ` set (s_keys s) - keyOf ` set (s_errs s)"
    by (force simp: bucket_ok_def dest: map_of_SomeD)
next
  fix k assume k: "k \<in> fst ` set (s_keys s) - keyOf ` set (s_errs s)"
  then obtain b where b: "map_of (s_keys s) k = Some b"
    by (metis DiffD1 map_of_eq_None_iff not_Some_eq)
  with k has_entryI [OF assms b] show "k \<in> refused s"
    by (cases "eb_rep b") (auto simp: refused_def has_entry_def)
qed

text \<open>The weights of the entries, summed mode by mode.\<close>

lemma weights_of_modes:
  assumes "\<And>k. k \<in> keyOf ` set errs \<Longrightarrow> sum_list (map weight (key_errs k errs)) = occs_of k occs"
  shows "sum_list (map weight errs) + length (filter (\<lambda>(ce, rs). keyOf ce \<notin> keyOf ` set errs) occs) =
    length occs"
proof -
  have part: "sum_list (map weight es) = (\<Sum>k \<in> K. sum_list (map weight (key_errs k es)))"
    if "finite K" "keyOf ` set es \<subseteq> K" for es K
    using that
  proof (induction es)
    case Nil
    then show ?case by (simp add: key_errs_def)
  next
    case (Cons e es)
    then have "(\<Sum>k \<in> K. sum_list (map weight (key_errs k (e # es)))) =
        (\<Sum>k \<in> K. (if keyOf e = k then weight e else 0) + sum_list (map weight (key_errs k es)))"
      by (intro sum.cong) (simp_all add: key_errs_def)
    with Cons show ?case by (simp add: sum.distrib)
  qed
  have count: "length (filter (\<lambda>(ce, rs). keyOf ce \<in> K) xs) = (\<Sum>k \<in> K. occs_of k xs)"
    if "finite K" for K and xs :: "occurrence list"
  proof (induction xs)
    case Nil
    then show ?case by (simp add: occs_of_def)
  next
    case (Cons x xs)
    have "(\<Sum>k \<in> K. occs_of k (x # xs)) =
        (\<Sum>k \<in> K. (if keyOf (fst x) = k then 1 else 0) + occs_of k xs)"
      by (intro sum.cong) (simp_all add: occs_of_def split_beta)
    with Cons that show ?case by (simp add: sum.distrib split_beta)
  qed
  let ?K = "keyOf ` set errs"
  have "sum_list (map weight errs) = (\<Sum>k \<in> ?K. occs_of k occs)"
    using part [of ?K errs] assms by simp
  then have "sum_list (map weight errs) = length (filter (\<lambda>(ce, rs). keyOf ce \<in> ?K) occs)"
    using count [of ?K occs] by simp
  then show ?thesis
    using sum_length_filter_compl [of "\<lambda>(ce, rs). keyOf ce \<in> ?K" occs]
    by (simp add: case_prod_unfold)
qed

lemma record_all_exact:
  assumes "sec_inv s" "occs_ok (s_name s) occs" "s_keys s = []" "tr_dropped (s_dropped s) = 0"
    and "card (modes occs) \<le> maxDistinctErrorKeys"
    and "has_entry (record_all occs s) k"
  shows "sum_list (map weight (key_errs k (s_errs (record_all occs s)))) = occs_of k occs"
proof -
  let ?t = "record_all occs s"
  have inv: "sec_inv ?t" using assms(1,2) by (rule record_all_inv)
  with assms(6) have "k \<in> fst ` set (s_keys ?t)"
    by (auto simp: sec_inv_def keys_inv_def has_entry_def)
  then obtain b where b: "map_of (s_keys ?t) k = Some b"
    by (metis map_of_eq_None_iff not_Some_eq)
  with assms(6) sec_inv_lookup [OF inv b]
  have "sum_list (map weight (key_errs k (s_errs ?t))) = eb_seen b"
    by (auto simp: bucket_ok_def has_entry_def split: option.splits)
  with b record_all_modes [OF assms(1-5)] show ?thesis by simp
qed

subsection \<open>Whole calls\<close>

definition shard_occ :: "kerr_codes \<Rightarrow> string \<Rightarrow> sect \<Rightarrow> int32 \<times> goerr \<Rightarrow> occurrence" where
  "shard_occ kc api s ne =
     (let ce = newError kc api (snd ne) s
      in (if fst ne \<ge> 0 then ce\<lparr>ce_broker := Some (fst ne)\<rparr> else ce, True))"

definition shard_auth :: "kerr_codes \<Rightarrow> int32 \<times> goerr \<Rightarrow> bool" where
  "shard_auth kc ne \<longleftrightarrow> fst (classify kc (Some (snd ne))) = KindAuthorization"

lemma shard_occ_cong: "s_name s = s_name s' \<Longrightarrow> shard_occ kc api s = shard_occ kc api s'"
  by (rule ext) (simp add: shard_occ_def newError_def)

lemma request_shards_eq:
  "request_shards kc api ses s =
     (list_ex (shard_auth kc) ses, record_all (map (shard_occ kc api s) ses) s)"
proof (induction ses arbitrary: s)
  case Nil
  then show ?case by simp
next
  case (Cons ne ses)
  obtain node e where ne: "ne = (node, e)" by (cases ne)
  let ?ce = "fst (shard_occ kc api s ne)"
  have same: "shard_occ kc api (record_error ?ce True s) = shard_occ kc api s"
    by (rule shard_occ_cong) simp
  have occ: "shard_occ kc api s ne = (?ce, True)"
    by (simp add: shard_occ_def Let_def)
  have auth: "ce_kind ?ce = KindAuthorization \<longleftrightarrow> shard_auth kc ne"
    by (simp add: shard_occ_def shard_auth_def Let_def)
  have "request_shards kc api (ne # ses) s =
      (let r = request_shards kc api ses (record_error ?ce True s)
       in (ce_kind ?ce = KindAuthorization \<or> fst r, snd r))"
    by (simp add: ne shard_occ_def Let_def split_beta)
  with Cons.IH [of "record_error ?ce True s"] same occ auth show ?case
    by (simp add: Let_def) (metis record_all_simps(2))
qed

text \<open>The status a call's outcome asks for, and the errors it records.\<close>

definition request_status :: "kerr_codes \<Rightarrow> goerr option \<Rightarrow> section_status" where
  "request_status kc err =
     (case err of
        None \<Rightarrow> SectionOK
      | Some e \<Rightarrow>
          (case err_shards e of
             Some (ses, allFailed) \<Rightarrow>
               if allFailed \<and> list_ex (shard_auth kc) ses then SectionUnauthorized
               else if allFailed then SectionFailed else SectionPartial
           | None \<Rightarrow>
               if err_auth e \<noteq> None \<or> fst (classify kc (Some e)) = KindAuthorization
               then SectionUnauthorized else SectionFailed))"

definition request_usable :: "goerr option \<Rightarrow> bool" where
  "request_usable err =
     (case err of
        None \<Rightarrow> True
      | Some e \<Rightarrow> (case err_shards e of Some (ses, allFailed) \<Rightarrow> \<not> allFailed | None \<Rightarrow> False))"

definition request_occs :: "kerr_codes \<Rightarrow> string \<Rightarrow> goerr option \<Rightarrow> sect \<Rightarrow> occurrence list" where
  "request_occs kc api err s =
     (case err of
        None \<Rightarrow> []
      | Some e \<Rightarrow>
          (case err_shards e of
             Some (ses, allFailed) \<Rightarrow> map (shard_occ kc api s) ses
           | None \<Rightarrow> [(newError kc api e s, True)]))"

lemma request_eq:
  "request kc api err s =
     (request_usable err,
      downgrade (request_status kc err) (record_all (request_occs kc api err s) s))"
proof (cases err)
  case None
  then show ?thesis
    by (simp add: request_def request_usable_def request_status_def request_occs_def
        downgrade_def)
next
  case (Some e)
  then show ?thesis
    by (auto simp: request_def request_usable_def request_status_def request_occs_def
        request_shards_eq Let_def split: option.splits prod.splits)
qed

lemma request_occs_ok: "occs_ok (s_name s) (request_occs kc api err s)"
  by (auto simp: request_occs_def occs_ok_def shard_occ_def Let_def split: option.splits)

lemma request_inv [sec_intros]: "sec_inv s \<Longrightarrow> sec_inv (snd (request kc api err s))"
  by (simp add: request_eq record_all_inv request_occs_ok)

lemma request_frame [simp, sec_simps]:
  "s_name (snd (request kc api err s)) = s_name s" "s_lim (snd (request kc api err s)) = s_lim s"
  "s_started (snd (request kc api err s)) = s_started s"
  by (simp_all add: request_eq)

lemma record_all_request_status:
  "\<forall>(ce, rs) \<in> set occs. rs \<Longrightarrow> s_status (record_all occs s) = s_status s"
  by (induction occs arbitrary: s) auto

lemma request_status_of:
  "s_status (snd (request kc api err s)) = max (s_status s) (request_status kc err)"
proof -
  have "\<forall>(ce, rs) \<in> set (request_occs kc api err s). rs"
    by (auto simp: request_occs_def shard_occ_def Let_def split: option.splits)
  then show ?thesis by (simp add: request_eq record_all_request_status)
qed

lemma fst_request [simp]: "fst (request kc api err s) = request_usable err"
  by (simp add: request_eq)

lemma requestPartial_inv [sec_intros]:
  "sec_inv s \<Longrightarrow> sec_inv (snd (requestPartial kc api err g s))"
  using request_inv [of s kc api err] by (auto simp: requestPartial_def split_beta)

lemma requestPartial_frame [simp, sec_simps]:
  "s_name (snd (requestPartial kc api err g s)) = s_name s"
  "s_lim (snd (requestPartial kc api err g s)) = s_lim s"
  "s_started (snd (requestPartial kc api err g s)) = s_started s"
  by (auto simp: requestPartial_def split_beta)

lemma fst_requestPartial [simp]:
  "fst (requestPartial kc api err g s) = (request_usable err \<or> g)"
  by (simp add: requestPartial_def split_beta)

lemma requestPartial_status:
  "s_status (snd (requestPartial kc api err g s)) =
     (if request_usable err \<or> \<not> g then max (s_status s) (request_status kc err)
      else SectionPartial)"
proof -
  have "SectionFailed \<le> request_status kc err" if "\<not> request_usable err"
    using that by (auto simp: request_usable_def request_status_def less_eq_section_status_def
        split: option.splits prod.splits if_splits)
  then have "\<not> request_usable err \<Longrightarrow>
      max (s_status s) (request_status kc err) \<in> {SectionFailed, SectionUnauthorized}"
    by (cases "s_status s"; cases "request_status kc err") (auto simp: status_order)
  then show ?thesis
    by (auto simp: requestPartial_def split_beta request_status_of)
qed

lemma add_error_inv [sec_intros]:
  "sec_inv s \<Longrightarrow> ce_count ce = 0 \<Longrightarrow> ce_section ce = s_name s \<Longrightarrow> sec_inv (add_error ce s)"
  by (simp add: add_error_def record_error_inv)

lemma record_scoped_inv [sec_intros]:
  "sec_inv s \<Longrightarrow> sec_inv (recordTopic kc api t e s)"
  "sec_inv s \<Longrightarrow> sec_inv (recordPartition kc api t p e s)"
  "sec_inv s \<Longrightarrow> sec_inv (recordLogDir kc api b d e s)"
  "sec_inv s \<Longrightarrow> sec_inv (recordGroup kc api g e s)"
  by (simp_all add: recordTopic_def recordPartition_def recordLogDir_def recordGroup_def
      add_error_inv)

lemma record_scoped_frame [simp, sec_simps]:
  "s_name (recordTopic kc api t e s) = s_name s"
  "s_name (recordPartition kc api t p e s) = s_name s"
  "s_name (recordLogDir kc api b d e s) = s_name s"
  "s_name (recordGroup kc api g e s) = s_name s"
  "s_lim (recordTopic kc api t e s) = s_lim s"
  "s_lim (recordPartition kc api t p e s) = s_lim s"
  "s_lim (recordLogDir kc api b d e s) = s_lim s"
  "s_lim (recordGroup kc api g e s) = s_lim s"
  "s_started (recordTopic kc api t e s) = s_started s"
  "s_started (recordPartition kc api t p e s) = s_started s"
  "s_started (recordLogDir kc api b d e s) = s_started s"
  "s_started (recordGroup kc api g e s) = s_started s"
  by (simp_all add: recordTopic_def recordPartition_def recordLogDir_def recordGroup_def
      add_error_def)

lemma record_scoped_status [simp, sec_simps]:
  "s_status (recordTopic kc api t e s) = max (s_status s) SectionPartial"
  "s_status (recordPartition kc api t p e s) = max (s_status s) SectionPartial"
  "s_status (recordLogDir kc api b d e s) = max (s_status s) SectionPartial"
  "s_status (recordGroup kc api g e s) = max (s_status s) SectionPartial"
  by (simp_all add: recordTopic_def recordPartition_def recordLogDir_def recordGroup_def
      add_error_def)

end
