(* ===== verification/Merge.thy ===== *)
theory Merge
  imports Section_Inv
begin

text \<open>
  The second half of \<open>src/internal/collector/limits.go\<close>: \<open>mergeErrors\<close>, which enforces the
  global error cap once, after every phase has joined.

  A nil \<open>*section\<close> is \<open>None\<close>. \<open>admitted\<close>, a slice of slices of flags, is a list of lists; a nil
  section's row is empty. The three nested loops of the selection are \<open>admit_levels\<close> (priorities),
  \<open>admit_rows\<close> (sections) and \<open>admit_row\<close> (entries), threading the remaining budget \<open>left\<close>.
\<close>

subsection \<open>The code\<close>

fun admit_row :: "nat \<Rightarrow> nat list \<Rightarrow> bool list \<Rightarrow> nat \<Rightarrow> bool list \<times> nat" where
  "admit_row prio (q # qs) (a # as) left =
     (if left = 0 then (a # as, 0)
      else if q = prio
        then (let (as', left') = admit_row prio qs as (left - 1) in (True # as', left'))
        else (let (as', left') = admit_row prio qs as left in (a # as', left')))"
| "admit_row prio _ as left = (as, left)"

fun admit_rows ::
    "nat \<Rightarrow> nat list list \<Rightarrow> bool list list \<Rightarrow> nat \<Rightarrow> bool list list \<times> nat" where
  "admit_rows prio (qs # qss) (as # ass) left =
     (let (as', left1) = admit_row prio qs as left;
          (ass', left2) = admit_rows prio qss ass left1
      in (as' # ass', left2))"
| "admit_rows prio _ ass left = (ass, left)"

fun admit_levels ::
    "nat list \<Rightarrow> nat list list \<Rightarrow> bool list list \<Rightarrow> nat \<Rightarrow> bool list list \<times> nat" where
  "admit_levels [] qss ass left = (ass, left)"
| "admit_levels (prio # prios) qss ass left =
     (if left = 0 then (ass, left)
      else let (ass', left') = admit_rows prio qss ass left in admit_levels prios qss ass' left')"

definition row_prios :: "sect option \<Rightarrow> nat list" where
  "row_prios so = (case so of None \<Rightarrow> [] | Some s \<Rightarrow> s_prios s)"

definition row_errs :: "sect option \<Rightarrow> collection_error list" where
  "row_errs so = (case so of None \<Rightarrow> [] | Some s \<Rightarrow> s_errs s)"

text \<open>The emission pass over one section: what it contributes, and its rejections written back.\<close>

definition merge_section ::
    "sect option \<Rightarrow> bool list \<Rightarrow> collection_error list \<times> nat \<times> sect option" where
  "merge_section so adm =
     (case so of
        None \<Rightarrow> ([], 0, None)
      | Some s \<Rightarrow>
          (let out = map fst (filter snd (zip (s_errs s) adm));
               rejected = length (filter (\<lambda>x. \<not> snd x) (zip (s_errs s) adm))
           in if rejected > 0
              then (out, rejected,
                    Some (s\<lparr>s_global_dropped := rejected,
                            s_dropped := truncation_add (s_dropped s)
                              \<lparr>tr_collapsed = 0, tr_dropped = rejected\<rparr>,
                            s_truncated := True\<rparr>))
              else (out, 0, Some s)))"

definition mergeErrors ::
    "sect option list \<Rightarrow> int \<Rightarrow> collection_error list \<times> nat \<times> sect option list" where
  "mergeErrors secs ceiling =
     (let total = length (concat (map row_errs secs));
          budget = (if ceiling > 0 \<and> ceiling < int total then nat ceiling else total);
          admitted0 = map (\<lambda>so. replicate (length (row_errs so)) False) secs;
          (admitted, left) =
            admit_levels [prioRequest ..< prioEntity + 1] (map row_prios secs) admitted0 budget;
          rs = map2 merge_section secs admitted
      in (concat (map fst rs), sum_list (map (fst \<circ> snd) rs), map (snd \<circ> snd) rs))"

subsection \<open>The selection, flattened\<close>

text \<open>The rank of an entry: the entries of a better level, and the earlier ones of its own.\<close>

definition rank :: "nat list \<Rightarrow> nat \<Rightarrow> nat" where
  "rank ps j = length (filter (\<lambda>q. q < ps ! j) ps) + length (filter (\<lambda>q. q = ps ! j) (take j ps))"

lemma admit_row_length: "length (fst (admit_row p qs as left)) = length as"
  by (induction p qs as left rule: admit_row.induct) (auto simp: split_beta Let_def)

lemma admit_row_0 [simp]: "admit_row p qs as 0 = (as, 0)"
  by (cases "(p, qs, as, 0::nat)" rule: admit_row.cases) auto

lemma admit_row_append:
  "length as = length qs \<Longrightarrow>
     admit_row p (qs @ qs') (as @ as') left =
       (let (r, l) = admit_row p qs as left; (r', l') = admit_row p qs' as' l in (r @ r', l'))"
  by (induction p qs as left rule: admit_row.induct) (auto simp: split_beta Let_def)

lemma admit_rows_concat:
  "list_all2 (\<lambda>q a. length a = length q) qss ass \<Longrightarrow>
     (concat (fst (admit_rows p qss ass left)), snd (admit_rows p qss ass left)) =
       admit_row p (concat qss) (concat ass) left \<and>
     list_all2 (\<lambda>q a. length a = length q) qss (fst (admit_rows p qss ass left))"
proof (induction p qss ass left rule: admit_rows.induct)
  case (1 p qs qss as ass left)
  then show ?case
    by (cases "admit_row p qs as left")
      (auto simp: split_beta Let_def admit_row_append prod_eq_iff dest: arg_cong [where f = fst]
        simp: admit_row_length [of p qs as left, simplified])
qed auto

lemma admit_row_spec:
  assumes "length as = length qs" "\<forall>j < length qs. qs ! j = p \<longrightarrow> \<not> as ! j"
  shows "snd (admit_row p qs as left) = left - length (filter (\<lambda>q. q = p) qs) \<and>
    (\<forall>j < length qs. fst (admit_row p qs as left) ! j \<longleftrightarrow>
       as ! j \<or> (qs ! j = p \<and> length (filter (\<lambda>q. q = p) (take j qs)) < left)) \<and>
    length (filter (\<lambda>a. a) (fst (admit_row p qs as left))) + snd (admit_row p qs as left) =
      length (filter (\<lambda>a. a) as) + left"
  using assms
proof (induction p qs as left rule: admit_row.induct)
  case (1 p q qs a as left)
  have tl: "\<forall>j < length qs. qs ! j = p \<longrightarrow> \<not> as ! j"
    using "1.prems"(2) by fastforce
  have hd: "q = p \<Longrightarrow> \<not> a" using "1.prems"(2) by fastforce
  show ?case
  proof (cases "left = 0")
    case True
    then show ?thesis by simp
  next
    case False
    show ?thesis
    proof (cases "q = p")
      case True
      from 1(1) [OF False True] "1.prems" tl True False hd show ?thesis
        by (auto simp: split_beta Let_def nth_Cons less_Suc_eq_0_disj split: nat.splits)
    next
      case neq: False
      from 1(2) [OF False neq] "1.prems" tl False neq show ?thesis
        by (auto simp: split_beta Let_def nth_Cons less_Suc_eq_0_disj split: nat.splits)
    qed
  qed
qed auto


text \<open>The level loop on one flat row.\<close>

fun flat_levels :: "nat list \<Rightarrow> nat list \<Rightarrow> bool list \<Rightarrow> nat \<Rightarrow> bool list \<times> nat" where
  "flat_levels [] qs as left = (as, left)"
| "flat_levels (p # ps) qs as left =
     (let (as', left') = admit_row p qs as left in flat_levels ps qs as' left')"

lemma flat_levels_0 [simp]: "flat_levels ps qs as 0 = (as, 0)"
  by (induction ps) auto

lemma flat_levels_snoc:
  "flat_levels (ps @ [p]) qs as left =
     (let (as', left') = flat_levels ps qs as left in admit_row p qs as' left')"
  by (induction ps arbitrary: as left) (auto simp: split_beta Let_def)

lemma admit_levels_concat:
  "list_all2 (\<lambda>q a. length a = length q) qss ass \<Longrightarrow>
     (concat (fst (admit_levels ps qss ass left)), snd (admit_levels ps qss ass left)) =
       flat_levels ps (concat qss) (concat ass) left \<and>
     list_all2 (\<lambda>q a. length a = length q) qss (fst (admit_levels ps qss ass left))"
proof (induction ps arbitrary: ass left)
  case Nil
  then show ?case by simp
next
  case (Cons p ps)
  show ?case
  proof (cases "left = 0")
    case True
    with Cons.prems show ?thesis by simp
  next
    case False
    obtain ass' left' where r: "admit_rows p qss ass left = (ass', left')"
      by (cases "admit_rows p qss ass left")
    from admit_rows_concat [OF Cons.prems, of p left] r
    have "admit_row p (concat qss) (concat ass) left = (concat ass', left')"
      and "list_all2 (\<lambda>q a. length a = length q) qss ass'" by auto
    with Cons.IH [of ass' left'] r False show ?thesis by simp
  qed
qed

lemma length_filter_less_Suc:
  "length (filter (\<lambda>q. q < Suc n) qs) =
     length (filter (\<lambda>q. q < n) qs) + length (filter (\<lambda>q. q = n) qs)"
  by (induction qs) auto

lemma flat_levels_closed:
  "length (fst (flat_levels [0..<n] qs (replicate (length qs) False) B)) = length qs \<and>
     snd (flat_levels [0..<n] qs (replicate (length qs) False) B) =
       B - length (filter (\<lambda>q. q < n) qs) \<and>
     (\<forall>j < length qs. fst (flat_levels [0..<n] qs (replicate (length qs) False) B) ! j \<longleftrightarrow>
       qs ! j < n \<and> rank qs j < B) \<and>
     length (filter (\<lambda>a. a) (fst (flat_levels [0..<n] qs (replicate (length qs) False) B))) +
       snd (flat_levels [0..<n] qs (replicate (length qs) False) B) = B"
proof (induction n)
  case 0
  then show ?case by simp
next
  case (Suc n)
  let ?F = "fst (flat_levels [0..<n] qs (replicate (length qs) False) B)"
  let ?l = "snd (flat_levels [0..<n] qs (replicate (length qs) False) B)"
  have step: "flat_levels [0..<Suc n] qs (replicate (length qs) False) B = admit_row n qs ?F ?l"
    by (simp add: flat_levels_snoc split_beta)
  have len: "length ?F = length qs" and l: "?l = B - length (filter (\<lambda>q. q < n) qs)"
    and nth: "\<And>j. j < length qs \<Longrightarrow> ?F ! j \<longleftrightarrow> qs ! j < n \<and> rank qs j < B"
    and cnt: "length (filter (\<lambda>a. a) ?F) + ?l = B"
    using Suc by (auto simp: id_def)
  have fresh: "\<forall>j < length qs. qs ! j = n \<longrightarrow> \<not> ?F ! j" using nth by auto
  note spec = admit_row_spec [OF len fresh, of ?l]
  have "fst (admit_row n qs ?F ?l) ! j \<longleftrightarrow> qs ! j < Suc n \<and> rank qs j < B"
    if j: "j < length qs" for j
    using spec j nth [OF j] l by (auto simp: rank_def less_Suc_eq)
  with step spec l cnt len show ?case
    by (simp add: admit_row_length length_filter_less_Suc)
qed


subsection \<open>What survives\<close>

definition all_errs :: "sect option list \<Rightarrow> collection_error list" where
  "all_errs secs = concat (map row_errs secs)"

definition all_prios :: "sect option list \<Rightarrow> nat list" where
  "all_prios secs = concat (map row_prios secs)"

definition merge_budget :: "sect option list \<Rightarrow> int \<Rightarrow> nat" where
  "merge_budget secs ceiling =
     (if ceiling > 0 \<and> ceiling < int (length (all_errs secs)) then nat ceiling
      else length (all_errs secs))"

definition merge_admitted :: "sect option list \<Rightarrow> int \<Rightarrow> bool list list" where
  "merge_admitted secs ceiling =
     fst (admit_levels [prioRequest ..< prioEntity + 1] (map row_prios secs)
       (map (\<lambda>so. replicate (length (row_errs so)) False) secs) (merge_budget secs ceiling))"

lemma mergeErrors_eq:
  "mergeErrors secs ceiling =
     (let rs = map2 merge_section secs (merge_admitted secs ceiling)
      in (concat (map fst rs), sum_list (map (fst \<circ> snd) rs), map (snd \<circ> snd) rs))"
  by (simp add: mergeErrors_def merge_admitted_def merge_budget_def all_errs_def Let_def split_beta)

definition secs_inv :: "sect option list \<Rightarrow> bool" where
  "secs_inv secs \<longleftrightarrow> (\<forall>s. Some s \<in> set secs \<longrightarrow> sec_inv s)"

lemma secs_inv_simps [simp]:
  "secs_inv []" "secs_inv (None # secs) = secs_inv secs"
  "secs_inv (Some s # secs) \<longleftrightarrow> sec_inv s \<and> secs_inv secs"
  by (auto simp: secs_inv_def)

lemma row_length: "secs_inv (so # secs) \<Longrightarrow> length (row_prios so) = length (row_errs so)"
  by (cases so) (auto simp: row_prios_def row_errs_def sec_inv_def)

lemma row_prios_le: "secs_inv (so # secs) \<Longrightarrow> q \<in> set (row_prios so) \<Longrightarrow> q \<le> prioEntity"
  by (cases so) (auto simp: row_prios_def sec_inv_def)

lemma secs_inv_tl: "secs_inv (so # secs) \<Longrightarrow> secs_inv secs"
  by (auto simp: secs_inv_def)

lemma all_prios_length: "secs_inv secs \<Longrightarrow> length (all_prios secs) = length (all_errs secs)"
  by (induction secs) (auto simp: all_prios_def all_errs_def row_length dest: secs_inv_tl)

lemma all_prios_le: "secs_inv secs \<Longrightarrow> q \<in> set (all_prios secs) \<Longrightarrow> q \<le> prioEntity"
  by (induction secs) (auto simp: all_prios_def dest: secs_inv_tl row_prios_le)

lemma fresh_rows:
  "secs_inv secs \<Longrightarrow> list_all2 (\<lambda>q a. length a = length q) (map row_prios secs)
     (map (\<lambda>so. replicate (length (row_errs so)) False) secs)"
  by (induction secs) (auto simp: row_length dest: secs_inv_tl)

lemma fresh_rows_concat:
  "concat (map (\<lambda>so. replicate (length (row_errs so)) False) secs) =
     replicate (length (all_errs secs)) False"
  by (induction secs) (auto simp: all_errs_def replicate_add)

lemma merge_admitted_rows:
  assumes "secs_inv secs"
  shows "list_all2 (\<lambda>so a. length a = length (row_errs so)) secs (merge_admitted secs ceiling)"
proof -
  have "list_all2 (\<lambda>q a. length a = length q) (map row_prios secs) (merge_admitted secs ceiling)"
    unfolding merge_admitted_def using admit_levels_concat [OF fresh_rows [OF assms]] by blast
  moreover have "\<forall>so \<in> set secs. length (row_prios so) = length (row_errs so)"
    using assms by (auto simp: secs_inv_def row_prios_def row_errs_def sec_inv_def split: option.split)
  ultimately show ?thesis
    by (auto simp: list_all2_map1 list_all2_conv_all_nth)
qed

lemma merge_admitted_closed:
  assumes "secs_inv secs"
  shows "length (concat (merge_admitted secs ceiling)) = length (all_errs secs)"
    and "j < length (all_errs secs) \<Longrightarrow>
      concat (merge_admitted secs ceiling) ! j \<longleftrightarrow> rank (all_prios secs) j < merge_budget secs ceiling"
    and "length (filter (\<lambda>a. a) (concat (merge_admitted secs ceiling))) = merge_budget secs ceiling"
proof -
  let ?P = "all_prios secs" and ?B = "merge_budget secs ceiling"
  let ?R = "flat_levels [0 ..< prioEntity + 1] ?P (replicate (length ?P) False) ?B"
  have len: "length ?P = length (all_errs secs)" using assms by (rule all_prios_length)
  have "(concat (merge_admitted secs ceiling),
      snd (admit_levels [prioRequest ..< prioEntity + 1] (map row_prios secs)
       (map (\<lambda>so. replicate (length (row_errs so)) False) secs) ?B)) = ?R"
    using admit_levels_concat [OF fresh_rows [OF assms], of "[prioRequest ..< prioEntity + 1]" ?B]
    by (simp only: merge_admitted_def fresh_rows_concat len [symmetric] all_prios_def [symmetric]
        prioRequest_def)
  then have R: "concat (merge_admitted secs ceiling) = fst ?R" by (metis fst_conv)
  note closed = flat_levels_closed [of "prioEntity + 1" ?P ?B]
  have all: "filter (\<lambda>q. q < prioEntity + 1) ?P = ?P"
    using all_prios_le [OF assms] by (auto simp: filter_id_conv less_Suc_eq_le)
  have "?B \<le> length ?P" using len by (auto simp: merge_budget_def)
  with closed all R show "length (filter (\<lambda>a. a) (concat (merge_admitted secs ceiling))) = ?B"
    by simp
  from closed R len show "length (concat (merge_admitted secs ceiling)) = length (all_errs secs)"
    by simp
  assume "j < length (all_errs secs)"
  with closed R len all_prios_le [OF assms, of "?P ! j"]
  show "concat (merge_admitted secs ceiling) ! j \<longleftrightarrow> rank ?P j < ?B"
    by (simp add: less_Suc_eq_le)
qed

text \<open>One section's contribution.\<close>

lemma filter_zip_length:
  "length as = length xs \<Longrightarrow> length (filter (\<lambda>x. \<not> snd x) (zip xs as)) +
     length (filter snd (zip xs as)) = length xs"
  by (induction xs as rule: list_induct2') auto

lemma merge_section_fst:
  "fst (merge_section so adm) = map fst (filter snd (zip (row_errs so) adm))"
  by (auto simp: merge_section_def row_errs_def Let_def split: option.split)

lemma merge_section_dropped:
  "length adm = length (row_errs so) \<Longrightarrow>
     fst (snd (merge_section so adm)) + length (fst (merge_section so adm)) = length (row_errs so)"
  using filter_zip_length [of adm "row_errs so"]
  by (auto simp: merge_section_def row_errs_def Let_def split: option.split)

lemma concat_filter_zip:
  "list_all2 (\<lambda>so a. length a = length (row_errs so)) secs ass \<Longrightarrow>
     concat (map fst (map2 merge_section secs ass)) =
       map fst (filter snd (zip (all_errs secs) (concat ass)))"
  by (induction rule: list_all2_induct) (auto simp: all_errs_def merge_section_fst)

lemma filter_zip_nths:
  "length as = length xs \<Longrightarrow> map fst (filter snd (zip xs as)) = nths xs {j. j < length as \<and> as ! j}"
proof (induction xs arbitrary: as)
  case Nil
  then show ?case by simp
next
  case (Cons x xs)
  then obtain a as' where as: "as = a # as'" "length as' = length xs" by (cases as) auto
  have "{j. Suc j \<in> {j. j < length as \<and> as ! j}} = {j. j < length as' \<and> as' ! j}"
    using as by auto
  with Cons.IH [of as'] as show ?case by (simp add: nths_Cons)
qed

text \<open>The whole selection in closed form: an entry survives iff fewer than the budget precede it.\<close>

lemma mergeErrors_out:
  assumes "secs_inv secs"
  shows "fst (mergeErrors secs ceiling) =
    nths (all_errs secs)
      {j. j < length (all_errs secs) \<and> rank (all_prios secs) j < merge_budget secs ceiling}"
proof -
  have "fst (mergeErrors secs ceiling) =
      map fst (filter snd (zip (all_errs secs) (concat (merge_admitted secs ceiling))))"
    unfolding mergeErrors_eq Let_def fst_conv
    by (rule concat_filter_zip [OF merge_admitted_rows [OF assms]])
  also have "\<dots> = nths (all_errs secs) {j. j < length (all_errs secs) \<and>
      concat (merge_admitted secs ceiling) ! j}"
    using filter_zip_nths merge_admitted_closed(1) [OF assms] by metis
  also have "{j. j < length (all_errs secs) \<and> concat (merge_admitted secs ceiling) ! j} =
      {j. j < length (all_errs secs) \<and> rank (all_prios secs) j < merge_budget secs ceiling}"
    using merge_admitted_closed(2) [OF assms] by auto
  finally show ?thesis .
qed

lemma mergeErrors_subseq:
  "secs_inv secs \<Longrightarrow> subseq (fst (mergeErrors secs ceiling)) (all_errs secs)"
  by (auto simp: mergeErrors_out subseq_conv_nths)

lemma filter_snd_zip: "length as = length xs \<Longrightarrow> length (filter snd (zip xs as)) = length (filter (\<lambda>a. a) as)"
  by (induction xs as rule: list_induct2') auto

lemma mergeErrors_length:
  assumes "secs_inv secs"
  shows "length (fst (mergeErrors secs ceiling)) = merge_budget secs ceiling"
  using merge_admitted_closed(1,3) [OF assms, of ceiling]
  unfolding mergeErrors_eq Let_def fst_conv concat_filter_zip [OF merge_admitted_rows [OF assms]]
  by (simp add: filter_snd_zip)

lemma map2_merge_sum:
  "list_all2 (\<lambda>so a. length a = length (row_errs so)) secs ass \<Longrightarrow>
     sum_list (map (fst \<circ> snd) (map2 merge_section secs ass)) +
       length (concat (map fst (map2 merge_section secs ass))) = length (all_errs secs)"
proof (induction rule: list_all2_induct)
  case Nil
  then show ?case by (simp add: all_errs_def)
next
  case (Cons so secs a ass)
  then show ?case using merge_section_dropped [of a so] by (simp add: all_errs_def)
qed

lemma mergeErrors_dropped:
  assumes "secs_inv secs"
  shows "fst (snd (mergeErrors secs ceiling)) + length (fst (mergeErrors secs ceiling)) =
    length (all_errs secs)"
  using map2_merge_sum [OF merge_admitted_rows [OF assms, of ceiling]]
  by (simp add: mergeErrors_eq Let_def)


text \<open>A better level, or an earlier place in the same level, is a strictly smaller rank.\<close>

lemma length_filter_le_split:
  "length (filter (\<lambda>q. q \<le> (v::nat)) ps) =
     length (filter (\<lambda>q. q < v) ps) + length (filter (\<lambda>q. q = v) ps)"
  by (induction ps) auto

lemma length_filter_mono: "(v::nat) < w \<Longrightarrow>
    length (filter (\<lambda>q. q \<le> v) ps) \<le> length (filter (\<lambda>q. q < w) ps)"
  by (induction ps) auto

lemma rank_le_all:
  assumes "k < length ps"
  shows "rank ps k < length (filter (\<lambda>q. q \<le> ps ! k) ps)"
proof -
  have "length (filter (\<lambda>q. q = ps ! k) (take k ps)) < length (filter (\<lambda>q. q = ps ! k) ps)"
    using assms by (subst (2) id_take_nth_drop [OF assms]) simp
  then show ?thesis by (simp add: rank_def length_filter_le_split)
qed

lemma rank_better_level:
  assumes "k < length ps" "ps ! k < ps ! j"
  shows "rank ps k < rank ps j"
  using rank_le_all [OF assms(1)] length_filter_mono [OF assms(2), of ps]
  by (simp add: rank_def)

lemma rank_same_level:
  assumes "k < j" "j < length ps" "ps ! k = ps ! j"
  shows "rank ps k < rank ps j"
proof -
  have eq: "take j ps = take k ps @ ps ! k # drop (Suc k) (take j ps)"
    using assms id_take_nth_drop [of k "take j ps"] by simp
  have "length (filter (\<lambda>q. q = ps ! k) (take k ps)) <
      length (filter (\<lambda>q. q = ps ! k) (take j ps))"
    by (subst eq) simp
  with assms(3) show ?thesis by (simp add: rank_def)
qed

subsection \<open>The write-back\<close>

lemma merge_section_name: "map_option s_name (snd (snd (merge_section so adm))) = map_option s_name so"
  by (auto simp: merge_section_def Let_def split: option.split)

lemma merge_section_count:
  assumes "snd (snd (merge_section so adm)) = Some s'" "length adm = length (row_errs so)"
    and "secs_inv [so]"
  shows "sw_error_count (finish (Some s')) = int (length (fst (merge_section so adm)))"
    and "sw_errors_dropped (finish (Some s')) =
      tr_dropped (s_dropped (the so)) + fst (snd (merge_section so adm))"
    and "fst (snd (merge_section so adm)) > 0 \<longrightarrow> sw_truncated (finish (Some s'))"
    and "\<forall>e \<in> set (fst (merge_section so adm)). ce_section e = s_name s'"
proof -
  obtain s where s: "so = Some s"
    using assms(1) by (cases so) (auto simp: merge_section_def)
  have gd: "s_global_dropped s = 0" using assms(3) s by (simp add: sec_inv_def)
  have len: "length (filter (\<lambda>x. \<not> snd x) (zip (s_errs s) adm)) +
      length (filter snd (zip (s_errs s) adm)) = length (s_errs s)"
    using filter_zip_length [of adm "s_errs s"] assms(2) s by (simp add: row_errs_def)
  show "sw_error_count (finish (Some s')) = int (length (fst (merge_section so adm)))"
    using assms(1) s gd len
    by (auto simp: merge_section_def Let_def finish_def split: if_splits)
  show "sw_errors_dropped (finish (Some s')) =
      tr_dropped (s_dropped (the so)) + fst (snd (merge_section so adm))"
    using assms(1) s
    by (auto simp: merge_section_def Let_def finish_def truncation_add_def split: if_splits)
  show "fst (snd (merge_section so adm)) > 0 \<longrightarrow> sw_truncated (finish (Some s'))"
    using assms(1) s by (auto simp: merge_section_def Let_def finish_def split: if_splits)
  have "s_name s' = s_name s"
    using assms(1) s by (auto simp: merge_section_def Let_def split: if_splits)
  moreover have "\<forall>e \<in> set (s_errs s). ce_section e = s_name s"
    using assms(3) s by (simp add: sec_inv_def)
  ultimately show "\<forall>e \<in> set (fst (merge_section so adm)). ce_section e = s_name s'"
    by (auto simp: merge_section_fst row_errs_def s dest: set_zip_leftD)
qed

definition named :: "string \<Rightarrow> collection_error list \<Rightarrow> nat" where
  "named n es = length (filter (\<lambda>e. ce_section e = n) es)"

definition sect_names :: "sect option list \<Rightarrow> string list" where
  "sect_names secs = map s_name (map the (filter (\<lambda>so. so \<noteq> None) secs))"

lemma sect_names_simps [simp]:
  "sect_names [] = []" "sect_names (None # secs) = sect_names secs"
  "sect_names (Some s # secs) = s_name s # sect_names secs"
  by (simp_all add: sect_names_def)

lemma merged_named_other:
  "list_all2 (\<lambda>so a. length a = length (row_errs so)) secs ass \<Longrightarrow> secs_inv secs \<Longrightarrow>
     n \<notin> set (sect_names secs) \<Longrightarrow>
     named n (concat (map fst (map2 merge_section secs ass))) = 0"
proof (induction rule: list_all2_induct)
  case Nil
  then show ?case by (simp add: named_def)
next
  case (Cons so secs a ass)
  have one: "named n (fst (merge_section so a)) = 0"
  proof (cases so)
    case None
    then show ?thesis by (simp add: merge_section_def named_def)
  next
    case (Some s)
    then have "\<forall>e \<in> set (fst (merge_section so a)). ce_section e = s_name s"
      using Cons.prems(1)
      by (auto simp: merge_section_fst row_errs_def sec_inv_def dest: set_zip_leftD)
    then show ?thesis using Some Cons.prems(2) by (auto simp: named_def filter_empty_conv)
  qed
  have "secs_inv secs" using Cons.prems(1) by (rule secs_inv_tl)
  moreover have "n \<notin> set (sect_names secs)" using Cons.prems(2) by (cases so) auto
  ultimately have "named n (concat (map fst (map2 merge_section secs ass))) = 0"
    by (rule Cons.IH)
  with one show ?case by (simp add: named_def)
qed

lemma merged_named:
  "list_all2 (\<lambda>so a. length a = length (row_errs so)) secs ass \<Longrightarrow> secs_inv secs \<Longrightarrow>
     distinct (sect_names secs) \<Longrightarrow>
     Some s' \<in> set (map (snd \<circ> snd) (map2 merge_section secs ass)) \<Longrightarrow>
     int (named (s_name s') (concat (map fst (map2 merge_section secs ass)))) =
       sw_error_count (finish (Some s'))"
proof (induction rule: list_all2_induct)
  case Nil
  then show ?case by simp
next
  case (Cons so secs a ass)
  have tl: "secs_inv secs" using Cons.prems(1) by (rule secs_inv_tl)
  have hd: "secs_inv [so]" using Cons.prems(1) by (cases so) auto
  have d: "distinct (sect_names secs)" using Cons.prems(2) by (cases so) auto
  have split: "named n (concat (map fst (map2 merge_section (so # secs) (a # ass)))) =
      named n (fst (merge_section so a)) + named n (concat (map fst (map2 merge_section secs ass)))"
    for n by (simp add: named_def)
  show ?case
  proof (cases "snd (snd (merge_section so a)) = Some s'")
    case True
    note c = merge_section_count [OF True Cons.hyps(1) hd]
    obtain s where so: "so = Some s" "s_name s' = s_name s"
      using True merge_section_name [of so a] by (cases so) auto
    have "named (s_name s') (fst (merge_section so a)) = length (fst (merge_section so a))"
      using c(4) by (simp add: named_def filter_id_conv)
    moreover have "s_name s' \<notin> set (sect_names secs)" using so Cons.prems(2) by simp
    ultimately show ?thesis
      using c(1) merged_named_other [OF Cons.hyps(2) tl] split by simp
  next
    case False
    with Cons.prems(3) have in_tl: "Some s' \<in> set (map (snd \<circ> snd) (map2 merge_section secs ass))"
      by auto
    then obtain i where i: "i < length secs" "i < length ass"
      "snd (snd (merge_section (secs ! i) (ass ! i))) = Some s'"
      by (auto simp: set_zip)
    then obtain t where t: "secs ! i = Some t" "s_name s' = s_name t"
      using merge_section_name [of "secs ! i" "ass ! i"] by (cases "secs ! i") auto
    then have "s_name s' \<in> set (sect_names secs)"
      using i(1) by (auto simp: sect_names_def image_iff intro!: bexI [of _ "Some t"]
          dest: nth_mem)
    then have ne: "\<And>s. so = Some s \<Longrightarrow> s_name s \<noteq> s_name s'" using Cons.prems(2) by auto
    have "named (s_name s') (fst (merge_section so a)) = 0"
      using ne hd by (cases so) (auto simp: named_def merge_section_fst row_errs_def sec_inv_def
          filter_empty_conv dest!: set_zip_leftD)
    with split Cons.IH [OF tl d in_tl] show ?thesis by simp
  qed
qed

lemma mergeErrors_named:
  assumes "secs_inv secs" "distinct (sect_names secs)"
    and "Some s' \<in> set (snd (snd (mergeErrors secs ceiling)))"
  shows "int (named (s_name s') (fst (mergeErrors secs ceiling))) =
    sw_error_count (finish (Some s'))"
  using merged_named [OF merge_admitted_rows [OF assms(1)] assms(1,2)] assms(3)
  unfolding mergeErrors_eq Let_def by simp


subsection \<open>Properties\<close>

text \<open>
  After the global error cap, exactly \<open>min(total, ceiling)\<close> entries survive (all of them
  when the ceiling is off or not reached), in the order sections and entries had, and the reported
  number of dropped entries is the rest.
\<close>

theorem mergeErrors_accounts:
  assumes "secs_inv secs"
  shows "length (fst (mergeErrors secs ceiling)) =
      (if ceiling > 0 \<and> ceiling < int (length (all_errs secs)) then nat ceiling
       else length (all_errs secs)) \<and>
    fst (snd (mergeErrors secs ceiling)) + length (fst (mergeErrors secs ceiling)) =
      length (all_errs secs) \<and>
    subseq (fst (mergeErrors secs ceiling)) (all_errs secs)"
  using mergeErrors_length [OF assms, of ceiling] mergeErrors_dropped [OF assms, of ceiling]
    mergeErrors_subseq [OF assms, of ceiling]
  by (simp add: merge_budget_def)

text \<open>
  C3: a budget never prefers the worse of two errors: an entry survives the global cap exactly
  when fewer than the budget precede it in the order by priority level, then section, then index;
  so every entry of a better level, or earlier in the same level, than a survivor survives.
\<close>

theorem mergeErrors_priority:
  assumes "secs_inv secs" "k < length (all_errs secs)" "j < length (all_errs secs)"
    and "all_prios secs ! k < all_prios secs ! j \<or> (all_prios secs ! k = all_prios secs ! j \<and> k < j)"
    and "rank (all_prios secs) j < merge_budget secs ceiling"
  shows "fst (mergeErrors secs ceiling) = nths (all_errs secs)
      {i. i < length (all_errs secs) \<and> rank (all_prios secs) i < merge_budget secs ceiling} \<and>
    rank (all_prios secs) k < merge_budget secs ceiling"
proof -
  have "rank (all_prios secs) k < rank (all_prios secs) j"
    using assms(2-4) all_prios_length [OF assms(1)] rank_better_level rank_same_level by metis
  with assms(5) mergeErrors_out [OF assms(1)] show ?thesis by simp
qed

text \<open>
  C4: the counts a section reports agree with the batch: after the merge, a section's
  \<open>error_count\<close> is the number of entries of \<open>errors[]\<close> that bear its name, and it is marked
  truncated whenever the merge rejected one of its entries.
\<close>

theorem mergeErrors_error_count:
  assumes "secs_inv secs" "distinct (sect_names secs)"
    and "Some s' \<in> set (snd (snd (mergeErrors secs ceiling)))"
  shows "sw_error_count (finish (Some s')) =
    int (length (filter (\<lambda>e. ce_section e = sw_name (finish (Some s')))
      (fst (mergeErrors secs ceiling))))"
  using mergeErrors_named [OF assms] by (simp add: named_def finish_def)

subsection \<open>A worked merge\<close>

text \<open>Two sections, three failures, a ceiling of two: the authorization error of the second
  section survives ahead of the second entity error of the first.\<close>

definition wit_error :: "string \<Rightarrow> error_kind \<Rightarrow> int16 \<Rightarrow> collection_error" where
  "wit_error sec kind code =
     \<lparr>ce_section = sec, ce_api = ''Metadata'', ce_broker = None, ce_topic = [], ce_partition = None,
      ce_dir = [], ce_group = [], ce_code = code, ce_kind = kind, ce_message = [], ce_count = 0\<rparr>"

definition wit_section :: "string \<Rightarrow> (error_kind \<times> int16) list \<Rightarrow> sect" where
  "wit_section name es =
     record_all (map (\<lambda>(k, c). (wit_error name k c, False)) es) (newSectionAt name 0)"

definition wit_secs :: "sect option list" where
  "wit_secs = [Some (wit_section ''topics'' [(KindOther, 6), (KindOther, 3)]), None,
     Some (wit_section ''groups'' [(KindAuthorization, 30)])]"

lemma wit_section_inv: "sec_inv (wit_section name es)"
proof -
  have "newSectionAt name 0 = c_newSectionAt no_limits name 0"
    by (simp add: c_newSectionAt_def newSectionAt_def)
  moreover have "occs_ok name (map (\<lambda>(k, c). (wit_error name k c, False)) es)"
    by (auto simp: occs_ok_def wit_error_def)
  ultimately show ?thesis
    unfolding wit_section_def by (metis record_all_inv sec_inv_fresh c_newSectionAt_def
        newSectionAt_def sect.select_convs(1) sect.update_convs(5))
qed

lemma wit_secs_inv: "secs_inv wit_secs"
  by (simp add: wit_secs_def wit_section_inv)

lemma wit_secs_kinds: "map ce_kind (all_errs wit_secs) = [KindOther, KindOther, KindAuthorization]"
  by code_simp

lemma wit_secs_prios: "all_prios wit_secs = [5, 5, 1]"
  by code_simp

theorem mergeErrors_accounts_witness:
  "length (fst (mergeErrors wit_secs 2)) = 2 \<and> fst (snd (mergeErrors wit_secs 2)) = 1"
proof -
  have "length (all_errs wit_secs) = 3"
    using arg_cong [OF wit_secs_kinds, of length] by simp
  with mergeErrors_accounts [OF wit_secs_inv, of 2] show ?thesis by simp
qed

theorem mergeErrors_priority_witness:
  "rank (all_prios wit_secs) 2 < merge_budget wit_secs 2"
proof -
  have len: "length (all_errs wit_secs) = 3"
    using arg_cong [OF wit_secs_kinds, of length] by simp
  have "rank (all_prios wit_secs) 0 < merge_budget wit_secs 2"
    by (simp add: wit_secs_prios merge_budget_def len rank_def)
  with mergeErrors_priority [OF wit_secs_inv, of 2 0 2] len show ?thesis
    by (simp add: wit_secs_prios)
qed

lemma wit_merged_present: "snd (snd (mergeErrors wit_secs 2)) ! 2 \<noteq> None"
  by code_simp

theorem mergeErrors_error_count_witness:
  "sw_error_count (finish (snd (snd (mergeErrors wit_secs 2)) ! 2)) =
     int (length (filter
       (\<lambda>e. ce_section e = sw_name (finish (snd (snd (mergeErrors wit_secs 2)) ! 2)))
       (fst (mergeErrors wit_secs 2))))"
proof -
  obtain s' where s': "snd (snd (mergeErrors wit_secs 2)) ! 2 = Some s'"
    using wit_merged_present by auto
  have "length (snd (snd (mergeErrors wit_secs 2))) = 3" by code_simp
  then have "Some s' \<in> set (snd (snd (mergeErrors wit_secs 2)))"
    using s' nth_mem [of 2 "snd (snd (mergeErrors wit_secs 2))"] by simp
  moreover have "distinct (sect_names wit_secs)" by code_simp
  ultimately show ?thesis
    unfolding s' using mergeErrors_error_count [OF wit_secs_inv] by blast
qed

end
