(* ===== verification/Section_Props.thy ===== *)
theory Section_Props
  imports Merge
begin

text \<open>
  The contract the phases use a section through, as a locale interpreted on the four recording
  operations, and the properties of a section filled from scratch.
\<close>

subsection \<open>Extension of a section\<close>

text \<open>
  \<open>sec_ext s t\<close>: a phase that starts with the section \<open>s\<close> may leave it as \<open>t\<close>. It keeps the
  name, the limits and the sampling instant, and the invariant.
\<close>

definition sec_ext :: "sect \<Rightarrow> sect \<Rightarrow> bool" where
  "sec_ext s t \<longleftrightarrow>
     s_name t = s_name s \<and> s_lim t = s_lim s \<and> s_started t = s_started s \<and> (sec_inv s \<longrightarrow> sec_inv t)"

lemma sec_ext_refl [simp, sec_intros]: "sec_ext s s"
  by (simp add: sec_ext_def)

lemma sec_ext_trans: "sec_ext s t \<Longrightarrow> sec_ext t u \<Longrightarrow> sec_ext s u"
  by (simp add: sec_ext_def)

lemma sec_extD:
  "sec_ext s t \<Longrightarrow> s_name t = s_name s" "sec_ext s t \<Longrightarrow> s_lim t = s_lim s"
  "sec_ext s t \<Longrightarrow> s_started t = s_started s" "sec_ext s t \<Longrightarrow> sec_inv s \<Longrightarrow> sec_inv t"
  by (simp_all add: sec_ext_def)

lemma sec_ext_downgrade [simp, sec_intros]: "sec_ext s (downgrade st s)"
  by (simp add: sec_ext_def)

lemma sec_ext_request [simp, sec_intros]: "sec_ext s (snd (request kc api err s))"
  by (simp add: sec_ext_def request_inv)

lemma sec_ext_requestPartial [simp, sec_intros]: "sec_ext s (snd (requestPartial kc api err g s))"
  by (simp add: sec_ext_def requestPartial_inv)

lemma sec_ext_drop [simp, sec_intros]:
  "sec_ext s (s\<lparr>s_dropped := truncation_add (s_dropped s) \<lparr>tr_collapsed = 0, tr_dropped = n\<rparr>,
     s_truncated := True\<rparr>)"
  by (auto simp: sec_ext_def sec_inv_def truncation_add_def no_truncation_def)

lemma sec_ext_add_error [simp, sec_intros]:
  "ce_count ce = 0 \<Longrightarrow> ce_section ce = s_name s \<Longrightarrow> sec_ext s (add_error ce s)"
  by (simp add: sec_ext_def add_error_inv) (simp add: add_error_def)

lemma newError_scoped_ext [simp, sec_intros]:
  "sec_ext s (add_error ((newError kc api e s)\<lparr>ce_broker := b\<rparr>) s)"
  "sec_ext s (add_error (newError kc api e s) s)"
  by (simp_all add: newError_def split_beta)

text \<open>
  A recorder attributes one failure, described by \<open>'e\<close>, to a section. What its clients rely on
  is that it extends the section and leaves it at least partial.
\<close>

locale recorder =
  fixes rec :: "'e \<Rightarrow> sect \<Rightarrow> sect"
  assumes rec_ext: "sec_ext s (rec e s)"
    and rec_status: "s_status (rec e s) = max (s_status s) SectionPartial"
begin

lemma fold_ext: "sec_ext s (fold rec es s)"
  by (induction es arbitrary: s) (auto intro: rec_ext sec_ext_trans)

lemma fold_status:
  "s_status (fold rec es s) = (if es = [] then s_status s else max (s_status s) SectionPartial)"
  by (induction es arbitrary: s) (auto simp: rec_status)

lemma rec_inv: "sec_inv s \<Longrightarrow> sec_inv (rec e s)"
  using rec_ext by (rule sec_extD)

text \<open>A loop that may record one failure per element.\<close>

lemma fold_option_ext: "sec_ext s (fold (\<lambda>x. case f x of None \<Rightarrow> id | Some e \<Rightarrow> rec e) xs s)"
  by (induction xs arbitrary: s) (auto intro: rec_ext sec_ext_trans split: option.split)

lemma fold_option_status:
  "s_status (fold (\<lambda>x. case f x of None \<Rightarrow> id | Some e \<Rightarrow> rec e) xs s) =
     (if \<exists>x \<in> set xs. f x \<noteq> None then max (s_status s) SectionPartial else s_status s)"
  by (induction xs arbitrary: s) (auto simp: rec_status split: option.split)

end

lemma record_scoped_ext [simp, sec_intros]:
  "sec_ext s (recordTopic kc api t e s)"
  "sec_ext s (recordPartition kc api t p e s)"
  "sec_ext s (recordLogDir kc api b d e s)"
  "sec_ext s (recordGroup kc api g e s)"
  by (simp_all add: sec_ext_def record_scoped_inv)

interpretation topic_rec: recorder "\<lambda>(t, e). recordTopic kc api t e" for kc api
  by unfold_locales (auto split: prod.split)

interpretation partition_rec: recorder "\<lambda>(t, p, e). recordPartition kc api t p e" for kc api
  by unfold_locales (auto split: prod.split)

interpretation log_dir_rec: recorder "\<lambda>(b, d, e). recordLogDir kc api b d e" for kc api
  by unfold_locales (auto split: prod.split)

interpretation group_rec: recorder "\<lambda>(g, e). recordGroup kc api g e" for kc api
  by unfold_locales (auto split: prod.split)

subsection \<open>Filling a fresh section\<close>

lemma fresh_fields [simp]:
  "s_name (c_newSectionAt lim name at) = name" "s_lim (c_newSectionAt lim name at) = lim"
  "s_status (c_newSectionAt lim name at) = SectionOK" "s_errs (c_newSectionAt lim name at) = []"
  "s_prios (c_newSectionAt lim name at) = []" "s_keys (c_newSectionAt lim name at) = []"
  "s_dropped (c_newSectionAt lim name at) = no_truncation"
  "s_started (c_newSectionAt lim name at) = at"
  "s_truncated (c_newSectionAt lim name at) = False"
  by (simp_all add: c_newSectionAt_def newSectionAt_def)

definition filled :: "limits \<Rightarrow> string \<Rightarrow> gotime \<Rightarrow> occurrence list \<Rightarrow> sect" where
  "filled lim name at occs = record_all occs (c_newSectionAt lim name at)"

lemma filled_inv: "occs_ok name occs \<Longrightarrow> sec_inv (filled lim name at occs)"
  unfolding filled_def by (rule record_all_inv) simp_all

lemma fresh_flood [simp]: "refused_flood (c_newSectionAt lim name at)"
  by (simp add: refused_flood_def)

text \<open>
  C1: every recorded failure is accounted for, exactly as far as the code accounts for it. Entries
  plus folded plus dropped never exceed the failures recorded, the counts on the entries are
  entries plus folded, and while nothing was dropped all three add up to the failures. With up to
  256 failure modes the account is exact mode by mode: the entries of an admitted mode stand for
  all its occurrences, the dropped counter is the number of refused modes, one each whatever the
  repeats, and the occurrences not on an entry are those of the refused modes. Beyond 256 modes
  only the first three are claimed.
\<close>

theorem record_accounts_for_all:
  assumes "occs_ok name occs"
  shows "accounted (filled lim name at occs) \<le> length occs \<and>
    length (s_errs (filled lim name at occs)) + tr_collapsed (s_dropped (filled lim name at occs))
      = sum_list (map weight (s_errs (filled lim name at occs))) \<and>
    (tr_dropped (s_dropped (filled lim name at occs)) = 0 \<longrightarrow>
       sum_list (map weight (s_errs (filled lim name at occs))) = length occs) \<and>
    (card (modes occs) \<le> maxDistinctErrorKeys \<longrightarrow>
       (\<forall>k \<in> keyOf ` set (s_errs (filled lim name at occs)).
          sum_list (map weight (filter (\<lambda>e. keyOf e = k) (s_errs (filled lim name at occs)))) =
            length (filter (\<lambda>(ce, rs). keyOf ce = k) occs)) \<and>
       tr_dropped (s_dropped (filled lim name at occs)) =
         card (modes occs - keyOf ` set (s_errs (filled lim name at occs))) \<and>
       sum_list (map weight (s_errs (filled lim name at occs))) +
         length (filter (\<lambda>(ce, rs). keyOf ce \<notin> keyOf ` set (s_errs (filled lim name at occs))) occs)
         = length occs)"
proof -
  let ?s = "c_newSectionAt lim name at" and ?t = "filled lim name at occs"
  have acc: "accounted ?t \<le> length occs \<and>
      (tr_dropped (s_dropped ?t) = 0 \<longrightarrow> accounted ?t = length occs)"
    using record_all_accounted [of ?s occs] assms unfolding filled_def
    by (simp add: accounted_def [of ?s] no_truncation_def)
  have inv: "sec_inv ?t" using assms by (rule filled_inv)
  then have w: "sum_list (map weight (s_errs ?t)) =
      length (s_errs ?t) + tr_collapsed (s_dropped ?t)"
    by (simp add: sec_inv_def)
  have "(\<forall>k \<in> keyOf ` set (s_errs ?t).
        sum_list (map weight (key_errs k (s_errs ?t))) = occs_of k occs) \<and>
      tr_dropped (s_dropped ?t) = card (modes occs - keyOf ` set (s_errs ?t))"
    if few: "card (modes occs) \<le> maxDistinctErrorKeys"
    using record_all_modes [of ?s occs] record_all_exact [of ?s occs] refused_eq [OF inv] assms few
    by (auto simp: filled_def has_entry_def no_truncation_def)
  then have exact: "(\<forall>k \<in> keyOf ` set (s_errs ?t).
        sum_list (map weight (key_errs k (s_errs ?t))) = occs_of k occs) \<and>
      tr_dropped (s_dropped ?t) = card (modes occs - keyOf ` set (s_errs ?t)) \<and>
      sum_list (map weight (s_errs ?t)) +
        length (filter (\<lambda>(ce, rs). keyOf ce \<notin> keyOf ` set (s_errs ?t)) occs) = length occs"
    if "card (modes occs) \<le> maxDistinctErrorKeys"
    using that weights_of_modes [of "s_errs ?t" occs] by blast
  have "accounted ?t = sum_list (map weight (s_errs ?t))" if "tr_dropped (s_dropped ?t) = 0"
    using w that by (simp add: accounted_def)
  with acc w exact show ?thesis
    unfolding key_errs_def occs_of_def by presburger
qed

text \<open>The sections of a cycle, each filled on its own.\<close>

definition filled_secs :: "limits \<Rightarrow> (string \<times> gotime \<times> occurrence list) list \<Rightarrow> sect option list"
  where "filled_secs lim rows = map (\<lambda>(name, at, occs). Some (filled lim name at occs)) rows"

lemma filled_secs_inv: "\<forall>(name, at, occs) \<in> set rows. occs_ok name occs \<Longrightarrow> secs_inv (filled_secs lim rows)"
  by (auto simp: secs_inv_def filled_secs_def intro: filled_inv)

lemma filled_prios: "prios_ok (filled lim name at occs)"
  unfolding filled_def by (intro record_all_prios) (simp add: prios_ok_def)

lemma filled_section: "occs_ok name occs \<Longrightarrow> e \<in> set (s_errs (filled lim name at occs)) \<Longrightarrow>
    ce_section e = name"
  using filled_inv [of name occs lim at] by (simp add: sec_inv_def filled_def)

lemma length_filter_mono_strict:
  "(b::nat) < p \<Longrightarrow> length (filter (\<lambda>q. q \<le> b) ps) \<le> length (filter (\<lambda>q. q < p) ps)"
  by (induction ps) auto

text \<open>An entry of better than entity priority survives while the better levels fit the ceiling.\<close>

lemma better_level_survives:
  assumes inv: "secs_inv secs" and s: "Some s \<in> set secs" "prios_ok s"
    and e: "e \<in> set (s_errs s)" "ce_kind e \<noteq> KindOther" "ce_kind e \<noteq> KindNone"
    and fits: "ceiling \<le> 0 \<or> int (length (filter (\<lambda>p. p < prioEntity) (all_prios secs))) \<le> ceiling"
  shows "e \<in> set (fst (mergeErrors secs ceiling))"
proof -
  let ?E = "all_errs secs" and ?P = "all_prios secs"
  obtain i where i: "i < length (s_errs s)" "s_errs s ! i = e"
    using e(1) by (auto simp: in_set_conv_nth)
  obtain xs ys where secs: "secs = xs @ Some s # ys" using s(1) by (auto dest: split_list)
  let ?j = "length (all_errs xs) + i"
  have "secs_inv xs" and si: "sec_inv s" using inv by (simp_all add: secs secs_inv_def)
  then have xs: "length (all_prios xs) = length (all_errs xs)" "length (s_prios s) = length (s_errs s)"
    by (simp_all add: all_prios_length sec_inv_def)
  have j: "?j < length ?E" "?E ! ?j = e" "?P ! ?j = s_prios s ! i"
    using i xs by (simp_all add: secs all_errs_def all_prios_def nth_append row_errs_def row_prios_def)
  have better: "?P ! ?j < prioEntity"
    using s(2) i e(2,3) j(3) by (auto simp: prios_ok_def list_all2_conv_all_nth)
  have "rank ?P ?j < length (filter (\<lambda>q. q \<le> ?P ! ?j) ?P)"
    using j(1) all_prios_length [OF inv] by (intro rank_le_all) simp
  also have "\<dots> \<le> length (filter (\<lambda>p. p < prioEntity) ?P)"
    using better by (rule length_filter_mono_strict)
  finally have lt: "rank ?P ?j < length (filter (\<lambda>p. p < prioEntity) ?P)" .
  also have "\<dots> \<le> length ?E" using all_prios_length [OF inv] length_filter_le by metis
  finally have "rank ?P ?j < merge_budget secs ceiling"
    using lt fits by (auto simp: merge_budget_def)
  then show ?thesis
    using j by (auto simp: mergeErrors_out [OF inv] set_nths)
qed

text \<open>
  C2: a budget never evicts an actionable failure for the sake of entity errors. Whatever else a
  section records before or after it, an authorization, unsupported, coordinator or transport
  failure has an entry of its own failure mode in its section; and after the global cap one is
  still in the batch, under its section's name, unless the entries of better than entity
  priority (actionable or request-scoped) alone outnumber the ceiling.
\<close>

theorem actionable_errors_survive:
  assumes "\<forall>(name, at, occs) \<in> set rows. occs_ok name occs"
    and "(name, at, occs) \<in> set rows" "(ce, rs) \<in> set occs"
    and "ce_kind ce \<in> {KindAuthorization, KindUnsupported, KindCoordinator, KindTransport}"
  shows "(\<exists>e \<in> set (s_errs (filled lim name at occs)). keyOf e = keyOf ce) \<and>
    (ceiling \<le> 0 \<or>
     int (length (filter (\<lambda>p. p < prioEntity) (all_prios (filled_secs lim rows)))) \<le> ceiling \<longrightarrow>
     (\<exists>e \<in> set (fst (mergeErrors (filled_secs lim rows) ceiling)).
        keyOf e = keyOf ce \<and> ce_section e = name))"
proof -
  let ?t = "filled lim name at occs"
  have ok: "occs_ok name occs" using assms(1,2) by auto
  then have "has_entry ?t (keyOf ce)"
    using record_all_admits [of "c_newSectionAt lim name at" occs] assms(3,4)
    by (auto simp: filled_def)
  then obtain e where e: "e \<in> set (s_errs ?t)" "keyOf e = keyOf ce" by (auto simp: has_entry_def)
  have "ce_kind e = ce_kind ce" using e(2) keyOf_kind by metis
  then have kind: "ce_kind e \<noteq> KindOther" "ce_kind e \<noteq> KindNone" using assms(4) by auto
  have "Some ?t \<in> set (filled_secs lim rows)"
    using assms(2) by (force simp: filled_secs_def)
  note survives = better_level_survives [OF filled_secs_inv [OF assms(1)] this filled_prios e(1) kind]
  from survives e filled_section [OF ok e(1)] show ?thesis by blast
qed

text \<open>
  C20: the flood of ordinary entity errors stays within the configured budget, and no failure mode
  has more verbatim entries than the configured number of samples.
\<close>

theorem section_budgets:
  assumes "occs_ok name occs"
  shows "int (length (filter (\<lambda>p. p = prioEntity) (s_prios (filled lim name at occs))))
      \<le> perSectionErrorBudget lim \<and>
    int (length (filter (\<lambda>e. keyOf e = k) (s_errs (filled lim name at occs)))) \<le> errorSamples lim"
proof -
  let ?s = "c_newSectionAt lim name at"
  have "samples_ok ?s" by (simp add: samples_ok_def)
  with record_all_samples [of ?s occs] assms have "samples_ok (filled lim name at occs)"
    by (simp add: filled_def)
  with samples_ok_count [OF filled_inv [OF assms]]
  have "int (length (filter (\<lambda>e. keyOf e = k) (s_errs (filled lim name at occs)))) \<le> errorSamples lim"
    by (simp add: key_errs_def filled_def)
  moreover have "0 \<le> perSectionErrorBudget lim" using perSectionErrorBudget_pos [of lim] by simp
  then have "int (length (filter (\<lambda>p. p = prioEntity) (s_prios (filled lim name at occs))))
      \<le> perSectionErrorBudget lim"
    using record_all_entity_budget [of ?s occs] assms by (simp add: filled_def)
  ultimately show ?thesis by blast
qed

text \<open>
  C19: the outcome of one \<open>requestPartial\<close> call on a section that had not failed yet. The answer
  is usable exactly when the call succeeded, some data was decoded, or its shards did not all fail;
  the status is then untouched (success) or partial, so the call never marks as failed or
  unauthorized a section whose data it keeps. With nothing usable the section is unauthorized when
  the cause (one of the shards, or the bare error) is an authorization, and failed otherwise.
\<close>

theorem requestPartial_promise:
  assumes "s_status s < SectionFailed"
  shows "fst (requestPartial kc api err gotData s) =
      (err = None \<or> gotData \<or> (\<exists>e ses. err = Some e \<and> err_shards e = Some (ses, False))) \<and>
    s_status (snd (requestPartial kc api err gotData s)) =
      (case err of
         None \<Rightarrow> s_status s
       | Some e \<Rightarrow>
           if fst (requestPartial kc api err gotData s) then SectionPartial
           else if (case err_shards e of
                      Some (ses, _) \<Rightarrow>
                        \<exists>(node, e') \<in> set ses. fst (classify kc (Some e')) = KindAuthorization
                    | None \<Rightarrow> err_auth e \<noteq> None \<or> fst (classify kc (Some e)) = KindAuthorization)
           then SectionUnauthorized else SectionFailed)"
proof -
  have max: "max (s_status s) SectionPartial = SectionPartial"
    "max (s_status s) SectionFailed = SectionFailed"
    "max (s_status s) SectionUnauthorized = SectionUnauthorized"
    "max (s_status s) SectionOK = s_status s"
    using assms by (cases "s_status s"; simp add: status_order)+
  have auth: "list_ex (shard_auth kc) ses \<longleftrightarrow>
      (\<exists>(node, e') \<in> set ses. fst (classify kc (Some e')) = KindAuthorization)" for ses
    by (force simp: list_ex_iff shard_auth_def)
  show ?thesis
    by (cases err) (auto simp: requestPartial_status request_status_def request_usable_def max auth
        split: option.splits if_splits)
qed

subsection \<open>Worked sections\<close>

text \<open>One sample per failure mode, budget two: five failures of three modes.\<close>

definition wit_lim :: limits where
  "wit_lim = \<lparr>lim_max_errors = 2, lim_max_error_samples = 1\<rparr>"

definition wit_occs :: "occurrence list" where
  "wit_occs = map (\<lambda>(k, c). (wit_error ''topics'' k c, False))
     [(KindOther, 6), (KindOther, 6), (KindOther, 3), (KindOther, 6), (KindAuthorization, 29)]"

lemma wit_occs_ok: "occs_ok ''topics'' wit_occs"
  by (simp add: occs_ok_def wit_occs_def wit_error_def)

lemma wit_occs_length: "length wit_occs = 5"
  by (simp add: wit_occs_def)

lemma wit_filled:
  "length (s_errs (filled wit_lim ''topics'' 0 wit_occs)) = 3"
  "s_dropped (filled wit_lim ''topics'' 0 wit_occs) = \<lparr>tr_collapsed = 2, tr_dropped = 0\<rparr>"
  by code_simp+

text \<open>Budget one: the second and third ordinary mode are refused, one of them twice.\<close>

definition wit_lim1 :: limits where
  "wit_lim1 = \<lparr>lim_max_errors = 1, lim_max_error_samples = 1\<rparr>"

definition wit_flood :: "occurrence list" where
  "wit_flood = map (\<lambda>(k, c). (wit_error ''topics'' k c, False))
     [(KindOther, 6), (KindOther, 3), (KindOther, 3), (KindOther, 9), (KindAuthorization, 29)]"

lemma wit_flood_ok: "occs_ok ''topics'' wit_flood"
  by (simp add: occs_ok_def wit_flood_def wit_error_def)

lemma wit_flood_filled:
  "map (\<lambda>e. (ce_code e, weight e)) (s_errs (filled wit_lim1 ''topics'' 0 wit_flood)) =
     [(6, 1), (29, 1)]"
  "tr_dropped (s_dropped (filled wit_lim1 ''topics'' 0 wit_flood)) = 2"
  by code_simp+

lemma wit_flood_few: "card (modes wit_flood) \<le> maxDistinctErrorKeys"
proof -
  have "card (modes wit_flood) \<le> length wit_flood"
    unfolding modes_def by (metis card_image_le card_length finite_set le_trans)
  then show ?thesis by (simp add: wit_flood_def maxDistinctErrorKeys_def)
qed

theorem record_accounts_for_all_witness:
  "sum_list (map weight (s_errs (filled wit_lim ''topics'' 0 wit_occs))) = 5 \<and>
   card (modes wit_flood - keyOf ` set (s_errs (filled wit_lim1 ''topics'' 0 wit_flood))) = 2 \<and>
   sum_list (map weight (s_errs (filled wit_lim1 ''topics'' 0 wit_flood))) = 2 \<and>
   length (filter (\<lambda>(ce, rs). keyOf ce \<notin> keyOf ` set (s_errs (filled wit_lim1 ''topics'' 0 wit_flood)))
     wit_flood) = 3"
proof -
  have "sum_list (map weight (s_errs (filled wit_lim1 ''topics'' 0 wit_flood))) =
      sum_list (map snd (map (\<lambda>e. (ce_code e, weight e)) (s_errs (filled wit_lim1 ''topics'' 0 wit_flood))))"
    by (simp add: comp_def)
  also have "\<dots> = 2" by (simp add: wit_flood_filled)
  finally have w: "sum_list (map weight (s_errs (filled wit_lim1 ''topics'' 0 wit_flood))) = 2" .
  have "length wit_flood = 5" by (simp add: wit_flood_def)
  with record_accounts_for_all [OF wit_occs_ok, of wit_lim 0] wit_filled wit_occs_length
    record_accounts_for_all [OF wit_flood_ok, of wit_lim1 0] wit_flood_few wit_flood_filled(2) w
  show ?thesis by (simp del: modes_def)
qed

text \<open>Beside a second section, under a global cap of two of the three entries.\<close>

definition wit_rows :: "(string \<times> gotime \<times> occurrence list) list" where
  "wit_rows = [(''cluster'', 0, [(wit_error ''cluster'' KindOther 6, False)]), (''topics'', 0, wit_flood)]"

lemma wit_rows_prios: "all_prios (filled_secs wit_lim1 wit_rows) = [5, 5, 1]"
  by code_simp

theorem actionable_errors_survive_witness:
  "\<exists>e \<in> set (fst (mergeErrors (filled_secs wit_lim1 wit_rows) 2)).
     keyOf e = keyOf (wit_error ''topics'' KindAuthorization 29) \<and> ce_section e = ''topics''"
proof -
  have ok: "\<forall>(name, at, occs) \<in> set wit_rows. occs_ok name occs"
    using wit_flood_ok by (simp add: wit_rows_def wit_error_def)
  have row: "(''topics'', 0, wit_flood) \<in> set wit_rows" by (simp add: wit_rows_def)
  have occ: "(wit_error ''topics'' KindAuthorization 29, False) \<in> set wit_flood"
    by (simp add: wit_flood_def)
  have kind: "ce_kind (wit_error ''topics'' KindAuthorization 29)
      \<in> {KindAuthorization, KindUnsupported, KindCoordinator, KindTransport}"
    by (simp add: wit_error_def)
  show ?thesis
    using actionable_errors_survive [OF ok row occ kind, of wit_lim1 2]
    by (simp add: wit_rows_prios prioEntity_def)
qed

theorem section_budgets_witness:
  "int (length (filter (\<lambda>p. p = prioEntity) (s_prios (filled wit_lim ''topics'' 0 wit_occs)))) \<le> 2"
  using section_budgets [OF wit_occs_ok, of wit_lim 0]
  by (simp add: wit_lim_def perSectionErrorBudget_def)

text \<open>A bare authorization failure beside decoded data leaves the section partial.\<close>

definition wit_codes :: kerr_codes where
  "wit_codes n =
     (case n of TopicAuthorizationFailed \<Rightarrow> 29 | GroupAuthorizationFailed \<Rightarrow> 30
      | ClusterAuthorizationFailed \<Rightarrow> 31 | TransactionalIDAuthorizationFailed \<Rightarrow> 53
      | DelegationTokenAuthorizationFailed \<Rightarrow> 65 | CoordinatorNotAvailable \<Rightarrow> 15
      | NotCoordinator \<Rightarrow> 16 | CoordinatorLoadInProgress \<Rightarrow> 14
      | UnsupportedVersion \<Rightarrow> 35 | UnsupportedForMessageFormat \<Rightarrow> 43)"

definition wit_auth_err :: goerr where
  "wit_auth_err = GoErr None None (Some 29) False False False ''TOPIC_AUTHORIZATION_FAILED''"

theorem requestPartial_promise_witness:
  "s_status (snd (requestPartial wit_codes ''ListOffsets'' (Some wit_auth_err) True
     (c_newSectionAt wit_lim ''offsets'' 0))) = SectionPartial \<and>
   s_status (snd (requestPartial wit_codes ''ListOffsets'' (Some wit_auth_err) False
     (c_newSectionAt wit_lim ''offsets'' 0))) = SectionUnauthorized"
proof -
  have fresh: "s_status (c_newSectionAt wit_lim ''offsets'' 0) < SectionFailed"
    by (simp add: less_section_status_def)
  have auth: "err_shards wit_auth_err = None"
    "fst (classify wit_codes (Some wit_auth_err)) = KindAuthorization"
    by code_simp+
  show ?thesis
    using requestPartial_promise [OF fresh, of wit_codes "''ListOffsets''" "Some wit_auth_err" True]
      requestPartial_promise [OF fresh, of wit_codes "''ListOffsets''" "Some wit_auth_err" False]
    by (simp add: auth)
qed

end
