(* ===== verification/Topic_Filter.thy ===== *)
theory Topic_Filter
  imports Section_Props
begin

text \<open>
  \<open>Options\<close> of \<open>src/internal/collector/collector.go\<close>, and the selection filters of
  \<open>src/internal/collector/filter.go\<close> with their paired startup check,
  \<open>validatePattern\<close> of \<open>src/internal/config/config.go\<close>.

  The regular expression engine is a parameter \<open>re\<close>: \<open>re p\<close> is \<open>regexp.Compile(p)\<close>, \<open>None\<close> for
  an error and otherwise the \<open>MatchString\<close> of the result. \<open>regexp_ok\<close> states what the code
  relies on. Error texts are the constructors of \<open>filter_error\<close>.
\<close>

subsection \<open>Options\<close>

record options =
  op_timeout :: duration
  op_include_internal :: bool
  op_topic_include :: "string list"
  op_topic_exclude :: "string list"
  op_group_include :: "string list"
  op_group_exclude :: "string list"
  op_group_states :: "string list"
  op_consumer_groups :: bool
  op_last_stable :: bool
  op_log_dirs :: bool
  op_log_dirs_every :: int
  op_window :: bool
  op_window_width :: duration
  op_window_every :: int
  op_max_timestamp :: bool
  op_tiered :: bool
  op_latest_tiered :: bool
  op_share_groups :: bool
  op_configs :: bool
  op_configs_every :: int
  op_max_timestamp_every :: int
  op_reassignments :: bool
  op_epoch_probes :: bool
  op_limits :: limits

subsection \<open>Patterns\<close>

datatype filter_error =
    FilterInclude filter_error
  | FilterExclude filter_error
  | FilterEntry string filter_error
  | EmptyRegex
  | InvalidRegex
  | CompileError

type_synonym matcher = "string \<Rightarrow> bool"

type_synonym regexp_engine = "string \<Rightarrow> matcher option"

text \<open>\<open>regexp.QuoteMeta\<close> of the standard library: a backslash before each of the special bytes.\<close>

definition backslash :: char where "backslash = CHR 0x5C"

definition special_bytes :: string where
  "special_bytes = backslash # ''.+*?()|[]{}^$''"

definition quoteMeta :: "string \<Rightarrow> string" where
  "quoteMeta s = concat (map (\<lambda>c. if c \<in> set special_bytes then [backslash, c] else [c]) s)"

definition literal_pattern :: "string \<Rightarrow> string" where
  "literal_pattern s = ''^'' @ quoteMeta s @ ''$''"

definition ascii :: "string \<Rightarrow> bool" where
  "ascii s \<longleftrightarrow> (\<forall>c \<in> set s. (of_char c :: nat) < 128)"

text \<open>
  The engine's documented behaviour on an escaped, anchored literal: it compiles, and matches
  that literal and nothing else. (A pattern that is not valid UTF-8 does not compile, hence
  \<open>ascii\<close>.)
\<close>

definition regexp_ok :: "regexp_engine \<Rightarrow> bool" where
  "regexp_ok re \<longleftrightarrow>
     (\<forall>s. ascii s \<longrightarrow> (\<exists>m. re (literal_pattern s) = Some m \<and> (\<forall>n. m n \<longleftrightarrow> n = s)))"

definition regexBody :: "string \<Rightarrow> string option" where
  "regexBody entry =
     (if length entry \<ge> 2 \<and> prefix ''/'' entry \<and> suffix ''/'' entry
      then Some (take (length entry - 2) (drop 1 entry)) else None)"

definition compilePattern :: "regexp_engine \<Rightarrow> string \<Rightarrow> filter_error + matcher" where
  "compilePattern re entry =
     (case regexBody entry of
        Some body \<Rightarrow>
          (if body = [] then Inl EmptyRegex
           else case re body of None \<Rightarrow> Inl InvalidRegex | Some m \<Rightarrow> Inr m)
      | None \<Rightarrow>
          (case re (literal_pattern entry) of None \<Rightarrow> Inl CompileError | Some m \<Rightarrow> Inr m))"

fun compilePatterns :: "regexp_engine \<Rightarrow> string list \<Rightarrow> filter_error + matcher list" where
  "compilePatterns re [] = Inr []"
| "compilePatterns re (entry # rest) =
     (case compilePattern re entry of
        Inl err \<Rightarrow> Inl (FilterEntry entry err)
      | Inr m \<Rightarrow>
          (case compilePatterns re rest of
             Inl err \<Rightarrow> Inl err
           | Inr ms \<Rightarrow> Inr (m # ms)))"

record rx_filter =
  f_include :: "matcher list"
  f_exclude :: "matcher list"

definition newFilter ::
    "regexp_engine \<Rightarrow> string list \<Rightarrow> string list \<Rightarrow> filter_error + rx_filter" where
  "newFilter re incl excl =
     (case compilePatterns re incl of
        Inl err \<Rightarrow> Inl (FilterInclude err)
      | Inr ims \<Rightarrow>
          (case compilePatterns re excl of
             Inl err \<Rightarrow> Inl (FilterExclude err)
           | Inr ems \<Rightarrow> Inr \<lparr>f_include = ims, f_exclude = ems\<rparr>))"

fun matchAny :: "matcher list \<Rightarrow> string \<Rightarrow> bool" where
  "matchAny [] name = False"
| "matchAny (m # ms) name = (if m name then True else matchAny ms name)"

text \<open>A nil filter is \<open>None\<close>.\<close>

definition allow :: "rx_filter option \<Rightarrow> string \<Rightarrow> bool" where
  "allow fo name =
     (case fo of
        None \<Rightarrow> True
      | Some f \<Rightarrow>
          (if length (f_include f) > 0 \<and> \<not> matchAny (f_include f) name then False
           else \<not> matchAny (f_exclude f) name))"

definition isInternalGroup :: "string \<Rightarrow> bool" where
  "isInternalGroup gid \<longleftrightarrow> prefix ''__'' gid"

definition selection_of :: "options \<Rightarrow> selection option" where
  "selection_of op =
     (let sel = \<lparr>sel_topic_include = op_topic_include op, sel_topic_exclude = op_topic_exclude op,
                 sel_group_include = op_group_include op, sel_group_exclude = op_group_exclude op,
                 sel_group_states = op_group_states op,
                 sel_include_internal = op_include_internal op\<rparr>
      in if length (sel_topic_include sel) = 0 \<and> length (sel_topic_exclude sel) = 0 \<and>
            length (sel_group_include sel) = 0 \<and> length (sel_group_exclude sel) = 0 \<and>
            length (sel_group_states sel) = 0 \<and> \<not> sel_include_internal sel
         then None else Some sel)"

text \<open>The startup check of the configuration, which only decides whether the entry compiles.\<close>

definition validatePattern :: "regexp_engine \<Rightarrow> string \<Rightarrow> filter_error option" where
  "validatePattern re entry =
     (if length entry < 2 \<or> \<not> prefix ''/'' entry \<or> \<not> suffix ''/'' entry then None
      else let body = take (length entry - 2) (drop 1 entry)
           in if body = [] then Some EmptyRegex
              else case re body of None \<Rightarrow> Some InvalidRegex | Some _ \<Rightarrow> None)"

subsection \<open>What an entry matches\<close>

definition entry_matches :: "regexp_engine \<Rightarrow> string \<Rightarrow> string \<Rightarrow> bool" where
  "entry_matches re entry name =
     (case regexBody entry of
        Some body \<Rightarrow> (case re body of None \<Rightarrow> False | Some m \<Rightarrow> m name)
      | None \<Rightarrow> name = entry)"

lemma matchAny_iff: "matchAny ms name \<longleftrightarrow> (\<exists>m \<in> set ms. m name)"
  by (induction ms) auto

lemma compilePattern_matches:
  assumes "regexp_ok re" "ascii entry" "compilePattern re entry = Inr m"
  shows "m name \<longleftrightarrow> entry_matches re entry name"
proof (cases "regexBody entry")
  case None
  obtain m' where "re (literal_pattern entry) = Some m'" "\<forall>n. m' n \<longleftrightarrow> n = entry"
    using assms(1,2) by (auto simp: regexp_ok_def)
  with None assms(3) show ?thesis by (simp add: compilePattern_def entry_matches_def)
next
  case (Some body)
  with assms(3) show ?thesis
    by (auto simp: compilePattern_def entry_matches_def split: if_splits option.splits)
qed

lemma compilePatterns_matches:
  assumes "regexp_ok re"
  shows "\<forall>e \<in> set es. ascii e \<Longrightarrow> compilePatterns re es = Inr ms \<Longrightarrow>
    length ms = length es \<and> (matchAny ms name \<longleftrightarrow> (\<exists>e \<in> set es. entry_matches re e name))"
proof (induction es arbitrary: ms)
  case Nil
  then show ?case by simp
next
  case (Cons e es)
  then obtain m ms' where "compilePattern re e = Inr m" "compilePatterns re es = Inr ms'"
    "ms = m # ms'" by (auto split: sum.splits)
  with Cons compilePattern_matches [OF assms, of e m name] show ?case by auto
qed

lemma regexBody_None_iff:
  "regexBody entry = None \<longleftrightarrow> length entry < 2 \<or> \<not> prefix ''/'' entry \<or> \<not> suffix ''/'' entry"
  by (auto simp: regexBody_def)

lemma validatePattern_eq:
  "validatePattern re entry =
     (case regexBody entry of
        None \<Rightarrow> None
      | Some body \<Rightarrow>
          if body = [] then Some EmptyRegex
          else case re body of None \<Rightarrow> Some InvalidRegex | Some _ \<Rightarrow> None)"
  unfolding validatePattern_def regexBody_def Let_def by auto

subsection \<open>Properties\<close>

text \<open>
  C21: a name survives a filter exactly when the include list is empty or one of its entries
  matches, and no exclude entry matches; an entry is the literal name unless it is wrapped in
  slashes. Exclude always wins, and nothing in a literal acts as a metacharacter.
\<close>

theorem allow_spec:
  assumes "regexp_ok re" "\<forall>e \<in> set incl \<union> set excl. ascii e" "newFilter re incl excl = Inr f"
  shows "allow (Some f) name \<longleftrightarrow>
    (incl = [] \<or> (\<exists>e \<in> set incl. entry_matches re e name)) \<and>
    \<not> (\<exists>e \<in> set excl. entry_matches re e name)"
proof -
  obtain ims ems where c: "compilePatterns re incl = Inr ims" "compilePatterns re excl = Inr ems"
    and f: "f = \<lparr>f_include = ims, f_exclude = ems\<rparr>"
    using assms(3) by (auto simp: newFilter_def split: sum.splits)
  have "length ims = length incl"
    "matchAny ims name \<longleftrightarrow> (\<exists>e \<in> set incl. entry_matches re e name)"
    "matchAny ems name \<longleftrightarrow> (\<exists>e \<in> set excl. entry_matches re e name)"
    using compilePatterns_matches [OF assms(1) _ c(1)]
      compilePatterns_matches [OF assms(1) _ c(2)] assms(2) by auto
  with f show ?thesis by (auto simp: allow_def)
qed

text \<open>
  The configuration's startup check and the collector's compiler agree on every entry, so an
  entry accepted at startup never fails the construction of a collector, and one refused would.
\<close>

theorem validatePattern_agrees:
  assumes "regexp_ok re" "ascii entry"
  shows "validatePattern re entry = None \<longleftrightarrow> (\<exists>m. compilePattern re entry = Inr m)"
proof -
  have "\<exists>m. re (literal_pattern entry) = Some m"
    using assms by (auto simp: regexp_ok_def)
  then show ?thesis
    by (auto simp: validatePattern_eq compilePattern_def split: option.splits)
qed

subsection \<open>A concrete engine\<close>

text \<open>
  It understands escaped, anchored literals, and takes every other pattern for a substring.
\<close>

fun unquote :: "string \<Rightarrow> string" where
  "unquote [] = []"
| "unquote [c] = [c]"
| "unquote (c # d # s) = (if c = backslash then d # unquote s else c # unquote (d # s))"

lemma unquote_Cons: "c \<noteq> backslash \<Longrightarrow> unquote (c # s) = c # unquote s"
  by (cases s) auto

lemma unquote_quoteMeta: "unquote (quoteMeta s) = s"
proof (induction s)
  case Nil
  then show ?case by (simp add: quoteMeta_def)
next
  case (Cons c s)
  have q: "quoteMeta (c # s) = (if c \<in> set special_bytes then [backslash, c] else [c]) @ quoteMeta s"
    by (simp add: quoteMeta_def)
  have "c \<noteq> backslash" if "c \<notin> set special_bytes"
    using that by (auto simp: special_bytes_def)
  with Cons q show ?case by (simp add: unquote_Cons)
qed

definition wit_re :: regexp_engine where
  "wit_re p =
     (if length p \<ge> 2 \<and> hd p = CHR ''^'' \<and> last p = CHR ''$''
      then Some (\<lambda>n. n = unquote (butlast (tl p))) else Some (\<lambda>n. sublist p n))"

lemma wit_re_ok: "regexp_ok wit_re"
  unfolding regexp_ok_def
proof (intro allI impI)
  fix s
  have "wit_re (literal_pattern s) = Some (\<lambda>n. n = s)"
    by (simp add: wit_re_def literal_pattern_def unquote_quoteMeta butlast_append)
  then show "\<exists>m. wit_re (literal_pattern s) = Some m \<and> (\<forall>n. m n \<longleftrightarrow> n = s)" by blast
qed

definition wit_filter :: rx_filter where
  "wit_filter =
     (case newFilter wit_re [''orders.events'', ''/pay/''] [''payments''] of
        Inl _ \<Rightarrow> \<lparr>f_include = [], f_exclude = []\<rparr> | Inr f \<Rightarrow> f)"

lemma wit_filter: "newFilter wit_re [''orders.events'', ''/pay/''] [''payments''] = Inr wit_filter"
proof -
  have "case newFilter wit_re [''orders.events'', ''/pay/''] [''payments''] of
      Inl _ \<Rightarrow> False | Inr _ \<Rightarrow> True"
    by code_simp
  then show ?thesis by (auto simp: wit_filter_def split: sum.splits)
qed

theorem allow_spec_witness:
  "allow (Some wit_filter) ''orders.events'' \<and> \<not> allow (Some wit_filter) ''ordersXevents'' \<and>
   allow (Some wit_filter) ''payroll'' \<and> \<not> allow (Some wit_filter) ''payments''"
proof -
  have "\<forall>e \<in> set [''orders.events'', ''/pay/''] \<union> set [''payments'']. ascii e"
    by code_simp
  note spec = allow_spec [OF wit_re_ok this wit_filter]
  have m: "entry_matches wit_re ''orders.events'' ''orders.events''"
    "\<not> entry_matches wit_re ''payments'' ''orders.events''"
    "\<not> entry_matches wit_re ''orders.events'' ''ordersXevents''"
    "\<not> entry_matches wit_re ''/pay/'' ''ordersXevents''"
    "entry_matches wit_re ''/pay/'' ''payroll''"
    "\<not> entry_matches wit_re ''payments'' ''payroll''"
    "entry_matches wit_re ''payments'' ''payments''"
    by code_simp+
  then show ?thesis by (simp add: spec)
qed

theorem validatePattern_agrees_witness:
  "validatePattern wit_re ''//'' \<noteq> None \<and> \<not> (\<exists>m. compilePattern wit_re ''//'' = Inr m) \<and>
   (\<exists>m. compilePattern wit_re ''/'' = Inr m)"
proof -
  have a: "ascii ''//''" "ascii ''/''" by code_simp+
  have "validatePattern wit_re ''//'' = Some EmptyRegex" "validatePattern wit_re ''/'' = None"
    by code_simp+
  with validatePattern_agrees [OF wit_re_ok a(1)] validatePattern_agrees [OF wit_re_ok a(2)]
  show ?thesis by simp
qed

end
