(* ===== verification/Phase_Base.thy ===== *)
theory Phase_Base
  imports Topic_Filter
begin

text \<open>
  What every phase of \<open>src/internal/collector\<close> works with: the collector's fixed state (\<open>New\<close> in
  \<open>collector.go\<close>), the answers of the Kafka client as data, and \<open>nullableOffset\<close>.

  A \<open>kadm\<close> response is the data the code reads off it. A \<open>kadm\<close> map is an association list; a map
  the code only reads through \<open>Sorted()\<close> is the list \<open>Sorted()\<close> returns. The client's methods are
  arguments of the phases that call them: functions from the request's arguments to the response
  and its error. The context a call takes is not modelled: cancelling it shows as the call's error.

  The clock is a function from a section's name to the instants at which the section is started
  and stopped. \<open>cn_codes\<close> are the package variables of \<open>kerr\<close> the classification compares with.
\<close>

subsection \<open>The collector\<close>

record collector =
  cn_opts :: options
  cn_topics :: "rx_filter option"
  cn_groups :: "rx_filter option"
  cn_limits :: limits
  cn_codes :: kerr_codes
  cn_clock :: "string \<Rightarrow> gotime \<times> gotime"

definition newCollector ::
    "regexp_engine \<Rightarrow> kerr_codes \<Rightarrow> (string \<Rightarrow> gotime \<times> gotime) \<Rightarrow> options \<Rightarrow>
     filter_error + collector" where
  "newCollector re kc clk op =
     (case newFilter re (op_topic_include op) (op_topic_exclude op) of
        Inl err \<Rightarrow> Inl err
      | Inr topics \<Rightarrow>
          (case newFilter re (op_group_include op) (op_group_exclude op) of
             Inl err \<Rightarrow> Inl err
           | Inr groups \<Rightarrow>
               Inr \<lparr>cn_opts = op, cn_topics = Some topics, cn_groups = Some groups,
                    cn_limits = op_limits op, cn_codes = kc, cn_clock = clk\<rparr>))"

definition newSection :: "collector \<Rightarrow> string \<Rightarrow> sect" where
  "newSection c name = c_newSectionAt (cn_limits c) name (fst (cn_clock c name))"

definition stopSection :: "collector \<Rightarrow> sect \<Rightarrow> sect" where
  "stopSection c s = stop (snd (cn_clock c (s_name s))) s"

lemma newSection_fields [simp]:
  "s_name (newSection c name) = name" "s_lim (newSection c name) = cn_limits c"
  "s_status (newSection c name) = SectionOK" "s_errs (newSection c name) = []"
  "s_dropped (newSection c name) = no_truncation" "s_truncated (newSection c name) = False"
  by (simp_all add: newSection_def)

lemma newSection_inv [simp, sec_intros]: "sec_inv (newSection c name)"
  by (simp add: newSection_def)

lemma stopSection_fields [simp]:
  "s_name (stopSection c s) = s_name s" "s_status (stopSection c s) = s_status s"
  "s_lim (stopSection c s) = s_lim s" "s_errs (stopSection c s) = s_errs s"
  "s_dropped (stopSection c s) = s_dropped s" "s_truncated (stopSection c s) = s_truncated s"
  "s_started (stopSection c s) = s_started s"
  by (simp_all add: stopSection_def stop_def)

lemma stopSection_ext [simp, sec_intros]: "sec_ext s (stopSection c s)"
  by (simp add: sec_ext_def) (simp add: stopSection_def)

text \<open>
  What a phase owes the batch: a section that bears its name and satisfies the section invariant.
\<close>

definition phase_section :: "string \<Rightarrow> sect \<Rightarrow> bool" where
  "phase_section name s \<longleftrightarrow> s_name s = name \<and> sec_inv s"

lemma phase_sectionI: "sec_ext (newSection c name) s \<Longrightarrow> phase_section name s"
  by (auto simp: phase_section_def sec_ext_def)

lemma phase_section_stop [simp]: "phase_section name (stopSection c s) = phase_section name s"
  by (simp add: phase_section_def) (simp add: stopSection_def)

lemma phase_section_ext: "phase_section name s \<Longrightarrow> sec_ext s t \<Longrightarrow> phase_section name t"
  by (auto simp: phase_section_def sec_ext_def)

lemma phase_section_downgrade [simp]: "phase_section name (downgrade st s) = phase_section name s"
  by (simp add: phase_section_def)

lemma phase_section_steps [simp, sec_intros]:
  "phase_section name s \<Longrightarrow> phase_section name (snd (request kc api err s))"
  "phase_section name s \<Longrightarrow> phase_section name (snd (requestPartial kc api err g s))"
  "phase_section name s \<Longrightarrow> phase_section name (recordTopic kc api t e s)"
  "phase_section name s \<Longrightarrow> phase_section name (recordPartition kc api t pid e s)"
  "phase_section name s \<Longrightarrow> phase_section name (recordLogDir kc api b d e s)"
  "phase_section name s \<Longrightarrow> phase_section name (recordGroup kc api g' e s)"
  by (auto intro: phase_section_ext)

lemma phase_section_new [simp]: "phase_section name (newSection c name)"
  by (simp add: phase_section_def)

subsection \<open>Nullable offsets\<close>

definition nullableOffset :: "int64 \<Rightarrow> goerr option \<Rightarrow> int64 option" where
  "nullableOffset v err = (if err \<noteq> None \<or> v < 0 then None else Some v)"

lemma nullableOffset_Some: "nullableOffset v err = Some n \<longleftrightarrow> err = None \<and> 0 \<le> v \<and> n = v"
  by (auto simp: nullableOffset_def)

lemma nullableOffset_nonneg: "nullableOffset v err = Some n \<Longrightarrow> 0 \<le> n"
  by (auto simp: nullableOffset_Some)

definition nonneg_opt :: "int64 option \<Rightarrow> bool" where
  "nonneg_opt v \<longleftrightarrow> (case v of None \<Rightarrow> True | Some n \<Rightarrow> 0 \<le> n)"

lemma nonneg_opt_simps [simp]:
  "nonneg_opt None" "nonneg_opt (Some n) \<longleftrightarrow> 0 \<le> n" "nonneg_opt (nullableOffset v err)"
  by (simp_all add: nonneg_opt_def nullableOffset_def)

subsection \<open>Answers of the client\<close>

record partition_detail =
  pd_partition :: int32
  pd_leader :: int32
  pd_leader_epoch :: int32
  pd_replicas :: "int32 list"
  pd_isr :: "int32 list"
  pd_offline :: "int32 list"
  pd_err :: "goerr option"

text \<open>\<open>td_id = None\<close> is the zero topic id; otherwise its \<open>String()\<close>.\<close>

record topic_detail =
  td_topic :: string
  td_id :: "string option"
  td_internal :: bool
  td_partitions :: "partition_detail list"
  td_err :: "goerr option"

text \<open>\<open>kadm.TopicDetails\<close> in \<open>Sorted()\<close> order; the nil map is \<open>None\<close>.\<close>

type_synonym topic_details = "topic_detail list option"

record listed_offset =
  lo_topic :: string
  lo_partition :: int32
  lo_timestamp :: int64
  lo_offset :: int64
  lo_leader_epoch :: int32
  lo_err :: "goerr option"

type_synonym listed_offsets = "(string \<times> (int32 \<times> listed_offset) list) list"

definition listed_lookup :: "listed_offsets \<Rightarrow> string \<Rightarrow> int32 \<Rightarrow> listed_offset option" where
  "listed_lookup listed topic pid =
     (case map_of listed topic of None \<Rightarrow> None | Some ps \<Rightarrow> map_of ps pid)"

text \<open>A call that lists offsets for some topics: response and error.\<close>

type_synonym list_call = "string list \<Rightarrow> listed_offsets \<times> goerr option"

text \<open>The requests a phase issues, in order: the API's name and the topics or entities it names.\<close>

type_synonym issued = "(string \<times> string list) list"

text \<open>
  \<open>selectTopics\<close> (\<open>metadata.go\<close>): the internal-topic rule and the filter over \<open>Sorted()\<close>.
\<close>

definition selectTopics :: "topic_detail list \<Rightarrow> rx_filter option \<Rightarrow> bool \<Rightarrow> topic_detail list" where
  "selectTopics tds f includeInternal =
     filter (\<lambda>td. \<not> (td_internal td \<and> \<not> includeInternal) \<and> allow f (td_topic td)) tds"

definition selected :: "collector \<Rightarrow> topic_details \<Rightarrow> topic_detail list" where
  "selected c tds = (case tds of None \<Rightarrow> [] | Some l \<Rightarrow>
     selectTopics l (cn_topics c) (op_include_internal (cn_opts c)))"

definition internalTopics :: "topic_details \<Rightarrow> string list" where
  "internalTopics tds =
     (case tds of None \<Rightarrow> [] | Some l \<Rightarrow> map td_topic (filter td_internal l))"

end
