(* ===== verification/Strconv.thy ===== *)
theory Strconv
  imports Prelude
begin

text \<open>
  The functions of Go's \<open>strconv\<close> and \<open>strings\<close> that several components use: printing and parsing
  decimal integers, booleans, trimming, splitting at commas. Strings are bytes.
\<close>

subsection \<open>Integers\<close>

definition math_MaxInt64 :: int where "math_MaxInt64 = 2 ^ 63 - 1"
definition math_MinInt64 :: int where "math_MinInt64 = - (2 ^ 63)"

definition digit_char :: "nat \<Rightarrow> char" where "digit_char n = char_of (48 + n)"

definition is_digit :: "char \<Rightarrow> bool" where
  "is_digit c \<longleftrightarrow> 48 \<le> (of_char c :: nat) \<and> (of_char c :: nat) \<le> 57"

definition digit_value :: "char \<Rightarrow> nat" where "digit_value c = of_char c - 48"

fun digits :: "nat \<Rightarrow> string" where
  "digits n = (if n < 10 then [digit_char n] else digits (n div 10) @ [digit_char (n mod 10)])"

declare digits.simps [simp del]

text \<open>\<open>%d\<close>, \<open>strconv.FormatInt(n, 10)\<close>.\<close>

definition show_int :: "int \<Rightarrow> string" where
  "show_int n = (if n < 0 then CHR ''-'' # digits (nat (- n)) else digits (nat n))"

definition value_of_digits :: "string \<Rightarrow> nat" where
  "value_of_digits s = foldl (\<lambda>n c. n * 10 + digit_value c) 0 s"

definition parse_nat :: "string \<Rightarrow> nat option" where
  "parse_nat s = (if s \<noteq> [] \<and> list_all is_digit s then Some (value_of_digits s) else None)"

text \<open>\<open>strconv.Atoi\<close>: an optional sign, digits, and the range of a 64-bit int. Its errors are
  one value.\<close>

definition atoi :: "string \<Rightarrow> int option" where
  "atoi s =
     (let (neg, ds) = (case s of
            c # r \<Rightarrow> if c = CHR ''-'' then (True, r) else if c = CHR ''+'' then (False, r) else (False, s)
          | [] \<Rightarrow> (False, s))
      in case parse_nat ds of
           None \<Rightarrow> None
         | Some n \<Rightarrow>
             (let v = (if neg then - int n else int n)
              in if math_MinInt64 \<le> v \<and> v \<le> math_MaxInt64 then Some v else None))"

text \<open>\<open>strconv.ParseBool\<close>.\<close>

definition parse_bool :: "string \<Rightarrow> bool option" where
  "parse_bool s =
     (if s \<in> set [''1'', ''t'', ''T'', ''true'', ''TRUE'', ''True''] then Some True
      else if s \<in> set [''0'', ''f'', ''F'', ''false'', ''FALSE'', ''False''] then Some False
      else None)"

lemma digit_of_char:
  assumes "n < 10"
  shows "is_digit (digit_char n)" "digit_value (digit_char n) = n"
proof -
  have "of_char (digit_char n) = (48 + n :: nat)"
    using assms by (simp add: digit_char_def of_char_of)
  then show "is_digit (digit_char n)" "digit_value (digit_char n) = n"
    using assms by (simp_all add: is_digit_def digit_value_def)
qed

lemma digits_props: "digits n \<noteq> [] \<and> list_all is_digit (digits n) \<and> value_of_digits (digits n) = n"
proof (induction n rule: digits.induct)
  case (1 n)
  show ?case
  proof (cases "n < 10")
    case True
    then have "digits n = [digit_char n]" using digits.simps [of n] by simp
    with True show ?thesis by (simp add: digit_of_char value_of_digits_def)
  next
    case False
    with 1 have "list_all is_digit (digits (n div 10))" "value_of_digits (digits (n div 10)) = n div 10"
      by simp_all
    moreover have "digits n = digits (n div 10) @ [digit_char (n mod 10)]"
      using False digits.simps [of n] by simp
    ultimately show ?thesis by (simp add: digit_of_char value_of_digits_def)
  qed
qed

lemma parse_nat_digits [simp]: "parse_nat (digits n) = Some n"
  using digits_props [of n] by (simp add: parse_nat_def)

lemma digits_sign: "digits n = c # r \<Longrightarrow> c \<noteq> CHR ''-'' \<and> c \<noteq> CHR ''+''"
  using digits_props [of n] by (auto simp: is_digit_def)

lemma atoi_show_int:
  assumes "math_MinInt64 \<le> n" "n \<le> math_MaxInt64"
  shows "atoi (show_int n) = Some n"
proof (cases "n < 0")
  case True
  with assms show ?thesis by (simp add: atoi_def show_int_def Let_def)
next
  case False
  obtain c r where cr: "digits (nat n) = c # r" using digits_props [of "nat n"] by (cases "digits (nat n)") auto
  then have "parse_nat (c # r) = Some (nat n)" using parse_nat_digits [of "nat n"] by simp
  with cr digits_sign [OF cr] False assms show ?thesis
    by (simp add: atoi_def show_int_def Let_def)
qed

lemma atoi_range: "atoi s = Some n \<Longrightarrow> math_MinInt64 \<le> n \<and> n \<le> math_MaxInt64"
  by (auto simp: atoi_def Let_def split: list.splits option.splits if_splits)

subsection \<open>Spaces and lists\<close>

text \<open>The UTF-8 encodings of the runes of \<open>unicode.IsSpace\<close>.\<close>

definition space_runes :: "string list" where
  "space_runes =
     map (map char_of)
       ([[9], [10], [11], [12], [13], [32], [194, 133], [194, 160], [225, 154, 128],
         [226, 128, 168], [226, 128, 169], [226, 128, 175], [226, 129, 159], [227, 128, 128]] @
        map (\<lambda>n. [226, 128, n]) [128 ..< 139 :: nat])"

text \<open>Dropping the listed words from the front of a string as long as one matches.\<close>

definition leading :: "string list \<Rightarrow> string \<Rightarrow> nat" where
  "leading ws s = (case filter (\<lambda>w. w \<noteq> [] \<and> take (length w) s = w) ws of [] \<Rightarrow> 0 | w # _ \<Rightarrow> length w)"

lemma leading_less: "leading ws s \<noteq> 0 \<Longrightarrow> length (drop (leading ws s) s) < length s"
proof -
  assume l: "leading ws s \<noteq> 0"
  then obtain w where "w \<in> set (filter (\<lambda>w. w \<noteq> [] \<and> take (length w) s = w) ws)"
    by (cases "filter (\<lambda>w. w \<noteq> [] \<and> take (length w) s = w) ws") (auto simp: leading_def)
  then have "s \<noteq> []" by auto
  with l show ?thesis by simp
qed

function trim_left :: "string list \<Rightarrow> string \<Rightarrow> string" where
  "trim_left ws s = (if leading ws s = 0 then s else trim_left ws (drop (leading ws s) s))"
  by pat_completeness auto
termination by (relation "measure (\<lambda>(ws, s). length s)") (simp, use leading_less in force)

declare trim_left.simps [simp del]

definition trimSpace :: "string \<Rightarrow> string" where
  "trimSpace s = rev (trim_left (map rev space_runes) (rev (trim_left space_runes s)))"

text \<open>\<open>strings.Split(v, ",")\<close>.\<close>

fun split_commas :: "string \<Rightarrow> string list" where
  "split_commas [] = [[]]"
| "split_commas (c # s) =
     (if c = CHR '','' then [] # split_commas s
      else case split_commas s of p # ps \<Rightarrow> (c # p) # ps | [] \<Rightarrow> [[c]])"

text \<open>\<open>strings.Join(ps, ",")\<close>.\<close>

fun join_commas :: "string list \<Rightarrow> string" where
  "join_commas [] = []"
| "join_commas [p] = p"
| "join_commas (p # q # ps) = p @ CHR '','' # join_commas (q # ps)"

definition splitList :: "string \<Rightarrow> string list" where
  "splitList v = filter (\<lambda>p. p \<noteq> []) (map trimSpace (split_commas v))"

lemma split_commas_ne [simp]: "split_commas s \<noteq> []"
  by (induction s) (auto split: list.splits)

lemma split_commas_part: "CHR '','' \<notin> set p \<Longrightarrow> split_commas p = [p]"
  by (induction p) auto

lemma split_commas_append:
  "CHR '','' \<notin> set p \<Longrightarrow> split_commas (p @ CHR '','' # s) = p # split_commas s"
  by (induction p) auto

lemma split_join:
  "ps \<noteq> [] \<Longrightarrow> \<forall>p \<in> set ps. CHR '','' \<notin> set p \<Longrightarrow> split_commas (join_commas ps) = ps"
  by (induction ps rule: join_commas.induct) (simp_all add: split_commas_part split_commas_append)

lemma trimSpace_idle: "leading space_runes s = 0 \<Longrightarrow> leading (map rev space_runes) (rev s) = 0 \<Longrightarrow>
    trimSpace s = s"
  by (simp add: trimSpace_def trim_left.simps)

text \<open>Printable ASCII at both ends is not trimmed.\<close>

definition solid :: "char \<Rightarrow> bool" where
  "solid ch \<longleftrightarrow> 33 \<le> (of_char ch :: nat) \<and> (of_char ch :: nat) < 128"

lemma space_runes_not_solid:
  "list_all (\<lambda>w. w \<noteq> [] \<and> \<not> solid (hd w) \<and> \<not> solid (last w)) space_runes"
  by code_simp

lemma leading_0: "list_all (\<lambda>w. w \<noteq> [] \<longrightarrow> s = [] \<or> hd w \<noteq> hd s) ws \<Longrightarrow> leading ws s = 0"
proof -
  assume ws: "list_all (\<lambda>w. w \<noteq> [] \<longrightarrow> s = [] \<or> hd w \<noteq> hd s) ws"
  have "\<not> (w \<noteq> [] \<and> take (length w) s = w)" if "w \<in> set ws" for w
  proof
    assume w: "w \<noteq> [] \<and> take (length w) s = w"
    then have "s \<noteq> []" "hd w = hd s" by (auto, metis hd_take length_greater_0_conv)
    with ws that w show False by (auto simp: list_all_iff)
  qed
  then show ?thesis by (simp add: leading_def filter_empty_conv split: list.split)
qed

lemma trimSpace_Nil [simp]: "trimSpace [] = []"
  by (simp add: trimSpace_def trim_left.simps leading_0 list_all_iff)

lemma trimSpace_solid: "solid (hd s) \<Longrightarrow> solid (last s) \<Longrightarrow> trimSpace s = s"
proof (cases "s = []")
  case False
  assume ends: "solid (hd s)" "solid (last s)"
  have "leading space_runes s = 0"
    using space_runes_not_solid ends(1) by (intro leading_0) (auto simp: list_all_iff)
  moreover have "leading (map rev space_runes) (rev s) = 0"
    using space_runes_not_solid ends(2) False
    by (intro leading_0) (auto simp: list_all_iff hd_rev)
  ultimately show ?thesis by (rule trimSpace_idle)
qed simp

text \<open>
  White space around a string is trimmed, whatever runes it is made of: no rune of white space
  begins another one, in either direction, and no later byte of one begins one.
\<close>

definition spaces :: "string list \<Rightarrow> bool" where
  "spaces ws \<longleftrightarrow> list_all (\<lambda>w. w \<in> set space_runes) ws"

definition prefix_free :: "string list \<Rightarrow> bool" where
  "prefix_free ws \<longleftrightarrow> list_all (\<lambda>v. v \<noteq> [] \<and> list_all (\<lambda>w. take (length v) w = v \<longrightarrow> v = w) ws) ws"

lemma space_runes_prefix_free: "prefix_free space_runes" "prefix_free (map rev space_runes)"
  by code_simp+

lemma space_runes_tails:
  "list_all (\<lambda>w. list_all (\<lambda>b. list_all (\<lambda>v. b \<noteq> hd v) space_runes) (tl w)) space_runes"
  by code_simp

lemma space_runes_no_comma: "list_all (\<lambda>w. CHR '','' \<notin> set w) space_runes"
  by code_simp

lemma leading_word:
  assumes "prefix_free ws" "x \<in> set ws"
  shows "leading ws (x @ s) = length x"
proof -
  have x: "x \<in> set (filter (\<lambda>w. w \<noteq> [] \<and> take (length w) (x @ s) = w) ws)"
    using assms by (auto simp: prefix_free_def list_all_iff)
  have "w = x" if w: "w \<in> set ws" "take (length w) (x @ s) = w" for w
  proof (cases "length w \<le> length x")
    case True
    with w have "take (length w) x = w" by simp
    with assms w show ?thesis by (auto simp: prefix_free_def list_all_iff)
  next
    case False
    with w have "take (length x) w = x" by (metis append_eq_conv_conj nat_le_linear take_all take_append take_take min.absorb1)
    with assms w show ?thesis by (auto simp: prefix_free_def list_all_iff)
  qed
  then have only: "\<forall>w \<in> set (filter (\<lambda>w. w \<noteq> [] \<and> take (length w) (x @ s) = w) ws). w = x" by auto
  show ?thesis
  proof (cases "filter (\<lambda>w. w \<noteq> [] \<and> take (length w) (x @ s) = w) ws")
    case Nil
    with x show ?thesis by (simp only: list.set empty_iff)
  next
    case (Cons y ys)
    with only have "y = x" by (simp only: list.set ball_simps)
    with Cons show ?thesis by (simp add: leading_def)
  qed
qed

lemma trim_left_words:
  assumes "prefix_free ws" "set xs \<subseteq> set ws"
  shows "trim_left ws (concat xs @ s) = trim_left ws s"
  using assms(2)
proof (induction xs)
  case (Cons x xs)
  then have x: "x \<in> set ws" "x \<noteq> []" using assms(1) by (auto simp: prefix_free_def list_all_iff)
  with leading_word [OF assms(1) x(1), of "concat xs @ s"] Cons show ?case
    by (simp add: trim_left.simps [of ws "x @ concat xs @ s"])
qed simp

lemma trim_left_length: "length (trim_left ws s) \<le> length s"
proof (induction ws s rule: trim_left.induct)
  case (1 ws s)
  then show ?case by (cases "leading ws s = 0") (auto simp: trim_left.simps [of ws s])
qed

lemma trim_left_id: "trim_left ws s = s \<longleftrightarrow> leading ws s = 0"
proof
  assume id: "trim_left ws s = s"
  show "leading ws s = 0"
  proof (rule ccontr)
    assume l: "leading ws s \<noteq> 0"
    then have "trim_left ws (drop (leading ws s) s) = s"
      using id trim_left.simps [of ws s] by simp
    then have "length s \<le> length (drop (leading ws s) s)"
      using trim_left_length [of ws "drop (leading ws s) s"] by (simp only:)
    with leading_less [OF l] show False by (meson not_le)
  qed
qed (simp add: trim_left.simps)

lemma leading_0_iff: "leading ws s = 0 \<longleftrightarrow> (\<forall>w \<in> set ws. w \<noteq> [] \<longrightarrow> take (length w) s \<noteq> w)"
proof (cases "filter (\<lambda>w. w \<noteq> [] \<and> take (length w) s = w) ws")
  case Nil
  then show ?thesis by (auto simp: leading_def filter_empty_conv)
next
  case (Cons y ys)
  then have "y \<in> set (filter (\<lambda>w. w \<noteq> [] \<and> take (length w) s = w) ws)" by simp
  then have "y \<in> set ws" "y \<noteq> []" "take (length y) s = y" by auto
  with Cons show ?thesis by (auto simp: leading_def)
qed

lemma trimSpace_id:
  assumes "trimSpace p = p"
  shows "leading space_runes p = 0" "leading (map rev space_runes) (rev p) = 0"
proof -
  let ?q = "trim_left space_runes p"
  have "length p \<le> length ?q"
    using arg_cong [OF assms, of length] trim_left_length [of "map rev space_runes" "rev ?q"]
    by (simp add: trimSpace_def)
  then have q: "leading space_runes p = 0"
    using leading_less [of space_runes p] trim_left_length [of space_runes "drop (leading space_runes p) p"]
    by (cases "leading space_runes p = 0") (auto simp: trim_left.simps [of space_runes p])
  then show "leading space_runes p = 0" .
  from q assms show "leading (map rev space_runes) (rev p) = 0"
    using trim_left_id [of "map rev space_runes" "rev p"]
    by (simp add: trimSpace_def trim_left.simps [of space_runes p]) (metis rev_rev_ident)
qed

lemma leading_before_spaces:
  assumes "leading space_runes p = 0" "p \<noteq> []" "spaces r"
  shows "leading space_runes (p @ concat r) = 0"
proof -
  have "take (length w) (p @ concat r) \<noteq> w" if w: "w \<in> set space_runes" "w \<noteq> []" for w
  proof
    assume take: "take (length w) (p @ concat r) = w"
    show False
    proof (cases "length w \<le> length p")
      case True
      with take w assms(1) show False by (simp add: leading_0_iff)
    next
      case False
      then have w': "w = p @ take (length w - length p) (concat r)" using take by simp
      with False have "concat r \<noteq> []" by (metis append_Nil2 le_refl take_Nil)
      then obtain v r' where r: "r = v # r'" by (cases r) auto
      then have v: "v \<in> set space_runes" "v \<noteq> []"
        using assms(3) space_runes_not_solid by (auto simp: spaces_def list_all_iff)
      have "hd v \<in> set (take (length w - length p) (concat r))"
        using False v(2) r by (cases v; cases "length w - length p") auto
      then have "hd v \<in> set (tl (p @ take (length w - length p) (concat r)))"
        unfolding tl_append2 [OF assms(2)] by simp
      then have "hd v \<in> set (tl w)" unfolding w' [symmetric] .
      with v(1) w(1) space_runes_tails show False by (auto simp: list_all_iff)
    qed
  qed
  then show ?thesis unfolding leading_0_iff by blast
qed

lemma trimSpace_padded:
  assumes "spaces l" "spaces r" "trimSpace p = p"
  shows "trimSpace (concat l @ p @ concat r) = p"
proof -
  have l: "trim_left space_runes (concat l @ s) = trim_left space_runes s" for s
    using assms(1) by (intro trim_left_words [OF space_runes_prefix_free(1)])
      (auto simp: spaces_def list_all_iff)
  have r: "trim_left (map rev space_runes) (rev (concat r) @ s) = trim_left (map rev space_runes) s" for s
  proof -
    have "rev (concat r) = concat (rev (map rev r))" by (simp add: rev_concat rev_map)
    then show ?thesis using assms(2)
      by (auto simp: spaces_def list_all_iff
          intro!: trim_left_words [OF space_runes_prefix_free(2)])
  qed
  show ?thesis
  proof (cases "p = []")
    case True
    have "trim_left space_runes (concat r @ []) = trim_left space_runes []"
      using assms(2) by (intro trim_left_words [OF space_runes_prefix_free(1)])
        (auto simp: spaces_def list_all_iff)
    with True l show ?thesis
      using trimSpace_Nil by (simp add: trimSpace_def)
  next
    case False
    have "trim_left space_runes (p @ concat r) = p @ concat r"
      using leading_before_spaces [OF trimSpace_id(1) [OF assms(3)] False assms(2)]
      by (simp add: trim_left_id)
    then show ?thesis
      using l r trimSpace_id(2) [OF assms(3)] by (simp add: trimSpace_def trim_left.simps)
  qed
qed

text \<open>One entry of a list setting: white space, a name, white space.\<close>

type_synonym list_entry = "string list \<times> string \<times> string list"

definition entry_text :: "list_entry \<Rightarrow> string" where
  "entry_text e = (case e of (l, p, r) \<Rightarrow> concat l @ p @ concat r)"

definition entry_ok :: "list_entry \<Rightarrow> bool" where
  "entry_ok e = (case e of (l, p, r) \<Rightarrow>
     spaces l \<and> spaces r \<and> CHR '','' \<notin> set p \<and> trimSpace p = p)"

lemma entry_no_comma: "entry_ok e \<Longrightarrow> CHR '','' \<notin> set (entry_text e)"
  using space_runes_no_comma
  by (auto simp: entry_ok_def entry_text_def spaces_def list_all_iff split: prod.splits)

lemma entry_trim: "entry_ok e \<Longrightarrow> trimSpace (entry_text e) = fst (snd e)"
  by (auto simp: entry_ok_def entry_text_def trimSpace_padded split: prod.splits)

text \<open>The list that a line of padded entries spells is read back, blank entries aside.\<close>

lemma splitList_join:
  assumes "list_all entry_ok es"
  shows "splitList (join_commas (map entry_text es)) = filter (\<lambda>p. p \<noteq> []) (map (\<lambda>e. fst (snd e)) es)"
proof (cases "es = []")
  case True
  then show ?thesis by (simp add: splitList_def)
next
  case False
  have "split_commas (join_commas (map entry_text es)) = map entry_text es"
    using False assms entry_no_comma by (intro split_join) (auto simp: list_all_iff)
  moreover have "map trimSpace (map entry_text es) = map (\<lambda>e. fst (snd e)) es"
    using assms entry_trim by (simp add: list_all_iff)
  ultimately show ?thesis unfolding splitList_def by (simp only:)
qed

end
