(* ===== verification/Export.thy ===== *)
theory Export
  imports Wire Strconv "HOL-Library.Word" "HOL-Library.Sublist"
begin

text \<open>
  \<open>src/internal/export\<close>: \<open>exporter.go\<close>, \<open>stdout.go\<close> and \<open>http.go\<close>. \<open>File_Export\<close> holds \<open>file.go\<close>.

  \<open>json.Marshal\<close> and the gzip writer are parameters, functions to an error text or bytes. An error
  is its text. The HTTP exporter's channel is a list, oldest first; its producer, its worker and
  \<open>Close\<close> are actions on one state, so that a worker's receive may fall between any two selects of
  the producer. \<open>Export\<close> of a nil batch panics when it logs the batch's number: \<open>None\<close>.
\<close>

subsection \<open>Counters\<close>

record counters =
  ct_exported :: uint64
  ct_dropped :: uint64
  ct_rejected :: uint64
  ct_retries :: uint64
  ct_last :: "string option"

definition zero_counters :: counters where
  "zero_counters = \<lparr>ct_exported = 0, ct_dropped = 0, ct_rejected = 0, ct_retries = 0, ct_last = None\<rparr>"

record export_stats =
  st_exported :: uint64
  st_dropped :: uint64
  st_rejected :: uint64
  st_retries :: uint64
  st_queue_depth :: nat
  st_last_error :: string

definition recordError :: "string option \<Rightarrow> counters \<Rightarrow> counters" where
  "recordError err c = (case err of None \<Rightarrow> c | Some e \<Rightarrow> c\<lparr>ct_last := Some e\<rparr>)"

definition counters_snapshot :: "counters \<Rightarrow> export_stats" where
  "counters_snapshot c =
     \<lparr>st_exported = ct_exported c, st_dropped = ct_dropped c, st_rejected = ct_rejected c,
      st_retries = ct_retries c, st_queue_depth = 0,
      st_last_error = (case ct_last c of None \<Rightarrow> [] | Some e \<Rightarrow> e)\<rparr>"

text \<open>\<open>e.dropped.Add(1); e.recordError(err)\<close>.\<close>

definition drop_batch :: "string \<Rightarrow> counters \<Rightarrow> counters" where
  "drop_batch e c = recordError (Some e) (c\<lparr>ct_dropped := ct_dropped c + 1\<rparr>)"

definition count_exported :: "counters \<Rightarrow> counters" where
  "count_exported c = c\<lparr>ct_exported := ct_exported c + 1\<rparr>"

definition settled :: "counters \<Rightarrow> nat" where
  "settled c = ct_exported c + ct_dropped c + ct_rejected c"

lemma settled_simps [simp]:
  "settled (recordError e c) = settled c" "settled (drop_batch e' c) = settled c + 1"
  "settled (count_exported c) = settled c + 1" "settled zero_counters = 0"
  "settled (c\<lparr>ct_retries := n\<rparr>) = settled c"
  by (simp_all add: settled_def recordError_def drop_batch_def count_exported_def zero_counters_def
      split: option.split)

definition ErrQueueFull :: string where "ErrQueueFull = ''export queue full''"
definition ErrClosed :: string where "ErrClosed = ''exporter is closed''"

type_synonym marshal = "batch \<Rightarrow> string + string"

definition encodeLine :: "marshal \<Rightarrow> batch option \<Rightarrow> string + string" where
  "encodeLine marshal batch =
     (case batch of
        None \<Rightarrow> Inl ''nil batch''
      | Some b \<Rightarrow>
          (case marshal b of
             Inl e \<Rightarrow> Inl (''marshal batch: '' @ e)
           | Inr data \<Rightarrow> Inr (data @ [CHR 10])))"

subsection \<open>Choosing an exporter\<close>

record export_config =
  xc_mode :: string
  xc_endpoint :: string
  xc_api_key :: string
  xc_queue_size :: int
  xc_max_retries :: int
  xc_base_delay :: duration
  xc_timeout :: duration
  xc_path :: string
  xc_max_mb :: int
  xc_max_backups :: int
  xc_sync :: bool

datatype export_kind = HTTPKind | FileKind | StdoutKind

datatype export_config_error = NoEndpoint | NoAPIKey | NoExportFile | EmptyMode | UnknownMode string

definition newExporter :: "export_config \<Rightarrow> export_config_error + export_kind" where
  "newExporter cfg =
     (if xc_mode cfg = ''http'' then
        if xc_endpoint cfg = [] then Inl NoEndpoint
        else if xc_api_key cfg = [] then Inl NoAPIKey
        else Inr HTTPKind
      else if xc_mode cfg = ''file'' then
        if xc_path cfg = [] then Inl NoExportFile else Inr FileKind
      else if xc_mode cfg = ''stdout'' then Inr StdoutKind
      else if xc_mode cfg = [] then Inl EmptyMode
      else Inl (UnknownMode (xc_mode cfg)))"

subsection \<open>What every exporter owes the agent\<close>

text \<open>
  The accounting contract: in a state that is \<open>ok\<close>, which it keeps, a call whose context is live
  settles one batch, in the counters or among the batches the exporter still holds; a call whose
  context is done settles none.
\<close>

locale exporter =
  fixes export :: "string option \<Rightarrow> batch \<Rightarrow> 's \<Rightarrow> (string option \<times> 's) option"
    and counters_of :: "'s \<Rightarrow> counters"
    and pending :: "'s \<Rightarrow> nat"
    and ok :: "'s \<Rightarrow> bool"
  assumes export_dead: "export (Some e) b s = Some (Some e, s)"
    and export_live: "ok s \<Longrightarrow> \<exists>err s'. export None b s = Some (err, s') \<and> ok s' \<and>
      settled (counters_of s') + pending s' = settled (counters_of s) + pending s + 1"
begin

fun export_all :: "(string option \<times> batch) list \<Rightarrow> 's \<Rightarrow> 's option" where
  "export_all [] s = Some s"
| "export_all ((ctx, b) # bs) s =
     (case export ctx b s of None \<Rightarrow> None | Some (err, s') \<Rightarrow> export_all bs s')"

lemma export_all_settles:
  assumes "ok s"
  shows "\<exists>s'. export_all calls s = Some s' \<and> ok s' \<and>
     settled (counters_of s') + pending s' =
       settled (counters_of s) + pending s + length (filter (\<lambda>(ctx, b). ctx = None) calls)"
  using assms
proof (induction calls arbitrary: s)
  case (Cons call calls)
  obtain ctx b where call: "call = (ctx, b)" by (cases call)
  show ?case
  proof (cases ctx)
    case None
    obtain err s1 where s1: "export None b s = Some (err, s1)" "ok s1"
      "settled (counters_of s1) + pending s1 = settled (counters_of s) + pending s + 1"
      using export_live [OF Cons.prems] by blast
    with Cons.IH [of s1] call None show ?thesis by auto
  next
    case (Some e)
    with Cons.IH [of s] Cons.prems call show ?thesis by (simp add: export_dead)
  qed
qed simp

end

subsection \<open>Standard output\<close>

text \<open>The writer: what it answers to the next write, and what has been written.\<close>

record stdout_exporter =
  so_counters :: counters
  so_written :: string

definition stdout_export ::
    "marshal \<Rightarrow> (string \<Rightarrow> string option) \<Rightarrow> string option \<Rightarrow> batch option \<Rightarrow> stdout_exporter \<Rightarrow>
     string option \<times> stdout_exporter" where
  "stdout_export marshal wr ctxErr batch e =
     (case ctxErr of
        Some err \<Rightarrow> (Some err, e)
      | None \<Rightarrow>
          (case encodeLine marshal batch of
             Inl err \<Rightarrow> (Some err, e\<lparr>so_counters := drop_batch err (so_counters e)\<rparr>)
           | Inr line \<Rightarrow>
               (case wr line of
                  Some err \<Rightarrow>
                    (Some (''write stdout: '' @ err),
                     e\<lparr>so_counters := drop_batch (''write stdout: '' @ err) (so_counters e)\<rparr>)
                | None \<Rightarrow>
                    (None, e\<lparr>so_counters := count_exported (so_counters e),
                             so_written := so_written e @ line\<rparr>))))"

interpretation stdout_ex: exporter
  "\<lambda>ctx b s. Some (stdout_export marshal wr ctx (Some b) s)" so_counters "\<lambda>_. 0" "\<lambda>_. True"
  for marshal wr
  by unfold_locales (auto simp: stdout_export_def split: option.split sum.split)

subsection \<open>The HTTP exporter\<close>

definition defaultQueueSize :: int where "defaultQueueSize = 20"
definition defaultMaxRetries :: int where "defaultMaxRetries = 3"
definition defaultBaseDelay :: duration where "defaultBaseDelay = 1 * second"
definition defaultHTTPTimeout :: duration where "defaultHTTPTimeout = 10 * second"
definition maxBackoff :: duration where "maxBackoff = 30 * second"
definition maxRetryAfter :: duration where "maxRetryAfter = 5 * minute"
definition maxRetryBudget :: duration where "maxRetryBudget = minute"

record queued =
  qd_body :: string
  qd_seq :: uint64
  qd_collected_at :: gotime
  qd_key :: string

text \<open>Where the producer stands in \<open>Export\<close>: between its three selects it holds the batch.\<close>

datatype producer = Idle | Offering queued | Evicting queued | Resending queued

record http_exporter =
  hx_endpoint :: string
  hx_api_key :: string
  hx_counters :: counters
  hx_queue :: "queued list"
  hx_cap :: nat
  hx_closed :: bool
  hx_max_retries :: int
  hx_base_delay :: duration
  hx_timeout :: duration
  hx_grace :: duration
  hx_budget :: duration
  hx_producer :: producer
  hx_worker :: "queued option"
  hx_exited :: bool

definition NewHTTPExporter :: "export_config \<Rightarrow> http_exporter" where
  "NewHTTPExporter cfg =
     (let timeout = (if xc_timeout cfg \<le> 0 then defaultHTTPTimeout else xc_timeout cfg)
      in \<lparr>hx_endpoint = xc_endpoint cfg, hx_api_key = xc_api_key cfg, hx_counters = zero_counters,
          hx_queue = [],
          hx_cap = nat (if xc_queue_size cfg \<le> 0 then defaultQueueSize else xc_queue_size cfg),
          hx_closed = False,
          hx_max_retries = (if xc_max_retries cfg < 0 then defaultMaxRetries else xc_max_retries cfg),
          hx_base_delay = (if xc_base_delay cfg \<le> 0 then defaultBaseDelay else xc_base_delay cfg),
          hx_timeout = timeout, hx_grace = 2 * timeout, hx_budget = maxRetryBudget,
          hx_producer = Idle, hx_worker = None, hx_exited = False\<rparr>)"

definition encodeBody ::
    "marshal \<Rightarrow> (string \<Rightarrow> string + string) \<Rightarrow> batch option \<Rightarrow> string + string" where
  "encodeBody marshal gz batch =
     (case encodeLine marshal batch of
        Inl e \<Rightarrow> Inl e
      | Inr data \<Rightarrow> (case gz data of Inl e \<Rightarrow> Inl (''gzip batch: '' @ e) | Inr z \<Rightarrow> Inr z))"

definition idempotencyKey :: "batch \<Rightarrow> string" where
  "idempotencyKey b =
     (if ba_instance_id b = [] then ''unknown'' else ba_instance_id b) @ ''-'' @ digits (ba_seq b)"

definition queued_of :: "string \<Rightarrow> batch \<Rightarrow> queued" where
  "queued_of body b =
     \<lparr>qd_body = body, qd_seq = ba_seq b, qd_collected_at = ba_collected_at b,
      qd_key = idempotencyKey b\<rparr>"

text \<open>The non-blocking send and the non-blocking receive of the producer.\<close>

definition try_send :: "queued \<Rightarrow> http_exporter \<Rightarrow> bool \<times> http_exporter" where
  "try_send q e =
     (if length (hx_queue e) < hx_cap e then (True, e\<lparr>hx_queue := hx_queue e @ [q]\<rparr>) else (False, e))"

definition evict :: "http_exporter \<Rightarrow> http_exporter" where
  "evict e =
     (case hx_queue e of
        [] \<Rightarrow> e
      | stale # rest \<Rightarrow>
          e\<lparr>hx_queue := rest, hx_counters := drop_batch ErrQueueFull (hx_counters e)\<rparr>)"

definition HTTPExport ::
    "marshal \<Rightarrow> (string \<Rightarrow> string + string) \<Rightarrow> string option \<Rightarrow> batch option \<Rightarrow> http_exporter \<Rightarrow>
     (string option \<times> http_exporter) option" where
  "HTTPExport marshal gz ctxErr batch e =
     (case ctxErr of
        Some err \<Rightarrow> Some (Some err, e)
      | None \<Rightarrow>
          (case encodeBody marshal gz batch of
             Inl err \<Rightarrow>
               (case batch of
                  None \<Rightarrow> None
                | Some _ \<Rightarrow> Some (Some err, e\<lparr>hx_counters := drop_batch err (hx_counters e)\<rparr>))
           | Inr body \<Rightarrow>
               (case batch of
                  None \<Rightarrow> None
                | Some b \<Rightarrow>
                    (let q = queued_of body b
                     in if hx_closed e
                        then Some (Some ErrClosed,
                               e\<lparr>hx_counters := drop_batch ErrClosed (hx_counters e)\<rparr>)
                        else let (ok, e1) = try_send q e
                             in if ok then Some (None, e1)
                                else let (ok2, e2) = try_send q (evict e1)
                                     in if ok2 then Some (None, e2)
                                        else Some (Some ErrQueueFull,
                                          e2\<lparr>hx_counters := drop_batch ErrQueueFull (hx_counters e2)\<rparr>)))))"

definition HTTPStats :: "http_exporter \<Rightarrow> export_stats" where
  "HTTPStats e = (counters_snapshot (hx_counters e))\<lparr>st_queue_depth := length (hx_queue e)\<rparr>"

interpretation http_ex: exporter
  "\<lambda>ctx b s. HTTPExport marshal gz ctx (Some b) s" hx_counters "\<lambda>s. length (hx_queue s)"
  "\<lambda>_. True"
  for marshal gz
  by unfold_locales
    (auto simp: HTTPExport_def try_send_def evict_def Let_def split: option.split sum.split list.split)

subsection \<open>Durations as text\<close>

text \<open>
  \<open>time.Duration.String\<close>: \<open>fraction u n\<close> prints the lowest \<open>n\<close> decimal digits of \<open>u\<close> behind a point,
  without trailing zeros.
\<close>

fun fraction_digits :: "nat \<Rightarrow> int \<Rightarrow> string" where
  "fraction_digits 0 u = []"
| "fraction_digits (Suc n) u = fraction_digits n (u div 10) @ show_int (u mod 10)"

definition fraction :: "nat \<Rightarrow> int \<Rightarrow> string" where
  "fraction n u =
     (let ds = rev (dropWhile (\<lambda>ch. ch = CHR ''0'') (rev (fraction_digits n u)))
      in if ds = [] then [] else CHR ''.'' # ds)"

definition small_unit :: "int \<Rightarrow> nat \<Rightarrow> string \<Rightarrow> string" where
  "small_unit u n unit = show_int (u div 10 ^ n) @ fraction n u @ unit"

definition duration_string :: "duration \<Rightarrow> string" where
  "duration_string d =
     (let u = \<bar>d\<bar>;
          secs = u div 1000000000;
          body =
            (if u = 0 then ''0s''
             else if u < 1000 then small_unit u 0 ''ns''
             else if u < 1000000 then small_unit u 3 [CHR 0xC2, CHR 0xB5, CHR ''s'']
             else if u < 1000000000 then small_unit u 6 ''ms''
             else (if secs div 3600 > 0 then show_int (secs div 3600) @ ''h'' else []) @
                  (if secs div 60 > 0 then show_int (secs div 60 mod 60) @ ''m'' else []) @
                  show_int (secs mod 60) @ fraction 9 u @ ''s'')
      in if d < 0 then CHR ''-'' # body else body)"

lemma duration_string_budget: "duration_string maxRetryBudget = ''1m0s''"
  by code_simp

lemma duration_string_samples:
  "duration_string 1500000000 = ''1.5s''" "duration_string (-250000000) = ''-250ms''"
  "duration_string 5400000000000 = ''1h30m0s''"
  by code_simp+

subsection \<open>Sending\<close>

definition retryableStatus :: "int \<Rightarrow> bool" where
  "retryableStatus code \<longleftrightarrow> code = 408 \<or> code = 429 \<or> code \<ge> 500"

definition clampRetryAfter :: "duration \<Rightarrow> duration" where
  "clampRetryAfter d = (if d > maxRetryAfter then maxRetryAfter else d)"

text \<open>
  \<open>http.ParseTime\<close> is a parameter. \<open>time.Duration(secs) * time.Second\<close> wraps at 64 bits.
\<close>

definition secs_to_duration :: "int \<Rightarrow> duration" where
  "secs_to_duration secs = sint (word_of_int secs * word_of_int second :: 64 word)"

definition parseRetryAfter :: "(string \<Rightarrow> gotime option) \<Rightarrow> gotime \<Rightarrow> string \<Rightarrow> duration" where
  "parseRetryAfter parseTime now v =
     (if v = [] then 0
      else case atoi v of
        Some secs \<Rightarrow> if secs \<le> 0 then 0 else clampRetryAfter (secs_to_duration secs)
      | None \<Rightarrow>
          (case parseTime v of
             Some t \<Rightarrow> if t - now > 0 then clampRetryAfter (t - now) else 0
           | None \<Rightarrow> 0))"

text \<open>The reply to one POST: no request, no response, or a response with the header and body read.\<close>

datatype reply =
    CreateFailed string
  | SendFailed string
  | Response int string string

datatype send_error = PlainError string | HTTPError int duration string

definition send_error_text :: "send_error \<Rightarrow> string" where
  "send_error_text err =
     (case err of
        PlainError e \<Rightarrow> e
      | HTTPError code ra body \<Rightarrow>
          (if body \<noteq> [] then ''HTTP '' @ show_int code @ '': '' @ body else ''HTTP '' @ show_int code))"

definition request_headers :: "http_exporter \<Rightarrow> queued \<Rightarrow> (string \<times> string) list" where
  "request_headers e q =
     [(''Content-Type'', ''application/json''), (''X-API-Key'', hx_api_key e),
      (''Idempotency-Key'', qd_key q), (''Content-Encoding'', ''gzip'')]"

definition send :: "(string \<Rightarrow> gotime option) \<Rightarrow> gotime \<Rightarrow> reply \<Rightarrow> send_error option" where
  "send parseTime now rep =
     (case rep of
        CreateFailed e \<Rightarrow> Some (PlainError (''create request: '' @ e))
      | SendFailed e \<Rightarrow> Some (PlainError (''send request: '' @ e))
      | Response code hdr body \<Rightarrow>
          if code \<ge> 400
          then Some (HTTPError code (parseRetryAfter parseTime now hdr) (trimSpace body))
          else None)"

text \<open>
  \<open>backoff\<close>: \<open>Int63n(n)\<close> is a draw reduced modulo \<open>n\<close>, and panics when \<open>n \<le> 0\<close> (\<open>None\<close>). The shift
  is on 64 bits.
\<close>

definition backoff :: "duration \<Rightarrow> nat \<Rightarrow> int \<Rightarrow> duration option" where
  "backoff base attempt draw =
     (let c = sint (push_bit (attempt - 1) (word_of_int base) :: 64 word);
          ceiling = (if c > maxBackoff \<or> c \<le> 0 then maxBackoff else c)
      in if ceiling + 1 \<le> 0 then None else Some (draw mod (ceiling + 1)))"

text \<open>What one attempt meets: the clock before its wait, whether shutdown cuts the wait short, the
  jitter, the reply and the clock after it.\<close>

record attempt_env =
  at_now :: gotime
  at_draw :: int
  at_shutdown :: bool
  at_reply :: reply
  at_reply_now :: gotime

text \<open>
  \<open>sendWithRetry\<close>: the loop from \<open>attempt\<close> on with \<open>n\<close> attempts left. It returns the counters, the
  waits it slept with the instant each began, and the replies it got; \<open>None\<close> is a panic.
\<close>

fun send_loop ::
    "(string \<Rightarrow> gotime option) \<Rightarrow> http_exporter \<Rightarrow> (nat \<Rightarrow> attempt_env) \<Rightarrow> gotime \<Rightarrow> nat \<Rightarrow> nat \<Rightarrow>
     string option \<Rightarrow> duration \<Rightarrow> counters \<Rightarrow>
     (counters \<times> (gotime \<times> duration) list \<times> reply list) option" where
  "send_loop pt e orc deadline 0 attempt lastErr retryAfter c =
     Some (recordError lastErr (c\<lparr>ct_dropped := ct_dropped c + 1\<rparr>), [], [])"
| "send_loop pt e orc deadline (Suc n) attempt lastErr retryAfter c =
     (let a = orc attempt;
          post = (\<lambda>c waits.
            case send pt (at_reply_now a) (at_reply a) of
              None \<Rightarrow> Some (count_exported c, waits, [at_reply a])
            | Some err \<Rightarrow>
                (let rest = (\<lambda>ra. map_option (\<lambda>(c', ws, rs). (c', waits @ ws, at_reply a # rs))
                       (send_loop pt e orc deadline n (attempt + 1)
                         (Some (send_error_text err)) ra c))
                 in case err of
                      PlainError _ \<Rightarrow> rest 0
                    | HTTPError code ra _ \<Rightarrow>
                        if \<not> retryableStatus code
                        then Some (recordError (Some (send_error_text err))
                               (c\<lparr>ct_rejected := ct_rejected c + 1\<rparr>), waits, [at_reply a])
                        else rest ra))
      in if attempt = 0 then post c []
         else case (if retryAfter \<le> 0 then backoff (hx_base_delay e) attempt (at_draw a)
                    else Some retryAfter) of
           None \<Rightarrow> None
         | Some delay \<Rightarrow>
             (let remaining = deadline - at_now a
              in if remaining \<le> 0 \<or> delay > remaining
                 then Some (drop_batch (''export abandoned after '' @ duration_string (hx_budget e) @
                          '' retry budget: '' @ the lastErr) c, [], [])
                 else let c1 = c\<lparr>ct_retries := ct_retries c + 1\<rparr>
                      in if delay > 0 \<and> at_shutdown a
                         then Some (drop_batch (''export abandoned during shutdown: '' @ the lastErr) c1,
                                [(at_now a, delay)], [])
                         else post c1 [(at_now a, delay)]))"

declare send_loop.simps [simp del]

definition sendWithRetry ::
    "(string \<Rightarrow> gotime option) \<Rightarrow> http_exporter \<Rightarrow> (nat \<Rightarrow> attempt_env) \<Rightarrow> gotime \<Rightarrow> counters \<Rightarrow>
     (counters \<times> (gotime \<times> duration) list \<times> reply list) option" where
  "sendWithRetry pt e orc start c =
     send_loop pt e orc (start + hx_budget e) (nat (hx_max_retries e + 1)) 0 None 0 c"

subsection \<open>Producer, worker and close\<close>

datatype http_action =
    Submit queued
  | Producer
  | Take
  | Settle "nat \<Rightarrow> attempt_env" gotime
  | Close
  | Exit

text \<open>
  \<open>Submit\<close> is \<open>Export\<close> up to its first select, on an open exporter; \<open>Producer\<close> is its next select.
  \<open>Take\<close> is the worker's receive and \<open>Settle\<close> its \<open>sendWithRetry\<close>; \<open>Exit\<close> its return, once the
  exporter is closed and the queue is empty. An action that is not enabled is \<open>None\<close>. \<open>Close\<close> takes
  the lock \<open>Export\<close> holds across its selects, so it waits for the producer.
\<close>

definition http_act ::
    "(string \<Rightarrow> gotime option) \<Rightarrow> http_action \<Rightarrow> http_exporter \<Rightarrow> http_exporter option" where
  "http_act pt act e =
     (case act of
        Submit q \<Rightarrow>
          if hx_producer e = Idle \<and> \<not> hx_closed e then Some (e\<lparr>hx_producer := Offering q\<rparr>) else None
      | Producer \<Rightarrow>
          (case hx_producer e of
             Idle \<Rightarrow> None
           | Offering q \<Rightarrow>
               (let (ok, e1) = try_send q e
                in Some (e1\<lparr>hx_producer := (if ok then Idle else Evicting q)\<rparr>))
           | Evicting q \<Rightarrow> Some ((evict e)\<lparr>hx_producer := Resending q\<rparr>)
           | Resending q \<Rightarrow>
               (let (ok, e1) = try_send q e
                in if ok then Some (e1\<lparr>hx_producer := Idle\<rparr>)
                   else Some (e1\<lparr>hx_producer := Idle,
                          hx_counters := drop_batch ErrQueueFull (hx_counters e1)\<rparr>)))
      | Take \<Rightarrow>
          (case (hx_worker e, hx_queue e) of
             (None, q # rest) \<Rightarrow>
               if hx_exited e then None else Some (e\<lparr>hx_worker := Some q, hx_queue := rest\<rparr>)
           | _ \<Rightarrow> None)
      | Settle orc start \<Rightarrow>
          (case hx_worker e of
             None \<Rightarrow> None
           | Some q \<Rightarrow>
               map_option (\<lambda>(c, _, _). e\<lparr>hx_worker := None, hx_counters := c\<rparr>)
                 (sendWithRetry pt e orc start (hx_counters e)))
      | Close \<Rightarrow> if hx_producer e = Idle then Some (e\<lparr>hx_closed := True\<rparr>) else None
      | Exit \<Rightarrow>
          if hx_closed e \<and> hx_worker e = None \<and> hx_queue e = [] then Some (e\<lparr>hx_exited := True\<rparr>)
          else None)"

text \<open>A run, with the batches submitted so far.\<close>

inductive http_run ::
    "(string \<Rightarrow> gotime option) \<Rightarrow> export_config \<Rightarrow> queued list \<Rightarrow> http_exporter \<Rightarrow> bool"
  for pt cfg where
  start: "http_run pt cfg [] (NewHTTPExporter cfg)"
| act: "http_run pt cfg log e \<Longrightarrow> http_act pt a e = Some e' \<Longrightarrow>
    http_run pt cfg (case a of Submit q \<Rightarrow> log @ [q] | _ \<Rightarrow> log) e'"

subsection \<open>Retries\<close>

lemma backoff_range: "\<exists>d. backoff base attempt draw = Some d \<and> 0 \<le> d \<and> d \<le> maxBackoff"
proof -
  define c where "c = sint (push_bit (attempt - 1) (word_of_int base) :: 64 word)"
  define top where "top = (if c > maxBackoff \<or> c \<le> 0 then maxBackoff else c)"
  have top: "0 < top" "top \<le> maxBackoff"
    by (auto simp: top_def maxBackoff_def second_def)
  have draw: "0 \<le> draw mod (top + 1)" "draw mod (top + 1) < top + 1"
    using top(1) by (simp, intro pos_mod_bound, linarith)
  have "backoff base attempt draw = Some (draw mod (top + 1))"
    using top(1) unfolding backoff_def Let_def c_def [symmetric] top_def [symmetric] by simp
  moreover have "draw mod (top + 1) \<le> maxBackoff" using draw(2) top(2) by linarith
  ultimately show ?thesis using draw(1) by blast
qed

text \<open>
  How a run of the loop ends: one batch is settled, one retry is counted for each wait, each wait
  ends before the deadline, and what is counted is what the last reply said.
\<close>

definition terminal :: "reply \<Rightarrow> bool" where
  "terminal r \<longleftrightarrow> (case r of Response code _ _ \<Rightarrow> code < 400 \<or> \<not> retryableStatus code | _ \<Rightarrow> False)"

definition accepted_reply :: "reply \<Rightarrow> bool" where
  "accepted_reply r \<longleftrightarrow> (case r of Response code _ _ \<Rightarrow> code < 400 | _ \<Rightarrow> False)"

definition loop_ok ::
    "gotime \<Rightarrow> nat \<Rightarrow> counters \<Rightarrow> counters \<times> (gotime \<times> duration) list \<times> reply list \<Rightarrow> bool" where
  "loop_ok deadline n c res =
     (case res of (c', waits, replies) \<Rightarrow>
        settled c' = settled c + 1 \<and> ct_retries c' = ct_retries c + length waits \<and>
        length replies \<le> n \<and> (\<forall>(t, d) \<in> set waits. 0 \<le> d \<and> t + d \<le> deadline) \<and>
        (\<forall>r \<in> set (butlast replies). \<not> terminal r) \<and>
        ct_exported c' = ct_exported c +
          (if replies \<noteq> [] \<and> accepted_reply (last replies) then 1 else 0) \<and>
        ct_rejected c' = ct_rejected c +
          (if replies \<noteq> [] \<and> terminal (last replies) \<and> \<not> accepted_reply (last replies) then 1 else 0))"

lemma send_None: "send pt now rep = None \<longleftrightarrow> accepted_reply rep"
  by (auto simp: send_def accepted_reply_def split: reply.split)

lemma send_HTTP:
  "send pt now rep = Some (HTTPError code ra body) \<Longrightarrow>
     (terminal rep \<longleftrightarrow> \<not> retryableStatus code) \<and> \<not> accepted_reply rep"
  by (auto simp: send_def accepted_reply_def terminal_def split: reply.splits if_splits)

lemma send_plain: "send pt now rep = Some (PlainError x) \<Longrightarrow> \<not> terminal rep \<and> \<not> accepted_reply rep"
  by (auto simp: send_def accepted_reply_def terminal_def split: reply.splits if_splits)

lemma accepted_terminal: "accepted_reply r \<Longrightarrow> terminal r"
  by (auto simp: accepted_reply_def terminal_def split: reply.splits)

lemma terminal_accepted:
  "accepted_reply r \<Longrightarrow> loop_ok dl (Suc n) c (count_exported c, [], [r])"
  by (simp add: loop_ok_def count_exported_def settled_def accepted_terminal)

lemma loop_ok_rest:
  assumes "\<not> terminal r" "\<not> accepted_reply r" "loop_ok dl n c (c', ws, rs)"
  shows "loop_ok dl (Suc n) c (c', ws, r # rs)"
  using assms by (cases rs) (auto simp: loop_ok_def)

lemma loop_ok_wait:
  assumes "loop_ok dl n (c\<lparr>ct_retries := ct_retries c + 1\<rparr>) (c', ws, rs)" "0 \<le> d" "t + d \<le> dl"
  shows "loop_ok dl n c (c', (t, d) # ws, rs)"
  using assms by (auto simp: loop_ok_def)

lemma send_loop_ok:
  "\<exists>res. send_loop pt e orc deadline n attempt lastErr retryAfter c = Some res \<and>
     loop_ok deadline n c res"
proof (induction n arbitrary: attempt lastErr retryAfter c)
  case 0
  show ?case by (simp add: loop_ok_def send_loop.simps) (simp add: recordError_def settled_def split: option.split)
next
  case (Suc n)
  define a where "a = orc attempt"
  define post where "post c waits = (
            case send pt (at_reply_now a) (at_reply a) of
              None \<Rightarrow> Some (count_exported c, waits, [at_reply a])
            | Some err \<Rightarrow>
                (let rest = (\<lambda>ra. map_option (\<lambda>(c', ws, rs). (c', waits @ ws, at_reply a # rs))
                       (send_loop pt e orc deadline n (attempt + 1)
                         (Some (send_error_text err)) ra c))
                 in case err of
                      PlainError _ \<Rightarrow> rest 0
                    | HTTPError code ra _ \<Rightarrow>
                        if \<not> retryableStatus code
                        then Some (recordError (Some (send_error_text err))
                               (c\<lparr>ct_rejected := ct_rejected c + 1\<rparr>), waits, [at_reply a])
                        else rest ra))" for c and waits :: "(gotime \<times> duration) list"
  have rest: "\<exists>c' ws rs. send_loop pt e orc deadline n (attempt + 1) err ra c = Some (c', ws, rs) \<and>
      loop_ok deadline n c (c', ws, rs)" for err ra c
    using Suc.IH [of "attempt + 1" err ra c] by (metis prod_cases3)
  have post: "\<exists>c' ws rs. post c waits = Some (c', waits @ ws, rs) \<and>
      loop_ok deadline (Suc n) c (c', ws, rs)" for c waits
  proof (cases "send pt (at_reply_now a) (at_reply a)")
    case None
    then have "accepted_reply (at_reply a)" by (simp add: send_None)
    moreover have "post c waits = Some (count_exported c, waits, [at_reply a])"
      using None by (simp add: post_def)
    ultimately show ?thesis using terminal_accepted by fastforce
  next
    case (Some err)
    show ?thesis
    proof (cases err)
      case (PlainError x)
      with Some have "\<not> terminal (at_reply a)" "\<not> accepted_reply (at_reply a)"
        using send_plain by blast+
      moreover obtain c' ws rs where "send_loop pt e orc deadline n (attempt + 1)
          (Some (send_error_text err)) 0 c = Some (c', ws, rs)" "loop_ok deadline n c (c', ws, rs)"
        using rest by blast
      ultimately show ?thesis using Some PlainError
        by (auto simp: post_def Let_def intro: loop_ok_rest)
    next
      case (HTTPError code ra body)
      with Some have stop: "terminal (at_reply a) \<longleftrightarrow> \<not> retryableStatus code"
        "\<not> accepted_reply (at_reply a)" using send_HTTP by blast+
      obtain c' ws rs where "send_loop pt e orc deadline n (attempt + 1)
          (Some (send_error_text err)) ra c = Some (c', ws, rs)" "loop_ok deadline n c (c', ws, rs)"
        using rest by blast
      with Some HTTPError stop show ?thesis
        by (cases "retryableStatus code")
          (auto simp: post_def Let_def intro: loop_ok_rest,
           auto simp: loop_ok_def settled_def recordError_def)
    qed
  qed
  show ?case
  proof (cases "attempt = 0")
    case True
    have "send_loop pt e orc deadline (Suc n) attempt lastErr retryAfter c = post c []"
      unfolding send_loop.simps post_def a_def Let_def by (rule if_P [OF True])
    then show ?thesis using post [of c "[]"] by auto
  next
    case False
    obtain delay where delay: "(if retryAfter \<le> 0 then backoff (hx_base_delay e) attempt (at_draw a)
        else Some retryAfter) = Some delay" "0 \<le> delay"
      using backoff_range [of "hx_base_delay e" attempt "at_draw a"]
      by (cases "retryAfter \<le> 0") auto
    have step: "send_loop pt e orc deadline (Suc n) attempt lastErr retryAfter c =
      (let remaining = deadline - at_now a
              in if remaining \<le> 0 \<or> delay > remaining
                 then Some (drop_batch (''export abandoned after '' @ duration_string (hx_budget e) @
                          '' retry budget: '' @ the lastErr) c, [], [])
                 else let c1 = c\<lparr>ct_retries := ct_retries c + 1\<rparr>
                      in if delay > 0 \<and> at_shutdown a
                         then Some (drop_batch (''export abandoned during shutdown: '' @ the lastErr) c1,
                                [(at_now a, delay)], [])
                         else post c1 [(at_now a, delay)])"
      using delay(1) unfolding send_loop.simps post_def a_def Let_def
      by (simp only: if_not_P [OF False] option.case)
    show ?thesis
    proof (cases "deadline - at_now a \<le> 0 \<or> delay > deadline - at_now a")
      case True
      then show ?thesis by (simp add: step) (simp add: loop_ok_def settled_def drop_batch_def recordError_def)
    next
      case False
      show ?thesis
      proof (cases "delay > 0 \<and> at_shutdown a")
        case True
        with False delay(2) show ?thesis
          by (simp add: step Let_def) (simp add: loop_ok_def settled_def drop_batch_def recordError_def)
      next
        case run: False
        obtain c' ws rs where sent: "post (c\<lparr>ct_retries := ct_retries c + 1\<rparr>) [(at_now a, delay)] =
            Some (c', [(at_now a, delay)] @ ws, rs)"
          and ok: "loop_ok deadline (Suc n) (c\<lparr>ct_retries := ct_retries c + 1\<rparr>) (c', ws, rs)"
          using post by blast
        have "at_now a + delay \<le> deadline" using False by linarith
        with ok have "loop_ok deadline (Suc n) c (c', (at_now a, delay) # ws, rs)"
          using loop_ok_wait delay(2) by blast
        moreover have "send_loop pt e orc deadline (Suc n) attempt lastErr retryAfter c =
            Some (c', (at_now a, delay) # ws, rs)"
          using run False sent by (auto simp: step Let_def)
        ultimately show ?thesis by blast
      qed
    qed
  qed
qed

lemma sendWithRetry_ok:
  obtains c' waits replies where "sendWithRetry pt e orc t c = Some (c', waits, replies)"
    "loop_ok (t + hx_budget e) (nat (hx_max_retries e + 1)) c (c', waits, replies)"
  using send_loop_ok [of pt e orc "t + hx_budget e" "nat (hx_max_retries e + 1)" 0 None 0 c]
  by (metis sendWithRetry_def prod_cases3)

subsection \<open>Invariants of a run\<close>

definition held :: "http_exporter \<Rightarrow> nat" where
  "held e =
     length (hx_queue e) + (case hx_worker e of None \<Rightarrow> 0 | Some _ \<Rightarrow> 1) +
     (case hx_producer e of Idle \<Rightarrow> 0 | _ \<Rightarrow> 1)"

definition http_inv :: "export_config \<Rightarrow> http_exporter \<Rightarrow> bool" where
  "http_inv cfg e \<longleftrightarrow>
     hx_cap e = hx_cap (NewHTTPExporter cfg) \<and> length (hx_queue e) \<le> hx_cap e \<and>
     (\<forall>q. hx_producer e = Resending q \<longrightarrow> length (hx_queue e) < hx_cap e) \<and>
     (hx_exited e \<longrightarrow> hx_closed e \<and> hx_worker e = None \<and> hx_queue e = []) \<and>
     (hx_closed e \<longrightarrow> hx_producer e = Idle)"

lemma cap_pos [simp]: "0 < hx_cap (NewHTTPExporter cfg)"
  by (simp add: NewHTTPExporter_def Let_def defaultQueueSize_def)

lemma http_inv_act:
  assumes "http_inv cfg e" "http_act pt a e = Some e'"
  shows "http_inv cfg e'"
proof (cases a)
  case (Settle orc t)
  with assms show ?thesis
    by (auto simp: http_act_def http_inv_def split: option.splits)
qed (use assms cap_pos [of cfg] in \<open>auto simp: http_act_def http_inv_def try_send_def evict_def Let_def
      split: if_splits option.splits producer.splits list.splits prod.splits\<close>)

lemma http_run_inv: "http_run pt cfg log e \<Longrightarrow> http_inv cfg e"
proof (induction rule: http_run.induct)
  case start
  then show ?case by (simp add: http_inv_def) (simp add: NewHTTPExporter_def Let_def)
next
  case (act log e a e')
  then show ?case using http_inv_act by blast
qed

lemma http_act_conserves:
  assumes "http_inv cfg e" "http_act pt a e = Some e'"
  shows "settled (hx_counters e') + held e' =
    settled (hx_counters e) + held e + (case a of Submit q \<Rightarrow> 1 | _ \<Rightarrow> 0)"
proof (cases a)
  case (Settle orc t)
  obtain c' ws rs where "sendWithRetry pt e orc t (hx_counters e) = Some (c', ws, rs)"
    "loop_ok (t + hx_budget e) (nat (hx_max_retries e + 1)) (hx_counters e) (c', ws, rs)"
    by (rule sendWithRetry_ok)
  with Settle assms(2) show ?thesis
    by (auto simp: http_act_def held_def loop_ok_def split: option.splits)
qed (use assms(2) in \<open>auto simp: http_act_def held_def try_send_def evict_def Let_def
      split: if_splits option.splits producer.splits list.splits prod.splits\<close>)

lemma http_run_conserves:
  "http_run pt cfg log e \<Longrightarrow> settled (hx_counters e) + held e = length log"
proof (induction rule: http_run.induct)
  case start
  then show ?case by (simp add: held_def NewHTTPExporter_def Let_def)
next
  case (act log e a e')
  then show ?case using http_act_conserves [OF http_run_inv [OF act.hyps(1)] act.hyps(2)]
    by (cases a) auto
qed

text \<open>What the producer holds has been submitted last; what is queued came just before it.\<close>

definition producing :: "http_exporter \<Rightarrow> queued list" where
  "producing e =
     (case hx_producer e of Idle \<Rightarrow> [] | Offering q \<Rightarrow> [q] | Evicting q \<Rightarrow> [q] | Resending q \<Rightarrow> [q])"

lemma http_run_suffix:
  "http_run pt cfg log e \<Longrightarrow> suffix (hx_queue e @ producing e) log"
proof (induction rule: http_run.induct)
  case start
  then show ?case by (simp add: producing_def NewHTTPExporter_def Let_def)
next
  case (act log e a e')
  note inv = http_run_inv [OF act.hyps(1)]
  obtain old where old: "log = old @ hx_queue e @ producing e" using act.IH by (auto simp: suffix_def)
  show ?case
  proof (cases a)
    case (Settle orc t)
    with act.hyps(2) old show ?thesis
      by (auto simp: http_act_def producing_def suffix_def split: option.splits)
  next
    case Producer
    with act.hyps(2) old inv show ?thesis
      by (auto simp: http_act_def producing_def suffix_def try_send_def evict_def Let_def http_inv_def
          split: if_splits option.splits producer.splits list.splits prod.splits)
  qed (use act.hyps(2) old in \<open>auto simp: http_act_def producing_def suffix_def
      split: if_splits option.splits producer.splits list.splits prod.splits\<close>)
qed

text \<open>\<open>HTTPExport\<close> is the producer's selects with no receive of the worker between them.\<close>

fun http_acts ::
    "(string \<Rightarrow> gotime option) \<Rightarrow> http_action list \<Rightarrow> http_exporter \<Rightarrow> http_exporter option" where
  "http_acts pt [] e = Some e"
| "http_acts pt (a # as) e = (case http_act pt a e of None \<Rightarrow> None | Some e' \<Rightarrow> http_acts pt as e')"

lemma HTTPExport_acts:
  assumes "encodeBody marshal gz (Some b) = Inr body" "\<not> hx_closed e" "hx_producer e = Idle"
    and "0 < hx_cap e" "length (hx_queue e) \<le> hx_cap e"
  shows "\<exists>e'. HTTPExport marshal gz None (Some b) e = Some (None, e') \<and>
    http_acts pt (if length (hx_queue e) < hx_cap e then [Submit (queued_of body b), Producer]
      else [Submit (queued_of body b), Producer, Producer, Producer]) e = Some e'"
  using assms
  by (cases "hx_queue e"; cases e)
    (auto simp: HTTPExport_def http_act_def try_send_def evict_def Let_def)

text \<open>A nil batch: the guard of \<open>encodeLine\<close> is reached, and the log line then reads its number.\<close>

lemma nil_batch_panics: "HTTPExport marshal gz None None e = None"
  by (simp add: HTTPExport_def encodeBody_def encodeLine_def)

lemma parseRetryAfter_bound: "parseRetryAfter pt now v \<le> maxRetryAfter"
  by (auto simp: parseRetryAfter_def clampRetryAfter_def maxRetryAfter_def minute_def
      split: option.split)

text \<open>
  A \<open>Retry-After\<close> of 18446744074 seconds, over five hundred years, is a wait of 0.29 seconds: the
  product wraps, and the clamp then sees a small number.
\<close>

lemma parseRetryAfter_wraps:
  "atoi ''18446744074'' = Some 18446744074" "secs_to_duration 18446744074 = 290448384"
  by (simp_all add: atoi_def parse_nat_def value_of_digits_def digit_value_def is_digit_def
      secs_to_duration_def second_def math_MinInt64_def math_MaxInt64_def)

lemma newExporter_http:
  "newExporter cfg = Inr HTTPKind \<longleftrightarrow>
     xc_mode cfg = ''http'' \<and> xc_endpoint cfg \<noteq> [] \<and> xc_api_key cfg \<noteq> []"
  by (auto simp: newExporter_def)

subsection \<open>Properties\<close>

text \<open>
  C13: one batch never occupies the worker without end and never leaves it unaccounted. Whatever the
  clock, the jitter and the endpoint do, the retry loop returns; it settles exactly one batch, as
  exported when the last reply accepted it, as rejected when the last reply was terminal and no
  acceptance, as dropped otherwise; it posts at most \<open>maxRetries + 1\<close> times and never again after a
  terminal reply; it counts one retry per wait, and every wait ends within the budget.
\<close>

theorem sendWithRetry_settles:
  "\<exists>c' waits replies. sendWithRetry pt e orc t c = Some (c', waits, replies) \<and>
     settled c' = settled c + 1 \<and> ct_retries c' = ct_retries c + length waits \<and>
     length replies \<le> nat (hx_max_retries e + 1) \<and>
     list_all (\<lambda>(began, d). 0 \<le> d \<and> began + d \<le> t + hx_budget e) waits \<and>
     list_all (\<lambda>r. \<not> terminal r) (butlast replies) \<and>
     ct_exported c' = ct_exported c +
       (if replies \<noteq> [] \<and> accepted_reply (last replies) then 1 else 0) \<and>
     ct_rejected c' = ct_rejected c +
       (if replies \<noteq> [] \<and> terminal (last replies) \<and> \<not> accepted_reply (last replies) then 1 else 0)"
proof -
  obtain c' waits replies where run: "sendWithRetry pt e orc t c = Some (c', waits, replies)"
    and ok: "loop_ok (t + hx_budget e) (nat (hx_max_retries e + 1)) c (c', waits, replies)"
    by (rule sendWithRetry_ok)
  show ?thesis
    using run ok by (intro exI [of _ c'] exI [of _ waits] exI [of _ replies])
      (simp add: loop_ok_def list_all_iff)
qed

text \<open>
  C12: the exporter's queue under every interleaving of the producer, the worker and \<open>Close\<close>. A
  batch handed to an open exporter is settled in exactly one counter or is still held; the queue
  never exceeds its capacity; what is queued, followed by what the producer holds, is a run of the
  latest submissions, so an overflow costs the oldest batch; and when the worker has returned after
  \<open>Close\<close>, every batch is settled.
\<close>

theorem http_queue_conserves:
  assumes "http_run pt cfg log e"
  shows "settled (hx_counters e) + held e = length log \<and>
    length (hx_queue e) \<le> hx_cap e \<and>
    suffix (hx_queue e @ producing e) log \<and>
    (hx_exited e \<longrightarrow> settled (hx_counters e) = length log)"
proof (intro conjI impI)
  note inv = http_run_inv [OF assms]
  show total: "settled (hx_counters e) + held e = length log" by (rule http_run_conserves [OF assms])
  show "length (hx_queue e) \<le> hx_cap e" using inv by (simp add: http_inv_def)
  show "suffix (hx_queue e @ producing e) log" by (rule http_run_suffix [OF assms])
  assume "hx_exited e"
  with inv have "held e = 0" by (simp add: http_inv_def held_def)
  with total show "settled (hx_counters e) = length log" by simp
qed

definition tiny_config :: export_config where
  "tiny_config =
     \<lparr>xc_mode = ''http'', xc_endpoint = ''u'', xc_api_key = ''k'', xc_queue_size = 1,
      xc_max_retries = 0, xc_base_delay = 0, xc_timeout = 0, xc_path = [], xc_max_mb = 0,
      xc_max_backups = 0, xc_sync = False\<rparr>"

definition tiny_queued :: "nat \<Rightarrow> queued" where
  "tiny_queued n = \<lparr>qd_body = [], qd_seq = n, qd_collected_at = 0, qd_key = []\<rparr>"

theorem http_queue_conserves_witness:
  "\<exists>e. http_run (\<lambda>_. None) tiny_config [tiny_queued 1, tiny_queued 2] e \<and>
     map qd_seq (hx_queue e) = [2] \<and> settled (hx_counters e) + held e = 2"
proof -
  let ?e0 = "NewHTTPExporter tiny_config"
  let ?acts = "[Submit (tiny_queued 1), Producer, Submit (tiny_queued 2), Producer, Producer, Producer]"
  have run: "http_acts pt as e = Some e' \<Longrightarrow> http_run pt cfg log e \<Longrightarrow>
    http_run pt cfg (log @ concat (map (\<lambda>a. case a of Submit q \<Rightarrow> [q] | _ \<Rightarrow> []) as)) e'"
    for pt cfg log e e' as
  proof (induction as arbitrary: log e)
    case (Cons a as)
    obtain e1 where e1: "http_act pt a e = Some e1" "http_acts pt as e1 = Some e'"
      using Cons.prems(1) by (auto split: option.splits)
    from Cons.IH [OF e1(2) http_run.act [OF Cons.prems(2) e1(1)]] show ?case
      by (cases a) simp_all
  qed simp
  obtain e where e: "http_acts (\<lambda>_. None) ?acts ?e0 = Some e" "map qd_seq (hx_queue e) = [2]"
    by (simp add: http_act_def try_send_def evict_def NewHTTPExporter_def tiny_config_def
        tiny_queued_def Let_def)
  from run [OF e(1) http_run.start]
  have "http_run (\<lambda>_. None) tiny_config [tiny_queued 1, tiny_queued 2] e" by simp
  with http_queue_conserves [OF this] e(2) show ?thesis by auto
qed

end
