(* ===== verification/File_Export.thy ===== *)
theory File_Export
  imports Export
begin

text \<open>
  \<open>src/internal/export/file.go\<close>. The file system is a map from paths to contents with a clock of
  system calls; \<open>faults n\<close> is the error of call \<open>n\<close>, if it has one, and \<open>taken n\<close> how many bytes a
  failing write still took. Each fault is free, so every theorem holds whatever the disk does.
  Directories are not modelled (\<open>MkdirAll\<close> only succeeds or fails), nor is another process that
  moves the file. \<open>filepath.Dir\<close> and \<open>json.Marshal\<close> are parameters.
\<close>

subsection \<open>The file system\<close>

record os_state =
  os_files :: "string \<Rightarrow> string option"
  os_ticks :: nat

record disk =
  dk_faults :: "nat \<Rightarrow> string option"
  dk_taken :: "nat \<Rightarrow> nat"
  dk_dir :: "string \<Rightarrow> string"

datatype os_error = NotExist | OsError string

definition os_error_text :: "os_error \<Rightarrow> string" where
  "os_error_text err = (case err of NotExist \<Rightarrow> ''no such file or directory'' | OsError e \<Rightarrow> e)"

definition tick :: "os_state \<Rightarrow> os_state" where
  "tick os = os\<lparr>os_ticks := os_ticks os + 1\<rparr>"

definition fault :: "disk \<Rightarrow> os_state \<Rightarrow> string option" where
  "fault d os = dk_faults d (os_ticks os)"

definition os_remove :: "disk \<Rightarrow> string \<Rightarrow> os_state \<Rightarrow> os_error option \<times> os_state" where
  "os_remove d path os =
     (case fault d os of
        Some e \<Rightarrow> (Some (OsError e), tick os)
      | None \<Rightarrow>
          if os_files os path = None then (Some NotExist, tick os)
          else (None, tick (os\<lparr>os_files := (os_files os)(path := None)\<rparr>)))"

definition os_rename :: "disk \<Rightarrow> string \<Rightarrow> string \<Rightarrow> os_state \<Rightarrow> os_error option \<times> os_state" where
  "os_rename d src dst os =
     (case fault d os of
        Some e \<Rightarrow> (Some (OsError e), tick os)
      | None \<Rightarrow>
          (case os_files os src of
             None \<Rightarrow> (Some NotExist, tick os)
           | Some content \<Rightarrow>
               (None, tick (os\<lparr>os_files := ((os_files os)(src := None))(dst := Some content)\<rparr>))))"

text \<open>\<open>os.Stat\<close>: whether it succeeds.\<close>

definition os_stat :: "disk \<Rightarrow> string \<Rightarrow> os_state \<Rightarrow> bool \<times> os_state" where
  "os_stat d path os = (fault d os = None \<and> os_files os path \<noteq> None, tick os)"

definition plain_call :: "disk \<Rightarrow> os_state \<Rightarrow> string option \<times> os_state" where
  "plain_call d os = (fault d os, tick os)"

definition os_create :: "disk \<Rightarrow> string \<Rightarrow> os_state \<Rightarrow> string option \<times> os_state" where
  "os_create d path os =
     (case fault d os of
        Some e \<Rightarrow> (Some e, tick os)
      | None \<Rightarrow>
          (None, tick (if os_files os path = None
             then os\<lparr>os_files := (os_files os)(path := Some [])\<rparr> else os)))"

text \<open>
  \<open>(*os.File).Write\<close> on a handle opened for append: it writes everything, or fails after some of it.
  A closed handle fails without a system call.
\<close>

definition os_write ::
    "disk \<Rightarrow> bool \<Rightarrow> string \<Rightarrow> string \<Rightarrow> os_state \<Rightarrow> (nat \<times> string option) \<times> os_state" where
  "os_write d is_open path data os =
     (if \<not> is_open then ((0, Some ''file already closed''), os)
      else
        let n = (if fault d os = None then length data
                 else min (dk_taken d (os_ticks os)) (length data));
            old = (case os_files os path of None \<Rightarrow> [] | Some c \<Rightarrow> c)
        in ((n, fault d os),
            tick (os\<lparr>os_files := (os_files os)(path := Some (old @ take n data))\<rparr>)))"

subsection \<open>The buffered writer\<close>

text \<open>
  \<open>bufio.Writer\<close>: the buffered bytes and the first error, which every later call returns until
  \<open>Reset\<close>.
\<close>

record buf_writer =
  bw_buf :: string
  bw_err :: "string option"

definition bw_size :: nat where "bw_size = 4096"

definition new_writer :: buf_writer where "new_writer = \<lparr>bw_buf = [], bw_err = None\<rparr>"

definition bw_flush ::
    "disk \<Rightarrow> bool \<Rightarrow> string \<Rightarrow> buf_writer \<Rightarrow> os_state \<Rightarrow> buf_writer \<times> os_state" where
  "bw_flush d is_open path b os =
     (if bw_err b \<noteq> None \<or> bw_buf b = [] then (b, os)
      else let ((n, err), os1) = os_write d is_open path (bw_buf b) os
           in (\<lparr>bw_buf = drop n (bw_buf b), bw_err = err\<rparr>, os1))"

definition bw_direct ::
    "disk \<Rightarrow> bool \<Rightarrow> string \<Rightarrow> string \<Rightarrow> buf_writer \<Rightarrow> os_state \<Rightarrow> (nat \<times> buf_writer) \<times> os_state" where
  "bw_direct d is_open path p b os =
     (let ((n, err), os1) = os_write d is_open path p os in ((n, b\<lparr>bw_err := err\<rparr>), os1))"

text \<open>
  \<open>Write\<close>: its loop runs at most twice, since a flush that succeeds empties the buffer and a direct
  write that succeeds takes everything left.
\<close>

definition bw_write ::
    "disk \<Rightarrow> bool \<Rightarrow> string \<Rightarrow> string \<Rightarrow> buf_writer \<Rightarrow> os_state \<Rightarrow> (nat \<times> buf_writer) \<times> os_state" where
  "bw_write d is_open path p b os =
     (let avail = bw_size - length (bw_buf b)
      in if bw_err b \<noteq> None then ((0, b), os)
         else if length p \<le> avail then ((length p, b\<lparr>bw_buf := bw_buf b @ p\<rparr>), os)
         else if bw_buf b = [] then bw_direct d is_open path p b os
         else let (b1, os1) = bw_flush d is_open path (b\<lparr>bw_buf := bw_buf b @ take avail p\<rparr>) os;
                  rest = drop avail p
              in if bw_err b1 \<noteq> None then ((avail, b1), os1)
                 else if length rest \<le> bw_size
                 then ((length p, b1\<lparr>bw_buf := bw_buf b1 @ rest\<rparr>), os1)
                 else let ((n, b2), os2) = bw_direct d is_open path rest b1 os1
                      in ((avail + n, b2), os2))"

subsection \<open>The exporter\<close>

text \<open>
  \<open>fx_file\<close> is \<open>e.file != nil\<close>. The writer wraps the last file opened, which \<open>e.file\<close> is when it is
  not nil; \<open>fx_open\<close> says whether that file is still open.
\<close>

record file_exporter =
  fx_counters :: counters
  fx_path :: string
  fx_max_bytes :: int64
  fx_max_backups :: int
  fx_sync :: bool
  fx_file :: bool
  fx_open :: bool
  fx_w :: "buf_writer option"
  fx_size :: int64
  fx_needs_reopen :: bool
  fx_closed :: bool

definition defaultFileMaxMB :: int where "defaultFileMaxMB = 100"
definition defaultFileMaxBackups :: int where "defaultFileMaxBackups = 3"

definition backupPath :: "string \<Rightarrow> int \<Rightarrow> string" where
  "backupPath path n = path @ ''.'' @ show_int n"

definition open_file ::
    "disk \<Rightarrow> file_exporter \<Rightarrow> os_state \<Rightarrow> (string option \<times> file_exporter) \<times> os_state" where
  "open_file d e os =
     (let dir = dk_dir d (fx_path e);
          (mk, os1) = (if dir \<noteq> [] \<and> dir \<noteq> ''.'' then plain_call d os else (None, os))
      in case mk of
           Some err \<Rightarrow> ((Some (''create dir '' @ dir @ '': '' @ err), e), os1)
         | None \<Rightarrow>
             (let (cr, os2) = os_create d (fx_path e) os1
              in case cr of
                   Some err \<Rightarrow> ((Some (''open '' @ fx_path e @ '': '' @ err), e), os2)
                 | None \<Rightarrow>
                     (let (ok, os3) = os_stat d (fx_path e) os2;
                          size = (if ok then (case os_files os2 (fx_path e) of
                                    None \<Rightarrow> 0 | Some c \<Rightarrow> int (length c)) else 0)
                      in ((None, e\<lparr>fx_file := True, fx_open := True, fx_size := size,
                            fx_w := Some new_writer\<rparr>), os3))))"

definition NewFileExporter ::
    "disk \<Rightarrow> export_config \<Rightarrow> os_state \<Rightarrow> (string + file_exporter) \<times> os_state" where
  "NewFileExporter d cfg os =
     (if xc_path cfg = [] then (Inl ''file exporter: path is required'', os)
      else
        let mb = (if xc_max_mb cfg = 0 then defaultFileMaxMB else xc_max_mb cfg);
            backups = (if xc_max_backups cfg < 0 then defaultFileMaxBackups else xc_max_backups cfg);
            e = \<lparr>fx_counters = zero_counters, fx_path = xc_path cfg,
                 fx_max_bytes = (if mb > 0 then sint (word_of_int mb * 1024 * 1024 :: 64 word) else 0),
                 fx_max_backups = backups, fx_sync = xc_sync cfg, fx_file = False, fx_open = False,
                 fx_w = None, fx_size = 0, fx_needs_reopen = False, fx_closed = False\<rparr>;
            ((err, e1), os1) = open_file d e os
        in (case err of Some x \<Rightarrow> Inl x | None \<Rightarrow> Inr e1, os1))"

definition reopen_file ::
    "disk \<Rightarrow> file_exporter \<Rightarrow> os_state \<Rightarrow> (string option \<times> file_exporter) \<times> os_state" where
  "reopen_file d e os =
     (let ((err, e1), os1) = open_file d (e\<lparr>fx_needs_reopen := True\<rparr>) os
      in case err of
           Some x \<Rightarrow> ((Some x, e1), os1)
         | None \<Rightarrow> ((None, e1\<lparr>fx_needs_reopen := False\<rparr>), os1))"

text \<open>\<open>for i := maxBackups - 1; i >= 1; i--\<close>, from \<open>i = n\<close>.\<close>

fun shift_backups :: "disk \<Rightarrow> string \<Rightarrow> nat \<Rightarrow> os_state \<Rightarrow> string option \<times> os_state" where
  "shift_backups d path 0 os = (None, os)"
| "shift_backups d path (Suc i) os =
     (let from = backupPath path (int (Suc i));
          (ok, os1) = os_stat d from os
      in if \<not> ok then shift_backups d path i os1
         else let (err, os2) = os_rename d from (backupPath path (int (Suc i) + 1)) os1
              in case err of
                   Some x \<Rightarrow> (Some (''rotate '' @ from @ '': '' @ os_error_text x), os2)
                 | None \<Rightarrow> shift_backups d path i os2)"

text \<open>\<open>err != nil && !os.IsNotExist(err)\<close>.\<close>

definition hard :: "os_error option \<Rightarrow> string option" where
  "hard err = (case err of Some (OsError e) \<Rightarrow> Some e | _ \<Rightarrow> None)"

text \<open>\<open>rotate\<close> from the point where the live file is closed.\<close>

definition rotate_files ::
    "disk \<Rightarrow> file_exporter \<Rightarrow> os_state \<Rightarrow> (string option \<times> file_exporter) \<times> os_state" where
  "rotate_files d e os =
     (if fx_max_backups e \<le> 0 then
        let (err, os1) = os_remove d (fx_path e) os
        in case hard err of
             Some x \<Rightarrow> ((Some (''remove '' @ fx_path e @ '': '' @ x), e), os1)
           | None \<Rightarrow> reopen_file d e os1
      else
        let oldest = backupPath (fx_path e) (fx_max_backups e);
            (err, os1) = os_remove d oldest os
        in case hard err of
             Some x \<Rightarrow> ((Some (''remove '' @ oldest @ '': '' @ x), e), os1)
           | None \<Rightarrow>
               (let (serr, os2) = shift_backups d (fx_path e) (nat (fx_max_backups e - 1)) os1
                in case serr of
                     Some x \<Rightarrow> ((Some x, e), os2)
                   | None \<Rightarrow>
                       (let (rerr, os3) = os_rename d (fx_path e) (backupPath (fx_path e) 1) os2
                        in case hard rerr of
                             Some x \<Rightarrow> ((Some (''rotate '' @ fx_path e @ '': '' @ x), e), os3)
                           | None \<Rightarrow> reopen_file d e os3)))"

definition rotate_file ::
    "disk \<Rightarrow> file_exporter \<Rightarrow> os_state \<Rightarrow> (string option \<times> file_exporter) \<times> os_state" where
  "rotate_file d e os =
     (let (w1, os1) = (case fx_w e of
            None \<Rightarrow> (None, os)
          | Some b \<Rightarrow> (let (b1, os') = bw_flush d (fx_open e) (fx_path e) b os in (Some b1, os')));
          e1 = e\<lparr>fx_w := w1\<rparr>
      in case (case w1 of None \<Rightarrow> None | Some b \<Rightarrow> bw_err b) of
           Some x \<Rightarrow> ((Some (''flush '' @ fx_path e @ '' before rotate: '' @ x), e1), os1)
         | None \<Rightarrow>
             if fx_file e1 then
               (let (cerr, os2) = (if fx_open e1 then plain_call d os1
                      else (Some ''file already closed'', os1));
                    e2 = e1\<lparr>fx_open := False\<rparr>
                in case cerr of
                     Some x \<Rightarrow> ((Some (''close '' @ fx_path e @ '' before rotate: '' @ x), e2), os2)
                   | None \<Rightarrow> rotate_files d (e2\<lparr>fx_file := False\<rparr>) os2)
             else rotate_files d e1 os1)"

text \<open>The write of one line to the live file, from \<open>e.w.Write\<close> on. \<open>None\<close> is a nil writer.\<close>

definition failed :: "string \<Rightarrow> file_exporter \<Rightarrow> string option \<times> file_exporter" where
  "failed x e = (Some x, e\<lparr>fx_counters := drop_batch x (fx_counters e)\<rparr>)"

definition write_line ::
    "disk \<Rightarrow> string \<Rightarrow> file_exporter \<Rightarrow> os_state \<Rightarrow> ((string option \<times> file_exporter) \<times> os_state) option"
  where
  "write_line d line e os =
     (case fx_w e of
        None \<Rightarrow> None
      | Some b \<Rightarrow>
          (let ((n, b1), os1) = bw_write d (fx_open e) (fx_path e) line b os;
               e1 = e\<lparr>fx_w := Some b1, fx_size := fx_size e + int n\<rparr>
           in case bw_err b1 of
                Some x \<Rightarrow> Some (failed (''write '' @ fx_path e @ '': '' @ x) e1, os1)
              | None \<Rightarrow>
                  (let (b2, os2) = bw_flush d (fx_open e) (fx_path e) b1 os1;
                       e2 = e1\<lparr>fx_w := Some b2\<rparr>
                   in case bw_err b2 of
                        Some x \<Rightarrow> Some (failed (''flush '' @ fx_path e @ '': '' @ x) e2, os2)
                      | None \<Rightarrow>
                          (let (serr, os3) =
                             (if fx_sync e \<and> fx_file e
                              then if fx_open e then plain_call d os2
                                   else (Some ''file already closed'', os2)
                              else (None, os2))
                           in case serr of
                                Some x \<Rightarrow> Some (failed (''fsync '' @ fx_path e @ '': '' @ x) e2, os3)
                              | None \<Rightarrow>
                                  Some ((None, e2\<lparr>fx_counters := count_exported (fx_counters e2)\<rparr>), os3)))))"

definition rotate_due :: "file_exporter \<Rightarrow> string \<Rightarrow> bool" where
  "rotate_due e line \<longleftrightarrow>
     fx_max_bytes e > 0 \<and> fx_size e > 0 \<and> fx_size e + int (length line) > fx_max_bytes e"

definition FileExport ::
    "marshal \<Rightarrow> disk \<Rightarrow> string option \<Rightarrow> batch option \<Rightarrow> file_exporter \<times> os_state \<Rightarrow>
     (string option \<times> file_exporter \<times> os_state) option" where
  "FileExport marshal d ctxErr batch s =
     (case s of (e, os) \<Rightarrow>
        case ctxErr of
          Some err \<Rightarrow> Some (Some err, e, os)
        | None \<Rightarrow>
            (case encodeLine marshal batch of
               Inl err \<Rightarrow> (let (r, e1) = failed err e in Some (r, e1, os))
             | Inr line \<Rightarrow>
                 if fx_closed e then (let (r, e1) = failed ErrClosed e in Some (r, e1, os))
                 else
                   let ((oerr, e1), os1) =
                     (if fx_needs_reopen e
                      then (case open_file d e os of ((err, e'), os') \<Rightarrow>
                              ((err, if err = None then e'\<lparr>fx_needs_reopen := False\<rparr> else e'), os'))
                      else ((None, e), os))
                   in case oerr of
                        Some x \<Rightarrow> (let (r, e2) = failed x e1 in Some (r, e2, os1))
                      | None \<Rightarrow>
                          (let ((rerr, e2), os2) =
                             (if rotate_due e1 line then rotate_file d e1 os1 else ((None, e1), os1))
                           in case rerr of
                                Some x \<Rightarrow> (let (r, e3) = failed x e2 in Some (r, e3, os2))
                              | None \<Rightarrow>
                                  (case write_line d line e2 os2 of
                                     None \<Rightarrow> None
                                   | Some ((r, e3), os3) \<Rightarrow> Some (r, e3, os3)))))"

definition FileClose ::
    "disk \<Rightarrow> file_exporter \<times> os_state \<Rightarrow> string option \<times> file_exporter \<times> os_state" where
  "FileClose d s =
     (case s of (e, os) \<Rightarrow>
        if fx_closed e then (None, e, os)
        else
          let (ferr, os1) = (case fx_w e of
                None \<Rightarrow> (None, os)
              | Some b \<Rightarrow> (case bw_flush d (fx_open e) (fx_path e) b os of (b1, os') \<Rightarrow> (bw_err b1, os')));
              (cerr, os2) = (if \<not> fx_file e then (None, os1)
                else if fx_open e then plain_call d os1 else (Some ''file already closed'', os1));
              first = (case ferr of
                  Some x \<Rightarrow> Some (''flush '' @ fx_path e @ '': '' @ x)
                | None \<Rightarrow>
                    (case cerr of Some x \<Rightarrow> Some (''close '' @ fx_path e @ '': '' @ x) | None \<Rightarrow> None))
          in (first, e\<lparr>fx_closed := True, fx_w := None, fx_file := False, fx_open := False,
                fx_counters := recordError first (fx_counters e)\<rparr>, os2))"

subsection \<open>Writing a line\<close>

lemmas os_defs = os_write_def os_create_def os_remove_def os_rename_def os_stat_def plain_call_def

lemma tick_files [simp]: "os_files (tick os) = os_files os"
  by (simp add: tick_def)

definition live :: "string \<Rightarrow> os_state \<Rightarrow> string" where
  "live path os = (case os_files os path of None \<Rightarrow> [] | Some c \<Rightarrow> c)"

text \<open>
  A write and the flush behind it, on an empty buffer: one write of the whole line, or of a part of
  it with the error left in the writer.
\<close>

lemma write_flush_whole:
  assumes "bw_err b = None" "bw_buf b = []" "line \<noteq> []"
    and "bw_write d opn path line b os = ((n, b1), os1)"
    and "bw_flush d opn path b1 os1 = (b2, os2)"
  shows "bw_err b1 = None \<longrightarrow> bw_err b2 = None \<longrightarrow>
      bw_buf b2 = [] \<and> opn \<and> os_files os2 = (os_files os)(path := Some (live path os @ line))"
    and "bw_err b1 \<noteq> None \<longrightarrow> os_files os1 = os_files os \<or>
      (\<exists>k. os_files os1 = (os_files os)(path := Some (live path os @ take k line)))"
    and "bw_err b2 \<noteq> None \<longrightarrow> os_files os2 = os_files os \<or>
      (\<exists>k. os_files os2 = (os_files os)(path := Some (live path os @ take k line)))"
  using assms
  by (auto simp: bw_write_def bw_flush_def bw_direct_def os_write_def live_def Let_def
      split: if_splits)

lemma write_line_stuck:
  assumes "fx_w e = Some b" "bw_err b = Some x"
  shows "write_line d line e os =
    Some (failed (''write '' @ fx_path e @ '': '' @ x) (e\<lparr>fx_w := Some b, fx_size := fx_size e\<rparr>), os)"
  using assms by (simp add: write_line_def bw_write_def Let_def)

definition file_frame :: "file_exporter \<Rightarrow> file_exporter \<Rightarrow> bool" where
  "file_frame e e' \<longleftrightarrow>
     fx_counters e' = fx_counters e \<and> fx_path e' = fx_path e \<and> fx_closed e' = fx_closed e \<and>
     fx_max_bytes e' = fx_max_bytes e \<and> fx_max_backups e' = fx_max_backups e \<and>
     fx_sync e' = fx_sync e \<and> (fx_w e \<noteq> None \<longrightarrow> fx_w e' \<noteq> None)"

lemma frame_refl [simp]: "file_frame e e"
  by (simp add: file_frame_def)

lemma frame_trans: "file_frame e1 e2 \<Longrightarrow> file_frame e2 e3 \<Longrightarrow> file_frame e1 e3"
  by (auto simp: file_frame_def)

lemma open_frame: "open_file d e os = ((err, e'), os') \<Longrightarrow> file_frame e e'"
  by (auto simp: open_file_def file_frame_def Let_def split: option.splits prod.splits if_splits)

lemma open_ok: "open_file d e os = ((None, e'), os') \<Longrightarrow>
    fx_w e' = Some new_writer \<and> fx_open e' \<and> fx_file e' \<and>
    os_files os' = (os_files os)(fx_path e := Some (live (fx_path e) os))"
  by (auto simp: open_file_def os_defs live_def Let_def split: option.splits prod.splits if_splits)

lemma open_fails: "open_file d e os = ((Some x, e'), os') \<Longrightarrow> e' = e \<and> os_files os' = os_files os"
  by (auto simp: open_file_def os_defs Let_def split: option.splits prod.splits if_splits)

lemma reopen_frame: "reopen_file d e os = ((err, e'), os') \<Longrightarrow> file_frame e e'"
  by (auto simp: reopen_file_def file_frame_def Let_def dest!: open_frame
      split: option.splits prod.splits)

lemma rotate_files_frame: "rotate_files d e os = ((err, e'), os') \<Longrightarrow> file_frame e e'"
  by (auto simp: rotate_files_def Let_def dest: reopen_frame
      split: option.splits prod.splits if_splits)

lemma rotate_frame: "rotate_file d e os = ((err, e'), os') \<Longrightarrow> file_frame e e'"
  by (auto simp: rotate_file_def file_frame_def Let_def dest!: rotate_files_frame
      split: option.splits prod.splits if_splits)

text \<open>One line, whatever happens: one batch is settled, and the writer stays.\<close>

lemma write_line_settles:
  assumes "fx_w e \<noteq> None"
  shows "\<exists>r e' os'. write_line d line e os = Some ((r, e'), os') \<and> fx_w e' \<noteq> None \<and>
    fx_closed e' = fx_closed e \<and> fx_path e' = fx_path e \<and>
    settled (fx_counters e') = settled (fx_counters e) + 1 \<and>
    ct_exported (fx_counters e') = ct_exported (fx_counters e) + (if r = None then 1 else 0)"
  using assms
  by (auto simp: write_line_def failed_def drop_batch_def recordError_def count_exported_def
      settled_def Let_def split: option.splits prod.splits)

lemma failed_simps [simp]:
  "fx_w (snd (failed x e)) = fx_w e" "fx_closed (snd (failed x e)) = fx_closed e"
  "fx_path (snd (failed x e)) = fx_path e" "fst (failed x e) = Some x"
  "fx_needs_reopen (snd (failed x e)) = fx_needs_reopen e"
  "settled (fx_counters (snd (failed x e))) = settled (fx_counters e) + 1"
  "ct_exported (fx_counters (snd (failed x e))) = ct_exported (fx_counters e)"
  by (simp_all add: failed_def settled_def drop_batch_def recordError_def)

text \<open>
  The four ways through \<open>Export\<close> on a live context: the batch does not encode, the exporter is
  closed, the reopen or the rotation fails, or the line is written.
\<close>

lemma FileExport_cases:
  assumes "FileExport marshal d None batch (e, os) = res"
  obtains (unencodable) err where "encodeLine marshal batch = Inl err"
      "res = Some (Some err, snd (failed err e), os)"
    | (closed) line where "encodeLine marshal batch = Inr line" "fx_closed e"
      "res = Some (Some ErrClosed, snd (failed ErrClosed e), os)"
    | (stuck) line x os1 where "encodeLine marshal batch = Inr line" "\<not> fx_closed e"
      "fx_needs_reopen e" "open_file d e os = ((Some x, e), os1)" "os_files os1 = os_files os"
      "res = Some (Some x, snd (failed x e), os1)"
    | (unrotated) line e1 os1 x e2 os2 where "encodeLine marshal batch = Inr line" "\<not> fx_closed e"
      "if fx_needs_reopen e then \<exists>e0. open_file d e os = ((None, e0), os1) \<and>
         e1 = e0\<lparr>fx_needs_reopen := False\<rparr> else e1 = e \<and> os1 = os"
      "rotate_due e1 line" "rotate_file d e1 os1 = ((Some x, e2), os2)"
      "res = Some (Some x, snd (failed x e2), os2)"
    | (written) line e1 os1 e2 os2 where "encodeLine marshal batch = Inr line" "\<not> fx_closed e"
      "if fx_needs_reopen e then \<exists>e0. open_file d e os = ((None, e0), os1) \<and>
         e1 = e0\<lparr>fx_needs_reopen := False\<rparr> else e1 = e \<and> os1 = os"
      "if rotate_due e1 line then rotate_file d e1 os1 = ((None, e2), os2) else e2 = e1 \<and> os2 = os1"
      "res = (case write_line d line e2 os2 of None \<Rightarrow> None | Some ((r, e3), os3) \<Rightarrow> Some (r, e3, os3))"
proof -
  have run0: "res = FileExport marshal d None batch (e, os)" using assms by simp
  show thesis
  proof (cases "encodeLine marshal batch")
    case (Inl err)
    with run0 show thesis by (intro unencodable) (simp_all add: FileExport_def failed_def Let_def)
  next
    case (Inr line)
    show thesis
    proof (cases "fx_closed e")
      case True
      with Inr run0 show thesis by (intro closed) (simp_all add: FileExport_def failed_def Let_def)
    next
      case open_: False
      obtain oerr e0 os1 where op: "open_file d e os = ((oerr, e0), os1)" by (metis prod.exhaust)
      define e1 where "e1 = (if fx_needs_reopen e then e0\<lparr>fx_needs_reopen := False\<rparr> else e)"
      define os1' where "os1' = (if fx_needs_reopen e then os1 else os)"
      show thesis
      proof (cases "fx_needs_reopen e \<and> oerr \<noteq> None")
        case True
        then obtain x where x: "oerr = Some x" by blast
        with open_fails op have "e0 = e" "os_files os1 = os_files os" by blast+
        with True x Inr open_ run0 op show thesis
          by (intro stuck [of line x os1]) (simp_all add: FileExport_def failed_def Let_def)
      next
        case False
        then have fresh: "if fx_needs_reopen e then \<exists>e0. open_file d e os = ((None, e0), os1') \<and>
           e1 = e0\<lparr>fx_needs_reopen := False\<rparr> else e1 = e \<and> os1' = os"
          using op by (auto simp: e1_def os1'_def)
        obtain rerr e2 os2 where rot: "rotate_file d e1 os1' = ((rerr, e2), os2)"
          by (metis prod.exhaust)
        have run: "res = (let ((rerr, e2), os2) =
                      (if rotate_due e1 line then rotate_file d e1 os1' else ((None, e1), os1'))
             in case rerr of
                  Some x \<Rightarrow> (let (r, e3) = failed x e2 in Some (r, e3, os2))
                | None \<Rightarrow> (case write_line d line e2 os2 of
                     None \<Rightarrow> None | Some ((r, e3), os3) \<Rightarrow> Some (r, e3, os3)))"
          using False Inr open_ run0 op
          by (auto simp: FileExport_def e1_def os1'_def Let_def split: if_splits)
        show thesis
        proof (cases "rotate_due e1 line \<and> rerr \<noteq> None")
          case True
          with run rot Inr open_ fresh show thesis
            by (auto intro!: unrotated [of line os1' e1 _ e2 os2] simp: failed_def Let_def)
        next
          case no_fail: False
          show thesis
          proof (cases "rotate_due e1 line")
            case True
            with no_fail run rot Inr open_ fresh show thesis
              by (intro written [of line os1' e1 e2 os2]) (simp_all add: Let_def)
          next
            case False
            with run Inr open_ fresh show thesis
              by (intro written [of line os1' e1 e1 os1']) (simp_all add: Let_def)
          qed
        qed
      qed
    qed
  qed
qed

definition file_ok :: "file_exporter \<times> os_state \<Rightarrow> bool" where
  "file_ok s \<longleftrightarrow> fx_closed (fst s) \<or> fx_w (fst s) \<noteq> None"

lemma reopened_frame:
  assumes "if fx_needs_reopen e then \<exists>e0. open_file d e os = ((None, e0), os1) \<and>
         e1 = e0\<lparr>fx_needs_reopen := False\<rparr> else e1 = e \<and> os1 = os"
  shows "file_frame e e1"
  using assms open_frame [of d e os None] by (auto simp: file_frame_def split: if_splits)

lemma rotated_frame:
  assumes "if rotate_due e1 line then rotate_file d e1 os1 = ((None, e2), os2) else e2 = e1 \<and> os2 = os1"
  shows "file_frame e1 e2"
  using assms rotate_frame [of d e1 os1 None e2 os2] by (auto split: if_splits)

lemma FileExport_settles:
  assumes "file_ok s"
  shows "\<exists>err s'. FileExport marshal d None (Some b) s = Some (err, s') \<and> file_ok s' \<and>
    settled (fx_counters (fst s')) = settled (fx_counters (fst s)) + 1"
proof -
  obtain e os where s: "s = (e, os)" by (cases s)
  show ?thesis
  proof (rule FileExport_cases [where marshal = marshal and d = d and batch = "Some b" and e = e and os = os,
        OF refl])
    fix line e1 os1 x e2 os2
    assume "\<not> fx_closed e" "rotate_file d e1 os1 = ((Some x, e2), os2)"
      "if fx_needs_reopen e then \<exists>e0. open_file d e os = ((None, e0), os1) \<and>
         e1 = e0\<lparr>fx_needs_reopen := False\<rparr> else e1 = e \<and> os1 = os"
      "FileExport marshal d None (Some b) (e, os) = Some (Some x, snd (failed x e2), os2)"
    moreover from this have "file_frame e e2"
      using reopened_frame frame_trans rotate_frame by blast
    ultimately show ?thesis using assms s by (auto simp: file_ok_def file_frame_def)
  next
    fix line e1 os1 e2 os2
    assume run: "\<not> fx_closed e"
      "if fx_needs_reopen e then \<exists>e0. open_file d e os = ((None, e0), os1) \<and>
         e1 = e0\<lparr>fx_needs_reopen := False\<rparr> else e1 = e \<and> os1 = os"
      "if rotate_due e1 line then rotate_file d e1 os1 = ((None, e2), os2) else e2 = e1 \<and> os2 = os1"
      "FileExport marshal d None (Some b) (e, os) =
        (case write_line d line e2 os2 of None \<Rightarrow> None | Some ((r, e3), os3) \<Rightarrow> Some (r, e3, os3))"
    then have frame: "file_frame e e2" using reopened_frame rotated_frame frame_trans by blast
    with assms s run(1) have "fx_w e2 \<noteq> None" by (auto simp: file_ok_def file_frame_def)
    from write_line_settles [OF this, of d line os2] frame run(1,4) s show ?thesis
      by (auto simp: file_ok_def file_frame_def)
  qed (use assms s in \<open>auto simp: file_ok_def\<close>)
qed

interpretation file_ex: exporter
  "\<lambda>ctx b s. FileExport marshal d ctx (Some b) s" "\<lambda>s. fx_counters (fst s)" "\<lambda>_. 0" file_ok
  for marshal d
proof unfold_locales
  show "FileExport marshal d (Some e) (Some b) s = Some (Some e, s)" for e b s
    by (simp add: FileExport_def split: prod.split)
  show "file_ok s \<Longrightarrow> \<exists>err s'. FileExport marshal d None (Some b) s = Some (err, s') \<and> file_ok s' \<and>
      settled (fx_counters (fst s')) + 0 = settled (fx_counters (fst s)) + 0 + 1" for b s
    using FileExport_settles by simp
qed

subsection \<open>Framing\<close>

definition whole :: "string \<Rightarrow> bool" where
  "whole c \<longleftrightarrow> c = [] \<or> last c = CHR 10"

definition all_whole :: "os_state \<Rightarrow> bool" where
  "all_whole os \<longleftrightarrow> (\<forall>p c. os_files os p = Some c \<longrightarrow> whole c)"

definition dead :: "file_exporter \<Rightarrow> bool" where
  "dead e \<longleftrightarrow> (case fx_w e of None \<Rightarrow> False | Some b \<Rightarrow> bw_err b \<noteq> None)"

definition clean :: "file_exporter \<Rightarrow> bool" where
  "clean e \<longleftrightarrow> (case fx_w e of None \<Rightarrow> True | Some b \<Rightarrow> bw_err b = None \<longrightarrow> bw_buf b = [])"

text \<open>Only the live file may end inside a line, and only once nothing is written any more.\<close>

definition file_inv :: "file_exporter \<Rightarrow> os_state \<Rightarrow> bool" where
  "file_inv e os \<longleftrightarrow>
     file_ok (e, os) \<and> clean e \<and> (dead e \<longrightarrow> \<not> fx_needs_reopen e) \<and>
     (\<forall>p c. os_files os p = Some c \<longrightarrow> p \<noteq> fx_path e \<or> \<not> dead e \<and> \<not> fx_closed e \<longrightarrow> whole c)"

lemma all_whole_upd: "all_whole os \<Longrightarrow> whole c \<Longrightarrow> os_files os' = (os_files os)(p := Some c) \<Longrightarrow> all_whole os'"
  by (auto simp: all_whole_def split: if_splits)

lemma all_whole_cong: "all_whole os \<Longrightarrow> os_files os' = os_files os \<Longrightarrow> all_whole os'"
  by (simp add: all_whole_def)

lemma all_whole_live: "all_whole os \<Longrightarrow> whole (live path os)"
  by (auto simp: all_whole_def live_def whole_def split: option.split)

lemma all_whole_remove: "os_remove d p os = (err, os') \<Longrightarrow> all_whole os \<Longrightarrow> all_whole os'"
  by (auto simp: os_remove_def all_whole_def split: option.splits if_splits)

lemma all_whole_rename: "os_rename d p q os = (err, os') \<Longrightarrow> all_whole os \<Longrightarrow> all_whole os'"
  by (auto simp: os_rename_def all_whole_def split: option.splits if_splits)

lemma all_whole_stat: "os_stat d p os = (ok, os') \<Longrightarrow> all_whole os \<Longrightarrow> all_whole os'"
  by (auto simp: os_stat_def all_whole_def)

lemma all_whole_shift: "shift_backups d path n os = (err, os') \<Longrightarrow> all_whole os \<Longrightarrow> all_whole os'"
proof (induction n arbitrary: os)
  case (Suc i)
  then show ?case
    by (auto simp: Let_def split: prod.splits if_splits option.splits
        dest: all_whole_stat all_whole_rename)
qed simp

lemma all_whole_open:
  assumes "open_file d e os = ((err, e'), os')" "all_whole os"
  shows "all_whole os'"
proof (cases err)
  case None
  with assms open_ok [of d e os e' os'] show ?thesis by (blast intro: all_whole_upd all_whole_live)
next
  case (Some x)
  with assms open_fails [of d e os x e' os'] show ?thesis by (blast intro: all_whole_cong)
qed

text \<open>What opening or rotating leaves of the writer: a fresh one, or the one it had.\<close>

definition same_writer :: "file_exporter \<Rightarrow> file_exporter \<Rightarrow> bool" where
  "same_writer e e' \<longleftrightarrow> fx_w e' = fx_w e \<or> fx_w e' = Some new_writer"

lemma same_writer_refl [simp]: "same_writer e e"
  by (simp add: same_writer_def)

lemma same_writer_fine:
  "same_writer e e' \<Longrightarrow> clean e \<Longrightarrow> \<not> dead e \<Longrightarrow> clean e' \<and> \<not> dead e'"
  by (auto simp: same_writer_def clean_def dead_def new_writer_def split: option.splits)

lemma open_writer: "open_file d e os = ((err, e'), os') \<Longrightarrow> same_writer e e'"
  using open_ok [of d e os e' os'] open_fails [of d e os _ e' os']
  by (cases err) (auto simp: same_writer_def)

lemma reopen_props:
  assumes "reopen_file d e os = ((err, e'), os')"
  shows "same_writer e e'" "all_whole os \<Longrightarrow> all_whole os'"
proof -
  obtain err1 e1 os1 where op: "open_file d (e\<lparr>fx_needs_reopen := True\<rparr>) os = ((err1, e1), os1)"
    by (metis prod.exhaust)
  with assms have e': "fx_w e' = fx_w e1" "os' = os1"
    by (auto simp: reopen_file_def Let_def split: option.splits)
  show "same_writer e e'" using open_writer [OF op] e' by (auto simp: same_writer_def)
  show "all_whole os \<Longrightarrow> all_whole os'" using all_whole_open [OF op] e' by simp
qed

lemma rotate_files_props:
  assumes "rotate_files d e os = ((err, e'), os')"
  shows "same_writer e e'" "all_whole os \<Longrightarrow> all_whole os'"
  using assms
  by (auto simp: rotate_files_def Let_def split: prod.splits option.splits if_splits
      dest: reopen_props all_whole_remove all_whole_shift all_whole_rename)

lemma rotate_dead: "dead e \<Longrightarrow> \<exists>x. rotate_file d e os = ((Some x, e), os)"
  by (cases e) (auto simp: rotate_file_def dead_def bw_flush_def Let_def split: option.splits)

lemma rotate_file_cases:
  assumes "rotate_file d e os = ((err, e'), os')" "clean e" "\<not> dead e"
  shows "fx_w e' = fx_w e \<and> os_files os' = os_files os \<or>
    (\<exists>e1 os1. fx_w e1 = fx_w e \<and> os_files os1 = os_files os \<and>
       rotate_files d e1 os1 = ((err, e'), os'))"
proof -
  have flush: "(case fx_w e of None \<Rightarrow> (None, os)
          | Some b \<Rightarrow> (let (b1, os') = bw_flush d (fx_open e) (fx_path e) b os in (Some b1, os'))) =
      (fx_w e, os)"
    using assms(2,3) by (auto simp: clean_def dead_def bw_flush_def split: option.splits)
  have "(case fx_w e of None \<Rightarrow> None | Some b \<Rightarrow> bw_err b) = None"
    using assms(3) by (auto simp: dead_def split: option.splits)
  with assms(1) flush show ?thesis
    by (cases "fx_file e"; cases "fx_open e"; cases "fault d os")
      (fastforce simp: rotate_file_def Let_def plain_call_def)+
qed

lemma rotate_props:
  assumes "rotate_file d e os = ((err, e'), os')" "clean e" "\<not> dead e"
  shows "same_writer e e'" "all_whole os \<Longrightarrow> all_whole os'"
  using rotate_file_cases [OF assms] rotate_files_props
  by (auto simp: same_writer_def) (metis all_whole_cong)+

lemma rotate_settled: "rotate_file d e os = ((None, e'), os') \<Longrightarrow> \<not> fx_needs_reopen e'"
  by (auto simp: rotate_file_def rotate_files_def reopen_file_def Let_def
      split: prod.splits option.splits if_splits)

lemma write_line_frame:
  "write_line d line e os = Some ((r, e'), os') \<Longrightarrow> fx_path e' = fx_path e \<and>
     fx_closed e' = fx_closed e \<and> fx_needs_reopen e' = fx_needs_reopen e \<and>
     fx_w e \<noteq> None \<and> fx_w e' \<noteq> None"
  by (auto simp: write_line_def failed_def Let_def split: prod.splits option.splits if_splits)

lemma write_line_whole:
  assumes "write_line d line e os = Some ((r, e'), os')" "clean e" "\<not> dead e" "line \<noteq> []"
  shows "clean e'"
    and "\<not> dead e' \<Longrightarrow> os_files os' = (os_files os)(fx_path e := Some (live (fx_path e) os @ line))"
    and "p \<noteq> fx_path e \<Longrightarrow> os_files os' p = os_files os p"
    and "r = None \<Longrightarrow> \<not> dead e'"
proof -
  obtain b where b: "fx_w e = Some b" "bw_err b = None" "bw_buf b = []"
    using write_line_frame [OF assms(1)] assms(2,3) by (auto simp: clean_def dead_def)
  obtain n b1 os1 where wr: "bw_write d (fx_open e) (fx_path e) line b os = ((n, b1), os1)"
    by (metis prod.exhaust)
  obtain b2 os2 where fl: "bw_flush d (fx_open e) (fx_path e) b1 os1 = (b2, os2)"
    by (metis prod.exhaust)
  note wf = write_flush_whole [OF b(2,3) assms(4) wr fl]
  show "clean e'" "\<not> dead e' \<Longrightarrow> os_files os' = (os_files os)(fx_path e := Some (live (fx_path e) os @ line))"
    "p \<noteq> fx_path e \<Longrightarrow> os_files os' p = os_files os p" "r = None \<Longrightarrow> \<not> dead e'"
    using assms(1) b(1) wf
    by (auto simp: write_line_def wr fl failed_def clean_def dead_def plain_call_def Let_def
        split: prod.splits option.splits if_splits)
qed

lemma write_line_torn:
  assumes "write_line d line e os = Some ((r, e'), os')" "clean e" "\<not> dead e" "line \<noteq> []" "dead e'"
  shows "\<exists>k. os_files os' = os_files os \<or>
    os_files os' = (os_files os)(fx_path e := Some (live (fx_path e) os @ take k line))"
proof -
  obtain b where b: "fx_w e = Some b" "bw_err b = None" "bw_buf b = []"
    using write_line_frame [OF assms(1)] assms(2,3) by (auto simp: clean_def dead_def)
  obtain n b1 os1 where wr: "bw_write d (fx_open e) (fx_path e) line b os = ((n, b1), os1)"
    by (metis prod.exhaust)
  obtain b2 os2 where fl: "bw_flush d (fx_open e) (fx_path e) b1 os1 = (b2, os2)"
    by (metis prod.exhaust)
  note wf = write_flush_whole [OF b(2,3) assms(4) wr fl]
  have "bw_err b1 \<noteq> None \<and> os' = os1 \<or> bw_err b2 \<noteq> None \<and> os' = os2"
    using assms(1,5) b(1)
    by (auto simp: write_line_def wr fl failed_def dead_def Let_def
        split: prod.splits option.splits if_splits)
  with wf(2,3) show ?thesis by blast
qed

lemma encodeLine_newline: "encodeLine marshal batch = Inr line \<Longrightarrow> line \<noteq> [] \<and> whole line"
  by (auto simp: encodeLine_def whole_def split: option.splits sum.splits)

lemma reopened_props:
  assumes "if fx_needs_reopen e then \<exists>e0. open_file d e os = ((None, e0), os1) \<and>
         e1 = e0\<lparr>fx_needs_reopen := False\<rparr> else e1 = e \<and> os1 = os"
    and "clean e" "\<not> dead e" "all_whole os"
  shows "clean e1 \<and> \<not> dead e1 \<and> \<not> fx_needs_reopen e1 \<and> all_whole os1"
proof (cases "fx_needs_reopen e")
  case True
  then obtain e0 where e0: "open_file d e os = ((None, e0), os1)" "e1 = e0\<lparr>fx_needs_reopen := False\<rparr>"
    using assms(1) by auto
  moreover have "all_whole os1" using all_whole_open [OF e0(1) assms(4)] .
  ultimately show ?thesis using open_ok [OF e0(1)] by (simp add: clean_def dead_def new_writer_def)
qed (use assms in simp)

lemma rotated_props:
  assumes "if rotate_due e1 line then rotate_file d e1 os1 = ((None, e2), os2) else e2 = e1 \<and> os2 = os1"
    and "clean e1" "\<not> dead e1" "all_whole os1" "\<not> fx_needs_reopen e1"
  shows "clean e2 \<and> \<not> dead e2 \<and> \<not> fx_needs_reopen e2 \<and> all_whole os2"
proof (cases "rotate_due e1 line")
  case True
  with assms(1) have rot: "rotate_file d e1 os1 = ((None, e2), os2)" by simp
  from rotate_props [OF this assms(2,3)] rotate_settled [OF rot] assms show ?thesis
    using same_writer_fine by blast
qed (use assms in simp)

lemma file_inv_all_whole: "file_inv e os \<Longrightarrow> \<not> dead e \<Longrightarrow> \<not> fx_closed e \<Longrightarrow> all_whole os"
  by (auto simp: file_inv_def all_whole_def)

lemma file_inv_fine:
  "fx_w e \<noteq> None \<Longrightarrow> clean e \<Longrightarrow> \<not> dead e \<Longrightarrow> all_whole os \<Longrightarrow> file_inv e os"
  by (auto simp: file_inv_def file_ok_def all_whole_def)

lemma failed_inv [simp]: "file_inv (snd (failed x e)) os = file_inv e os"
  by (simp add: file_inv_def file_ok_def clean_def dead_def)

text \<open>A writer with an error in it: nothing is written, and every call is a drop.\<close>

lemma FileExport_dead:
  assumes "dead e" "\<not> fx_needs_reopen e"
  shows "\<exists>x e'. FileExport marshal d None (Some b) (e, os) = Some (Some x, e', os) \<and> dead e' \<and>
    \<not> fx_needs_reopen e' \<and> fx_path e' = fx_path e \<and> fx_closed e' = fx_closed e \<and>
    ct_dropped (fx_counters e') = ct_dropped (fx_counters e) + 1"
proof -
  obtain w y where w: "fx_w e = Some w" "bw_err w = Some y"
    using assms(1) by (auto simp: dead_def split: option.splits)
  obtain x0 where rot: "rotate_file d e os = ((Some x0, e), os)" using rotate_dead [OF assms(1)] by blast
  show ?thesis
    using assms(2) w rot
    by (cases "encodeLine marshal (Some b)"; cases "fx_closed e"; cases "rotate_due e (projr (encodeLine marshal (Some b)))")
      (auto simp: FileExport_def failed_def drop_batch_def recordError_def dead_def
        write_line_stuck Let_def)
qed

lemma FileExport_inv:
  assumes "file_inv e os" "FileExport marshal d None (Some b) (e, os) = Some (r, e', os')"
  shows "file_inv e' os' \<and> fx_path e' = fx_path e"
proof (cases "dead e")
  case True
  with assms(1) have "\<not> fx_needs_reopen e" by (simp add: file_inv_def)
  from FileExport_dead [OF True this, of marshal d b os] assms show ?thesis
    by (auto simp: file_inv_def file_ok_def clean_def dead_def split: option.splits)
next
  case False
  have clean: "clean e" using assms(1) by (simp add: file_inv_def)
  show ?thesis
  proof (rule FileExport_cases [OF assms(2)])
    fix line x os1
    assume stuck: "os_files os1 = os_files os"
      "Some (r, e', os') = Some (Some x, snd (failed x e), os1)"
    have "file_inv e os1" using assms(1) stuck(1) by (simp add: file_inv_def file_ok_def)
    with stuck(2) show ?thesis by simp
  next
    fix line e1 os1 x e2 os2
    assume open_: "\<not> fx_closed e" and re: "if fx_needs_reopen e
        then \<exists>e0. open_file d e os = ((None, e0), os1) \<and> e1 = e0\<lparr>fx_needs_reopen := False\<rparr>
        else e1 = e \<and> os1 = os"
      and rot: "rotate_file d e1 os1 = ((Some x, e2), os2)"
      and res: "Some (r, e', os') = Some (Some x, snd (failed x e2), os2)"
    have e1: "clean e1 \<and> \<not> dead e1 \<and> all_whole os1"
      using reopened_props [OF re clean False file_inv_all_whole [OF assms(1) False open_]] by simp
    have frame: "file_frame e e2" using reopened_frame [OF re] rotate_frame [OF rot] frame_trans by blast
    have "clean e2 \<and> \<not> dead e2 \<and> all_whole os2"
      using rotate_props [OF rot] e1 same_writer_fine by blast
    moreover have "fx_w e2 \<noteq> None" "fx_path e2 = fx_path e"
      using frame open_ assms(1) by (auto simp: file_frame_def file_inv_def file_ok_def)
    ultimately have "file_inv e2 os2" using file_inv_fine by blast
    with res \<open>fx_path e2 = fx_path e\<close> show ?thesis by simp
  next
    fix line e1 os1 e2 os2
    assume line: "encodeLine marshal (Some b) = Inr line" and open_: "\<not> fx_closed e"
      and re: "if fx_needs_reopen e
        then \<exists>e0. open_file d e os = ((None, e0), os1) \<and> e1 = e0\<lparr>fx_needs_reopen := False\<rparr>
        else e1 = e \<and> os1 = os"
      and rot: "if rotate_due e1 line then rotate_file d e1 os1 = ((None, e2), os2)
        else e2 = e1 \<and> os2 = os1"
      and res: "Some (r, e', os') = (case write_line d line e2 os2 of
          None \<Rightarrow> None | Some ((r, e3), os3) \<Rightarrow> Some (r, e3, os3))"
    have e1: "clean e1 \<and> \<not> dead e1 \<and> \<not> fx_needs_reopen e1 \<and> all_whole os1"
      using reopened_props [OF re clean False file_inv_all_whole [OF assms(1) False open_]] .
    have e2: "clean e2 \<and> \<not> dead e2 \<and> \<not> fx_needs_reopen e2 \<and> all_whole os2"
      using rotated_props [OF rot] e1 by blast
    have wr: "write_line d line e2 os2 = Some ((r, e'), os')"
      using res by (auto split: option.splits)
    note w = write_line_whole [OF wr]
    have nl: "line \<noteq> []" "whole line" using encodeLine_newline [OF line] by blast+
    have path: "fx_path e2 = fx_path e"
      using reopened_frame [OF re] rotated_frame [OF rot] by (simp add: file_frame_def)
    have "whole c" if "os_files os' p = Some c" "p \<noteq> fx_path e' \<or> \<not> dead e' \<and> \<not> fx_closed e'" for p c
    proof (cases "p = fx_path e2")
      case True
      then have "c = live (fx_path e2) os2 @ line"
        using that w(2) e2 nl(1) write_line_frame [OF wr] by auto
      with nl show ?thesis by (simp add: whole_def)
    next
      case False
      then show ?thesis using that(1) w(3) [of p] e2 nl(1) by (auto simp: all_whole_def)
    qed
    moreover have "clean e'" using w(1) e2 nl(1) by blast
    ultimately show ?thesis
      using write_line_frame [OF wr] e2 path by (simp add: file_inv_def file_ok_def)
  qed (use assms(1) in auto)
qed

subsection \<open>Rotation\<close>

text \<open>Generation 0 is the live file, generation \<open>i\<close> its backup \<open>i\<close>.\<close>

definition gen :: "string \<Rightarrow> os_state \<Rightarrow> nat \<Rightarrow> string option" where
  "gen path os i = os_files os (if i = 0 then path else backupPath path (int i))"

lemma backupPath_inj [simp]: "backupPath path (int i) = backupPath path (int j) \<longleftrightarrow> i = j"
proof
  assume "backupPath path (int i) = backupPath path (int j)"
  then have "digits i = digits j" by (simp add: backupPath_def show_int_def)
  then show "i = j" using digits_props by metis
qed simp

lemma backupPath_ne [simp]: "backupPath path n \<noteq> path" "path \<noteq> backupPath path n"
  by (simp_all add: backupPath_def)

lemma gen_rename:
  assumes "dk_faults d = (\<lambda>_. None)" "i \<noteq> j" "gen path os i = Some c"
  shows "\<exists>os'. os_rename d (if i = 0 then path else backupPath path (int i))
      (if j = 0 then path else backupPath path (int j)) os = (None, os') \<and>
    gen path os' = (gen path os)(i := None, j := Some c)"
  using assms by (auto simp: os_rename_def fault_def gen_def fun_eq_iff split: if_splits)

lemma gen_shift:
  assumes "dk_faults d = (\<lambda>_. None)" "gen path os (n + 1) = None"
  shows "\<exists>os'. shift_backups d path n os = (None, os') \<and>
    gen path os' = (\<lambda>i. if i = 0 \<or> n + 1 < i then gen path os i
      else if i = 1 then None else gen path os (i - 1))"
  using assms(2)
proof (induction n arbitrary: os)
  case 0
  have "gen path os = (\<lambda>i. if i = 0 \<or> 1 < i then gen path os i
      else if i = 1 then None else gen path os (i - 1))"
  proof
    show "gen path os i = (if i = 0 \<or> 1 < i then gen path os i
      else if i = 1 then None else gen path os (i - 1))" for i
      using 0 by (cases "i = 1") auto
  qed
  then show ?case by simp
next
  case (Suc n)
  define os1 where "os1 = tick os"
  have g1: "gen path os1 = gen path os" by (simp add: os1_def gen_def fun_eq_iff)
  have st: "os_stat d (backupPath path (int (Suc n))) os = (gen path os (Suc n) \<noteq> None, os1)"
    by (simp add: os_stat_def fault_def assms(1) gen_def os1_def)
  show ?case
  proof (cases "gen path os (Suc n)")
    case None
    then have "gen path os1 (n + 1) = None" by (simp add: g1)
    from Suc.IH [OF this] obtain os' where "shift_backups d path n os1 = (None, os')"
      "gen path os' = (\<lambda>i. if i = 0 \<or> n + 1 < i then gen path os i
        else if i = 1 then None else gen path os (i - 1))" unfolding g1 by blast
    with None st Suc.prems show ?thesis
      by (auto simp: fun_eq_iff less_Suc_eq not_less_eq)
  next
    case (Some c)
    from gen_rename [OF assms(1), of "Suc n" "Suc (Suc n)" path os1 c] Some g1
    obtain os2 where os2: "os_rename d (backupPath path (int (Suc n)))
        (backupPath path (int (Suc n) + 1)) os1 = (None, os2)"
      "gen path os2 = (gen path os)(Suc n := None, Suc (Suc n) := Some c)"
      by (auto simp: add.commute)
    then have "gen path os2 (n + 1) = None" by simp
    from Suc.IH [OF this] obtain os' where "shift_backups d path n os2 = (None, os')"
      "gen path os' = (\<lambda>i. if i = 0 \<or> n + 1 < i then gen path os2 i
        else if i = 1 then None else gen path os2 (i - 1))" by blast
    with Some st os2 show ?thesis
      by (auto simp: fun_eq_iff less_Suc_eq not_less_eq)
  qed
qed

lemma gen_open:
  assumes "dk_faults d = (\<lambda>_. None)"
  shows "\<exists>e' os'. open_file d e os = ((None, e'), os') \<and>
    gen (fx_path e) os' = (gen (fx_path e) os)(0 := Some (live (fx_path e) os))"
  using assms
  by (auto simp: open_file_def os_defs fault_def live_def gen_def fun_eq_iff Let_def
      split: option.splits)

lemma gen_remove:
  assumes "dk_faults d = (\<lambda>_. None)"
  shows "\<exists>err os'. os_remove d (if i = 0 then path else backupPath path (int i)) os = (err, os') \<and>
    hard err = None \<and> gen path os' = (gen path os)(i := None)"
  using assms by (auto simp: os_remove_def fault_def hard_def gen_def fun_eq_iff)

lemma gen_live: "live path os = (case gen path os 0 of None \<Rightarrow> [] | Some c \<Rightarrow> c)"
  by (simp add: live_def gen_def)

lemma gen_rotate_files:
  assumes "dk_faults d = (\<lambda>_. None)" "fx_max_backups e = int m" "gen (fx_path e) os 0 = Some old"
  shows "\<exists>e' os'. rotate_files d e os = ((None, e'), os') \<and>
    gen (fx_path e) os' = (\<lambda>i. if i = 0 then Some [] else if i \<le> m then gen (fx_path e) os (i - 1)
      else gen (fx_path e) os i)"
proof -
  let ?p = "fx_path e"
  have reopen: "\<exists>e' os'. reopen_file d e os0 = ((None, e'), os') \<and>
    gen ?p os' = (gen ?p os0)(0 := Some (live ?p os0))" for os0
    using gen_open [OF assms(1), of "e\<lparr>fx_needs_reopen := True\<rparr>" os0]
    by (auto simp: reopen_file_def)
  show ?thesis
  proof (cases m)
    case 0
    obtain err os1 where rm: "os_remove d ?p os = (err, os1)" "hard err = None"
      "gen ?p os1 = (gen ?p os)(0 := None)" using gen_remove [OF assms(1), of 0 ?p os] by auto
    obtain e' os' where "reopen_file d e os1 = ((None, e'), os')"
      "gen ?p os' = (gen ?p os1)(0 := Some (live ?p os1))" using reopen by blast
    with 0 rm assms(2) show ?thesis
      by (auto simp: rotate_files_def fun_eq_iff gen_live)
  next
    case (Suc k)
    obtain err os1 where rm: "os_remove d (backupPath ?p (int (Suc k))) os = (err, os1)"
      "hard err = None" "gen ?p os1 = (gen ?p os)(Suc k := None)"
      using gen_remove [OF assms(1), of "Suc k" ?p os] by auto
    obtain os2 where sh: "shift_backups d ?p k os1 = (None, os2)"
      "gen ?p os2 = (\<lambda>i. if i = 0 \<or> k + 1 < i then gen ?p os1 i
        else if i = 1 then None else gen ?p os1 (i - 1))"
      using gen_shift [OF assms(1), of ?p os1 k] rm(3) by auto
    obtain os3 where rn: "os_rename d ?p (backupPath ?p 1) os2 = (None, os3)"
      "gen ?p os3 = (gen ?p os2)(0 := None, 1 := Some old)"
      using gen_rename [OF assms(1), of 0 1 ?p os2 old] sh(2) rm(3) assms(3) by auto
    obtain e' os' where re: "reopen_file d e os3 = ((None, e'), os')"
      "gen ?p os' = (gen ?p os3)(0 := Some (live ?p os3))" using reopen by blast
    have "rotate_files d e os = ((None, e'), os')"
      using assms(2) Suc rm sh(1) rn(1) re(1) by (simp add: rotate_files_def hard_def nat_diff_distrib)
    moreover have "gen ?p os' = (\<lambda>i. if i = 0 then Some [] else if i \<le> m then gen ?p os (i - 1)
      else gen ?p os i)"
      unfolding re(2) rn(2) sh(2) rm(3) gen_live using assms(3) Suc by (auto simp: fun_eq_iff)
    ultimately show ?thesis by blast
  qed
qed

text \<open>A rotation that is due, on a disk that does what it is asked.\<close>

lemma FileExport_rotates:
  assumes "dk_faults d = (\<lambda>_. None)" "file_inv e os" "\<not> dead e" "\<not> fx_closed e"
    and "\<not> fx_needs_reopen e" "fx_file e \<longrightarrow> fx_open e" "fx_max_backups e = int m"
    and "gen (fx_path e) os 0 = Some old" "encodeLine marshal (Some b) = Inr line" "rotate_due e line"
  shows "\<exists>e' os'. FileExport marshal d None (Some b) (e, os) = Some (None, e', os') \<and>
    gen (fx_path e) os' = (\<lambda>i. if i = 0 then Some line else if i \<le> m then gen (fx_path e) os (i - 1)
      else gen (fx_path e) os i)"
proof -
  obtain b0 where b0: "fx_w e = Some b0" "bw_err b0 = None" "bw_buf b0 = []"
    using assms(2,3,4) by (auto simp: file_inv_def file_ok_def clean_def dead_def)
  define e1 where "e1 = (if fx_file e then e\<lparr>fx_w := Some b0, fx_open := False, fx_file := False\<rparr>
    else e\<lparr>fx_w := Some b0\<rparr>)"
  define os1 where "os1 = (if fx_file e then tick os else os)"
  have rot: "rotate_file d e os = rotate_files d e1 os1"
    using assms(1,6) b0 by (auto simp: rotate_file_def bw_flush_def plain_call_def fault_def
        Let_def e1_def os1_def)
  have e1: "fx_path e1 = fx_path e" "fx_max_backups e1 = int m" "gen (fx_path e) os1 = gen (fx_path e) os"
    using assms(7) by (auto simp: e1_def os1_def gen_def fun_eq_iff)
  obtain e2 os2 where e2: "rotate_files d e1 os1 = ((None, e2), os2)"
    "gen (fx_path e) os2 = (\<lambda>i. if i = 0 then Some [] else if i \<le> m then gen (fx_path e) os (i - 1)
      else gen (fx_path e) os i)"
    using gen_rotate_files [OF assms(1) e1(2), of os1 old] assms(8) unfolding e1(1,3) by blast
  have w2: "fx_w e2 = Some new_writer \<and> fx_open e2 \<and> fx_path e2 = fx_path e"
    using e2(1) e1(1) rotate_files_frame [OF e2(1)] open_ok
    by (auto simp: rotate_files_def reopen_file_def file_frame_def Let_def
        split: prod.splits option.splits if_splits)
  have nl: "line \<noteq> []" using encodeLine_newline [OF assms(9)] by simp
  have "\<exists>e' os'. write_line d line e2 os2 = Some ((None, e'), os') \<and>
      os_files os' = (os_files os2)(fx_path e := Some (live (fx_path e) os2 @ line))"
    using w2 nl assms(1)
    by (auto simp: write_line_def new_writer_def bw_write_def bw_flush_def bw_direct_def os_write_def
        fault_def plain_call_def live_def Let_def)
  then obtain e' os' where wr: "write_line d line e2 os2 = Some ((None, e'), os')"
    "os_files os' = (os_files os2)(fx_path e := Some (live (fx_path e) os2 @ line))" by blast
  have "gen (fx_path e) os' = (gen (fx_path e) os2)(0 := Some line)"
    using wr(2) e2(2) by (auto simp: gen_def fun_eq_iff gen_live)
  moreover have "FileExport marshal d None (Some b) (e, os) = Some (None, e', os')"
    using assms(4,5,9,10) rot e2(1) wr(1) by (simp add: FileExport_def Let_def)
  ultimately show ?thesis using e2(2) by (auto simp: fun_eq_iff)
qed

subsection \<open>Runs\<close>

inductive file_run :: "marshal \<Rightarrow> export_config \<Rightarrow> file_exporter \<Rightarrow> os_state \<Rightarrow> bool"
  for marshal cfg where
  start: "all_whole os0 \<Longrightarrow> NewFileExporter d cfg os0 = (Inr e, os) \<Longrightarrow> file_run marshal cfg e os"
| export: "file_run marshal cfg e os \<Longrightarrow>
    FileExport marshal d ctx (Some b) (e, os) = Some (r, e', os') \<Longrightarrow> file_run marshal cfg e' os'"
| close: "file_run marshal cfg e os \<Longrightarrow> FileClose d (e, os) = (r, e', os') \<Longrightarrow>
    file_run marshal cfg e' os'"

lemma NewFileExporter_inv:
  assumes "NewFileExporter d cfg os0 = (Inr e, os)" "all_whole os0"
  shows "file_inv e os"
proof -
  obtain e0 where op: "open_file d e0 os0 = ((None, e), os)"
    using assms(1) by (auto simp: NewFileExporter_def Let_def split: prod.splits option.splits if_splits)
  with open_ok [OF op] all_whole_open [OF op assms(2)] show ?thesis
    by (intro file_inv_fine) (auto simp: clean_def dead_def new_writer_def)
qed

lemma FileClose_files:
  assumes "FileClose d (e, os) = (r, e', os')" "file_inv e os"
  shows "os_files os' = os_files os" "fx_path e' = fx_path e"
  using assms by (auto simp: FileClose_def bw_flush_def plain_call_def file_inv_def clean_def Let_def
      split: prod.splits option.splits if_splits)

lemma FileClose_inv:
  assumes "FileClose d (e, os) = (r, e', os')" "file_inv e os"
  shows "file_inv e' os'"
proof -
  note FileClose_files [OF assms]
  moreover have "e' = e \<or> fx_closed e' \<and> fx_w e' = None"
    using assms(1) by (auto simp: FileClose_def Let_def split: prod.splits if_splits)
  ultimately show ?thesis using assms(2)
    by (auto simp: file_inv_def file_ok_def clean_def dead_def)
qed

lemma file_run_inv: "file_run marshal cfg e os \<Longrightarrow> file_inv e os"
proof (induction rule: file_run.induct)
  case (export e os d ctx b r e' os')
  then show ?case
    using FileExport_inv [of e os marshal d b r e' os']
    by (cases ctx) (auto simp: FileExport_def)
qed (use NewFileExporter_inv FileClose_inv in blast)+

text \<open>A file that may be torn: whole records, then at most a part of one more record.\<close>

definition torn :: "marshal \<Rightarrow> string \<Rightarrow> bool" where
  "torn marshal c \<longleftrightarrow> whole c \<or>
     (\<exists>pre b line k. whole pre \<and> encodeLine marshal (Some b) = Inr line \<and> c = pre @ take k line)"

lemma FileExport_torn:
  assumes "file_inv e os" "FileExport marshal d None (Some b) (e, os) = Some (r, e', os')"
    and "\<forall>c. os_files os (fx_path e) = Some c \<longrightarrow> torn marshal c"
  shows "\<forall>c. os_files os' (fx_path e') = Some c \<longrightarrow> torn marshal c"
proof (cases "dead e")
  case True
  with assms FileExport_dead [of e marshal d b os] show ?thesis by (auto simp: file_inv_def)
next
  case False
  have clean: "clean e" using assms(1) by (simp add: file_inv_def)
  note inv' = FileExport_inv [OF assms(1,2)]
  have fine: ?thesis if "\<not> dead e'" "\<not> fx_closed e'"
    using inv' that by (auto simp: file_inv_def torn_def)
  show ?thesis
  proof (rule FileExport_cases [OF assms(2)])
    fix line x os1
    assume "os_files os1 = os_files os" "Some (r, e', os') = Some (Some x, snd (failed x e), os1)"
    with assms(3) show ?thesis by simp
  next
    fix line e1 os1 x e2 os2
    assume open_: "\<not> fx_closed e" and re: "if fx_needs_reopen e
        then \<exists>e0. open_file d e os = ((None, e0), os1) \<and> e1 = e0\<lparr>fx_needs_reopen := False\<rparr>
        else e1 = e \<and> os1 = os"
      and rot: "rotate_file d e1 os1 = ((Some x, e2), os2)"
      and res: "Some (r, e', os') = Some (Some x, snd (failed x e2), os2)"
    have e1: "clean e1 \<and> \<not> dead e1 \<and> all_whole os1"
      using reopened_props [OF re clean False file_inv_all_whole [OF assms(1) False open_]] by simp
    then have "all_whole os2" using rotate_props [OF rot] by blast
    with res show ?thesis by (auto simp: all_whole_def torn_def)
  next
    fix line e1 os1 e2 os2
    assume line: "encodeLine marshal (Some b) = Inr line" and open_: "\<not> fx_closed e"
      and re: "if fx_needs_reopen e
        then \<exists>e0. open_file d e os = ((None, e0), os1) \<and> e1 = e0\<lparr>fx_needs_reopen := False\<rparr>
        else e1 = e \<and> os1 = os"
      and rot: "if rotate_due e1 line then rotate_file d e1 os1 = ((None, e2), os2)
        else e2 = e1 \<and> os2 = os1"
      and res: "Some (r, e', os') = (case write_line d line e2 os2 of
          None \<Rightarrow> None | Some ((r, e3), os3) \<Rightarrow> Some (r, e3, os3))"
    have e2: "clean e2 \<and> \<not> dead e2 \<and> \<not> fx_needs_reopen e2 \<and> all_whole os2"
      using rotated_props [OF rot] reopened_props [OF re clean False file_inv_all_whole [OF assms(1) False open_]]
      by blast
    have wr: "write_line d line e2 os2 = Some ((r, e'), os')"
      using res by (auto split: option.splits)
    have nl: "line \<noteq> []" using encodeLine_newline [OF line] by blast
    have path: "fx_path e' = fx_path e2" "fx_closed e' = fx_closed e"
      using write_line_frame [OF wr] reopened_frame [OF re] rotated_frame [OF rot]
      by (simp_all add: file_frame_def)
    show ?thesis
    proof (cases "dead e'")
      case True
      then obtain k where "os_files os' = os_files os2 \<or>
          os_files os' = (os_files os2)(fx_path e2 := Some (live (fx_path e2) os2 @ take k line))"
        using write_line_torn [OF wr] e2 nl by blast
      moreover have "whole (live (fx_path e2) os2)" using e2 by (simp add: all_whole_live)
      ultimately show ?thesis
        using e2 line unfolding torn_def all_whole_def path(1) by fastforce
    qed (use fine path open_ in simp)
  qed (use assms(3) in auto)
qed

lemma file_run_torn:
  "file_run marshal cfg e os \<Longrightarrow> \<forall>c. os_files os (fx_path e) = Some c \<longrightarrow> torn marshal c"
proof (induction rule: file_run.induct)
  case (start os0 d e os)
  have "file_inv e os" by (rule NewFileExporter_inv [OF start(2,1)])
  moreover obtain e0 where op: "open_file d e0 os0 = ((None, e), os)" "\<not> fx_closed e0"
    using start(2) by (auto simp: NewFileExporter_def Let_def split: prod.splits option.splits if_splits)
  then have "\<not> dead e \<and> \<not> fx_closed e"
    using open_ok [OF op(1)] open_frame [OF op(1)] by (simp add: dead_def new_writer_def file_frame_def)
  ultimately show ?case by (auto simp: file_inv_def torn_def)
next
  case (export e os d ctx b r e' os')
  show ?case
  proof (cases ctx)
    case None
    with export.hyps(2) have "FileExport marshal d None (Some b) (e, os) = Some (r, e', os')" by simp
    from FileExport_torn [OF file_run_inv [OF export.hyps(1)] this export.IH] show ?thesis .
  next
    case (Some err)
    with export.hyps(2) have "e' = e" "os' = os" by (simp_all add: FileExport_def)
    with export.IH show ?thesis by simp
  qed
next
  case (close e os d r e' os')
  from FileClose_files [OF close.hyps(2) file_run_inv [OF close.hyps(1)]] close.IH show ?case by simp
qed

text \<open>A batch counted as exported is a whole line at the end of the live file.\<close>

lemma FileExport_writes:
  assumes "file_inv e os" "FileExport marshal d None (Some b) (e, os) = Some (None, e', os')"
  shows "\<exists>line pre. encodeLine marshal (Some b) = Inr line \<and> whole pre \<and>
    os_files os' (fx_path e) = Some (pre @ line) \<and>
    ct_exported (fx_counters e') = ct_exported (fx_counters e) + 1"
proof (cases "dead e")
  case True
  with assms FileExport_dead [of e marshal d b os] show ?thesis by (auto simp: file_inv_def)
next
  case False
  have clean: "clean e" using assms(1) by (simp add: file_inv_def)
  show ?thesis
  proof (rule FileExport_cases [OF assms(2)])
    fix line e1 os1 e2 os2
    assume line: "encodeLine marshal (Some b) = Inr line" and open_: "\<not> fx_closed e"
      and re: "if fx_needs_reopen e
        then \<exists>e0. open_file d e os = ((None, e0), os1) \<and> e1 = e0\<lparr>fx_needs_reopen := False\<rparr>
        else e1 = e \<and> os1 = os"
      and rot: "if rotate_due e1 line then rotate_file d e1 os1 = ((None, e2), os2)
        else e2 = e1 \<and> os2 = os1"
      and res: "Some (None, e', os') = (case write_line d line e2 os2 of
          None \<Rightarrow> None | Some ((r, e3), os3) \<Rightarrow> Some (r, e3, os3))"
    have e2: "clean e2 \<and> \<not> dead e2 \<and> \<not> fx_needs_reopen e2 \<and> all_whole os2"
      using rotated_props [OF rot] reopened_props [OF re clean False file_inv_all_whole [OF assms(1) False open_]]
      by blast
    have wr: "write_line d line e2 os2 = Some ((None, e'), os')"
      using res by (auto split: option.splits)
    have nl: "line \<noteq> []" using encodeLine_newline [OF line] by blast
    have frame: "fx_path e2 = fx_path e" "fx_counters e2 = fx_counters e"
      using reopened_frame [OF re] rotated_frame [OF rot] by (simp_all add: file_frame_def)
    have "os_files os' (fx_path e) = Some (live (fx_path e) os2 @ line)"
      using write_line_whole(2,4) [OF wr] e2 nl frame by simp
    moreover have "ct_exported (fx_counters e') = ct_exported (fx_counters e) + 1"
      using write_line_settles [of e2 d line os2] write_line_frame [OF wr] wr frame by auto
    ultimately show ?thesis using line e2 all_whole_live by blast
  qed auto
qed

text \<open>Calls on a sequence of disks, with what each returned.\<close>

fun file_calls ::
    "marshal \<Rightarrow> (disk \<times> batch) list \<Rightarrow> file_exporter \<times> os_state \<Rightarrow>
     (string option list \<times> file_exporter \<times> os_state) option" where
  "file_calls marshal [] s = Some ([], s)"
| "file_calls marshal ((d, b) # calls) s =
     (case FileExport marshal d None (Some b) s of
        None \<Rightarrow> None
      | Some (r, s') \<Rightarrow> map_option (\<lambda>(rs, s''). (r # rs, s'')) (file_calls marshal calls s'))"

lemma file_calls_dead:
  assumes "dead e" "\<not> fx_needs_reopen e"
  shows "\<exists>rs e'. file_calls marshal calls (e, os) = Some (rs, e', os) \<and> length rs = length calls \<and>
    list_all (\<lambda>r. r \<noteq> None) rs \<and>
    ct_dropped (fx_counters e') = ct_dropped (fx_counters e) + length calls"
  using assms
proof (induction calls arbitrary: e)
  case (Cons call calls)
  obtain d b where call: "call = (d, b)" by (cases call)
  obtain x e1 where e1: "FileExport marshal d None (Some b) (e, os) = Some (Some x, e1, os)"
    "dead e1" "\<not> fx_needs_reopen e1" "ct_dropped (fx_counters e1) = ct_dropped (fx_counters e) + 1"
    using FileExport_dead [OF Cons.prems, of marshal d b os] by blast
  with Cons.IH [OF e1(2,3)] call show ?case by auto
qed simp

text \<open>
  A reopen that is still due touches no backup, whether it succeeds or not: the file it makes is
  empty, and an empty file is not rotated.
\<close>

lemma reopen_spares_backups:
  assumes "fx_needs_reopen e" "\<not> fx_closed e" "os_files os (fx_path e) = None"
    and "FileExport marshal d None (Some b) (e, os) = Some (r, e', os')" "1 \<le> i"
  shows "gen (fx_path e) os' i = gen (fx_path e) os i"
proof (rule FileExport_cases [OF assms(4)])
  fix line e1 os1 e2 os2
  assume re: "if fx_needs_reopen e then \<exists>e0. open_file d e os = ((None, e0), os1) \<and>
         e1 = e0\<lparr>fx_needs_reopen := False\<rparr> else e1 = e \<and> os1 = os"
    and line: "encodeLine marshal (Some b) = Inr line"
    and rot: "if rotate_due e1 line then rotate_file d e1 os1 = ((None, e2), os2)
      else e2 = e1 \<and> os2 = os1"
    and res: "Some (r, e', os') = (case write_line d line e2 os2 of
        None \<Rightarrow> None | Some ((r, e3), os3) \<Rightarrow> Some (r, e3, os3))"
  obtain e0 where e0: "open_file d e os = ((None, e0), os1)" "e1 = e0\<lparr>fx_needs_reopen := False\<rparr>"
    using re assms(1) by auto
  have "fx_size e0 = 0" using e0(1) assms(3)
    by (auto simp: open_file_def os_defs Let_def split: option.splits prod.splits if_splits)
  with e0(2) rot have e2: "e2 = e1" "os2 = os1" by (simp_all add: rotate_due_def)
  have frame: "fx_path e1 = fx_path e" using reopened_frame [OF re] by (simp add: file_frame_def)
  have wr: "write_line d line e1 os1 = Some ((r, e'), os')"
    using res e2 by (auto split: option.splits)
  have fine: "clean e1" "\<not> dead e1"
    using open_ok [OF e0(1)] e0(2) by (auto simp: clean_def dead_def new_writer_def)
  have "line \<noteq> []" using encodeLine_newline [OF line] by blast
  with write_line_whole(3) [OF wr fine] frame open_ok [OF e0(1)] assms(5) show ?thesis
    by (simp add: gen_def)
next
  fix line e1 os1 x e2 os2
  assume re: "if fx_needs_reopen e then \<exists>e0. open_file d e os = ((None, e0), os1) \<and>
         e1 = e0\<lparr>fx_needs_reopen := False\<rparr> else e1 = e \<and> os1 = os"
    and due: "rotate_due e1 line"
  obtain e0 where e0: "open_file d e os = ((None, e0), os1)" "e1 = e0\<lparr>fx_needs_reopen := False\<rparr>"
    using re assms(1) by auto
  have "fx_size e0 = 0" using e0(1) assms(3)
    by (auto simp: open_file_def os_defs Let_def split: option.splits prod.splits if_splits)
  with e0(2) due show ?thesis by (simp add: rotate_due_def)
qed (use assms in \<open>auto simp: gen_def\<close>)

text \<open>
  Three ways to lose the exporter or its backups for good. A close that failed leaves \<open>e.file\<close> set, so
  every later rotation closes a closed file; a product that overflows switches rotation off.
\<close>

lemma failed_close_is_final:
  assumes "clean e" "\<not> dead e" "fx_w e \<noteq> None" "fx_file e" "\<not> fx_open e"
  shows "rotate_file d e os =
    ((Some (''close '' @ fx_path e @ '' before rotate: file already closed''), e), os)"
  using assms by (cases e) (auto simp: rotate_file_def bw_flush_def clean_def dead_def Let_def)

lemma max_mb_overflows: "sint (word_of_int 8796093022208 * 1024 * 1024 :: 64 word) < 0"
  by simp

subsection \<open>Properties\<close>

definition good_disk :: disk where
  "good_disk = \<lparr>dk_faults = (\<lambda>_. None), dk_taken = (\<lambda>_. 0), dk_dir = (\<lambda>_. ''.'')\<rparr>"

definition bare_batch :: "nat \<Rightarrow> batch" where
  "bare_batch n =
     \<lparr>ba_schema_version = 1, ba_agent_version = [], ba_instance_id = [], ba_seq = n,
      ba_collected_at = 0, ba_collection_ms = 0, ba_cluster = None, ba_topics = [], ba_groups = [],
      ba_offsets = [], ba_log_dirs = [], ba_window = None, ba_reassignments = [],
      ba_epoch_probes = [], ba_topic_configs = [], ba_broker_configs = [], ba_share_groups = [],
      ba_principal = [],
      ba_agent = \<lparr>as_uptime_sec = 0, as_batches_collected = 0, as_batches_exported = 0,
        as_batches_dropped = 0, as_batches_rejected = 0, as_export_retries = 0,
        as_queue_depth = 0, as_last_export_error = [], as_rpc = None\<rparr>,
      ba_sections = [], ba_errors = [], ba_truncation = None, ba_selection = None\<rparr>"

text \<open>An exporter on file f with one backup and room for three bytes.\<close>

definition small_exporter :: file_exporter where
  "small_exporter =
     \<lparr>fx_counters = zero_counters, fx_path = ''f'', fx_max_bytes = 3, fx_max_backups = 1,
      fx_sync = False, fx_file = True, fx_open = True, fx_w = Some new_writer, fx_size = 3,
      fx_needs_reopen = False, fx_closed = False\<rparr>"

definition small_files :: os_state where
  "small_files = \<lparr>os_files = [''f'' \<mapsto> [CHR ''a'', CHR ''b'', CHR 10], ''f.1'' \<mapsto> [CHR 10]], os_ticks = 0\<rparr>"

definition braces :: marshal where "braces b = Inr ''{}''"

text \<open>
  C16: an agent that hands batches to its exporter can account for every one of them, whichever
  exporter it has: each call whose context is live adds one to the settled batches of the file and
  standard output exporters, and one to the settled or queued batches of the HTTP exporter; a call
  whose context is done changes nothing; and no call on a batch panics.
\<close>

theorem exports_accounted:
  assumes "file_ok f"
  shows "(\<exists>s'. http_ex.export_all marshal gz calls s = Some s' \<and>
       settled (hx_counters s') + length (hx_queue s') =
         settled (hx_counters s) + length (hx_queue s) + length (filter (\<lambda>(ctx, b). ctx = None) calls)) \<and>
     (\<exists>out'. stdout_ex.export_all marshal wr calls out = Some out' \<and>
       settled (so_counters out') =
         settled (so_counters out) + length (filter (\<lambda>(ctx, b). ctx = None) calls)) \<and>
     (\<exists>f'. file_ex.export_all marshal d calls f = Some f' \<and> file_ok f' \<and>
       settled (fx_counters (fst f')) =
         settled (fx_counters (fst f)) + length (filter (\<lambda>(ctx, b). ctx = None) calls))"
  using http_ex.export_all_settles [where s = s and marshal = marshal and gz = gz and calls = calls]
    stdout_ex.export_all_settles [where s = out and marshal = marshal and wr = wr and calls = calls]
    file_ex.export_all_settles [OF assms, where marshal = marshal and d = d and calls = calls]
  by simp

theorem exports_accounted_witness:
  "\<exists>f'. file_ex.export_all braces good_disk [(None, bare_batch 1), (Some [], bare_batch 2)]
       (small_exporter, small_files) = Some f' \<and> settled (fx_counters (fst f')) = 1"
proof -
  have "file_ok (small_exporter, small_files)" by (simp add: file_ok_def small_exporter_def)
  from exports_accounted [OF this, of braces "\<lambda>_. Inr []"
      "[(None, bare_batch 1), (Some [], bare_batch 2)]" "NewHTTPExporter tiny_config" "\<lambda>_. None"
      "\<lparr>so_counters = zero_counters, so_written = []\<rparr>" good_disk]
  have "\<exists>f'. file_ex.export_all braces good_disk [(None, bare_batch 1), (Some [], bare_batch 2)]
       (small_exporter, small_files) = Some f' \<and>
      settled (fx_counters (fst f')) = settled (fx_counters small_exporter) + 1" by auto
  then show ?thesis by (simp add: small_exporter_def)
qed

text \<open>
  C31: the framing of the output of an exporter opened where every file holds whole records. After
  any calls, whatever the disk did, every backup and every other file still holds whole records, and
  so does the live file while the exporter is open and its writer holds no error. Once the writer
  holds an error, or the exporter is closed, the live file may end in a part of one record, behind
  whole ones, and nothing more torn than that. A batch counted as exported is a whole record at the
  end of the live file, behind whole records.
\<close>

theorem file_framing:
  assumes "file_run marshal cfg e os"
  shows "(\<forall>p c. os_files os p = Some c \<longrightarrow> whole c \<or>
       p = fx_path e \<and> (dead e \<or> fx_closed e) \<and>
       (\<exists>pre b line k. whole pre \<and> encodeLine marshal (Some b) = Inr line \<and> c = pre @ take k line)) \<and>
     (FileExport marshal d None (Some b) (e, os) = Some (None, e', os') \<longrightarrow>
       (\<exists>line pre. encodeLine marshal (Some b) = Inr line \<and> whole pre \<and>
          os_files os' (fx_path e) = Some (pre @ line) \<and>
          ct_exported (fx_counters e') = ct_exported (fx_counters e) + 1))"
proof -
  have "whole c \<or> p = fx_path e \<and> (dead e \<or> fx_closed e) \<and>
      (\<exists>pre b line k. whole pre \<and> encodeLine marshal (Some b) = Inr line \<and> c = pre @ take k line)"
    if "os_files os p = Some c" for p c
    using file_run_inv [OF assms] file_run_torn [OF assms] that
    unfolding file_inv_def torn_def by blast
  then show ?thesis
    using FileExport_writes [OF file_run_inv [OF assms], of marshal d b e' os'] by blast
qed

theorem file_framing_witness:
  "\<exists>e os e' os'. file_run braces (tiny_config\<lparr>xc_path := ''f''\<rparr>) e os \<and>
     FileExport braces good_disk None (Some (bare_batch 1)) (e, os) = Some (None, e', os') \<and>
     os_files os' ''f'' = Some [CHR ''{'', CHR ''}'', CHR 10]"
proof -
  let ?os0 = "\<lparr>os_files = (\<lambda>_. None), os_ticks = 0\<rparr>"
  obtain e os where new: "NewFileExporter good_disk (tiny_config\<lparr>xc_path := ''f''\<rparr>) ?os0 = (Inr e, os)"
      "fx_path e = ''f''" "os_files os ''f'' = Some []" "fx_w e = Some new_writer" "fx_size e = 0"
      "fx_open e" "\<not> fx_closed e" "\<not> fx_needs_reopen e" "\<not> fx_sync e"
    by (simp add: NewFileExporter_def open_file_def good_disk_def os_defs fault_def tiny_config_def
        Let_def)
  have run: "file_run braces (tiny_config\<lparr>xc_path := ''f''\<rparr>) e os"
    by (rule file_run.start [OF _ new(1)]) (simp add: all_whole_def)
  have "\<exists>e' os'. FileExport braces good_disk None (Some (bare_batch 1)) (e, os) = Some (None, e', os') \<and>
      length (the (os_files os' ''f'')) = 3"
    using new by (simp add: FileExport_def encodeLine_def braces_def rotate_due_def write_line_def
        bw_write_def bw_flush_def bw_size_def new_writer_def os_write_def good_disk_def fault_def Let_def)
  then obtain e' os' where ex: "FileExport braces good_disk None (Some (bare_batch 1)) (e, os) =
      Some (None, e', os')" "length (the (os_files os' ''f'')) = 3" by blast
  from file_framing [OF run, of good_disk "bare_batch 1" e' os'] ex new(2)
  have "os_files os' ''f'' = Some [CHR ''{'', CHR ''}'', CHR 10]"
    by (auto simp: encodeLine_def braces_def)
  with run ex(1) show ?thesis by blast
qed

text \<open>
  C32: rotation on a disk that does what it is asked. When a record no longer fits, the call succeeds,
  the record alone is the new live file, the old live file is backup 1 and each backup moves up by
  one; the oldest alone is gone.
\<close>

theorem rotation_shifts_generations:
  assumes "dk_faults d = (\<lambda>_. None)" "file_inv e os" "\<not> dead e" "\<not> fx_closed e"
    and "\<not> fx_needs_reopen e" "fx_file e \<longrightarrow> fx_open e" "fx_max_backups e = int m"
    and "gen (fx_path e) os 0 = Some old" "encodeLine marshal (Some b) = Inr line" "rotate_due e line"
  shows "\<exists>e' os'. FileExport marshal d None (Some b) (e, os) = Some (None, e', os') \<and>
    map (gen (fx_path e) os') [0..<m + 1] = Some line # map (gen (fx_path e) os) [0..<m]"
proof -
  obtain e' os' where run: "FileExport marshal d None (Some b) (e, os) = Some (None, e', os')"
    "gen (fx_path e) os' = (\<lambda>i. if i = 0 then Some line else if i \<le> m then gen (fx_path e) os (i - 1)
      else gen (fx_path e) os i)"
    using FileExport_rotates [OF assms] by blast
  have "map (gen (fx_path e) os') [0..<m + 1] = Some line # map (gen (fx_path e) os) [0..<m]"
    by (rule nth_equalityI) (auto simp: run(2) nth_Cons' simp del: upt_Suc)
  with run(1) show ?thesis by (intro exI conjI)
qed

theorem rotation_shifts_generations_witness:
  "\<exists>e' os'. FileExport braces good_disk None (Some (bare_batch 1)) (small_exporter, small_files) =
      Some (None, e', os') \<and>
     map (gen ''f'' os') [0, 1] = [Some [CHR ''{'', CHR ''}'', CHR 10], Some [CHR ''a'', CHR ''b'', CHR 10]]"
proof -
  have inv: "file_inv small_exporter small_files"
    by (rule file_inv_fine)
      (auto simp: small_exporter_def small_files_def clean_def dead_def new_writer_def
        all_whole_def whole_def split: if_splits)
  have "gen ''f'' small_files 0 = Some [CHR ''a'', CHR ''b'', CHR 10]"
    by (simp add: gen_def small_files_def)
  with rotation_shifts_generations [of good_disk small_exporter small_files 1
      "[CHR ''a'', CHR ''b'', CHR 10]" braces "bare_batch 1" "[CHR ''{'', CHR ''}'', CHR 10]", OF _ inv]
  show ?thesis
    by (simp add: small_exporter_def good_disk_def dead_def new_writer_def encodeLine_def braces_def
        rotate_due_def numeral_2_eq_2)
qed

text \<open>
  C33: one failed write is final. Once the buffered writer holds an error, every later call on a live
  context fails and counts a drop, whatever the disk then does, and no file changes again: the
  exporter does not recover before it is opened anew.
\<close>

theorem failed_write_is_final:
  assumes "dead e" "\<not> fx_needs_reopen e"
  shows "\<exists>rs e'. file_calls marshal calls (e, os) = Some (rs, e', os) \<and> length rs = length calls \<and>
    list_all (\<lambda>r. r \<noteq> None) rs \<and>
    ct_dropped (fx_counters e') = ct_dropped (fx_counters e) + length calls"
  using file_calls_dead [OF assms] .

theorem failed_write_is_final_witness:
  "\<exists>e os x rs e'. FileExport braces (good_disk\<lparr>dk_faults := (\<lambda>_. Some ''EIO'')\<rparr>) None (Some (bare_batch 1))
       (small_exporter\<lparr>fx_max_bytes := 0\<rparr>, small_files) = Some (Some x, e, os) \<and>
     file_calls braces [(good_disk, bare_batch 2), (good_disk, bare_batch 3)] (e, os) = Some (rs, e', os) \<and>
     ct_dropped (fx_counters e') = 3"
proof -
  obtain e os x where first: "FileExport braces (good_disk\<lparr>dk_faults := (\<lambda>_. Some ''EIO'')\<rparr>) None
      (Some (bare_batch 1)) (small_exporter\<lparr>fx_max_bytes := 0\<rparr>, small_files) = Some (Some x, e, os)"
    "dead e" "\<not> fx_needs_reopen e" "ct_dropped (fx_counters e) = 1"
    by (simp add: FileExport_def encodeLine_def braces_def rotate_due_def write_line_def
        bw_write_def bw_flush_def bw_size_def new_writer_def os_write_def good_disk_def fault_def
        small_exporter_def failed_def drop_batch_def recordError_def zero_counters_def dead_def Let_def)
  from failed_write_is_final [OF first(2,3), of braces "[(good_disk, bare_batch 2), (good_disk, bare_batch 3)]" os]
    first(1,4) show ?thesis by auto
qed

text \<open>
  A rotation whose last rename fails has already moved the backups, and \<open>needsReopen\<close> is not set, so
  the next call moves them again: two calls, and both backups of this exporter are gone.
\<close>

lemma failed_rename_replays_the_shift:
  "(let d = good_disk\<lparr>dk_faults := (\<lambda>n. if n = 4 \<or> n = 7 then Some ''EACCES'' else None)\<rparr>;
        e = small_exporter\<lparr>fx_max_backups := 2\<rparr>;
        os = small_files\<lparr>os_files := (os_files small_files)(''f.2'' \<mapsto> [CHR 10])\<rparr>
    in case file_calls braces [(d, bare_batch 1), (d, bare_batch 2)] (e, os) of
         None \<Rightarrow> False
       | Some (rs, e', os') \<Rightarrow> list_all (\<lambda>r. r \<noteq> None) rs \<and>
           map (gen ''f'' os') [0, 1, 2] = [Some [CHR ''a'', CHR ''b'', CHR 10], None, None])"
  by code_simp

end
