(* ===== verification/Agent_Config.thy ===== *)
theory Agent_Config
  imports Topic_Filter Phase_Base File_Export
begin

text \<open>
  \<open>src/internal/config/config.go\<close>: the environment, read and checked once at startup. \<open>Load\<close> is
  split into the blocks of the function, each of which extends the configuration and returns its
  problems in order. A problem and a warning are constructors that carry what their texts print.
  The environment is a map (\<open>os.LookupEnv\<close>). \<open>url.Parse\<close>, \<open>net.ParseIP\<close>, the regular expression
  engine, the rounding of a fraction of a duration, the case mapping of strings that are not ASCII,
  and what \<open>defaultInstanceID\<close> reads from the machine are the parameters \<open>library\<close>.
\<close>

subsection \<open>The standard library\<close>

record url =
  ur_scheme :: string
  ur_host :: string
  ur_hostname :: string

record go_library =
  lb_url :: "string \<Rightarrow> url option"
  lb_loopback :: "string \<Rightarrow> bool"
  lb_regexp :: regexp_engine
  lb_fraction :: "string \<Rightarrow> nat \<Rightarrow> nat"
  lb_lower :: "string \<Rightarrow> string"
  lb_fold :: "string \<Rightarrow> string \<Rightarrow> bool"
  lb_hostname :: "string option"
  lb_random :: "nat list option"
  lb_unix_nano :: int

text \<open>\<open>strings.ToLower\<close> and \<open>strings.EqualFold\<close>, with the case tables of other runes in the library.\<close>

definition lower_byte :: "char \<Rightarrow> char" where
  "lower_byte ch =
     (let n = of_char ch :: nat in if 65 \<le> n \<and> n \<le> 90 then char_of (n + 32) else ch)"

definition toLower :: "go_library \<Rightarrow> string \<Rightarrow> string" where
  "toLower lib s = (if ascii s then map lower_byte s else lb_lower lib s)"

definition equalFold :: "go_library \<Rightarrow> string \<Rightarrow> string \<Rightarrow> bool" where
  "equalFold lib s t =
     (if ascii s \<and> ascii t then map lower_byte s = map lower_byte t else lb_fold lib s t)"

text \<open>\<open>time.ParseDuration\<close>.\<close>

definition unitMap :: "(string \<times> nat) list" where
  "unitMap =
     [(''ns'', 1), (''us'', 1000), ([CHR 0xC2, CHR 0xB5, CHR ''s''], 1000),
      ([CHR 0xCE, CHR 0xBC, CHR ''s''], 1000), (''ms'', 1000000), (''s'', 1000000000),
      (''m'', 60000000000), (''h'', 3600000000000)]"

definition unit_char :: "char \<Rightarrow> bool" where
  "unit_char ch \<longleftrightarrow> ch \<noteq> CHR ''.'' \<and> \<not> is_digit ch"

definition fraction_part :: "string \<Rightarrow> string \<times> string" where
  "fraction_part s =
     (case s of
        [] \<Rightarrow> ([], [])
      | ch # r \<Rightarrow> if ch = CHR ''.'' then (takeWhile is_digit r, dropWhile is_digit r) else ([], s))"

lemma fraction_part_shorter: "length (snd (fraction_part s)) \<le> length s"
  by (cases s) (auto simp: fraction_part_def length_dropWhile_le le_SucI)

definition max_duration :: nat where "max_duration = 2 ^ 63"

lemma dropWhile_shorter: "takeWhile P xs \<noteq> [] \<Longrightarrow> length (dropWhile P xs) < length xs"
  by (cases xs) (auto simp: length_dropWhile_le le_imp_less_Suc split: if_splits)

function parse_units :: "go_library \<Rightarrow> nat \<Rightarrow> string \<Rightarrow> nat option" where
  "parse_units lib d s =
     (if s = [] then Some d
      else if unit_char (hd s) then None
      else
        let ds = takeWhile is_digit s;
            v = value_of_digits ds;
            (fs, s2) = fraction_part (dropWhile is_digit s);
            u = takeWhile unit_char s2
        in if v > max_duration \<or> ds = [] \<and> fs = [] \<or> u = [] then None
           else case map_of unitMap u of
             None \<Rightarrow> None
           | Some unit \<Rightarrow>
               if v > max_duration div unit then None
               else let v1 = v * unit + (if value_of_digits fs > 0 then lb_fraction lib fs unit else 0)
                    in if v1 > max_duration \<or> d + v1 > max_duration then None
                       else parse_units lib (d + v1) (dropWhile unit_char s2))"
  by pat_completeness auto

termination
proof (relation "measure (\<lambda>(lib, d, s). length s)", goal_cases)
  case (2 lib d s ds v p fs s2 u unit v1)
  then have "length (dropWhile unit_char s2) < length s2" using dropWhile_shorter by force
  also have "length s2 \<le> length (dropWhile is_digit s)"
    using fraction_part_shorter [of "dropWhile is_digit s"] 2(4,5,6) by (metis snd_conv)
  also have "\<dots> \<le> length s" by (rule length_dropWhile_le)
  finally show ?case by simp
qed simp

declare parse_units.simps [simp del]

definition parse_duration :: "go_library \<Rightarrow> string \<Rightarrow> duration option" where
  "parse_duration lib s0 =
     (let (neg, s) = (case s0 of
            c # r \<Rightarrow> if c = CHR ''-'' then (True, r) else if c = CHR ''+'' then (False, r) else (False, s0)
          | [] \<Rightarrow> (False, s0))
      in if s = ''0'' then Some 0
         else if s = [] then None
         else case parse_units lib 0 s of
           None \<Rightarrow> None
         | Some d \<Rightarrow>
             if neg then Some (- int d)
             else if d > max_duration - 1 then None else Some (int d))"

text \<open>Multiplication of \<open>int64\<close> values.\<close>

definition wrap64 :: "int \<Rightarrow> int64" where
  "wrap64 n = sint (word_of_int n :: 64 word)"

lemma wrap64_id: "- (2 ^ 63) \<le> n \<Longrightarrow> n < 2 ^ 63 \<Longrightarrow> wrap64 n = n"
  by (simp add: wrap64_def signed_of_int signed_take_bit_int_eq_self)

subsection \<open>The configuration\<close>

record config =
  cf_brokers :: "string list"
  cf_sasl_mechanism :: string
  cf_sasl_username :: string
  cf_sasl_password :: string
  cf_tls :: bool
  cf_mode :: string
  cf_endpoint :: string
  cf_api_key :: string
  cf_file :: string
  cf_file_max_mb :: int
  cf_file_max_backups :: int
  cf_file_sync :: bool
  cf_queue_size :: int
  cf_max_retries :: int
  cf_base_delay :: duration
  cf_export_timeout :: duration
  cf_interval :: duration
  cf_timeout :: duration
  cf_include_internal :: bool
  cf_topic_include :: "string list"
  cf_topic_exclude :: "string list"
  cf_group_include :: "string list"
  cf_group_exclude :: "string list"
  cf_group_states :: "string list"
  cf_last_stable :: bool
  cf_consumer_groups :: bool
  cf_log_dirs :: bool
  cf_log_dirs_every :: int
  cf_window :: bool
  cf_window_width :: duration
  cf_window_every :: int
  cf_configs :: bool
  cf_configs_every :: int
  cf_max_timestamp :: bool
  cf_max_timestamp_every :: int
  cf_tiered :: bool
  cf_share_groups :: bool
  cf_max_errors :: int
  cf_max_error_samples :: int
  cf_log_level :: string
  cf_instance_id :: string

definition zero_config :: config where
  "zero_config =
     \<lparr>cf_brokers = [], cf_sasl_mechanism = [], cf_sasl_username = [], cf_sasl_password = [],
      cf_tls = False, cf_mode = [], cf_endpoint = [], cf_api_key = [], cf_file = [],
      cf_file_max_mb = 0, cf_file_max_backups = 0, cf_file_sync = False, cf_queue_size = 0,
      cf_max_retries = 0, cf_base_delay = 0, cf_export_timeout = 0, cf_interval = 0, cf_timeout = 0,
      cf_include_internal = False, cf_topic_include = [], cf_topic_exclude = [],
      cf_group_include = [], cf_group_exclude = [], cf_group_states = [], cf_last_stable = False,
      cf_consumer_groups = False, cf_log_dirs = False, cf_log_dirs_every = 0, cf_window = False,
      cf_window_width = 0, cf_window_every = 0, cf_configs = False, cf_configs_every = 0,
      cf_max_timestamp = False, cf_max_timestamp_every = 0, cf_tiered = False,
      cf_share_groups = False, cf_max_errors = 0, cf_max_error_samples = 0, cf_log_level = [],
      cf_instance_id = []\<rparr>"

definition DefaultExportFile :: string where "DefaultExportFile = ''./metrics.jsonl''"
definition DefaultExportFileMaxMB :: int where "DefaultExportFileMaxMB = 100"
definition DefaultExportMaxBackups :: int where "DefaultExportMaxBackups = 3"
definition DefaultExportFileSync :: bool where "DefaultExportFileSync = False"
definition DefaultExportQueueSize :: int where "DefaultExportQueueSize = 20"
definition DefaultExportMaxRetries :: int where "DefaultExportMaxRetries = 3"
definition DefaultExportBaseDelay :: duration where "DefaultExportBaseDelay = second"
definition DefaultExportTimeout :: duration where "DefaultExportTimeout = 10 * second"
definition DefaultInterval :: duration where "DefaultInterval = 5 * second"
definition DefaultLogLevel :: string where "DefaultLogLevel = ''info''"
definition DefaultCollectLSO :: bool where "DefaultCollectLSO = True"
definition DefaultCollectConsumerGroups :: bool where "DefaultCollectConsumerGroups = True"
definition DefaultCollectLogDirs :: bool where "DefaultCollectLogDirs = True"
definition DefaultLogDirsEvery :: int where "DefaultLogDirsEvery = 24"
definition DefaultCollectThroughputWindow :: bool where "DefaultCollectThroughputWindow = False"
definition DefaultThroughputWindow :: duration where "DefaultThroughputWindow = 5 * minute"
definition DefaultThroughputWindowEvery :: int where "DefaultThroughputWindowEvery = 1"
definition DefaultCollectConfigs :: bool where "DefaultCollectConfigs = True"
definition DefaultConfigsEvery :: int where "DefaultConfigsEvery = 360"
definition DefaultCollectMaxTimestamp :: bool where "DefaultCollectMaxTimestamp = True"
definition DefaultMaxTimestampEvery :: int where "DefaultMaxTimestampEvery = 12"
definition DefaultCollectTieredOffsets :: bool where "DefaultCollectTieredOffsets = False"
definition DefaultCollectShareGroups :: bool where "DefaultCollectShareGroups = False"
definition DefaultMaxErrors :: int where "DefaultMaxErrors = 1000"
definition DefaultMaxErrorSamples :: int where "DefaultMaxErrorSamples = 1"
definition collectionTimeoutRatio :: int where "collectionTimeoutRatio = 80"

definition groupStates :: "string list" where
  "groupStates =
     [''Unknown'', ''PreparingRebalance'', ''CompletingRebalance'', ''Stable'', ''Dead'', ''Empty'']"

definition canonicalGroupState :: "go_library \<Rightarrow> string \<Rightarrow> string option" where
  "canonicalGroupState lib s = find (equalFold lib s) groupStates"

subsection \<open>The parser\<close>

datatype problem =
    BrokersRequired
  | BadMechanism string
  | SASLIncomplete
  | EndpointRequired
  | APIKeyRequired
  | BadURL string
  | BadScheme string string
  | NoHost string
  | BadMode string
  | OutOfRange string int
  | BadDuration string string
  | BadInteger string string
  | BadBoolean string string
  | BadPattern string string filter_error
  | BadState string
  | BadLevel string

type_synonym env = "string \<Rightarrow> string option"

definition getenv :: "env \<Rightarrow> string \<Rightarrow> string" where
  "getenv env key = (case env key of None \<Rightarrow> [] | Some v \<Rightarrow> v)"

definition parser_str :: "env \<Rightarrow> string \<Rightarrow> string \<Rightarrow> string" where
  "parser_str env key def =
     (case env key of None \<Rightarrow> def | Some v \<Rightarrow> if trimSpace v \<noteq> [] then v else def)"

definition parser_duration ::
    "go_library \<Rightarrow> env \<Rightarrow> string \<Rightarrow> duration \<Rightarrow> duration \<times> problem list" where
  "parser_duration lib env key def =
     (let v = trimSpace (getenv env key)
      in if v = [] then (def, [])
         else case parse_duration lib v of
           None \<Rightarrow> (def, [BadDuration key v])
         | Some d \<Rightarrow> (d, []))"

definition parser_integer :: "env \<Rightarrow> string \<Rightarrow> int \<Rightarrow> int \<times> problem list" where
  "parser_integer env key def =
     (let v = trimSpace (getenv env key)
      in if v = [] then (def, [])
         else case atoi v of None \<Rightarrow> (def, [BadInteger key v]) | Some n \<Rightarrow> (n, []))"

definition parser_boolean :: "env \<Rightarrow> string \<Rightarrow> bool \<Rightarrow> bool \<times> problem list" where
  "parser_boolean env key def =
     (let v = trimSpace (getenv env key)
      in if v = [] then (def, [])
         else case parse_bool v of None \<Rightarrow> (def, [BadBoolean key v]) | Some b \<Rightarrow> (b, []))"

definition parser_patterns :: "go_library \<Rightarrow> env \<Rightarrow> string \<Rightarrow> string list \<times> problem list" where
  "parser_patterns lib env key =
     (let list = splitList (getenv env key)
      in (list, concat (map (\<lambda>entry. case validatePattern (lb_regexp lib) entry of
            None \<Rightarrow> [] | Some err \<Rightarrow> [BadPattern key entry err]) list)))"

definition check_that :: "bool \<Rightarrow> problem \<Rightarrow> problem list" where
  "check_that ok p = (if ok then [] else [p])"

datatype log_level = LevelDebug | LevelInfo | LevelWarn | LevelError

definition parseLevel :: "string \<Rightarrow> log_level option" where
  "parseLevel s =
     (if s = ''debug'' then Some LevelDebug
      else if s = ''info'' then Some LevelInfo
      else if s = ''warn'' \<or> s = ''warning'' then Some LevelWarn
      else if s = ''error'' then Some LevelError
      else None)"

definition SlogLevel :: "config \<Rightarrow> log_level" where
  "SlogLevel c = (case parseLevel (cf_log_level c) of None \<Rightarrow> LevelInfo | Some l \<Rightarrow> l)"

text \<open>\<open>defaultInstanceID\<close>: four random bytes in hexadecimal, or the low 32 bits of the clock.\<close>

definition hex_digit :: "nat \<Rightarrow> char" where
  "hex_digit n = (if n < 10 then digit_char n else char_of (87 + n))"

definition defaultInstanceID :: "go_library \<Rightarrow> string" where
  "defaultInstanceID lib =
     (let host = (case lb_hostname lib of None \<Rightarrow> ''agent'' | Some h \<Rightarrow> if h = [] then ''agent'' else h)
      in case lb_random lib of
           None \<Rightarrow> host @ ''-'' @ show_int (take_bit 32 (lb_unix_nano lib))
         | Some bs \<Rightarrow> host @ ''-'' @ concat (map (\<lambda>b. [hex_digit (b div 16), hex_digit (b mod 16)]) bs))"

subsection \<open>Load\<close>

definition load_kafka :: "go_library \<Rightarrow> env \<Rightarrow> config \<Rightarrow> config \<times> problem list" where
  "load_kafka lib env c =
     (let brokers = splitList (getenv env ''KAFKA_BROKERS'');
          mech = getenv env ''KAFKA_SASL_MECHANISM'';
          user = getenv env ''KAFKA_SASL_USERNAME'';
          pass = getenv env ''KAFKA_SASL_PASSWORD'';
          tls = parser_boolean env ''KAFKA_TLS_ENABLED'' False
      in (c\<lparr>cf_brokers := brokers, cf_sasl_mechanism := mech, cf_sasl_username := user,
            cf_sasl_password := pass, cf_tls := fst tls\<rparr>,
          check_that (brokers \<noteq> []) BrokersRequired @
          check_that (mech \<in> set [[], ''PLAIN'', ''SCRAM-SHA-256'', ''SCRAM-SHA-512''])
            (BadMechanism mech) @
          check_that (\<not> (mech \<noteq> [] \<and> (user = [] \<or> pass = []))) SASLIncomplete @ snd tls))"

definition endpoint_problems :: "go_library \<Rightarrow> string \<Rightarrow> problem list" where
  "endpoint_problems lib endpoint =
     (if endpoint = [] then []
      else case lb_url lib endpoint of
        None \<Rightarrow> [BadURL endpoint]
      | Some u \<Rightarrow>
          if ur_scheme u \<noteq> ''http'' \<and> ur_scheme u \<noteq> ''https'' then [BadScheme endpoint (ur_scheme u)]
          else check_that (ur_host u \<noteq> []) (NoHost endpoint))"

definition load_mode :: "go_library \<Rightarrow> env \<Rightarrow> config \<Rightarrow> config \<times> problem list" where
  "load_mode lib env c =
     (let endpoint = trimSpace (getenv env ''EXPORT_ENDPOINT'');
          key = getenv env ''API_KEY'';
          wanted = toLower lib (trimSpace (getenv env ''EXPORT_MODE''));
          mode = (if wanted = [] then if endpoint \<noteq> [] then ''http'' else ''file'' else wanted)
      in (c\<lparr>cf_endpoint := endpoint, cf_api_key := key, cf_mode := mode\<rparr>,
          if mode = ''file'' \<or> mode = ''stdout'' then []
          else if mode = ''http'' then
            check_that (endpoint \<noteq> []) EndpointRequired @ check_that (key \<noteq> []) APIKeyRequired @
            endpoint_problems lib endpoint
          else [BadMode mode]))"

definition load_export :: "go_library \<Rightarrow> env \<Rightarrow> config \<Rightarrow> config \<times> problem list" where
  "load_export lib env c =
     (let mb = parser_integer env ''EXPORT_FILE_MAX_MB'' DefaultExportFileMaxMB;
          backups = parser_integer env ''EXPORT_FILE_MAX_BACKUPS'' DefaultExportMaxBackups;
          fsync = parser_boolean env ''EXPORT_FILE_FSYNC'' DefaultExportFileSync;
          queue = parser_integer env ''EXPORT_QUEUE_SIZE'' DefaultExportQueueSize;
          retries = parser_integer env ''EXPORT_MAX_RETRIES'' DefaultExportMaxRetries;
          delay = parser_duration lib env ''EXPORT_BASE_DELAY'' DefaultExportBaseDelay;
          timeout = parser_duration lib env ''EXPORT_TIMEOUT'' DefaultExportTimeout
      in (c\<lparr>cf_file := parser_str env ''EXPORT_FILE'' DefaultExportFile, cf_file_max_mb := fst mb,
            cf_file_max_backups := fst backups, cf_file_sync := fst fsync,
            cf_queue_size := fst queue, cf_max_retries := fst retries, cf_base_delay := fst delay,
            cf_export_timeout := fst timeout\<rparr>,
          snd mb @ snd backups @ snd fsync @
          check_that (\<not> fst backups < 0) (OutOfRange ''EXPORT_FILE_MAX_BACKUPS'' (fst backups)) @
          snd queue @ check_that (\<not> fst queue \<le> 0) (OutOfRange ''EXPORT_QUEUE_SIZE'' (fst queue)) @
          snd retries @
          check_that (\<not> fst retries < 0) (OutOfRange ''EXPORT_MAX_RETRIES'' (fst retries)) @
          snd delay @ check_that (\<not> fst delay \<le> 0) (OutOfRange ''EXPORT_BASE_DELAY'' (fst delay)) @
          snd timeout @
          check_that (\<not> fst timeout \<le> 0) (OutOfRange ''EXPORT_TIMEOUT'' (fst timeout))))"

definition load_cycle :: "go_library \<Rightarrow> env \<Rightarrow> config \<Rightarrow> config \<times> problem list" where
  "load_cycle lib env c =
     (let interval = parser_duration lib env ''COLLECTION_INTERVAL'' DefaultInterval;
          timeout = parser_duration lib env ''COLLECTION_TIMEOUT''
            (go_div (wrap64 (fst interval * collectionTimeoutRatio)) 100)
      in (c\<lparr>cf_interval := fst interval, cf_timeout := fst timeout\<rparr>,
          snd interval @
          check_that (\<not> fst interval \<le> 0) (OutOfRange ''COLLECTION_INTERVAL'' (fst interval)) @
          snd timeout @
          check_that (\<not> fst timeout \<le> 0) (OutOfRange ''COLLECTION_TIMEOUT'' (fst timeout))))"

definition load_selection :: "go_library \<Rightarrow> env \<Rightarrow> config \<Rightarrow> config \<times> problem list" where
  "load_selection lib env c =
     (let internal = parser_boolean env ''INCLUDE_INTERNAL_TOPICS'' False;
          ti = parser_patterns lib env ''TOPIC_INCLUDE'';
          te = parser_patterns lib env ''TOPIC_EXCLUDE'';
          gi = parser_patterns lib env ''GROUP_INCLUDE'';
          ge = parser_patterns lib env ''GROUP_EXCLUDE'';
          states = splitList (getenv env ''GROUP_STATES'')
      in (c\<lparr>cf_include_internal := fst internal, cf_topic_include := fst ti,
            cf_topic_exclude := fst te, cf_group_include := fst gi, cf_group_exclude := fst ge,
            cf_group_states := List.map_filter (canonicalGroupState lib) states\<rparr>,
          snd internal @ snd ti @ snd te @ snd gi @ snd ge @
          concat (map (\<lambda>s. check_that (canonicalGroupState lib s \<noteq> None) (BadState s)) states)))"

definition load_collectors :: "go_library \<Rightarrow> env \<Rightarrow> config \<Rightarrow> config \<times> problem list" where
  "load_collectors lib env c =
     (let lso = parser_boolean env ''COLLECT_LAST_STABLE_OFFSET'' DefaultCollectLSO;
          cg = parser_boolean env ''COLLECT_CONSUMER_GROUPS'' DefaultCollectConsumerGroups;
          ld = parser_boolean env ''COLLECT_LOG_DIRS'' DefaultCollectLogDirs;
          lde = parser_integer env ''LOG_DIRS_EVERY'' DefaultLogDirsEvery;
          tw = parser_boolean env ''COLLECT_THROUGHPUT_WINDOW'' DefaultCollectThroughputWindow;
          tww = parser_duration lib env ''THROUGHPUT_WINDOW'' DefaultThroughputWindow;
          twe = parser_integer env ''THROUGHPUT_WINDOW_EVERY'' DefaultThroughputWindowEvery;
          mt = parser_boolean env ''COLLECT_MAX_TIMESTAMP'' DefaultCollectMaxTimestamp;
          mte = parser_integer env ''MAX_TIMESTAMP_EVERY'' DefaultMaxTimestampEvery;
          ti = parser_boolean env ''COLLECT_TIERED_OFFSETS'' DefaultCollectTieredOffsets;
          sg = parser_boolean env ''COLLECT_SHARE_GROUPS'' DefaultCollectShareGroups;
          cc = parser_boolean env ''COLLECT_CONFIGS'' DefaultCollectConfigs;
          cce = parser_integer env ''CONFIGS_EVERY'' DefaultConfigsEvery
      in (c\<lparr>cf_last_stable := fst lso, cf_consumer_groups := fst cg, cf_log_dirs := fst ld,
            cf_log_dirs_every := fst lde, cf_window := fst tw, cf_window_width := fst tww,
            cf_window_every := fst twe, cf_max_timestamp := fst mt,
            cf_max_timestamp_every := fst mte, cf_tiered := fst ti, cf_share_groups := fst sg,
            cf_configs := fst cc, cf_configs_every := fst cce\<rparr>,
          snd lso @ snd cg @ snd ld @
          snd lde @ check_that (\<not> fst lde < 1) (OutOfRange ''LOG_DIRS_EVERY'' (fst lde)) @
          snd tw @
          snd tww @ check_that (\<not> fst tww \<le> 0) (OutOfRange ''THROUGHPUT_WINDOW'' (fst tww)) @
          snd twe @ check_that (\<not> fst twe < 1) (OutOfRange ''THROUGHPUT_WINDOW_EVERY'' (fst twe)) @
          snd mt @
          snd mte @ check_that (\<not> fst mte < 1) (OutOfRange ''MAX_TIMESTAMP_EVERY'' (fst mte)) @
          snd ti @ snd sg @ snd cc @
          snd cce @ check_that (\<not> fst cce < 1) (OutOfRange ''CONFIGS_EVERY'' (fst cce))))"

definition load_rest :: "go_library \<Rightarrow> env \<Rightarrow> config \<Rightarrow> config \<times> problem list" where
  "load_rest lib env c =
     (let me = parser_integer env ''MAX_ERRORS'' DefaultMaxErrors;
          ms = parser_integer env ''MAX_ERROR_SAMPLES'' DefaultMaxErrorSamples;
          level = toLower lib (trimSpace (parser_str env ''LOG_LEVEL'' DefaultLogLevel));
          id = trimSpace (getenv env ''AGENT_INSTANCE_ID'')
      in (c\<lparr>cf_max_errors := fst me, cf_max_error_samples := fst ms, cf_log_level := level,
            cf_instance_id := (if id = [] then defaultInstanceID lib else id)\<rparr>,
          snd me @ check_that (\<not> fst me < 0) (OutOfRange ''MAX_ERRORS'' (fst me)) @
          snd ms @ check_that (\<not> fst ms < 1) (OutOfRange ''MAX_ERROR_SAMPLES'' (fst ms)) @
          check_that (parseLevel level \<noteq> None) (BadLevel level)))"

definition load_blocks :: "(go_library \<Rightarrow> env \<Rightarrow> config \<Rightarrow> config \<times> problem list) list" where
  "load_blocks =
     [load_kafka, load_mode, load_export, load_cycle, load_selection, load_collectors, load_rest]"

definition load_all :: "go_library \<Rightarrow> env \<Rightarrow> config \<times> problem list" where
  "load_all lib env =
     fold (\<lambda>block (c, ps). case block lib env c of (c', qs) \<Rightarrow> (c', ps @ qs)) load_blocks
       (zero_config, [])"

definition Load :: "go_library \<Rightarrow> env \<Rightarrow> problem list + config" where
  "Load lib env = (case load_all lib env of (c, ps) \<Rightarrow> if ps = [] then Inr c else Inl ps)"

subsection \<open>What the configuration says of itself\<close>

definition HasSASL :: "config \<Rightarrow> bool" where
  "HasSASL c \<longleftrightarrow> cf_sasl_mechanism c \<noteq> [] \<and> cf_sasl_username c \<noteq> [] \<and> cf_sasl_password c \<noteq> []"

definition ExportTarget :: "config \<Rightarrow> string" where
  "ExportTarget c =
     (if cf_mode c = ''http'' then cf_endpoint c
      else if cf_mode c = ''file'' then cf_file c
      else if cf_mode c = ''stdout'' then ''stdout''
      else [])"

definition isCleartextRemote :: "go_library \<Rightarrow> string \<Rightarrow> bool" where
  "isCleartextRemote lib endpoint =
     (case lb_url lib endpoint of
        None \<Rightarrow> False
      | Some u \<Rightarrow>
          if ur_scheme u \<noteq> ''http'' then False
          else if ur_hostname u = ''localhost'' then False
          else \<not> lb_loopback lib (ur_hostname u))"

datatype warning =
    SASLWithoutTLS string
  | TimeoutExceedsInterval duration duration
  | EndpointIgnored string
  | CleartextRemote
  | RotationDisabled
  | ErrorsUnbounded
  | DedupDefeated int
  | StatesFiltered "string list"
  | StatesExcludeEmpty
  | NoLastStableOffset
  | LogDirsEveryCycle duration
  | WindowTooNarrow duration duration

definition Warnings :: "go_library \<Rightarrow> config \<Rightarrow> warning list" where
  "Warnings lib c =
     (let when = (\<lambda>cond w. if cond then [w] else [])
      in when (HasSASL c \<and> \<not> cf_tls c) (SASLWithoutTLS (cf_sasl_mechanism c)) @
         when (cf_timeout c > cf_interval c) (TimeoutExceedsInterval (cf_timeout c) (cf_interval c)) @
         when (cf_mode c \<noteq> ''http'' \<and> cf_endpoint c \<noteq> []) (EndpointIgnored (cf_mode c)) @
         when (cf_mode c = ''http'' \<and> isCleartextRemote lib (cf_endpoint c)) CleartextRemote @
         when (cf_mode c = ''file'' \<and> cf_file_max_mb c < 0) RotationDisabled @
         when (cf_max_errors c = 0) ErrorsUnbounded @
         when (cf_max_error_samples c > 50) (DedupDefeated (cf_max_error_samples c)) @
         (if cf_group_states c \<noteq> []
          then StatesFiltered (cf_group_states c) #
            when (''Empty'' \<notin> set (cf_group_states c)) StatesExcludeEmpty
          else []) @
         when (\<not> cf_last_stable c) NoLastStableOffset @
         when (cf_log_dirs c \<and> cf_log_dirs_every c = 1) (LogDirsEveryCycle (cf_interval c)) @
         when (cf_window c \<and> cf_window_width c < cf_interval c)
           (WindowTooNarrow (cf_window_width c) (cf_interval c)))"

definition secret :: "string \<Rightarrow> string" where
  "secret v = (if v = [] then ''unset'' else ''***'')"

definition orNone :: "string \<Rightarrow> string" where
  "orNone v = (if v = [] then ''-'' else v)"

definition bool_text :: "bool \<Rightarrow> string" where
  "bool_text b = (if b then ''true'' else ''false'')"

definition Redacted :: "config \<Rightarrow> string" where
  "Redacted c =
     ''brokers='' @ join_commas (cf_brokers c) @
     '' tls='' @ bool_text (cf_tls c) @ '' sasl_mechanism='' @ orNone (cf_sasl_mechanism c) @
     '' sasl_username='' @ orNone (cf_sasl_username c) @
     '' sasl_password='' @ secret (cf_sasl_password c) @
     '' export_mode='' @ cf_mode c @ '' export_target='' @ orNone (ExportTarget c) @
     '' api_key='' @ secret (cf_api_key c) @
     (if cf_mode c = ''file''
      then '' export_file_max_mb='' @ show_int (cf_file_max_mb c) @
        '' export_file_max_backups='' @ show_int (cf_file_max_backups c) @
        '' export_file_fsync='' @ bool_text (cf_file_sync c)
      else []) @
     (if cf_mode c = ''http''
      then '' export_queue_size='' @ show_int (cf_queue_size c) @
        '' export_max_retries='' @ show_int (cf_max_retries c) @
        '' export_base_delay='' @ duration_string (cf_base_delay c) @
        '' export_timeout='' @ duration_string (cf_export_timeout c)
      else []) @
     '' collection_interval='' @ duration_string (cf_interval c) @
     '' collection_timeout='' @ duration_string (cf_timeout c) @
     '' include_internal_topics='' @ bool_text (cf_include_internal c) @
     '' topic_include='' @ orNone (join_commas (cf_topic_include c)) @
     '' topic_exclude='' @ orNone (join_commas (cf_topic_exclude c)) @
     '' group_include='' @ orNone (join_commas (cf_group_include c)) @
     '' group_exclude='' @ orNone (join_commas (cf_group_exclude c)) @
     '' group_states='' @ orNone (join_commas (cf_group_states c)) @
     '' collect_last_stable_offset='' @ bool_text (cf_last_stable c) @
     '' collect_consumer_groups='' @ bool_text (cf_consumer_groups c) @
     '' collect_log_dirs='' @ bool_text (cf_log_dirs c) @
     (if cf_log_dirs c then '' log_dirs_every='' @ show_int (cf_log_dirs_every c) else []) @
     '' collect_throughput_window='' @ bool_text (cf_window c) @
     (if cf_window c
      then '' throughput_window='' @ duration_string (cf_window_width c) @
        '' throughput_window_every='' @ show_int (cf_window_every c)
      else []) @
     '' collect_max_timestamp='' @ bool_text (cf_max_timestamp c) @
     (if cf_max_timestamp c
      then '' max_timestamp_every='' @ show_int (cf_max_timestamp_every c) else []) @
     '' collect_tiered_offsets='' @ bool_text (cf_tiered c) @
     '' collect_share_groups='' @ bool_text (cf_share_groups c) @
     '' collect_configs='' @ bool_text (cf_configs c) @
     (if cf_configs c then '' configs_every='' @ show_int (cf_configs_every c) else []) @
     '' max_errors='' @ show_int (cf_max_errors c) @
     '' max_error_samples='' @ show_int (cf_max_error_samples c) @
     '' log_level='' @ cf_log_level c @ '' agent_instance_id='' @ cf_instance_id c"

subsection \<open>What Load promises\<close>

lemma check_that_Nil [simp]: "check_that ok p = [] \<longleftrightarrow> ok"
  by (simp add: check_that_def)

text \<open>What each block leaves true when it has no problem, over the fields it sets.\<close>

definition kafka_ok :: "config \<Rightarrow> bool" where
  "kafka_ok c \<longleftrightarrow>
     cf_brokers c \<noteq> [] \<and>
     cf_sasl_mechanism c \<in> set [[], ''PLAIN'', ''SCRAM-SHA-256'', ''SCRAM-SHA-512''] \<and>
     (cf_sasl_mechanism c \<noteq> [] \<longrightarrow> HasSASL c)"

definition mode_ok :: "go_library \<Rightarrow> config \<Rightarrow> bool" where
  "mode_ok lib c \<longleftrightarrow>
     cf_mode c = ''file'' \<or> cf_mode c = ''stdout'' \<or>
     cf_mode c = ''http'' \<and> cf_endpoint c \<noteq> [] \<and> cf_api_key c \<noteq> [] \<and>
       (\<exists>u. lb_url lib (cf_endpoint c) = Some u \<and>
          (ur_scheme u = ''http'' \<or> ur_scheme u = ''https'') \<and> ur_host u \<noteq> [])"

definition export_ok :: "config \<Rightarrow> bool" where
  "export_ok c \<longleftrightarrow>
     cf_file c \<noteq> [] \<and> 0 \<le> cf_file_max_backups c \<and> 0 < cf_queue_size c \<and> 0 \<le> cf_max_retries c \<and>
     0 < cf_base_delay c \<and> 0 < cf_export_timeout c"

definition cycle_ok :: "config \<Rightarrow> bool" where
  "cycle_ok c \<longleftrightarrow> 0 < cf_interval c \<and> 0 < cf_timeout c"

definition selection_lists :: "config \<Rightarrow> string list" where
  "selection_lists c =
     cf_topic_include c @ cf_topic_exclude c @ cf_group_include c @ cf_group_exclude c"

definition selection_ok :: "go_library \<Rightarrow> config \<Rightarrow> bool" where
  "selection_ok lib c \<longleftrightarrow>
     list_all (\<lambda>entry. entry \<noteq> [] \<and> validatePattern (lb_regexp lib) entry = None) (selection_lists c) \<and>
     set (cf_group_states c) \<subseteq> set groupStates"

definition collectors_ok :: "config \<Rightarrow> bool" where
  "collectors_ok c \<longleftrightarrow>
     1 \<le> cf_log_dirs_every c \<and> 0 < cf_window_width c \<and> 1 \<le> cf_window_every c \<and>
     1 \<le> cf_max_timestamp_every c \<and> 1 \<le> cf_configs_every c"

definition rest_ok :: "config \<Rightarrow> bool" where
  "rest_ok c \<longleftrightarrow>
     0 \<le> cf_max_errors c \<and> 1 \<le> cf_max_error_samples c \<and> parseLevel (cf_log_level c) \<noteq> None"

lemmas block_ok_defs = kafka_ok_def mode_ok_def export_ok_def cycle_ok_def selection_ok_def
  collectors_ok_def rest_ok_def HasSASL_def selection_lists_def

lemma load_kafka_ok: "snd (load_kafka lib env c) = [] \<Longrightarrow> kafka_ok (fst (load_kafka lib env c))"
  by (simp add: load_kafka_def kafka_ok_def HasSASL_def Let_def) blast

lemma endpoint_ok:
  "endpoint_problems lib endpoint = [] \<Longrightarrow> endpoint \<noteq> [] \<Longrightarrow>
     \<exists>u. lb_url lib endpoint = Some u \<and> (ur_scheme u = ''http'' \<or> ur_scheme u = ''https'') \<and>
       ur_host u \<noteq> []"
  by (cases "lb_url lib endpoint") (auto simp: endpoint_problems_def split: if_splits)

lemma load_mode_ok:
  assumes "snd (load_mode lib env c) = []"
  shows "mode_ok lib (fst (load_mode lib env c))"
proof -
  define endpoint where "endpoint = trimSpace (getenv env ''EXPORT_ENDPOINT'')"
  define key where "key = getenv env ''API_KEY''"
  define wanted where "wanted = toLower lib (trimSpace (getenv env ''EXPORT_MODE''))"
  define mode where "mode = (if wanted = [] then if endpoint \<noteq> [] then ''http'' else ''file'' else wanted)"
  have eq: "load_mode lib env c = (c\<lparr>cf_endpoint := endpoint, cf_api_key := key, cf_mode := mode\<rparr>,
      if mode = ''file'' \<or> mode = ''stdout'' then []
      else if mode = ''http'' then
        check_that (endpoint \<noteq> []) EndpointRequired @ check_that (key \<noteq> []) APIKeyRequired @
        endpoint_problems lib endpoint
      else [BadMode mode])"
    unfolding load_mode_def Let_def mode_def wanted_def endpoint_def key_def ..
  show ?thesis
  proof (cases "mode = ''file'' \<or> mode = ''stdout''")
    case True
    then show ?thesis by (auto simp: eq mode_ok_def)
  next
    case False
    with assms have "mode = ''http'' \<and> endpoint \<noteq> [] \<and> key \<noteq> [] \<and> endpoint_problems lib endpoint = []"
      unfolding eq snd_conv if_not_P [OF False] by (cases "mode = ''http''") simp_all
    then show ?thesis using endpoint_ok [of lib endpoint] by (simp add: eq mode_ok_def)
  qed
qed

lemma load_mode_frame: "kafka_ok (fst (load_mode lib env c)) = kafka_ok c"
  by (simp add: load_mode_def kafka_ok_def HasSASL_def Let_def)

lemma parser_str_ne:
  assumes "d \<noteq> []"
  shows "parser_str env key d \<noteq> []"
  using assms by (auto simp: parser_str_def split: option.splits)

lemma load_export_ok: "snd (load_export lib env c) = [] \<Longrightarrow> export_ok (fst (load_export lib env c))"
  by (simp add: load_export_def export_ok_def Let_def not_less not_le parser_str_ne DefaultExportFile_def)

lemma load_export_frame:
  "mode_ok lib (fst (load_export lib env c)) = mode_ok lib c"
  "kafka_ok (fst (load_export lib env c)) = kafka_ok c"
  by (simp_all add: load_export_def mode_ok_def kafka_ok_def HasSASL_def Let_def)

lemma load_cycle_ok: "snd (load_cycle lib env c) = [] \<Longrightarrow> cycle_ok (fst (load_cycle lib env c))"
  by (simp add: load_cycle_def cycle_ok_def Let_def not_le)

lemma load_cycle_frame:
  "export_ok (fst (load_cycle lib env c)) = export_ok c"
  "mode_ok lib (fst (load_cycle lib env c)) = mode_ok lib c"
  "kafka_ok (fst (load_cycle lib env c)) = kafka_ok c"
  by (simp_all add: load_cycle_def export_ok_def mode_ok_def kafka_ok_def HasSASL_def Let_def)

lemma parser_patterns_ok:
  "snd (parser_patterns lib env key) = [] \<Longrightarrow>
     list_all (\<lambda>entry. entry \<noteq> [] \<and> validatePattern (lb_regexp lib) entry = None)
       (fst (parser_patterns lib env key))"
  by (auto simp: parser_patterns_def splitList_def list_all_iff Let_def split: option.splits)

lemma map_filter_states: "set (List.map_filter (canonicalGroupState lib) states) \<subseteq> set groupStates"
proof -
  have "canonicalGroupState lib x = Some y \<Longrightarrow> y \<in> set groupStates" for x y
    unfolding canonicalGroupState_def by (metis find_Some_iff nth_mem)
  then show ?thesis by (force simp: List.map_filter_def)
qed

lemma load_selection_ok:
  "snd (load_selection lib env c) = [] \<Longrightarrow> selection_ok lib (fst (load_selection lib env c))"
  by (simp add: load_selection_def selection_ok_def selection_lists_def parser_patterns_ok
      map_filter_states Let_def)

lemma load_selection_frame:
  "cycle_ok (fst (load_selection lib env c)) = cycle_ok c"
  "export_ok (fst (load_selection lib env c)) = export_ok c"
  "mode_ok lib (fst (load_selection lib env c)) = mode_ok lib c"
  "kafka_ok (fst (load_selection lib env c)) = kafka_ok c"
  by (simp_all add: load_selection_def cycle_ok_def export_ok_def mode_ok_def kafka_ok_def HasSASL_def Let_def)

lemma load_collectors_ok:
  "snd (load_collectors lib env c) = [] \<Longrightarrow> collectors_ok (fst (load_collectors lib env c))"
  by (simp add: load_collectors_def collectors_ok_def Let_def not_less not_le)

lemma load_collectors_frame:
  "selection_ok lib (fst (load_collectors lib env c)) = selection_ok lib c"
  "cycle_ok (fst (load_collectors lib env c)) = cycle_ok c"
  "export_ok (fst (load_collectors lib env c)) = export_ok c"
  "mode_ok lib (fst (load_collectors lib env c)) = mode_ok lib c"
  "kafka_ok (fst (load_collectors lib env c)) = kafka_ok c"
  by (simp_all add: load_collectors_def block_ok_defs Let_def)

lemma load_rest_ok: "snd (load_rest lib env c) = [] \<Longrightarrow> rest_ok (fst (load_rest lib env c))"
  by (simp add: load_rest_def rest_ok_def Let_def not_less)

lemma load_rest_frame:
  "collectors_ok (fst (load_rest lib env c)) = collectors_ok c"
  "selection_ok lib (fst (load_rest lib env c)) = selection_ok lib c"
  "cycle_ok (fst (load_rest lib env c)) = cycle_ok c"
  "export_ok (fst (load_rest lib env c)) = export_ok c"
  "mode_ok lib (fst (load_rest lib env c)) = mode_ok lib c"
  "kafka_ok (fst (load_rest lib env c)) = kafka_ok c"
  by (simp_all add: load_rest_def block_ok_defs Let_def)

definition valid_config :: "go_library \<Rightarrow> config \<Rightarrow> bool" where
  "valid_config lib c \<longleftrightarrow>
     kafka_ok c \<and> mode_ok lib c \<and> export_ok c \<and> cycle_ok c \<and> selection_ok lib c \<and>
     collectors_ok c \<and> rest_ok c"

lemma Load_valid:
  assumes "Load lib env = Inr c"
  shows "valid_config lib c"
proof -
  define c1 where "c1 = fst (load_kafka lib env zero_config)"
  define c2 where "c2 = fst (load_mode lib env c1)"
  define c3 where "c3 = fst (load_export lib env c2)"
  define c4 where "c4 = fst (load_cycle lib env c3)"
  define c5 where "c5 = fst (load_selection lib env c4)"
  define c6 where "c6 = fst (load_collectors lib env c5)"
  note cs = c6_def c5_def c4_def c3_def c2_def c1_def
  have "c = fst (load_rest lib env c6)" and
    ok: "snd (load_kafka lib env zero_config) = []" "snd (load_mode lib env c1) = []"
      "snd (load_export lib env c2) = []" "snd (load_cycle lib env c3) = []"
      "snd (load_selection lib env c4) = []" "snd (load_collectors lib env c5) = []"
      "snd (load_rest lib env c6) = []"
    using assms unfolding Load_def load_all_def load_blocks_def cs
    by (simp_all add: case_prod_beta split: if_splits)
  with load_kafka_ok [OF ok(1)] load_mode_ok [OF ok(2)] load_export_ok [OF ok(3)]
    load_cycle_ok [OF ok(4)] load_selection_ok [OF ok(5)] load_collectors_ok [OF ok(6)]
    load_rest_ok [OF ok(7)]
  show ?thesis
    by (simp add: valid_config_def load_mode_frame load_export_frame load_cycle_frame
        load_selection_frame load_collectors_frame load_rest_frame
        flip: c1_def c2_def c3_def c4_def c5_def c6_def)
      (simp add: cs load_mode_frame load_export_frame load_cycle_frame load_selection_frame
        load_collectors_frame load_rest_frame)
qed

subsection \<open>Properties\<close>

text \<open>
  C34: what \<open>Load\<close> guarantees of a configuration it accepts: brokers; no SASL mechanism or a known
  one with its credentials; a known export mode, with a path in file mode and a key and an http(s)
  endpoint with a host in http mode; a queue size, retry delay, export timeout, interval, collection
  timeout and window width above zero; a number of backups, retries and an error cap not below
  zero; cadences and error samples of at least one; selection entries that compile, known group
  states and a known log level. These lower bounds are all it checks: in particular it says
  nothing of \<open>EXPORT_FILE_MAX_MB\<close>, any integer of which is accepted (\<open>max_mb_overflows\<close>).
\<close>

theorem Load_valid_config:
  assumes "Load lib env = Inr c"
  shows "cf_brokers c \<noteq> [] \<and>
    (cf_sasl_mechanism c = [] \<or>
     cf_sasl_mechanism c \<in> set [''PLAIN'', ''SCRAM-SHA-256'', ''SCRAM-SHA-512''] \<and> HasSASL c) \<and>
    (cf_mode c = ''file'' \<and> cf_file c \<noteq> [] \<or> cf_mode c = ''stdout'' \<or>
     cf_mode c = ''http'' \<and> cf_endpoint c \<noteq> [] \<and> cf_api_key c \<noteq> [] \<and>
       (\<exists>u. lb_url lib (cf_endpoint c) = Some u \<and>
          (ur_scheme u = ''http'' \<or> ur_scheme u = ''https'') \<and> ur_host u \<noteq> [])) \<and>
    0 \<le> cf_file_max_backups c \<and> 0 < cf_queue_size c \<and> 0 \<le> cf_max_retries c \<and>
    0 < cf_base_delay c \<and> 0 < cf_export_timeout c \<and> 0 < cf_interval c \<and> 0 < cf_timeout c \<and>
    list_all (\<lambda>entry. validatePattern (lb_regexp lib) entry = None) (selection_lists c) \<and>
    set (cf_group_states c) \<subseteq> set groupStates \<and>
    1 \<le> cf_log_dirs_every c \<and> 0 < cf_window_width c \<and> 1 \<le> cf_window_every c \<and>
    1 \<le> cf_max_timestamp_every c \<and> 1 \<le> cf_configs_every c \<and>
    0 \<le> cf_max_errors c \<and> 1 \<le> cf_max_error_samples c \<and> parseLevel (cf_log_level c) \<noteq> None"
proof -
  have v: "kafka_ok c" "mode_ok lib c" "export_ok c" "cycle_ok c" "selection_ok lib c"
    "collectors_ok c" "rest_ok c"
    using Load_valid [OF assms] by (simp_all add: valid_config_def)
  have "cf_sasl_mechanism c = [] \<or>
     cf_sasl_mechanism c \<in> set [''PLAIN'', ''SCRAM-SHA-256'', ''SCRAM-SHA-512''] \<and> HasSASL c"
    using v(1) unfolding kafka_ok_def by auto
  moreover have "cf_mode c = ''file'' \<and> cf_file c \<noteq> [] \<or> cf_mode c = ''stdout'' \<or>
     cf_mode c = ''http'' \<and> cf_endpoint c \<noteq> [] \<and> cf_api_key c \<noteq> [] \<and>
       (\<exists>u. lb_url lib (cf_endpoint c) = Some u \<and>
          (ur_scheme u = ''http'' \<or> ur_scheme u = ''https'') \<and> ur_host u \<noteq> [])"
    using v(2,3) unfolding mode_ok_def export_ok_def by blast
  moreover have "list_all (\<lambda>entry. validatePattern (lb_regexp lib) entry = None) (selection_lists c)"
    using v(5) by (simp add: selection_ok_def list_all_iff)
  ultimately show ?thesis
    using v unfolding kafka_ok_def export_ok_def cycle_ok_def selection_ok_def collectors_ok_def
      rest_ok_def by blast
qed

text \<open>A library and an environment for the witnesses: a broker and nothing else.\<close>

definition plain_library :: go_library where
  "plain_library =
     \<lparr>lb_url = (\<lambda>_. None), lb_loopback = (\<lambda>_. False), lb_regexp = wit_re,
      lb_fraction = (\<lambda>_ _. 0), lb_lower = (\<lambda>s. s), lb_fold = (\<lambda>_ _. False),
      lb_hostname = Some ''h'', lb_random = Some [0, 18, 171, 255], lb_unix_nano = 0\<rparr>"

definition plain_env :: env where
  "plain_env = [''KAFKA_BROKERS'' \<mapsto> ''b:9092'']"

lemma trimSpace_brokers: "trimSpace ''b:9092'' = ''b:9092''"
  by (rule trimSpace_solid) (simp_all add: solid_def)

lemma plain_env_unset: "key \<noteq> ''KAFKA_BROKERS'' \<Longrightarrow> getenv plain_env key = []"
  "key \<noteq> ''KAFKA_BROKERS'' \<Longrightarrow> plain_env key = None"
  by (simp_all add: getenv_def plain_env_def)

lemma parser_unset:
  "getenv env key = [] \<Longrightarrow> parser_integer env key n = (n, [])"
  "getenv env key = [] \<Longrightarrow> parser_boolean env key v = (v, [])"
  "getenv env key = [] \<Longrightarrow> parser_duration lib env key d = (d, [])"
  "getenv env key = [] \<Longrightarrow> parser_patterns lib env key = ([], [])"
  "env key = None \<Longrightarrow> parser_str env key s = s"
  by (simp_all add: parser_integer_def parser_boolean_def parser_duration_def parser_patterns_def
      parser_str_def splitList_def Let_def)

definition plain_config :: config where
  "plain_config =
     \<lparr>cf_brokers = [''b:9092''], cf_sasl_mechanism = [], cf_sasl_username = [], cf_sasl_password = [],
      cf_tls = False, cf_mode = ''file'', cf_endpoint = [], cf_api_key = [],
      cf_file = ''./metrics.jsonl'', cf_file_max_mb = 100, cf_file_max_backups = 3,
      cf_file_sync = False, cf_queue_size = 20, cf_max_retries = 3, cf_base_delay = 1000000000,
      cf_export_timeout = 10000000000, cf_interval = 5000000000, cf_timeout = 4000000000,
      cf_include_internal = False, cf_topic_include = [], cf_topic_exclude = [],
      cf_group_include = [], cf_group_exclude = [], cf_group_states = [], cf_last_stable = True,
      cf_consumer_groups = True, cf_log_dirs = True, cf_log_dirs_every = 24, cf_window = False,
      cf_window_width = 300000000000, cf_window_every = 1, cf_configs = True, cf_configs_every = 360,
      cf_max_timestamp = True, cf_max_timestamp_every = 12, cf_tiered = False,
      cf_share_groups = False, cf_max_errors = 1000, cf_max_error_samples = 1,
      cf_log_level = ''info'', cf_instance_id = ''h-0012abff''\<rparr>"

lemma plain_brokers: "splitList (getenv plain_env ''KAFKA_BROKERS'') = [''b:9092'']"
  by (simp add: getenv_def plain_env_def splitList_def split_commas_part trimSpace_brokers)

lemma plain_lower: "toLower plain_library (trimSpace ''info'') = ''info''" "toLower plain_library [] = []"
proof -
  have "trimSpace ''info'' = ''info''" by (rule trimSpace_solid) (simp_all add: solid_def)
  then show "toLower plain_library (trimSpace ''info'') = ''info''"
    by (simp add: toLower_def ascii_def lower_byte_def)
qed (simp add: toLower_def ascii_def)

lemma plain_id: "defaultInstanceID plain_library = ''h-0012abff''"
  by code_simp

text \<open>The documented defaults: a broker list is enough.\<close>

lemma Load_plain: "Load plain_library plain_env = Inr plain_config"
proof -
  note unset = plain_env_unset parser_unset
  have 1: "load_kafka plain_library plain_env zero_config =
      (zero_config\<lparr>cf_brokers := [''b:9092'']\<rparr>, [])"
    by (simp add: load_kafka_def unset plain_brokers Let_def zero_config_def check_that_def)
  have 2: "load_mode plain_library plain_env c = (c\<lparr>cf_endpoint := [], cf_api_key := [], cf_mode := ''file''\<rparr>, [])" for c
    by (simp add: load_mode_def unset plain_lower Let_def)
  have 3: "load_export plain_library plain_env c = (c\<lparr>cf_file := ''./metrics.jsonl'', cf_file_max_mb := 100,
      cf_file_max_backups := 3, cf_file_sync := False, cf_queue_size := 20, cf_max_retries := 3,
      cf_base_delay := 1000000000, cf_export_timeout := 10000000000\<rparr>, [])" for c
    by (simp add: load_export_def unset Let_def check_that_def DefaultExportFile_def
        DefaultExportFileMaxMB_def DefaultExportMaxBackups_def DefaultExportFileSync_def
        DefaultExportQueueSize_def DefaultExportMaxRetries_def DefaultExportBaseDelay_def
        DefaultExportTimeout_def second_def)
  have 4: "load_cycle plain_library plain_env c =
      (c\<lparr>cf_interval := 5000000000, cf_timeout := 4000000000\<rparr>, [])" for c
    by (simp add: load_cycle_def unset Let_def check_that_def DefaultInterval_def second_def
        collectionTimeoutRatio_def wrap64_def go_div_def)
  have 5: "load_selection plain_library plain_env c = (c\<lparr>cf_include_internal := False, cf_topic_include := [],
      cf_topic_exclude := [], cf_group_include := [], cf_group_exclude := [], cf_group_states := []\<rparr>, [])" for c
    by (simp add: load_selection_def unset splitList_def List.map_filter_def Let_def)
  have 6: "load_collectors plain_library plain_env c = (c\<lparr>cf_last_stable := True,
      cf_consumer_groups := True, cf_log_dirs := True, cf_log_dirs_every := 24, cf_window := False,
      cf_window_width := 300000000000, cf_window_every := 1, cf_max_timestamp := True,
      cf_max_timestamp_every := 12, cf_tiered := False, cf_share_groups := False, cf_configs := True,
      cf_configs_every := 360\<rparr>, [])" for c
    by (simp add: load_collectors_def unset Let_def check_that_def DefaultCollectLSO_def
        DefaultCollectConsumerGroups_def DefaultCollectLogDirs_def DefaultLogDirsEvery_def
        DefaultCollectThroughputWindow_def DefaultThroughputWindow_def DefaultThroughputWindowEvery_def
        DefaultCollectMaxTimestamp_def DefaultMaxTimestampEvery_def DefaultCollectTieredOffsets_def
        DefaultCollectShareGroups_def DefaultCollectConfigs_def DefaultConfigsEvery_def minute_def)
  have 7: "load_rest plain_library plain_env c = (c\<lparr>cf_max_errors := 1000, cf_max_error_samples := 1,
      cf_log_level := ''info'', cf_instance_id := ''h-0012abff''\<rparr>, [])" for c
    by (simp add: load_rest_def unset Let_def check_that_def DefaultMaxErrors_def
        DefaultMaxErrorSamples_def DefaultLogLevel_def plain_lower plain_id parseLevel_def)
  show ?thesis
    by (simp add: Load_def load_all_def load_blocks_def 1 2 3 4 5 6 7)
      (simp add: zero_config_def plain_config_def)
qed

theorem Load_valid_config_witness:
  "\<exists>c. Load plain_library plain_env = Inr c \<and> 0 < cf_timeout c \<and> cf_file c \<noteq> []"
  using Load_valid_config [OF Load_plain] Load_plain by (auto simp: plain_config_def)

definition mask :: "string \<Rightarrow> string" where
  "mask v = (if v = [] then [] else ''x'')"

text \<open>
  The startup log line cannot leak a credential: it is a function of the configuration with the
  API key and the SASL password erased down to whether they are set.
\<close>

theorem Redacted_hides_secrets:
  "Redacted (c\<lparr>cf_api_key := mask (cf_api_key c), cf_sasl_password := mask (cf_sasl_password c)\<rparr>) =
     Redacted c"
proof -
  have "secret (mask v) = secret v" for v by (simp add: secret_def mask_def)
  then show ?thesis by (simp add: Redacted_def ExportTarget_def)
qed

text \<open>
  C35: a list setting is read back as the list it spells. However its entries are padded with white
  space (any runes of white space, on either side) and whichever of them are blank, the line that
  joins them with commas yields the names in order, duplicates included, each trimmed to what is
  inside its padding and without the blank ones. A name is any string without a comma that neither
  starts nor ends with white space.
\<close>

theorem splitList_roundtrip:
  assumes "list_all (\<lambda>(l, p, r). list_all (\<lambda>w. w \<in> set space_runes) (l @ r) \<and>
      CHR '','' \<notin> set p \<and> trimSpace p = p) es"
  shows "splitList (join_commas (map (\<lambda>(l, p, r). concat l @ p @ concat r) es)) =
    filter (\<lambda>p. p \<noteq> []) (map (\<lambda>(l, p, r). p) es)"
proof -
  have "list_all entry_ok es"
    using assms by (auto simp: list_all_iff entry_ok_def spaces_def)
  moreover have "(\<lambda>(l, p, r). concat l @ p @ concat r) = entry_text"
    by (rule ext) (simp add: entry_text_def)
  moreover have "(\<lambda>(l, p, r). p) = (\<lambda>e :: list_entry. fst (snd e))" by (rule ext) (simp add: split_beta)
  ultimately show ?thesis using splitList_join by simp
qed

text \<open>A name with an inner space, a no-break space before it, a blank entry and a duplicate.\<close>

theorem splitList_roundtrip_witness:
  "splitList (''orders, '' @ map char_of [194, 160 :: nat] @ ''pay ments , ,orders'') =
     [''orders'', ''pay ments'', ''orders'']"
proof -
  have solid: "trimSpace ''orders'' = ''orders''" "trimSpace ''pay ments'' = ''pay ments''"
    by (rule trimSpace_solid; simp add: solid_def)+
  have runes: "'' '' \<in> set space_runes" "map char_of [194, 160 :: nat] \<in> set space_runes"
    by code_simp+
  show ?thesis
    using splitList_roundtrip [of "[([], ''orders'', []), ([CHR '' '' # [], map char_of [194, 160 :: nat]], ''pay ments'', ['' '']),
        ([], [], ['' '']), ([], ''orders'', [])]"] solid runes
    by simp
qed

text \<open>The default collection timeout is four fifths of the interval, as long as the product fits.\<close>

lemma default_timeout:
  "0 < d \<Longrightarrow> d * collectionTimeoutRatio < 2 ^ 63 \<Longrightarrow>
     go_div (wrap64 (d * collectionTimeoutRatio)) 100 = d * 80 div 100"
  by (simp add: collectionTimeoutRatio_def wrap64_id go_div_nonneg)

lemma parse_duration_samples:
  "parse_duration plain_library ''30s'' = Some (30 * second)"
  "parse_duration plain_library ''1h2m'' = Some (62 * minute)"
  "parse_duration plain_library ''30'' = None"
  by (simp_all add: parse_duration_def parse_units.simps fraction_part_def unit_char_def is_digit_def
      value_of_digits_def digit_value_def unitMap_def max_duration_def second_def minute_def)

end
