(* ===== verification/Offsets.thy ===== *)
theory Offsets
  imports Phase_Base
begin

text \<open>
  \<open>src/internal/collector/offsets.go\<close>: committed offsets of every listed group.

  \<open>fetch\<close> is \<open>FetchManyOffsets\<close>; a response carries its own error and its offsets in \<open>Sorted()\<close>
  order. \<open>internal\<close> are the keys of the set of internal topics.
\<close>

subsection \<open>The code\<close>

record offset_response =
  or_topic :: string
  or_partition :: int32
  or_at :: int64
  or_leader_epoch :: int32
  or_metadata :: string
  or_err :: "goerr option"

record fetch_response =
  fr_err :: "goerr option"
  fr_fetched :: "offset_response list"

type_synonym fetch_call = "string list \<Rightarrow> (string \<times> fetch_response) list"

definition partition_offset_of :: "offset_response \<Rightarrow> partition_offset" where
  "partition_offset_of o' =
     \<lparr>po_topic = or_topic o', po_partition = or_partition o',
      po_offset = nullableOffset (or_at o') (or_err o'), po_leader_epoch = or_leader_epoch o',
      po_metadata = or_metadata o',
      po_error_code = (case or_err o' of None \<Rightarrow> 0 | Some e \<Rightarrow> errorCode (Some e))\<rparr>"

fun offset_rows ::
    "collector \<Rightarrow> string list \<Rightarrow> offset_response list \<Rightarrow> sect \<Rightarrow> partition_offset list \<times> sect" where
  "offset_rows c internal [] sec = ([], sec)"
| "offset_rows c internal (o' # os) sec =
     (if or_topic o' \<in> set internal \<and> \<not> op_include_internal (cn_opts c)
      then offset_rows c internal os sec
      else if \<not> allow (cn_topics c) (or_topic o') then offset_rows c internal os sec
      else let sec1 = (case or_err o' of
                         None \<Rightarrow> sec
                       | Some e \<Rightarrow> recordPartition (cn_codes c) ''OffsetFetch'' (or_topic o')
                                     (or_partition o') e sec);
               (rest, sec2) = offset_rows c internal os sec1
           in (partition_offset_of o' # rest, sec2))"

fun offset_groups ::
    "collector \<Rightarrow> string list \<Rightarrow> (string \<times> fetch_response) list \<Rightarrow> string list \<Rightarrow> sect \<Rightarrow>
     consumer_offset list \<times> sect" where
  "offset_groups c internal fetched [] sec = ([], sec)"
| "offset_groups c internal fetched (gid # ids) sec =
     (case map_of fetched gid of
        None \<Rightarrow>
          offset_groups c internal fetched ids
            (recordGroup (cn_codes c) ''OffsetFetch'' gid errNoResponse sec)
      | Some resp \<Rightarrow>
          (case fr_err resp of
             Some e \<Rightarrow>
               (let (rest, sec2) = offset_groups c internal fetched ids
                      (recordGroup (cn_codes c) ''OffsetFetch'' gid e sec)
                in (\<lparr>co_group_id = gid, co_error_code = errorCode (Some e), co_offsets = None,
                     co_offset_count = 0\<rparr> # rest, sec2))
           | None \<Rightarrow>
               (let (rows, sec1) = offset_rows c internal (fr_fetched resp) sec;
                    (rest, sec2) = offset_groups c internal fetched ids sec1
                in (\<lparr>co_group_id = gid, co_error_code = 0, co_offsets = Some rows,
                     co_offset_count = length rows\<rparr> # rest, sec2))))"

definition collectOffsets ::
    "collector \<Rightarrow> fetch_call \<Rightarrow> string list \<Rightarrow> goerr option \<Rightarrow> string list \<Rightarrow>
     consumer_offset list \<times> sect" where
  "collectOffsets c fetch ids listErr internal =
     (let sec = snd (request (cn_codes c) ''ListGroups'' listErr (newSection c ''offsets''))
      in if ids = [] then ([], stopSection c sec)
         else let (result, sec1) = offset_groups c internal (fetch ids) ids sec
              in (result, stopSection c sec1))"

subsection \<open>What the rows are\<close>

definition offset_kept :: "collector \<Rightarrow> string list \<Rightarrow> string \<Rightarrow> bool" where
  "offset_kept c internal topic \<longleftrightarrow>
     (topic \<in> set internal \<longrightarrow> op_include_internal (cn_opts c)) \<and> allow (cn_topics c) topic"

definition offset_row ::
    "collector \<Rightarrow> string list \<Rightarrow> (string \<times> fetch_response) list \<Rightarrow> string \<Rightarrow> consumer_offset option" where
  "offset_row c internal fetched gid =
     (case map_of fetched gid of
        None \<Rightarrow> None
      | Some resp \<Rightarrow>
          Some (case fr_err resp of
             Some e \<Rightarrow> \<lparr>co_group_id = gid, co_error_code = errorCode (Some e), co_offsets = None,
                       co_offset_count = 0\<rparr>
           | None \<Rightarrow>
               (let rows = map partition_offset_of
                      (filter (\<lambda>o'. offset_kept c internal (or_topic o')) (fr_fetched resp))
                in \<lparr>co_group_id = gid, co_error_code = 0, co_offsets = Some rows,
                     co_offset_count = length rows\<rparr>)))"

lemma offset_rows_fst:
  "fst (offset_rows c internal os sec) =
     map partition_offset_of (filter (\<lambda>o'. offset_kept c internal (or_topic o')) os)"
  by (induction c internal os sec rule: offset_rows.induct)
    (auto simp: offset_kept_def split_beta Let_def)

lemma offset_rows_ext [sec_intros]: "sec_ext sec (snd (offset_rows c internal os sec))"
proof (induction c internal os sec rule: offset_rows.induct)
  case (2 c internal o' os sec)
  then show ?case
    by (cases "or_err o'")
      (auto simp: split_beta Let_def intro: sec_ext_trans [OF record_scoped_ext(2)])
qed simp

lemma offset_rows_status:
  "s_status (snd (offset_rows c internal os sec)) =
     (if \<exists>o' \<in> set os. offset_kept c internal (or_topic o') \<and> or_err o' \<noteq> None
      then max (s_status sec) SectionPartial else s_status sec)"
proof (induction os arbitrary: sec)
  case (Cons o' os)
  have step: "snd (offset_rows c internal (o' # os) sec) =
      snd (offset_rows c internal os
        (if offset_kept c internal (or_topic o') then
           (case or_err o' of None \<Rightarrow> sec | Some e \<Rightarrow> recordPartition (cn_codes c) ''OffsetFetch''
              (or_topic o') (or_partition o') e sec)
         else sec))"
    by (simp add: offset_kept_def split_beta Let_def)
  show ?case
    by (cases "offset_kept c internal (or_topic o')"; cases "or_err o'")
      (simp_all add: step Cons max.assoc del: offset_rows.simps)
qed simp

lemma offset_groups_fst:
  "fst (offset_groups c internal fetched ids sec) =
     List.map_filter (offset_row c internal fetched) ids"
  by (induction ids arbitrary: sec)
    (auto simp: map_filter_simps offset_row_def split_beta Let_def offset_rows_fst
      split: option.split)

lemma offset_groups_ext [sec_intros]: "sec_ext sec (snd (offset_groups c internal fetched ids sec))"
proof (induction ids arbitrary: sec)
  case (Cons gid ids)
  then show ?case
    by (auto simp: split_beta Let_def split: option.split
        intro: sec_ext_trans [OF record_scoped_ext(4)] sec_ext_trans [OF offset_rows_ext])
qed simp

definition group_failed ::
    "collector \<Rightarrow> string list \<Rightarrow> (string \<times> fetch_response) list \<Rightarrow> string \<Rightarrow> bool" where
  "group_failed c internal fetched gid \<longleftrightarrow>
     (case map_of fetched gid of
        None \<Rightarrow> True
      | Some resp \<Rightarrow> fr_err resp \<noteq> None \<or>
          (\<exists>o' \<in> set (fr_fetched resp). offset_kept c internal (or_topic o') \<and> or_err o' \<noteq> None))"

lemma group_ok_iff:
  "\<not> group_failed c internal fetched gid \<longleftrightarrow>
     (\<exists>resp. map_of fetched gid = Some resp \<and> fr_err resp = None \<and>
       (\<forall>o' \<in> set (fr_fetched resp). offset_kept c internal (or_topic o') \<longrightarrow> or_err o' = None))"
  by (auto simp: group_failed_def split: option.split)

lemma offset_groups_status:
  "s_status (snd (offset_groups c internal fetched ids sec)) =
     (if \<exists>gid \<in> set ids. group_failed c internal fetched gid
      then max (s_status sec) SectionPartial else s_status sec)"
proof (induction ids arbitrary: sec)
  case (Cons gid ids)
  show ?case
  proof (cases "map_of fetched gid")
    case None
    then have "group_failed c internal fetched gid" by (simp add: group_failed_def)
    with None Cons show ?thesis by (simp add: max.assoc)
  next
    case (Some resp)
    show ?thesis
    proof (cases "fr_err resp")
      case None
      then have gf: "group_failed c internal fetched gid \<longleftrightarrow>
          (\<exists>o' \<in> set (fr_fetched resp). offset_kept c internal (or_topic o') \<and> or_err o' \<noteq> None)"
        using Some by (simp add: group_failed_def)
      have rows: "s_status (snd (offset_rows c internal (fr_fetched resp) sec)) =
          (if group_failed c internal fetched gid then max (s_status sec) SectionPartial
           else s_status sec)"
        by (simp only: offset_rows_status gf)
      have "s_status (snd (offset_groups c internal fetched (gid # ids) sec)) =
          s_status (snd (offset_groups c internal fetched ids
            (snd (offset_rows c internal (fr_fetched resp) sec))))"
        using None Some by (simp add: split_beta Let_def)
      then show ?thesis
        by (cases "group_failed c internal fetched gid") (simp_all add: Cons rows max.assoc)
    next
      case (Some e)
      then have "group_failed c internal fetched gid"
        using \<open>map_of fetched gid = Some resp\<close> by (simp add: group_failed_def)
      with Some \<open>map_of fetched gid = Some resp\<close> Cons show ?thesis
        by (simp add: split_beta Let_def max.assoc)
    qed
  qed
qed simp

lemma collectOffsets_section: "phase_section ''offsets'' (snd (collectOffsets c fetch ids listErr internal))"
proof -
  have "phase_section n (snd (offset_groups c internal f ids s))" if "phase_section n s" for n f s
    using phase_section_ext [OF that offset_groups_ext] .
  then show ?thesis by (simp add: collectOffsets_def Let_def split_beta)
qed

subsection \<open>Properties\<close>

text \<open>
  Every listed group that was answered gets exactly one row, in the order listed: its error
  code and no offsets when the coordinator refused, and otherwise one entry per committed
  partition that survives the internal-topic rule and the topic filter, with the count equal to
  the length. An offset is either null or the broker's non-negative number, and null whenever the
  broker reported an error.
\<close>

theorem collectOffsets_rows:
  assumes "ids \<noteq> []"
  shows "fst (collectOffsets c fetch ids listErr internal) =
      List.map_filter (offset_row c internal (fetch ids)) ids \<and>
    (\<forall>co \<in> set (fst (collectOffsets c fetch ids listErr internal)).
       case co_offsets co of
         None \<Rightarrow> co_offset_count co = 0
       | Some rows \<Rightarrow> co_error_code co = 0 \<and> co_offset_count co = length rows \<and>
           (\<forall>po \<in> set rows. offset_kept c internal (po_topic po) \<and> nonneg_opt (po_offset po)))"
proof -
  have eq: "fst (collectOffsets c fetch ids listErr internal) =
      List.map_filter (offset_row c internal (fetch ids)) ids"
    using assms by (simp add: collectOffsets_def Let_def split_beta offset_groups_fst)
  show ?thesis
    unfolding eq
    by (auto simp: List.map_filter_def offset_row_def Let_def partition_offset_of_def
        split: option.splits)
qed

text \<open>
  The offsets section never reads ok when something is missing: once the group listing
  succeeded, its status is ok exactly when every listed group was answered without an error and
  no committed offset it ships carries one.
\<close>

theorem collectOffsets_ok_iff:
  assumes "ids \<noteq> []" "listErr = None"
  shows "s_status (snd (collectOffsets c fetch ids listErr internal)) = SectionOK \<longleftrightarrow>
    (\<forall>gid \<in> set ids. \<exists>resp. map_of (fetch ids) gid = Some resp \<and> fr_err resp = None \<and>
       (\<forall>o' \<in> set (fr_fetched resp). offset_kept c internal (or_topic o') \<longrightarrow> or_err o' = None))"
proof -
  have "s_status (snd (collectOffsets c fetch ids listErr internal)) = SectionOK \<longleftrightarrow>
      (\<forall>gid \<in> set ids. \<not> group_failed c internal (fetch ids) gid)"
    using assms
    by (simp add: collectOffsets_def Let_def split_beta offset_groups_status request_def
        status_order)
  then show ?thesis by (simp only: group_ok_iff)
qed

subsection \<open>A worked cycle\<close>

definition wit_options :: options where
  "wit_options =
     \<lparr>op_timeout = 0, op_include_internal = False, op_topic_include = [], op_topic_exclude = [],
      op_group_include = [], op_group_exclude = [], op_group_states = [],
      op_consumer_groups = True, op_last_stable = True, op_log_dirs = True,
      op_log_dirs_every = 24, op_window = True, op_window_width = 0, op_window_every = 1,
      op_max_timestamp = True, op_tiered = True, op_latest_tiered = True,
      op_share_groups = True, op_configs = True, op_configs_every = 360,
      op_max_timestamp_every = 12, op_reassignments = True, op_epoch_probes = True,
      op_limits = no_limits\<rparr>"

definition wit_collector :: collector where
  "wit_collector =
     \<lparr>cn_opts = wit_options, cn_topics = None, cn_groups = None, cn_limits = no_limits,
      cn_codes = wit_codes, cn_clock = (\<lambda>_. (0, 1000000))\<rparr>"

definition wit_fetch :: fetch_call where
  "wit_fetch ids =
     [(''g1'', \<lparr>fr_err = None, fr_fetched =
         [\<lparr>or_topic = ''orders'', or_partition = 0, or_at = 17, or_leader_epoch = 3,
           or_metadata = [], or_err = None\<rparr>,
          \<lparr>or_topic = ''orders'', or_partition = 1, or_at = -1, or_leader_epoch = -1,
           or_metadata = [], or_err = None\<rparr>]\<rparr>),
      (''g2'', \<lparr>fr_err = Some wit_auth_err, fr_fetched = []\<rparr>)]"

theorem collectOffsets_rows_witness:
  "map (\<lambda>co. (co_group_id co, co_error_code co, map_option (map po_offset) (co_offsets co)))
     (fst (collectOffsets wit_collector wit_fetch [''g1'', ''g2''] None [])) =
   [(''g1'', 0, Some [Some 17, None]), (''g2'', 29, None)]"
proof -
  have "[''g1'', ''g2''] \<noteq> []" by simp
  note rows = collectOffsets_rows [OF this, of wit_collector wit_fetch None "[]"]
  have "map (\<lambda>co. (co_group_id co, co_error_code co, map_option (map po_offset) (co_offsets co)))
     (List.map_filter (offset_row wit_collector [] (wit_fetch [''g1'', ''g2''])) [''g1'', ''g2'']) =
     [(''g1'', 0, Some [Some 17, None]), (''g2'', 29, None)]"
    by code_simp
  with rows show ?thesis by simp
qed

theorem collectOffsets_ok_iff_witness:
  "s_status (snd (collectOffsets wit_collector wit_fetch [''g1''] None [])) = SectionOK"
proof -
  have m: "map_of (wit_fetch [''g1'']) ''g1'' = Some \<lparr>fr_err = None, fr_fetched =
         [\<lparr>or_topic = ''orders'', or_partition = 0, or_at = 17, or_leader_epoch = 3,
           or_metadata = [], or_err = None\<rparr>,
          \<lparr>or_topic = ''orders'', or_partition = 1, or_at = -1, or_leader_epoch = -1,
           or_metadata = [], or_err = None\<rparr>]\<rparr>"
    by (simp add: wit_fetch_def)
  have "[''g1''] \<noteq> []" by simp
  from collectOffsets_ok_iff [OF this refl, of wit_collector wit_fetch "[]"] m
  show ?thesis by simp
qed

end
