(* ===== verification/Topics.thy ===== *)
theory Topics
  imports Offsets
begin

text \<open>
  \<open>src/internal/collector/metadata.go\<close>: the cluster phase and the topics phase.

  The topics phase shares six sections between its samples: an \<open>offsetSample\<close> holds a pointer to
  the section that owns its errors, and the start offsets' section is also the one metadata
  failures go to. The pointers are the constructors of \<open>flavour\<close>, the sections themselves the
  record \<open>topic_sections\<close>, threaded through every step.
\<close>

subsection \<open>The cluster\<close>

record metadata_answer =
  ma_cluster :: string
  ma_brokers :: "broker list"
  ma_topics :: topic_details

definition collectCluster ::
    "collector \<Rightarrow> metadata_answer \<times> goerr option \<Rightarrow>
     cluster_metrics option \<times> topic_details \<times> sect" where
  "collectCluster c answer =
     (let (meta, err) = answer;
          (usable, sec) = request (cn_codes c) ''Metadata'' err (newSection c ''cluster'')
      in if \<not> usable then (None, None, stopSection c sec)
         else (Some \<lparr>cl_id = ma_cluster meta, cl_broker_count = length (ma_brokers meta),
                     cl_brokers = ma_brokers meta, cl_capabilities = None\<rparr>,
               ma_topics meta, stopSection c sec))"

subsection \<open>The six sections\<close>

datatype flavour = Starts | Lso | Ends | MaxTS | Locals | Remotes

record topic_sections =
  ts_starts :: sect
  ts_lso :: sect
  ts_end :: sect
  ts_maxTS :: sect
  ts_local :: sect
  ts_remote :: sect

fun sec_of :: "flavour \<Rightarrow> topic_sections \<Rightarrow> sect" where
  "sec_of Starts ts = ts_starts ts"
| "sec_of Lso ts = ts_lso ts"
| "sec_of Ends ts = ts_end ts"
| "sec_of MaxTS ts = ts_maxTS ts"
| "sec_of Locals ts = ts_local ts"
| "sec_of Remotes ts = ts_remote ts"

fun upd_of :: "flavour \<Rightarrow> (sect \<Rightarrow> sect) \<Rightarrow> topic_sections \<Rightarrow> topic_sections" where
  "upd_of Starts f ts = ts\<lparr>ts_starts := f (ts_starts ts)\<rparr>"
| "upd_of Lso f ts = ts\<lparr>ts_lso := f (ts_lso ts)\<rparr>"
| "upd_of Ends f ts = ts\<lparr>ts_end := f (ts_end ts)\<rparr>"
| "upd_of MaxTS f ts = ts\<lparr>ts_maxTS := f (ts_maxTS ts)\<rparr>"
| "upd_of Locals f ts = ts\<lparr>ts_local := f (ts_local ts)\<rparr>"
| "upd_of Remotes f ts = ts\<lparr>ts_remote := f (ts_remote ts)\<rparr>"

subsection \<open>Samples\<close>

record offset_sample =
  sa_api :: string
  sa_sec :: flavour
  sa_listed :: listed_offsets
  sa_ok :: bool
  sa_here :: bool

definition topicListed ::
    "kerr_codes \<Rightarrow> flavour \<Rightarrow> string \<Rightarrow> listed_offsets \<Rightarrow> string \<Rightarrow> topic_sections \<Rightarrow>
     bool \<times> topic_sections" where
  "topicListed kc fl api listed topic ts =
     (if map_of listed topic \<noteq> None then (True, ts)
      else (False, upd_of fl (recordTopic kc api topic errTopicNotListed) ts))"

definition enter ::
    "kerr_codes \<Rightarrow> string \<Rightarrow> offset_sample \<Rightarrow> topic_sections \<Rightarrow> offset_sample \<times> topic_sections" where
  "enter kc topic s ts =
     (if sa_ok s
      then let (h, ts') = topicListed kc (sa_sec s) (sa_api s) (sa_listed s) topic ts
           in (s\<lparr>sa_here := h\<rparr>, ts')
      else (s\<lparr>sa_here := False\<rparr>, ts))"

definition lookupOffset ::
    "kerr_codes \<Rightarrow> flavour \<Rightarrow> string \<Rightarrow> listed_offsets \<Rightarrow> string \<Rightarrow> int32 \<Rightarrow> topic_sections \<Rightarrow>
     (int64 option \<times> goerr option) \<times> topic_sections" where
  "lookupOffset kc fl api listed topic pid ts =
     (case listed_lookup listed topic pid of
        None \<Rightarrow> ((None, Some errNotListed),
                 upd_of fl (recordPartition kc api topic pid errNotListed) ts)
      | Some o' \<Rightarrow>
          (case nullableOffset (lo_offset o') (lo_err o') of
             Some v \<Rightarrow> ((Some v, None), ts)
           | None \<Rightarrow>
               (let err = (case lo_err o' of None \<Rightarrow> errNegativeOffset | Some e \<Rightarrow> e)
                in ((None, Some err), upd_of fl (recordPartition kc api topic pid err) ts))))"

definition sample_lookup ::
    "kerr_codes \<Rightarrow> offset_sample \<Rightarrow> string \<Rightarrow> int32 \<Rightarrow> topic_sections \<Rightarrow>
     (int64 option \<times> goerr option) \<times> topic_sections" where
  "sample_lookup kc s topic pid ts =
     (if \<not> sa_here s then ((None, None), ts)
      else lookupOffset kc (sa_sec s) (sa_api s) (sa_listed s) topic pid ts)"

definition maxTimestamp ::
    "kerr_codes \<Rightarrow> offset_sample \<Rightarrow> string \<Rightarrow> int32 \<Rightarrow> topic_sections \<Rightarrow>
     max_timestamp_offset option \<times> topic_sections" where
  "maxTimestamp kc s topic pid ts =
     (if \<not> sa_here s then (None, ts)
      else case listed_lookup (sa_listed s) topic pid of
        None \<Rightarrow> (None, ts)
      | Some lo \<Rightarrow>
          (let out = \<lparr>mt_offset = None, mt_timestamp_ms = None,
                      mt_leader_epoch = lo_leader_epoch lo, mt_error_code = 0\<rparr>
           in case lo_err lo of
                Some e \<Rightarrow> (Some (out\<lparr>mt_error_code := errorCode (Some e)\<rparr>),
                           upd_of (sa_sec s) (recordPartition kc (sa_api s) topic pid e) ts)
              | None \<Rightarrow>
                  (Some (out\<lparr>mt_offset := (if lo_offset lo \<ge> 0 then Some (lo_offset lo) else None),
                             mt_timestamp_ms :=
                               (if lo_timestamp lo \<ge> 0 then Some (lo_timestamp lo) else None)\<rparr>),
                   ts)))"

fun replicationFactor_loop :: "partition_detail list \<Rightarrow> nat \<Rightarrow> bool \<Rightarrow> nat" where
  "replicationFactor_loop [] lowest seen = lowest"
| "replicationFactor_loop (p # ps) lowest seen =
     (if pd_err p \<noteq> None then replicationFactor_loop ps lowest seen
      else let n = length (pd_replicas p)
           in if \<not> seen \<or> n < lowest then replicationFactor_loop ps n True
              else replicationFactor_loop ps lowest seen)"

definition replicationFactor :: "partition_detail list \<Rightarrow> nat" where
  "replicationFactor parts = replicationFactor_loop parts 0 False"

subsection \<open>One topic\<close>

record samples =
  sp_starts :: offset_sample
  sp_lsos :: offset_sample
  sp_ends :: offset_sample
  sp_maxTS :: offset_sample
  sp_locals :: offset_sample
  sp_remotes :: offset_sample

text \<open>\<open>if err != nil && part.ErrorCode == 0 { part.ErrorCode = errorCode(err) }\<close>\<close>

definition first_error :: "goerr option \<Rightarrow> partition_metrics \<Rightarrow> partition_metrics" where
  "first_error err part =
     (if err \<noteq> None \<and> p_error_code part = 0 then part\<lparr>p_error_code := errorCode err\<rparr> else part)"

definition build_partition ::
    "kerr_codes \<Rightarrow> string \<Rightarrow> samples \<Rightarrow> partition_detail \<Rightarrow> topic_sections \<Rightarrow>
     partition_metrics \<times> topic_sections" where
  "build_partition kc topic sp p ts =
     (let part0 = \<lparr>p_id = pd_partition p, p_leader = pd_leader p,
            p_leader_epoch = pd_leader_epoch p, p_replicas = pd_replicas p, p_isr = pd_isr p,
            p_offline = pd_offline p, p_start_offset = None, p_end_offset = None,
            p_last_stable_offset = None, p_max_timestamp = None, p_tiered = None, p_window = None,
            p_error_code = 0\<rparr>;
          (part1, ts1) = (case pd_err p of
             None \<Rightarrow> (part0, ts)
           | Some e \<Rightarrow> (part0\<lparr>p_error_code := errorCode (Some e)\<rparr>,
               upd_of Starts (recordPartition kc ''Metadata'' topic (pd_partition p) e) ts));
          ((start, err_s), ts2) = sample_lookup kc (sp_starts sp) topic (pd_partition p) ts1;
          part2 = first_error err_s (part1\<lparr>p_start_offset := start\<rparr>);
          ((lso, err_l), ts3) = sample_lookup kc (sp_lsos sp) topic (pd_partition p) ts2;
          part3 = first_error err_l (part2\<lparr>p_last_stable_offset := lso\<rparr>);
          ((hw, err_e), ts4) = sample_lookup kc (sp_ends sp) topic (pd_partition p) ts3;
          part4 = first_error err_e (part3\<lparr>p_end_offset := hw\<rparr>);
          (part5, ts5) = (if sa_here (sp_maxTS sp)
             then let (mt, ts') = maxTimestamp kc (sp_maxTS sp) topic (pd_partition p) ts4
                  in (part4\<lparr>p_max_timestamp := mt\<rparr>, ts')
             else (part4, ts4));
          (part6, ts6) = (if sa_here (sp_locals sp) \<or> sa_here (sp_remotes sp)
             then let ((l, _), ts') = sample_lookup kc (sp_locals sp) topic (pd_partition p) ts5;
                      ((r, _), ts'') = sample_lookup kc (sp_remotes sp) topic (pd_partition p) ts'
                  in (part5\<lparr>p_tiered := Some \<lparr>ti_local_start = l, ti_remote_end = r\<rparr>\<rparr>, ts'')
             else (part5, ts5))
      in (part6, ts6))"

fun build_partitions ::
    "kerr_codes \<Rightarrow> string \<Rightarrow> samples \<Rightarrow> partition_detail list \<Rightarrow> topic_sections \<Rightarrow>
     partition_metrics list \<times> topic_sections" where
  "build_partitions kc topic sp [] ts = ([], ts)"
| "build_partitions kc topic sp (p # ps) ts =
     (let (part, ts1) = build_partition kc topic sp p ts;
          (rest, ts2) = build_partitions kc topic sp ps ts1
      in (part # rest, ts2))"

definition enter_all :: "kerr_codes \<Rightarrow> string \<Rightarrow> samples \<Rightarrow> topic_sections \<Rightarrow> samples \<times> topic_sections" where
  "enter_all kc topic sp ts =
     (let (starts, ts1) = enter kc topic (sp_starts sp) ts;
          (lsos, ts2) = enter kc topic (sp_lsos sp) ts1;
          (ends, ts3) = enter kc topic (sp_ends sp) ts2;
          (maxTS, ts4) = enter kc topic (sp_maxTS sp) ts3;
          (locals, ts5) = enter kc topic (sp_locals sp) ts4;
          (remotes, ts6) = enter kc topic (sp_remotes sp) ts5
      in (\<lparr>sp_starts = starts, sp_lsos = lsos, sp_ends = ends, sp_maxTS = maxTS,
           sp_locals = locals, sp_remotes = remotes\<rparr>, ts6))"

definition buildTopic ::
    "kerr_codes \<Rightarrow> topic_detail \<Rightarrow> samples \<Rightarrow> topic_sections \<Rightarrow> topic_metrics \<times> topic_sections" where
  "buildTopic kc td sp ts =
     (let tid = (case td_id td of None \<Rightarrow> [] | Some i \<Rightarrow> i);
          (code, ts1) = (case td_err td of
             None \<Rightarrow> (0, ts)
           | Some e \<Rightarrow> (errorCode (Some e), upd_of Starts (recordTopic kc ''Metadata'' (td_topic td) e) ts));
          parts = td_partitions td;
          (sp1, ts2) = enter_all kc (td_topic td) sp ts1;
          (rows, ts3) = build_partitions kc (td_topic td) sp1 parts ts2
      in (\<lparr>t_name = td_topic td, t_id = tid, t_internal = td_internal td,
           t_partition_count = length parts, t_replication_factor = replicationFactor parts,
           t_partitions = rows, t_error_code = code\<rparr>, ts3))"

fun buildTopics ::
    "kerr_codes \<Rightarrow> topic_detail list \<Rightarrow> samples \<Rightarrow> topic_sections \<Rightarrow>
     topic_metrics list \<times> topic_sections" where
  "buildTopics kc [] sp ts = ([], ts)"
| "buildTopics kc (td # tds) sp ts =
     (let (tm, ts1) = buildTopic kc td sp ts;
          (rest, ts2) = buildTopics kc tds sp ts1
      in (tm # rest, ts2))"

subsection \<open>The phase\<close>

record list_client =
  li_start :: list_call
  li_committed :: list_call
  li_end :: list_call
  li_max_timestamp :: list_call
  li_local_start :: list_call
  li_remote_end :: list_call

definition skippedSection :: "collector \<Rightarrow> string \<Rightarrow> sect" where
  "skippedSection c name = stopSection c (downgrade SectionSkipped (newSection c name))"

definition skipped_sections :: "collector \<Rightarrow> sect \<Rightarrow> topic_sections" where
  "skipped_sections c sec =
     \<lparr>ts_starts = stopSection c sec, ts_lso = skippedSection c ''topics_lso'',
      ts_end = skippedSection c ''topics_end'', ts_maxTS = skippedSection c ''topics_max_timestamp'',
      ts_local = skippedSection c ''topics_local_start'',
      ts_remote = skippedSection c ''topics_remote_end''\<rparr>"

text \<open>
  One listing that its own section reports on: run when \<open>enabled\<close>, skipped otherwise. It returns
  the listing, whether it is usable, the stopped section, and the request it issued.
\<close>

definition list_sample ::
    "collector \<Rightarrow> string \<Rightarrow> string \<Rightarrow> bool \<Rightarrow> list_call \<Rightarrow> string list \<Rightarrow>
     listed_offsets \<times> bool \<times> sect \<times> issued" where
  "list_sample c name api enabled call names =
     (let sec = newSection c name
      in if enabled
         then let (listed, err) = call names;
                  (ok, sec1) = requestPartial (cn_codes c) api err (length listed > 0) sec
              in (listed, ok, stopSection c sec1, [(api, names)])
         else ([], False, stopSection c (downgrade SectionSkipped sec), []))"

definition collectTopics ::
    "collector \<Rightarrow> list_client \<Rightarrow> topic_details \<Rightarrow> bool \<Rightarrow>
     topic_metrics list \<times> topic_sections \<times> issued" where
  "collectTopics c cl tds runMaxTS =
     (let kc = cn_codes c; op = cn_opts c; sec = newSection c ''topics''
      in case tds of
           None \<Rightarrow> ([], skipped_sections c (downgrade SectionSkipped sec), [])
         | Some l \<Rightarrow>
             (let sel = selectTopics l (cn_topics c) (op_include_internal op)
              in if length sel = 0 then ([], skipped_sections c sec, [])
                 else
                   let names = map td_topic sel;
                       (starts, err) = li_start cl names;
                       (startsOK, sec1) =
                         requestPartial kc ''ListStartOffsets'' err (length starts > 0) sec;
                       (lsos, lsosOK, lsoSec, q1) =
                         list_sample c ''topics_lso'' ''ListCommittedOffsets'' (op_last_stable op)
                           (li_committed cl) names;
                       (ends, endsOK, endSec, q2) =
                         list_sample c ''topics_end'' ''ListEndOffsets'' True (li_end cl) names;
                       (maxs, maxOK, maxSec, q3) =
                         list_sample c ''topics_max_timestamp'' ''ListMaxTimestampOffsets'' runMaxTS
                           (li_max_timestamp cl) names;
                       (locals, localsOK, localSec, q4) =
                         list_sample c ''topics_local_start'' ''ListLocalLogStartOffsets''
                           (op_tiered op) (li_local_start cl) names;
                       (remotes, remotesOK, remoteSec, q5) =
                         list_sample c ''topics_remote_end'' ''ListLatestRemoteOffsets''
                           (op_tiered op \<and> op_latest_tiered op) (li_remote_end cl) names;
                       sample = (\<lambda>api fl listed ok. \<lparr>sa_api = api, sa_sec = fl,
                         sa_listed = listed, sa_ok = ok, sa_here = False\<rparr>);
                       sp = \<lparr>sp_starts = sample ''ListStartOffsets'' Starts starts startsOK,
                             sp_lsos = sample ''ListCommittedOffsets'' Lso lsos lsosOK,
                             sp_ends = sample ''ListEndOffsets'' Ends ends endsOK,
                             sp_maxTS = sample ''ListMaxTimestampOffsets'' MaxTS maxs maxOK,
                             sp_locals = sample ''ListLocalLogStartOffsets'' Locals locals localsOK,
                             sp_remotes = sample ''ListLatestRemoteOffsets'' Remotes remotes remotesOK\<rparr>;
                       (topics, ts) = buildTopics kc sel sp
                         \<lparr>ts_starts = sec1, ts_lso = lsoSec, ts_end = endSec, ts_maxTS = maxSec,
                          ts_local = localSec, ts_remote = remoteSec\<rparr>
                   in (topics, ts\<lparr>ts_starts := stopSection c (ts_starts ts)\<rparr>,
                       (''ListStartOffsets'', names) # q1 @ q2 @ q3 @ q4 @ q5)))"

end
