(* ===== verification/Topics_Props.thy ===== *)
theory Topics_Props
  imports Topics
begin

text \<open>
  What the topics phase ships, in closed form: the rows do not depend on the sections they record
  their failures in, and the sections only ever get worse. From the two: for the listings
  that answer with an offset, a null and an ok section never meet, and no listing is ever issued
  without naming topics.
\<close>

lemma subseq_concat_map:
  "(\<And>x. x \<in> set xs \<Longrightarrow> subseq (f x) (g x)) \<Longrightarrow> subseq (concat (map f xs)) (concat (map g xs))"
  by (induction xs) (auto intro: list_emb_append_mono)

subsection \<open>Lookups in closed form\<close>

definition look_val :: "offset_sample \<Rightarrow> string \<Rightarrow> int32 \<Rightarrow> int64 option" where
  "look_val s topic pid =
     (if \<not> sa_here s then None
      else case listed_lookup (sa_listed s) topic pid of
        None \<Rightarrow> None | Some o' \<Rightarrow> nullableOffset (lo_offset o') (lo_err o'))"

definition look_err :: "offset_sample \<Rightarrow> string \<Rightarrow> int32 \<Rightarrow> goerr option" where
  "look_err s topic pid =
     (if \<not> sa_here s then None
      else case listed_lookup (sa_listed s) topic pid of
        None \<Rightarrow> Some errNotListed
      | Some o' \<Rightarrow>
          (case lo_err o' of
             Some e \<Rightarrow> Some e
           | None \<Rightarrow> if lo_offset o' < 0 then Some errNegativeOffset else None))"

definition max_val :: "offset_sample \<Rightarrow> string \<Rightarrow> int32 \<Rightarrow> max_timestamp_offset option" where
  "max_val s topic pid =
     (if \<not> sa_here s then None
      else case listed_lookup (sa_listed s) topic pid of
        None \<Rightarrow> None
      | Some lo \<Rightarrow>
          Some \<lparr>mt_offset = nullableOffset (lo_offset lo) (lo_err lo),
                mt_timestamp_ms = nullableOffset (lo_timestamp lo) (lo_err lo),
                mt_leader_epoch = lo_leader_epoch lo, mt_error_code = errorCode (lo_err lo)\<rparr>)"

definition record_opt ::
    "kerr_codes \<Rightarrow> offset_sample \<Rightarrow> string \<Rightarrow> int32 \<Rightarrow> goerr option \<Rightarrow> topic_sections \<Rightarrow>
     topic_sections" where
  "record_opt kc s topic pid err ts =
     (case err of
        None \<Rightarrow> ts
      | Some e \<Rightarrow> upd_of (sa_sec s) (recordPartition kc (sa_api s) topic pid e) ts)"

lemma sample_lookup_eq:
  "sample_lookup kc s topic pid ts =
     ((look_val s topic pid, look_err s topic pid),
      record_opt kc s topic pid (look_err s topic pid) ts)"
  by (auto simp: sample_lookup_def lookupOffset_def look_val_def look_err_def record_opt_def
      nullableOffset_def split: option.split)

lemma maxTimestamp_eq:
  "maxTimestamp kc s topic pid ts =
     (max_val s topic pid,
      record_opt kc s topic pid
        (if sa_here s then Option.bind (listed_lookup (sa_listed s) topic pid) lo_err else None) ts)"
  by (auto simp: maxTimestamp_def max_val_def record_opt_def nullableOffset_def
      split: option.split)

lemma look_none: "sa_here s \<Longrightarrow> look_val s topic pid = None \<longleftrightarrow> look_err s topic pid \<noteq> None"
  by (auto simp: look_val_def look_err_def nullableOffset_def split: option.split)

lemma look_val_nonneg [simp]: "nonneg_opt (look_val s topic pid)"
  by (auto simp: look_val_def split: option.split)

lemma first_error_eq:
  "first_error err part =
     part\<lparr>p_error_code := (if p_error_code part = 0 then errorCode err else p_error_code part)\<rparr>"
  by (cases err) (auto simp: first_error_def)

fun first_code :: "goerr option list \<Rightarrow> int16" where
  "first_code [] = 0"
| "first_code (e # es) = (if errorCode e = 0 then first_code es else errorCode e)"

definition partition_of :: "string \<Rightarrow> samples \<Rightarrow> partition_detail \<Rightarrow> partition_metrics" where
  "partition_of topic sp p =
     (let pid = pd_partition p in
      \<lparr>p_id = pid, p_leader = pd_leader p, p_leader_epoch = pd_leader_epoch p,
       p_replicas = pd_replicas p, p_isr = pd_isr p, p_offline = pd_offline p,
       p_start_offset = look_val (sp_starts sp) topic pid,
       p_end_offset = look_val (sp_ends sp) topic pid,
       p_last_stable_offset = look_val (sp_lsos sp) topic pid,
       p_max_timestamp = max_val (sp_maxTS sp) topic pid,
       p_tiered = (if sa_here (sp_locals sp) \<or> sa_here (sp_remotes sp)
         then Some \<lparr>ti_local_start = look_val (sp_locals sp) topic pid,
                    ti_remote_end = look_val (sp_remotes sp) topic pid\<rparr> else None),
       p_window = None,
       p_error_code = first_code [pd_err p, look_err (sp_starts sp) topic pid,
         look_err (sp_lsos sp) topic pid, look_err (sp_ends sp) topic pid]\<rparr>)"

lemma max_val_not_here [simp]: "\<not> sa_here s \<Longrightarrow> max_val s topic pid = None"
  by (simp add: max_val_def)

lemma build_partition_fst: "fst (build_partition kc topic sp p ts) = partition_of topic sp p"
  unfolding build_partition_def partition_of_def
  by (cases "pd_err p"; cases "sa_here (sp_maxTS sp)";
      cases "sa_here (sp_locals sp) \<or> sa_here (sp_remotes sp)")
    (simp_all add: Let_def split_beta sample_lookup_eq maxTimestamp_eq first_error_eq)

lemma build_partitions_fst:
  "fst (build_partitions kc topic sp ps ts) = map (partition_of topic sp) ps"
  by (induction ps arbitrary: ts) (simp_all add: split_beta Let_def build_partition_fst)

definition entered :: "string \<Rightarrow> offset_sample \<Rightarrow> offset_sample" where
  "entered topic s = s\<lparr>sa_here := sa_ok s \<and> map_of (sa_listed s) topic \<noteq> None\<rparr>"

lemma enter_fst [simp]: "fst (enter kc topic s ts) = entered topic s"
  by (auto simp: enter_def topicListed_def entered_def)

definition entered_all :: "string \<Rightarrow> samples \<Rightarrow> samples" where
  "entered_all topic sp =
     \<lparr>sp_starts = entered topic (sp_starts sp), sp_lsos = entered topic (sp_lsos sp),
      sp_ends = entered topic (sp_ends sp), sp_maxTS = entered topic (sp_maxTS sp),
      sp_locals = entered topic (sp_locals sp), sp_remotes = entered topic (sp_remotes sp)\<rparr>"

lemma enter_all_fst [simp]: "fst (enter_all kc topic sp ts) = entered_all topic sp"
  by (simp add: enter_all_def entered_all_def split_beta Let_def)

definition topic_of :: "samples \<Rightarrow> topic_detail \<Rightarrow> topic_metrics" where
  "topic_of sp td =
     \<lparr>t_name = td_topic td, t_id = (case td_id td of None \<Rightarrow> [] | Some i \<Rightarrow> i),
      t_internal = td_internal td, t_partition_count = length (td_partitions td),
      t_replication_factor = replicationFactor (td_partitions td),
      t_partitions = map (partition_of (td_topic td) (entered_all (td_topic td) sp))
        (td_partitions td),
      t_error_code = errorCode (td_err td)\<rparr>"

lemma buildTopic_fst: "fst (buildTopic kc td sp ts) = topic_of sp td"
  by (cases "td_err td") (simp_all add: buildTopic_def topic_of_def split_beta Let_def
      build_partitions_fst)

lemma buildTopics_fst: "fst (buildTopics kc tds sp ts) = map (topic_of sp) tds"
  by (induction tds arbitrary: ts) (simp_all add: split_beta Let_def buildTopic_fst)

subsection \<open>Sections only get worse\<close>

definition worse :: "sect \<Rightarrow> sect \<Rightarrow> bool" where
  "worse s t \<longleftrightarrow> sec_ext s t \<and> s_status s \<le> s_status t"

definition grows :: "topic_sections \<Rightarrow> topic_sections \<Rightarrow> bool" where
  "grows ts ts' \<longleftrightarrow> (\<forall>fl. worse (sec_of fl ts) (sec_of fl ts'))"

lemma worse_refl [simp]: "worse s s"
  by (simp add: worse_def)

lemma worse_trans: "worse s t \<Longrightarrow> worse t u \<Longrightarrow> worse s u"
  unfolding worse_def using sec_ext_trans order_trans by blast

lemma worse_record [simp]:
  "worse s (recordTopic kc api t e s)" "worse s (recordPartition kc api t p e s)"
  "worse s (recordLogDir kc api b d e s)" "worse s (recordGroup kc api g e s)"
  by (simp_all add: worse_def)

lemma worse_OK: "worse s t \<Longrightarrow> s_status t = SectionOK \<Longrightarrow> s_status s = SectionOK"
  by (cases "s_status s") (auto simp: worse_def less_eq_section_status_def)

lemma grows_refl [simp]: "grows ts ts"
  by (simp add: grows_def)

lemma grows_trans [trans]: "grows ts ts' \<Longrightarrow> grows ts' ts'' \<Longrightarrow> grows ts ts''"
  unfolding grows_def using worse_trans by blast

lemma sec_of_upd_of: "sec_of fl (upd_of fl' f ts) = (if fl = fl' then f (sec_of fl ts) else sec_of fl ts)"
  by (cases fl; cases fl') simp_all

lemma grows_upd: "(\<And>s. worse s (f s)) \<Longrightarrow> grows ts (upd_of fl f ts)"
  by (simp add: grows_def sec_of_upd_of)

lemma grows_OK:
  "grows ts ts' \<Longrightarrow> s_status (sec_of fl ts') = SectionOK \<Longrightarrow> s_status (sec_of fl ts) = SectionOK"
  unfolding grows_def using worse_OK by blast

lemma grows_record_opt [simp]: "grows ts (record_opt kc s topic pid err ts)"
  by (auto simp: record_opt_def intro: grows_upd split: option.split)

lemma grows_record_opt_trans: "grows ts ts' \<Longrightarrow> grows ts (record_opt kc s topic pid err ts')"
  using grows_trans grows_record_opt by blast

lemma grows_enter [simp]: "grows ts (snd (enter kc topic s ts))"
  by (auto simp: enter_def topicListed_def intro: grows_upd)

lemma grows_enter_trans: "grows ts ts' \<Longrightarrow> grows ts (snd (enter kc topic s ts'))"
  using grows_trans grows_enter by blast

lemma grows_enter_all [simp]: "grows ts (snd (enter_all kc topic sp ts))"
  unfolding enter_all_def Let_def split_beta snd_conv
  by (intro grows_enter_trans grows_refl)

text \<open>The sections after one partition, as a chain of optional records.\<close>

definition max_err :: "offset_sample \<Rightarrow> string \<Rightarrow> int32 \<Rightarrow> goerr option" where
  "max_err s topic pid =
     (if sa_here s then Option.bind (listed_lookup (sa_listed s) topic pid) lo_err else None)"

lemma record_opt_None [simp]: "record_opt kc s topic pid None ts = ts"
  by (simp add: record_opt_def)

lemma look_err_not_here [simp]: "\<not> sa_here s \<Longrightarrow> look_err s topic pid = None"
  by (simp add: look_err_def)

lemma build_partition_snd:
  "snd (build_partition kc topic sp p ts) =
     (let pid = pd_partition p;
          rec = (\<lambda>s. record_opt kc s topic pid (look_err s topic pid));
          ts1 = (case pd_err p of None \<Rightarrow> ts
            | Some e \<Rightarrow> upd_of Starts (recordPartition kc ''Metadata'' topic pid e) ts);
          ts4 = rec (sp_ends sp) (rec (sp_lsos sp) (rec (sp_starts sp) ts1));
          ts5 = record_opt kc (sp_maxTS sp) topic pid (max_err (sp_maxTS sp) topic pid) ts4
      in rec (sp_remotes sp) (rec (sp_locals sp) ts5))"
  unfolding build_partition_def max_err_def
  by (cases "pd_err p"; cases "sa_here (sp_maxTS sp)";
      cases "sa_here (sp_locals sp) \<or> sa_here (sp_remotes sp)")
    (simp_all add: Let_def split_beta sample_lookup_eq maxTimestamp_eq)

lemma grows_build_partition [simp]: "grows ts (snd (build_partition kc topic sp p ts))"
proof -
  have "grows ts (case pd_err p of None \<Rightarrow> ts
      | Some e \<Rightarrow> upd_of Starts (recordPartition kc ''Metadata'' topic (pd_partition p) e) ts)"
    by (cases "pd_err p") (simp_all add: grows_upd del: upd_of.simps)
  then show ?thesis
    unfolding build_partition_snd Let_def by (intro grows_record_opt_trans)
qed

lemma grows_build_partitions [simp]: "grows ts (snd (build_partitions kc topic sp ps ts))"
proof (induction ps arbitrary: ts)
  case (Cons p ps)
  show ?case
    using grows_trans [OF grows_build_partition Cons.IH] by (simp add: split_beta Let_def)
qed simp

lemma grows_buildTopic [simp]: "grows ts (snd (buildTopic kc td sp ts))"
proof -
  let ?ts1 = "case td_err td of None \<Rightarrow> ts
      | Some e \<Rightarrow> upd_of Starts (recordTopic kc ''Metadata'' (td_topic td) e) ts"
  have "grows ts ?ts1" by (cases "td_err td") (simp_all add: grows_upd del: upd_of.simps)
  moreover have "snd (buildTopic kc td sp ts) =
      snd (build_partitions kc (td_topic td) (entered_all (td_topic td) sp) (td_partitions td)
        (snd (enter_all kc (td_topic td) sp ?ts1)))"
    by (cases "td_err td") (simp_all add: buildTopic_def split_beta Let_def)
  ultimately show ?thesis
    by (simp only: grows_trans [OF grows_trans [OF _ grows_enter_all] grows_build_partitions])
qed

lemma grows_buildTopics [simp]: "grows ts (snd (buildTopics kc tds sp ts))"
proof (induction tds arbitrary: ts)
  case (Cons td tds)
  show ?case
    using grows_trans [OF grows_buildTopic Cons.IH] by (simp add: split_beta Let_def)
qed simp

subsection \<open>An ok section has no holes\<close>

definition core_sample :: "flavour \<Rightarrow> samples \<Rightarrow> offset_sample" where
  "core_sample fl sp =
     (case fl of Starts \<Rightarrow> sp_starts sp | Lso \<Rightarrow> sp_lsos sp | Ends \<Rightarrow> sp_ends sp
      | MaxTS \<Rightarrow> sp_maxTS sp | Locals \<Rightarrow> sp_locals sp | Remotes \<Rightarrow> sp_remotes sp)"

definition samples_wf :: "samples \<Rightarrow> bool" where
  "samples_wf sp \<longleftrightarrow> (\<forall>fl. sa_sec (core_sample fl sp) = fl)"

lemma record_opt_OK:
  assumes "s_status (sec_of (sa_sec s) (record_opt kc s topic pid err ts)) = SectionOK"
  shows "err = None"
  using assms by (auto simp: record_opt_def sec_of_upd_of status_order split: option.splits if_splits)

lemma core_sample_simps [simp]:
  "core_sample Starts sp = sp_starts sp" "core_sample Lso sp = sp_lsos sp"
  "core_sample Ends sp = sp_ends sp" "core_sample MaxTS sp = sp_maxTS sp"
  "core_sample Locals sp = sp_locals sp" "core_sample Remotes sp = sp_remotes sp"
  by (simp_all add: core_sample_def)

lemma build_partition_OK:
  assumes "samples_wf sp" "fl \<noteq> MaxTS"
    and "s_status (sec_of fl (snd (build_partition kc topic sp p ts))) = SectionOK"
  shows "look_err (core_sample fl sp) topic (pd_partition p) = None"
proof -
  let ?pid = "pd_partition p"
  let ?rec = "\<lambda>s. record_opt kc s topic ?pid (look_err s topic ?pid)"
  have sec: "sa_sec (core_sample fl sp) = fl" using assms(1) by (simp add: samples_wf_def)
  define ts1 where "ts1 = (case pd_err p of None \<Rightarrow> ts
    | Some e \<Rightarrow> upd_of Starts (recordPartition kc ''Metadata'' topic ?pid e) ts)"
  define ts3 where "ts3 = ?rec (sp_lsos sp) (?rec (sp_starts sp) ts1)"
  define ts5 where "ts5 = record_opt kc (sp_maxTS sp) topic ?pid (max_err (sp_maxTS sp) topic ?pid)
    (?rec (sp_ends sp) ts3)"
  have last: "snd (build_partition kc topic sp p ts) = ?rec (sp_remotes sp) (?rec (sp_locals sp) ts5)"
    unfolding build_partition_snd Let_def ts5_def ts3_def ts1_def ..
  have tail: "grows (?rec (sp_ends sp) ts3) (snd (build_partition kc topic sp p ts))"
    unfolding last ts5_def by (intro grows_record_opt_trans grows_refl)
  consider "fl = Starts" | "fl = Lso" | "fl = Ends" | "fl = Locals" | "fl = Remotes"
    using assms(2) by (cases fl) auto
  then obtain ts0 where
    "grows (?rec (core_sample fl sp) ts0) (snd (build_partition kc topic sp p ts))"
  proof cases
    case 1
    have "grows (?rec (sp_starts sp) ts1) (?rec (sp_ends sp) ts3)"
      unfolding ts3_def by (intro grows_record_opt_trans grows_refl)
    with 1 that show ?thesis using grows_trans [OF _ tail] by force
  next
    case 2
    have "grows (?rec (sp_lsos sp) (?rec (sp_starts sp) ts1)) (?rec (sp_ends sp) ts3)"
      unfolding ts3_def by (intro grows_record_opt_trans grows_refl)
    with 2 that show ?thesis using grows_trans [OF _ tail] by force
  next
    case 3
    with that tail show ?thesis by force
  next
    case 4
    have "grows (?rec (sp_locals sp) ts5) (snd (build_partition kc topic sp p ts))"
      unfolding last by (rule grows_record_opt)
    with 4 that show ?thesis by force
  next
    case 5
    then show ?thesis using that [of "?rec (sp_locals sp) ts5"] last by simp
  qed
  from grows_OK [OF this assms(3)] sec show ?thesis
    using record_opt_OK [of "core_sample fl sp"] by metis
qed

lemma build_partitions_OK:
  assumes "samples_wf sp" "fl \<noteq> MaxTS"
    and "s_status (sec_of fl (snd (build_partitions kc topic sp ps ts))) = SectionOK" "p \<in> set ps"
  shows "look_err (core_sample fl sp) topic (pd_partition p) = None"
  using assms(3,4)
proof (induction ps arbitrary: ts)
  case (Cons q ps)
  let ?ts = "snd (build_partition kc topic sp q ts)"
  have ok: "s_status (sec_of fl (snd (build_partitions kc topic sp ps ?ts))) = SectionOK"
    using Cons.prems(1) by (simp add: split_beta Let_def)
  with grows_OK [OF grows_build_partitions] have "s_status (sec_of fl ?ts) = SectionOK" by blast
  with build_partition_OK [OF assms(1,2)] Cons.IH [OF ok] Cons.prems(2) show ?case by auto
qed simp

lemma enter_OK:
  assumes "s_status (sec_of (sa_sec s) (snd (enter kc topic s ts))) = SectionOK" "sa_ok s"
  shows "sa_here (entered topic s)"
  using assms by (auto simp: enter_def topicListed_def entered_def sec_of_upd_of status_order
      split: if_splits)

lemma enter_all_OK:
  assumes "samples_wf sp" "fl \<noteq> MaxTS" "sa_ok (core_sample fl sp)"
    and "s_status (sec_of fl (snd (enter_all kc topic sp ts))) = SectionOK"
  shows "sa_here (entered topic (core_sample fl sp))"
proof -
  have sec: "sa_sec (core_sample fl sp) = fl" using assms(1) by (simp add: samples_wf_def)
  note tr = grows_enter_trans
  let ?t1 = "snd (enter kc topic (sp_starts sp) ts)"
  let ?t2 = "snd (enter kc topic (sp_lsos sp) ?t1)"
  have all: "snd (enter_all kc topic sp ts) =
      snd (enter kc topic (sp_remotes sp) (snd (enter kc topic (sp_locals sp)
        (snd (enter kc topic (sp_maxTS sp) (snd (enter kc topic (sp_ends sp) ?t2)))))))"
    by (simp add: enter_all_def Let_def split_beta)
  let ?t4 = "snd (enter kc topic (sp_maxTS sp) (snd (enter kc topic (sp_ends sp) ?t2)))"
  consider "fl = Starts" | "fl = Lso" | "fl = Ends" | "fl = Locals" | "fl = Remotes"
    using assms(2) by (cases fl) auto
  then obtain ts0 where
    "grows (snd (enter kc topic (core_sample fl sp) ts0)) (snd (enter_all kc topic sp ts))"
  proof cases
    case 1
    have "grows ?t1 (snd (enter_all kc topic sp ts))"
      unfolding all by (rule tr, rule tr, rule tr, rule tr, rule tr, rule grows_refl)
    with 1 that show ?thesis by force
  next
    case 2
    have "grows ?t2 (snd (enter_all kc topic sp ts))"
      unfolding all by (rule tr, rule tr, rule tr, rule tr, rule grows_refl)
    with 2 that show ?thesis by force
  next
    case 3
    have "grows (snd (enter kc topic (sp_ends sp) ?t2)) (snd (enter_all kc topic sp ts))"
      unfolding all by (rule tr, rule tr, rule tr, rule grows_refl)
    with 3 that show ?thesis by force
  next
    case 4
    have "grows (snd (enter kc topic (sp_locals sp) ?t4)) (snd (enter_all kc topic sp ts))"
      unfolding all by (rule grows_enter)
    with 4 that show ?thesis by force
  next
    case 5
    then show ?thesis using that [of "snd (enter kc topic (sp_locals sp) ?t4)"] all by simp
  qed
  from grows_OK [OF this assms(4)] sec assms(3) show ?thesis
    using enter_OK by metis
qed

lemma entered_all_core [simp]: "core_sample fl (entered_all topic sp) = entered topic (core_sample fl sp)"
  by (cases fl) (simp_all add: entered_all_def)

lemma entered_wf: "samples_wf sp \<Longrightarrow> samples_wf (entered_all topic sp)"
  by (simp add: samples_wf_def entered_def)

lemma buildTopic_OK:
  assumes "samples_wf sp" "fl \<noteq> MaxTS" "sa_ok (core_sample fl sp)"
    and "s_status (sec_of fl (snd (buildTopic kc td sp ts))) = SectionOK" "p \<in> set (td_partitions td)"
  shows "look_val (entered (td_topic td) (core_sample fl sp)) (td_topic td) (pd_partition p) \<noteq> None"
proof -
  let ?sp = "entered_all (td_topic td) sp"
  obtain ts1 where ts1: "snd (buildTopic kc td sp ts) =
      snd (build_partitions kc (td_topic td) ?sp (td_partitions td)
        (snd (enter_all kc (td_topic td) sp ts1)))"
    by (cases "td_err td") (simp_all add: buildTopic_def split_beta Let_def)
  with assms(4) grows_OK [OF grows_build_partitions]
  have "s_status (sec_of fl (snd (enter_all kc (td_topic td) sp ts1))) = SectionOK" by metis
  then have here: "sa_here (core_sample fl ?sp)"
    using enter_all_OK [OF assms(1-3)] by simp
  have "look_err (core_sample fl ?sp) (td_topic td) (pd_partition p) = None"
    using build_partitions_OK [OF entered_wf [OF assms(1)] assms(2)] assms(4,5) ts1 by metis
  with here look_none show ?thesis by (metis entered_all_core)
qed

lemma buildTopics_OK:
  assumes "samples_wf sp" "fl \<noteq> MaxTS" "sa_ok (core_sample fl sp)"
    and "s_status (sec_of fl (snd (buildTopics kc tds sp ts))) = SectionOK"
    and "td \<in> set tds" "p \<in> set (td_partitions td)"
  shows "look_val (entered (td_topic td) (core_sample fl sp)) (td_topic td) (pd_partition p) \<noteq> None"
  using assms(4,5)
proof (induction tds arbitrary: ts)
  case (Cons x tds)
  let ?ts = "snd (buildTopic kc x sp ts)"
  have ok: "s_status (sec_of fl (snd (buildTopics kc tds sp ?ts))) = SectionOK"
    using Cons.prems(1) by (simp add: split_beta Let_def)
  with grows_OK [OF grows_buildTopics] have "s_status (sec_of fl ?ts) = SectionOK" by blast
  with buildTopic_OK [OF assms(1-3) _ assms(6)] Cons.IH [OF ok] Cons.prems(2) show ?case
    using assms(6) by auto
qed simp


subsection \<open>The phase in closed form\<close>

definition mk_sample :: "string \<Rightarrow> flavour \<Rightarrow> listed_offsets \<times> bool \<times> 'b \<Rightarrow> offset_sample" where
  "mk_sample api fl r =
     \<lparr>sa_api = api, sa_sec = fl, sa_listed = fst r, sa_ok = fst (snd r), sa_here = False\<rparr>"

definition run_starts :: "collector \<Rightarrow> list_client \<Rightarrow> string list \<Rightarrow> listed_offsets \<times> bool \<times> sect" where
  "run_starts c cl names =
     (let (listed, err) = li_start cl names;
          (ok, sec) = requestPartial (cn_codes c) ''ListStartOffsets'' err (length listed > 0)
            (newSection c ''topics'')
      in (listed, ok, sec))"

definition run_flavour ::
    "flavour \<Rightarrow> collector \<Rightarrow> list_client \<Rightarrow> bool \<Rightarrow> string list \<Rightarrow>
     listed_offsets \<times> bool \<times> sect \<times> issued" where
  "run_flavour fl c cl runMaxTS names =
     (case fl of
        Starts \<Rightarrow> (let (l, ok, s) = run_starts c cl names in (l, ok, s, [(''ListStartOffsets'', names)]))
      | Lso \<Rightarrow> list_sample c ''topics_lso'' ''ListCommittedOffsets''
                 (op_last_stable (cn_opts c)) (li_committed cl) names
      | Ends \<Rightarrow> list_sample c ''topics_end'' ''ListEndOffsets'' True (li_end cl) names
      | MaxTS \<Rightarrow> list_sample c ''topics_max_timestamp'' ''ListMaxTimestampOffsets'' runMaxTS
                   (li_max_timestamp cl) names
      | Locals \<Rightarrow> list_sample c ''topics_local_start'' ''ListLocalLogStartOffsets''
                    (op_tiered (cn_opts c)) (li_local_start cl) names
      | Remotes \<Rightarrow> list_sample c ''topics_remote_end'' ''ListLatestRemoteOffsets''
                     (op_tiered (cn_opts c) \<and> op_latest_tiered (cn_opts c)) (li_remote_end cl) names)"

definition flavour_api :: "flavour \<Rightarrow> string" where
  "flavour_api fl =
     (case fl of Starts \<Rightarrow> ''ListStartOffsets'' | Lso \<Rightarrow> ''ListCommittedOffsets''
      | Ends \<Rightarrow> ''ListEndOffsets'' | MaxTS \<Rightarrow> ''ListMaxTimestampOffsets''
      | Locals \<Rightarrow> ''ListLocalLogStartOffsets'' | Remotes \<Rightarrow> ''ListLatestRemoteOffsets'')"

definition flavour_section :: "flavour \<Rightarrow> string" where
  "flavour_section fl =
     (case fl of Starts \<Rightarrow> ''topics'' | Lso \<Rightarrow> ''topics_lso'' | Ends \<Rightarrow> ''topics_end''
      | MaxTS \<Rightarrow> ''topics_max_timestamp'' | Locals \<Rightarrow> ''topics_local_start''
      | Remotes \<Rightarrow> ''topics_remote_end'')"

definition the_samples :: "collector \<Rightarrow> list_client \<Rightarrow> bool \<Rightarrow> string list \<Rightarrow> samples" where
  "the_samples c cl r names =
     (let mk = (\<lambda>fl. mk_sample (flavour_api fl) fl (run_flavour fl c cl r names))
      in \<lparr>sp_starts = mk Starts, sp_lsos = mk Lso, sp_ends = mk Ends, sp_maxTS = mk MaxTS,
          sp_locals = mk Locals, sp_remotes = mk Remotes\<rparr>)"

definition the_sections :: "collector \<Rightarrow> list_client \<Rightarrow> bool \<Rightarrow> string list \<Rightarrow> topic_sections" where
  "the_sections c cl r names =
     (let sec = (\<lambda>fl. fst (snd (snd (run_flavour fl c cl r names))))
      in \<lparr>ts_starts = sec Starts, ts_lso = sec Lso, ts_end = sec Ends, ts_maxTS = sec MaxTS,
          ts_local = sec Locals, ts_remote = sec Remotes\<rparr>)"

definition the_issued :: "collector \<Rightarrow> list_client \<Rightarrow> bool \<Rightarrow> string list \<Rightarrow> issued" where
  "the_issued c cl r names =
     concat (map (\<lambda>fl. snd (snd (snd (run_flavour fl c cl r names))))
       [Starts, Lso, Ends, MaxTS, Locals, Remotes])"

lemmas run_defs = run_flavour_def run_starts_def mk_sample_def flavour_api_def

lemma collectTopics_eq:
  assumes "selected c (Some l) \<noteq> []"
  shows "collectTopics c cl (Some l) r =
    (let sel = selected c (Some l); names = map td_topic sel; sp = the_samples c cl r names;
         ts = snd (buildTopics (cn_codes c) sel sp (the_sections c cl r names))
     in (map (topic_of sp) sel, ts\<lparr>ts_starts := stopSection c (ts_starts ts)\<rparr>,
         the_issued c cl r names))"
  using assms
  by (simp add: collectTopics_def selected_def Let_def split_beta the_samples_def the_sections_def
      the_issued_def run_defs buildTopics_fst)

lemma collectTopics_empty:
  assumes "selected c tds = []"
  shows "fst (collectTopics c cl tds r) = [] \<and> snd (snd (collectTopics c cl tds r)) = []"
  using assms by (cases tds) (auto simp: collectTopics_def selected_def Let_def)

lemma the_samples_core: "core_sample fl (the_samples c cl r names) =
    mk_sample (flavour_api fl) fl (run_flavour fl c cl r names)"
  by (cases fl) (simp_all add: the_samples_def Let_def)

lemma the_samples_wf: "samples_wf (the_samples c cl r names)"
  by (simp add: samples_wf_def the_samples_core mk_sample_def)

lemma the_sections_of:
  "sec_of fl (the_sections c cl r names) = fst (snd (snd (run_flavour fl c cl r names)))"
  by (cases fl) (simp_all add: the_sections_def Let_def)

lemma requestPartial_OK:
  assumes "s_status (snd (requestPartial kc api err g s)) = SectionOK"
  shows "request_usable err"
proof (rule ccontr)
  assume "\<not> request_usable err"
  then have "SectionFailed \<le> request_status kc err"
    by (auto simp: request_usable_def request_status_def less_eq_section_status_def
        split: option.splits prod.splits)
  with \<open>\<not> request_usable err\<close> assms show False
    by (cases "s_status s"; cases "request_status kc err")
      (auto simp: requestPartial_status status_order split: if_splits)
qed

lemma run_flavour_OK:
  assumes "s_status (fst (snd (snd (run_flavour fl c cl r names)))) = SectionOK"
  shows "fst (snd (run_flavour fl c cl r names))"
proof -
  have ls: "fst (snd (list_sample c name api en call names))"
    if "s_status (fst (snd (snd (list_sample c name api en call names)))) = SectionOK"
    for name api en call
    using that requestPartial_OK [of "cn_codes c" api "snd (call names)"]
    by (auto simp: list_sample_def Let_def split_beta status_order split: if_splits)
  have st: "fst (snd (run_starts c cl names))"
    if "s_status (snd (snd (run_starts c cl names))) = SectionOK"
    using that requestPartial_OK [of "cn_codes c" "''ListStartOffsets''" "snd (li_start cl names)"]
    by (auto simp: run_starts_def Let_def split_beta)
  show ?thesis
    using assms ls st by (cases fl) (auto simp: run_flavour_def split_beta Let_def)
qed

lemma list_sample_section:
  "phase_section name (fst (snd (snd (list_sample c name api en call names))))"
  by (auto simp: list_sample_def Let_def split_beta intro!: phase_sectionI [where c = c])

lemma run_flavour_section:
  "phase_section (flavour_section fl) (fst (snd (snd (run_flavour fl c cl r names))))"
  by (cases fl) (auto simp: run_flavour_def flavour_section_def list_sample_section run_starts_def
      Let_def split_beta intro!: phase_sectionI [where c = c])

lemma list_sample_issued:
  "snd (snd (snd (list_sample c name api en call names))) = (if en then [(api, names)] else [])"
  by (simp add: list_sample_def Let_def split_beta)

lemma run_flavour_issued:
  "snd (snd (snd (run_flavour fl c cl r names))) \<in> {[], [(flavour_api fl, names)]}"
  by (cases fl) (simp_all add: run_flavour_def flavour_api_def list_sample_issued Let_def split_beta)

lemma the_issued_names:
  assumes "q \<in> set (the_issued c cl r names)"
  shows "snd q = names"
proof -
  obtain fl where "q \<in> set (snd (snd (snd (run_flavour fl c cl r names))))"
    using assms by (auto simp: the_issued_def)
  with run_flavour_issued [of fl c cl r names] show ?thesis by auto
qed

lemma topic_offsets_nonneg:
  assumes "p \<in> set (t_partitions (topic_of sp td))"
  shows "nonneg_opt (p_start_offset p) \<and> nonneg_opt (p_last_stable_offset p) \<and>
    nonneg_opt (p_end_offset p) \<and>
    (\<forall>m. p_max_timestamp p = Some m \<longrightarrow> nonneg_opt (mt_offset m) \<and> nonneg_opt (mt_timestamp_ms m)) \<and>
    (\<forall>m. p_tiered p = Some m \<longrightarrow> nonneg_opt (ti_local_start m) \<and> nonneg_opt (ti_remote_end m))"
proof -
  obtain q sp' where p: "p = partition_of (td_topic td) sp' q"
    using assms by (auto simp: topic_of_def)
  have "nonneg_opt (mt_offset m) \<and> nonneg_opt (mt_timestamp_ms m)"
    if "max_val s topic pid = Some m" for s topic pid m
    using that by (auto simp: max_val_def split: option.splits if_splits)
  then show ?thesis unfolding p by (simp add: partition_of_def Let_def)
qed

subsection \<open>Properties\<close>

text \<open>
  C18: the topics phase ships exactly the topics that survive the internal-topic rule and the
  filter, in the client's sorted order, each with all its partitions: the partition count is the
  length of the list, the ids are metadata's, and no offset or timestamp on the wire is ever
  negative, whatever the brokers answered.
\<close>

theorem collectTopics_rows:
  "map (\<lambda>t. (t_name t, map p_id (t_partitions t))) (fst (collectTopics c cl tds r)) =
     map (\<lambda>td. (td_topic td, map pd_partition (td_partitions td))) (selected c tds) \<and>
   (\<forall>t \<in> set (fst (collectTopics c cl tds r)).
      t_partition_count t = length (t_partitions t) \<and>
      (\<forall>p \<in> set (t_partitions t).
         nonneg_opt (p_start_offset p) \<and> nonneg_opt (p_last_stable_offset p) \<and>
         nonneg_opt (p_end_offset p) \<and>
         (\<forall>m. p_max_timestamp p = Some m \<longrightarrow>
            nonneg_opt (mt_offset m) \<and> nonneg_opt (mt_timestamp_ms m)) \<and>
         (\<forall>m. p_tiered p = Some m \<longrightarrow>
            nonneg_opt (ti_local_start m) \<and> nonneg_opt (ti_remote_end m))))"
proof (cases "selected c tds = []")
  case True
  with collectTopics_empty [OF True, of cl r] show ?thesis by simp
next
  case False
  then obtain l where tds: "tds = Some l" by (cases tds) (auto simp: selected_def)
  let ?sp = "the_samples c cl r (map td_topic (selected c tds))"
  have rows: "fst (collectTopics c cl tds r) = map (topic_of ?sp) (selected c tds)"
    using collectTopics_eq False tds by (simp add: Let_def)
  have "map (\<lambda>t. (t_name t, map p_id (t_partitions t))) (map (topic_of ?sp) (selected c tds)) =
      map (\<lambda>td. (td_topic td, map pd_partition (td_partitions td))) (selected c tds)"
    by (simp add: topic_of_def partition_of_def Let_def)
  moreover have "\<forall>t \<in> set (map (topic_of ?sp) (selected c tds)).
      t_partition_count t = length (t_partitions t)"
    by (auto simp: topic_of_def)
  ultimately show ?thesis
    unfolding rows by (simp add: topic_offsets_nonneg del: nonneg_opt_simps)
qed

text \<open>
  C11: for the five listings that answer with an offset, a null and an ok section never meet: if
  the section of the start offsets, the last stable offsets, the high watermarks, the local start
  offsets or the remote end offsets reports ok, then every partition of every topic shipped carries
  that offset, so a consumer of the batch never mistakes an unreachable leader for an empty
  partition. The sixth listing is deliberately not claimed: a record without a maximum timestamp
  is answered -1, which ships as null beside an ok section.
\<close>

theorem collectTopics_no_holes:
  assumes "t \<in> set (fst (collectTopics c cl tds r))" "p \<in> set (t_partitions t)"
  shows "(s_status (ts_starts (fst (snd (collectTopics c cl tds r)))) = SectionOK \<longrightarrow>
      p_start_offset p \<noteq> None) \<and>
    (s_status (ts_lso (fst (snd (collectTopics c cl tds r)))) = SectionOK \<longrightarrow>
      p_last_stable_offset p \<noteq> None) \<and>
    (s_status (ts_end (fst (snd (collectTopics c cl tds r)))) = SectionOK \<longrightarrow>
      p_end_offset p \<noteq> None) \<and>
    (s_status (ts_local (fst (snd (collectTopics c cl tds r)))) = SectionOK \<longrightarrow>
      Option.bind (p_tiered p) ti_local_start \<noteq> None) \<and>
    (s_status (ts_remote (fst (snd (collectTopics c cl tds r)))) = SectionOK \<longrightarrow>
      Option.bind (p_tiered p) ti_remote_end \<noteq> None)"
proof -
  have ne: "selected c tds \<noteq> []" using assms(1) collectTopics_empty by (metis empty_iff empty_set)
  then obtain l where tds: "tds = Some l" by (cases tds) (auto simp: selected_def)
  let ?names = "map td_topic (selected c tds)"
  let ?sp = "the_samples c cl r ?names"
  let ?ts = "snd (buildTopics (cn_codes c) (selected c tds) ?sp (the_sections c cl r ?names))"
  have eq: "fst (collectTopics c cl tds r) = map (topic_of ?sp) (selected c tds)"
    "fst (snd (collectTopics c cl tds r)) = ?ts\<lparr>ts_starts := stopSection c (ts_starts ?ts)\<rparr>"
    using collectTopics_eq ne tds by (simp_all add: Let_def)
  from assms eq(1) obtain td where td: "td \<in> set (selected c tds)" "t = topic_of ?sp td" by auto
  with assms(2) obtain q where q: "q \<in> set (td_partitions td)"
    "p = partition_of (td_topic td) (entered_all (td_topic td) ?sp) q"
    by (auto simp: topic_of_def)
  have hole: "look_val (entered (td_topic td) (core_sample fl ?sp)) (td_topic td) (pd_partition q) \<noteq> None"
    if fl: "fl \<noteq> MaxTS" and ok: "s_status (sec_of fl ?ts) = SectionOK" for fl
  proof -
    have "s_status (sec_of fl (the_sections c cl r ?names)) = SectionOK"
      using grows_OK [OF grows_buildTopics ok] .
    then have "sa_ok (core_sample fl ?sp)"
      using run_flavour_OK by (simp add: the_sections_of the_samples_core mk_sample_def)
    from buildTopics_OK [OF the_samples_wf fl this ok td(1) q(1)] show ?thesis .
  qed
  have here: "look_val s topic pid \<noteq> None \<Longrightarrow> sa_here s" for s topic pid
    by (simp add: look_val_def split: if_splits)
  show ?thesis
    using hole [of Starts] hole [of Lso] hole [of Ends] hole [of Locals] hole [of Remotes] here
    by (auto simp: eq(2) q(2) partition_of_def Let_def entered_all_def)
qed

text \<open>
  C17: the requests of the topics phase: none at all when no topic is selected; otherwise every
  request names exactly the selected topics, never the empty list that would mean the whole
  cluster, and they come out in the order start, last stable, end, then the three optional ones,
  with the start and end listings always present.
\<close>

theorem collectTopics_requests:
  "(\<forall>q \<in> set (snd (snd (collectTopics c cl tds r))).
      snd q = map td_topic (selected c tds) \<and> snd q \<noteq> []) \<and>
   subseq (map fst (snd (snd (collectTopics c cl tds r))))
     [''ListStartOffsets'', ''ListCommittedOffsets'', ''ListEndOffsets'',
      ''ListMaxTimestampOffsets'', ''ListLocalLogStartOffsets'', ''ListLatestRemoteOffsets''] \<and>
   (selected c tds \<noteq> [] \<longrightarrow>
     {''ListStartOffsets'', ''ListEndOffsets''} \<subseteq> fst ` set (snd (snd (collectTopics c cl tds r))))"
proof (cases "selected c tds = []")
  case True
  with collectTopics_empty [OF True, of cl r] show ?thesis by simp
next
  case False
  then obtain l where tds: "tds = Some l" by (cases tds) (auto simp: selected_def)
  let ?names = "map td_topic (selected c tds)"
  have q: "snd (snd (collectTopics c cl tds r)) = the_issued c cl r ?names"
    using collectTopics_eq False tds by (simp add: Let_def)
  have "\<forall>q \<in> set (the_issued c cl r ?names). snd q = ?names"
    using the_issued_names by blast
  moreover have "subseq (map fst (the_issued c cl r ?names))
      (concat (map (\<lambda>fl. [flavour_api fl]) [Starts, Lso, Ends, MaxTS, Locals, Remotes]))"
    unfolding the_issued_def map_concat map_map
  proof (rule subseq_concat_map)
    fix fl
    show "subseq ((map fst \<circ> (\<lambda>fl. snd (snd (snd (run_flavour fl c cl r ?names))))) fl)
        [flavour_api fl]"
      using run_flavour_issued [of fl c cl r ?names] by auto
  qed
  moreover have "(''ListStartOffsets'', ?names) \<in> set (the_issued c cl r ?names)"
    "(''ListEndOffsets'', ?names) \<in> set (the_issued c cl r ?names)"
    by (simp_all add: the_issued_def run_flavour_def list_sample_issued split_beta Let_def)
  then have "{''ListStartOffsets'', ''ListEndOffsets''} \<subseteq> fst ` set (the_issued c cl r ?names)"
    using image_eqI [of "''ListStartOffsets''" fst "(''ListStartOffsets'', ?names)"]
      image_eqI [of "''ListEndOffsets''" fst "(''ListEndOffsets'', ?names)"] by simp
  ultimately show ?thesis
    using False unfolding q by (simp add: flavour_api_def del: subseq_Cons2_iff)
qed

text \<open>On every path the topics phase returns all six sections, each bearing its own name.\<close>

lemma collectTopics_sections:
  "phase_section (flavour_section fl) (sec_of fl (fst (snd (collectTopics c cl tds r))))"
proof (cases "selected c tds = []")
  case True
  have "phase_section name (skippedSection c name)" for name
    by (simp add: skippedSection_def phase_sectionI [where c = c])
  moreover have "phase_section ''topics'' (downgrade SectionSkipped (newSection c ''topics''))"
    by (rule phase_sectionI [where c = c]) simp
  ultimately show ?thesis
    using True by (cases fl; cases tds)
      (auto simp: collectTopics_def selected_def Let_def skipped_sections_def flavour_section_def)
next
  case False
  then obtain l where tds: "tds = Some l" by (cases tds) (auto simp: selected_def)
  let ?names = "map td_topic (selected c tds)"
  let ?init = "the_sections c cl r ?names"
  let ?ts = "snd (buildTopics (cn_codes c) (selected c tds) (the_samples c cl r ?names) ?init)"
  have eq: "fst (snd (collectTopics c cl tds r)) = ?ts\<lparr>ts_starts := stopSection c (ts_starts ?ts)\<rparr>"
    using collectTopics_eq False tds by (simp add: Let_def)
  have "phase_section (flavour_section fl) (sec_of fl ?ts)"
  proof -
    have "grows ?init ?ts" by simp
    then have "sec_ext (sec_of fl ?init) (sec_of fl ?ts)" by (simp add: grows_def worse_def)
    moreover have "phase_section (flavour_section fl) (sec_of fl ?init)"
      by (simp add: the_sections_of run_flavour_section)
    ultimately show ?thesis using phase_section_ext by blast
  qed
  then show ?thesis unfolding eq by (cases fl) simp_all
qed

text \<open>
  The first failure wins a partition's error code: it is the first non-zero code among the
  partition's own metadata error and its start, last stable and end lookups, and it is zero only
  if none of the four carries a broker error code.
\<close>

theorem buildTopic_error_code:
  assumes "p \<in> set (t_partitions (fst (buildTopic kc td sp ts)))"
  shows "\<exists>q \<in> set (td_partitions td). p_id p = pd_partition q \<and>
    p_error_code p =
      (let codes = filter (\<lambda>x. x \<noteq> 0) (map errorCode (pd_err q # map (\<lambda>fl.
          look_err (entered (td_topic td) (core_sample fl sp)) (td_topic td) (pd_partition q))
            [Starts, Lso, Ends]))
       in if codes = [] then 0 else hd codes)"
proof -
  obtain q where q: "q \<in> set (td_partitions td)"
    "p = partition_of (td_topic td) (entered_all (td_topic td) sp) q"
    using assms by (auto simp: buildTopic_fst topic_of_def)
  have fc: "first_code es = (let codes = filter (\<lambda>x. x \<noteq> 0) (map errorCode es)
      in if codes = [] then 0 else hd codes)" for es
    by (induction es) (auto simp: Let_def)
  from q show ?thesis
    by (intro bexI [of _ q])
      (simp_all add: partition_of_def Let_def fc entered_all_def del: first_code.simps)
qed


subsection \<open>A worked cycle\<close>

text \<open>One topic of two partitions; the leader of the second is gone when the watermarks are read.\<close>

definition wit_detail :: topic_detail where
  "wit_detail =
     \<lparr>td_topic = ''orders'', td_id = Some ''id'', td_internal = False,
      td_partitions =
        [\<lparr>pd_partition = 0, pd_leader = 1, pd_leader_epoch = 4, pd_replicas = [1, 2],
          pd_isr = [1, 2], pd_offline = [], pd_err = None\<rparr>,
         \<lparr>pd_partition = 1, pd_leader = 2, pd_leader_epoch = 7, pd_replicas = [2, 1],
          pd_isr = [2], pd_offline = [], pd_err = None\<rparr>],
      td_err = None\<rparr>"

definition wit_not_leader :: goerr where
  "wit_not_leader = GoErr None None (Some 6) False False False ''NOT_LEADER_OR_FOLLOWER''"

definition wit_listed_offset :: "int32 \<Rightarrow> int64 \<Rightarrow> goerr option \<Rightarrow> listed_offset" where
  "wit_listed_offset pid off err =
     \<lparr>lo_topic = ''orders'', lo_partition = pid, lo_timestamp = -1, lo_offset = off,
      lo_leader_epoch = 4, lo_err = err\<rparr>"

definition wit_list :: "int64 \<Rightarrow> goerr option \<Rightarrow> list_call" where
  "wit_list off err names =
     ([(''orders'', [(0, wit_listed_offset 0 off None),
                     (1, wit_listed_offset 1 (if err = None then off else -1) err)])], None)"

definition wit_list_client :: list_client where
  "wit_list_client =
     \<lparr>li_start = wit_list 5 None, li_committed = wit_list 90 None,
      li_end = wit_list 100 (Some wit_not_leader), li_max_timestamp = wit_list 99 None,
      li_local_start = wit_list 5 None, li_remote_end = wit_list 4 None\<rparr>"

abbreviation wit_cycle where
  "wit_cycle \<equiv> collectTopics wit_collector wit_list_client (Some [wit_detail]) True"

lemma wit_selected: "selected wit_collector (Some [wit_detail]) = [wit_detail]"
  by code_simp

lemma wit_cycle_rows:
  "map (\<lambda>t. map (\<lambda>p. (p_start_offset p, p_end_offset p, p_error_code p)) (t_partitions t))
     (fst wit_cycle) = [[(Some 5, Some 100, 0), (Some 5, None, 6)]]"
  by code_simp

lemma wit_cycle_status:
  "s_status (ts_starts (fst (snd wit_cycle))) = SectionOK"
  "s_status (ts_end (fst (snd wit_cycle))) = SectionPartial"
  "s_status (ts_local (fst (snd wit_cycle))) = SectionOK"
  by code_simp+

theorem collectTopics_rows_witness:
  "map (\<lambda>t. (t_name t, map p_id (t_partitions t))) (fst wit_cycle) = [(''orders'', [0, 1])]"
  using collectTopics_rows [of wit_collector wit_list_client "Some [wit_detail]" True]
  by (simp add: wit_selected) (simp add: wit_detail_def)

theorem collectTopics_no_holes_witness:
  "p_start_offset (t_partitions (fst wit_cycle ! 0) ! 1) \<noteq> None \<and>
   Option.bind (p_tiered (t_partitions (fst wit_cycle ! 0) ! 1)) ti_local_start \<noteq> None \<and>
   p_end_offset (t_partitions (fst wit_cycle ! 0) ! 1) = None \<and>
   s_status (ts_end (fst (snd wit_cycle))) = SectionPartial"
proof -
  have l: "length (fst wit_cycle) = 1" using arg_cong [OF wit_cycle_rows, of length] by simp
  then have t: "fst wit_cycle ! 0 \<in> set (fst wit_cycle)" by simp
  obtain t where "fst wit_cycle = [t]" using l by (auto simp: length_Suc_conv)
  with wit_cycle_rows have "length (t_partitions (fst wit_cycle ! 0)) = 2"
    and e: "p_end_offset (t_partitions (fst wit_cycle ! 0) ! 1) = None"
    by (auto simp: length_Suc_conv)
  then have p: "t_partitions (fst wit_cycle ! 0) ! 1 \<in> set (t_partitions (fst wit_cycle ! 0))" by simp
  from collectTopics_no_holes [OF t p] e show ?thesis by (simp add: wit_cycle_status)
qed

theorem collectTopics_requests_witness:
  "{''ListStartOffsets'', ''ListEndOffsets''} \<subseteq> fst ` set (snd (snd wit_cycle)) \<and>
   set (map snd (snd (snd wit_cycle))) \<subseteq> {[''orders'']}"
proof -
  have n: "td_topic wit_detail = ''orders''" by (simp add: wit_detail_def)
  from collectTopics_requests [of wit_collector wit_list_client "Some [wit_detail]" True]
  show ?thesis by (auto simp: wit_selected n)
qed

definition wit_sample :: "string \<Rightarrow> flavour \<Rightarrow> list_call \<Rightarrow> offset_sample" where
  "wit_sample api fl call =
     \<lparr>sa_api = api, sa_sec = fl, sa_listed = fst (call [''orders'']), sa_ok = True, sa_here = False\<rparr>"

definition wit_samples :: samples where
  "wit_samples =
     \<lparr>sp_starts = wit_sample ''ListStartOffsets'' Starts (wit_list 5 None),
      sp_lsos = wit_sample ''ListCommittedOffsets'' Lso (wit_list 90 None),
      sp_ends = wit_sample ''ListEndOffsets'' Ends (wit_list 100 (Some wit_not_leader)),
      sp_maxTS = wit_sample ''ListMaxTimestampOffsets'' MaxTS (wit_list 99 None),
      sp_locals = wit_sample ''ListLocalLogStartOffsets'' Locals (wit_list 5 None),
      sp_remotes = wit_sample ''ListLatestRemoteOffsets'' Remotes (wit_list 4 None)\<rparr>"

definition wit_topic_sections :: topic_sections where
  "wit_topic_sections =
     \<lparr>ts_starts = newSection wit_collector ''topics'', ts_lso = newSection wit_collector ''topics_lso'',
      ts_end = newSection wit_collector ''topics_end'',
      ts_maxTS = newSection wit_collector ''topics_max_timestamp'',
      ts_local = newSection wit_collector ''topics_local_start'',
      ts_remote = newSection wit_collector ''topics_remote_end''\<rparr>"

theorem buildTopic_error_code_witness:
  "\<exists>q \<in> set (td_partitions wit_detail).
     p_id (t_partitions (fst (buildTopic wit_codes wit_detail wit_samples wit_topic_sections)) ! 1) =
       pd_partition q"
proof -
  let ?t = "fst (buildTopic wit_codes wit_detail wit_samples wit_topic_sections)"
  have "length (t_partitions ?t) = 2" by code_simp
  then have p: "t_partitions ?t ! 1 \<in> set (t_partitions ?t)" by simp
  from buildTopic_error_code [OF p] show ?thesis by blast
qed

end
