(* ===== verification/Window.thy ===== *)
theory Window
  imports Topics_Props
begin

text \<open>
  \<open>src/internal/collector/throughput.go\<close>: the throughput window, asked before the high watermarks
  are listed and attached to the partitions after they exist.

  A \<open>*windowSample\<close> holds the listing and a pointer to the phase's section. The model keeps the
  listing (\<open>None\<close> for the nil sample) and threads the section through \<open>attach\<close>.
\<close>

subsection \<open>The code\<close>

definition windowAPI :: string where "windowAPI = ''ListOffsetsAfterMilli''"

definition defaultWindowWidth :: duration where "defaultWindowWidth = 5 * minute"

text \<open>\<open>Time.UnixMilli\<close> rounds down.\<close>

definition throughputWindow :: "gotime \<Rightarrow> duration \<Rightarrow> throughput_window" where
  "throughputWindow at width0 =
     (let width = (if width0 \<le> 0 then defaultWindowWidth else width0)
      in \<lparr>tw_requested_ms = (at - width) div 1000000, tw_width_ms = milliseconds width\<rparr>)"

type_synonym window_call = "int64 \<Rightarrow> string list \<Rightarrow> listed_offsets \<times> goerr option"

definition collectThroughputWindow ::
    "collector \<Rightarrow> window_call \<Rightarrow> gotime \<Rightarrow> topic_details \<Rightarrow> duration \<Rightarrow> bool \<Rightarrow>
     throughput_window option \<times> listed_offsets option \<times> sect \<times> issued" where
  "collectThroughputWindow c call now tds width run =
     (let sec = newSection c ''topics_window'';
          skip = (None, None, stopSection c (downgrade SectionSkipped sec), [])
      in if \<not> run then skip
         else case tds of
           None \<Rightarrow> skip
         | Some l \<Rightarrow>
             (let sel = selectTopics l (cn_topics c) (op_include_internal (cn_opts c))
              in if length sel = 0 then skip
                 else let names = map td_topic sel;
                          window = throughputWindow now width;
                          (listed, err) = call (tw_requested_ms window) names;
                          (ok, sec1) =
                            requestPartial (cn_codes c) windowAPI err (length listed > 0) sec
                      in (Some window, if ok then Some listed else None, stopSection c sec1,
                          [(windowAPI, names)])))"

definition windowOffset ::
    "kerr_codes \<Rightarrow> string \<Rightarrow> listed_offset \<Rightarrow> sect \<Rightarrow> window_offset \<times> sect" where
  "windowOffset kc topic o' sec =
     (let win = \<lparr>wo_offset = None, wo_timestamp_ms = None, wo_leader_epoch = lo_leader_epoch o',
                 wo_error_code = errorCode (lo_err o')\<rparr>
      in case lo_err o' of
           Some e \<Rightarrow> (win, recordPartition kc windowAPI topic (lo_partition o') e sec)
         | None \<Rightarrow>
             (let win1 = win\<lparr>wo_offset := nullableOffset (lo_offset o') None,
                             wo_timestamp_ms := nullableOffset (lo_timestamp o') None\<rparr>
              in (win1,
                  if wo_offset win1 = None
                  then recordPartition kc windowAPI topic (lo_partition o') errNegativeOffset sec
                  else sec)))"

fun attachPartitions ::
    "kerr_codes \<Rightarrow> string \<Rightarrow> (int32 \<times> listed_offset) list \<Rightarrow> partition_metrics list \<Rightarrow> sect \<Rightarrow>
     partition_metrics list \<times> sect" where
  "attachPartitions kc topic parts [] sec = ([], sec)"
| "attachPartitions kc topic parts (p # ps) sec =
     (case map_of parts (p_id p) of
        None \<Rightarrow>
          (let (rest, sec2) = attachPartitions kc topic parts ps
                 (recordPartition kc windowAPI topic (p_id p) errNotListed sec)
           in (p # rest, sec2))
      | Some o' \<Rightarrow>
          (let (win, sec1) = windowOffset kc topic o' sec;
               (rest, sec2) = attachPartitions kc topic parts ps sec1
           in (p\<lparr>p_window := Some win\<rparr> # rest, sec2)))"

definition attachTopic ::
    "kerr_codes \<Rightarrow> listed_offsets \<Rightarrow> topic_metrics \<Rightarrow> sect \<Rightarrow> topic_metrics \<times> sect" where
  "attachTopic kc listed tm sec =
     (case map_of listed (t_name tm) of
        None \<Rightarrow> (tm, recordTopic kc windowAPI (t_name tm) errTopicNotListed sec)
      | Some parts \<Rightarrow>
          (case Option.bind (map_of parts (-1)) lo_err of
             Some e \<Rightarrow> (tm, recordTopic kc windowAPI (t_name tm) e sec)
           | None \<Rightarrow>
               (let (ps, sec1) = attachPartitions kc (t_name tm) parts (t_partitions tm) sec
                in (tm\<lparr>t_partitions := ps\<rparr>, sec1))))"

fun attachTopics ::
    "kerr_codes \<Rightarrow> listed_offsets \<Rightarrow> topic_metrics list \<Rightarrow> sect \<Rightarrow> topic_metrics list \<times> sect" where
  "attachTopics kc listed [] sec = ([], sec)"
| "attachTopics kc listed (tm # tms) sec =
     (let (tm', sec1) = attachTopic kc listed tm sec;
          (rest, sec2) = attachTopics kc listed tms sec1
      in (tm' # rest, sec2))"

definition attach ::
    "kerr_codes \<Rightarrow> listed_offsets option \<Rightarrow> topic_metrics list \<Rightarrow> sect \<Rightarrow>
     topic_metrics list \<times> sect" where
  "attach kc w topics sec =
     (case w of None \<Rightarrow> (topics, sec) | Some listed \<Rightarrow> attachTopics kc listed topics sec)"

subsection \<open>The request\<close>

lemma collectThroughputWindow_skip:
  "\<not> run \<or> selected c tds = [] \<Longrightarrow>
     collectThroughputWindow c call now tds width run =
       (None, None, stopSection c (downgrade SectionSkipped (newSection c ''topics_window'')), [])"
  by (cases tds) (auto simp: collectThroughputWindow_def selected_def Let_def)

lemma collectThroughputWindow_run:
  assumes "run" "selected c tds \<noteq> []"
  shows "collectThroughputWindow c call now tds width run =
    (let names = map td_topic (selected c tds); window = throughputWindow now width;
         (listed, err) = call (tw_requested_ms window) names;
         (ok, sec1) = requestPartial (cn_codes c) windowAPI err (length listed > 0)
           (newSection c ''topics_window'')
     in (Some window, if ok then Some listed else None, stopSection c sec1, [(windowAPI, names)]))"
  using assms by (cases tds) (simp_all add: collectThroughputWindow_def selected_def Let_def)

lemma collectThroughputWindow_section:
  "phase_section ''topics_window'' (fst (snd (snd (collectThroughputWindow c call now tds width run))))"
proof (cases "run \<and> selected c tds \<noteq> []")
  case True
  then show ?thesis
    by (auto simp: collectThroughputWindow_run Let_def split_beta
        intro!: phase_sectionI [where c = c])
next
  case False
  then show ?thesis
    by (auto simp: collectThroughputWindow_skip intro!: phase_sectionI [where c = c])
qed

subsection \<open>Attaching\<close>

lemma windowOffset_worse [simp]: "worse sec (snd (windowOffset kc topic o' sec))"
  by (auto simp: windowOffset_def Let_def split: option.split)

lemma attachPartitions_worse [simp]: "worse sec (snd (attachPartitions kc topic parts ps sec))"
proof (induction ps arbitrary: sec)
  case (Cons p ps)
  show ?case
    using worse_trans [OF windowOffset_worse Cons.IH] worse_trans [OF worse_record(2) Cons.IH]
    by (auto simp: split_beta Let_def split: option.split)
qed simp

lemma attachTopic_worse [simp]: "worse sec (snd (attachTopic kc listed tm sec))"
  by (auto simp: attachTopic_def split_beta Let_def split: option.split)

lemma attachTopics_worse [simp]: "worse sec (snd (attachTopics kc listed tms sec))"
proof (induction tms arbitrary: sec)
  case (Cons tm tms)
  show ?case using worse_trans [OF attachTopic_worse Cons.IH] by (simp add: split_beta Let_def)
qed simp

lemma attach_worse [simp]: "worse sec (snd (attach kc w topics sec))"
  by (simp add: attach_def split: option.split)

text \<open>Forgetting the windows: \<open>attach\<close> changes nothing else.\<close>

definition no_window :: "topic_metrics \<Rightarrow> topic_metrics" where
  "no_window t = t\<lparr>t_partitions := map (\<lambda>p. p\<lparr>p_window := None\<rparr>) (t_partitions t)\<rparr>"

lemma attachPartitions_frame:
  "map (\<lambda>p. p\<lparr>p_window := None\<rparr>) (fst (attachPartitions kc topic parts ps sec)) =
     map (\<lambda>p. p\<lparr>p_window := None\<rparr>) ps"
  by (induction ps arbitrary: sec) (auto simp: split_beta Let_def split: option.split)

lemma attachTopic_frame: "no_window (fst (attachTopic kc listed tm sec)) = no_window tm"
  by (auto simp: attachTopic_def no_window_def split_beta Let_def attachPartitions_frame
      split: option.split)

lemma attachTopics_frame: "map no_window (fst (attachTopics kc listed tms sec)) = map no_window tms"
  by (induction tms arbitrary: sec) (simp_all add: split_beta Let_def attachTopic_frame)

definition window_wf :: "window_offset \<Rightarrow> bool" where
  "window_wf w \<longleftrightarrow> nonneg_opt (wo_offset w) \<and> nonneg_opt (wo_timestamp_ms w)"

lemma windowOffset_wf [simp]: "window_wf (fst (windowOffset kc topic o' sec))"
  by (auto simp: windowOffset_def window_wf_def Let_def split: option.split)

lemma windowOffset_OK:
  assumes "s_status (snd (windowOffset kc topic o' sec)) = SectionOK"
  shows "wo_offset (fst (windowOffset kc topic o' sec)) \<noteq> None"
  using assms by (auto simp: windowOffset_def Let_def status_order split: option.splits if_splits)

lemma attachPartitions_OK:
  assumes "s_status (snd (attachPartitions kc topic parts ps sec)) = SectionOK"
    and "p \<in> set (fst (attachPartitions kc topic parts ps sec))"
  shows "\<exists>w. p_window p = Some w \<and> window_wf w \<and> wo_offset w \<noteq> None"
  using assms
proof (induction ps arbitrary: sec)
  case (Cons q ps)
  show ?case
  proof (cases "map_of parts (p_id q)")
    case None
    let ?sec = "recordPartition kc windowAPI topic (p_id q) errNotListed sec"
    have "s_status (snd (attachPartitions kc topic parts ps ?sec)) = SectionOK"
      using Cons.prems(1) None by (simp add: split_beta Let_def)
    then have "s_status ?sec = SectionOK" by (rule worse_OK [OF attachPartitions_worse])
    then show ?thesis by (simp add: status_order split: if_splits)
  next
    case (Some o')
    let ?sec = "snd (windowOffset kc topic o' sec)"
    have ok: "s_status (snd (attachPartitions kc topic parts ps ?sec)) = SectionOK"
      using Cons.prems(1) Some by (simp add: split_beta Let_def)
    then have "s_status ?sec = SectionOK" by (rule worse_OK [OF attachPartitions_worse])
    with windowOffset_OK Cons.IH [OF ok] Cons.prems(2) Some show ?thesis
      by (auto simp: split_beta Let_def)
  qed
qed simp

lemma attachTopics_OK:
  assumes "s_status (snd (attachTopics kc listed tms sec)) = SectionOK"
    and "t \<in> set (fst (attachTopics kc listed tms sec))" "p \<in> set (t_partitions t)"
  shows "\<exists>w. p_window p = Some w \<and> window_wf w \<and> wo_offset w \<noteq> None"
  using assms(1,2)
proof (induction tms arbitrary: sec)
  case (Cons tm tms)
  let ?r = "attachTopic kc listed tm sec"
  have ok: "s_status (snd (attachTopics kc listed tms (snd ?r))) = SectionOK"
    using Cons.prems(1) by (simp add: split_beta Let_def)
  then have hd: "s_status (snd ?r) = SectionOK" by (rule worse_OK [OF attachTopics_worse])
  show ?case
  proof (cases "t = fst ?r")
    case True
    with hd assms(3) show ?thesis
      by (auto simp: attachTopic_def split_beta Let_def status_order
          split: option.splits if_splits dest: attachPartitions_OK)
  next
    case False
    with Cons.IH [OF ok] Cons.prems(2) show ?thesis by (auto simp: split_beta Let_def)
  qed
qed simp

subsection \<open>Properties\<close>

text \<open>
  The window phase asks at most one request, of exactly the selected topics and never of the
  whole cluster, for a timestamp strictly in the past: with a positive width the configured one,
  otherwise five minutes.
\<close>

theorem window_request:
  assumes "run" "selected c tds \<noteq> []"
  shows "snd (snd (snd (collectThroughputWindow c call now tds width run))) =
      [(windowAPI, map td_topic (selected c tds))] \<and>
    (\<exists>w. fst (collectThroughputWindow c call now tds width run) = Some w \<and>
      tw_requested_ms w * 1000000 < now \<and>
      tw_width_ms w = (if width \<le> 0 then 300000 else width div 1000000))"
proof -
  let ?w = "throughputWindow now width"
  have width: "(if width \<le> 0 then defaultWindowWidth else width) > 0"
    by (simp add: defaultWindowWidth_def minute_def)
  then have "now - (if width \<le> 0 then defaultWindowWidth else width) < now" by linarith
  moreover have "x div 1000000 * 1000000 \<le> x" for x :: int
    by (simp add: div_times_less_eq_dividend minus_mod_eq_div_mult [symmetric])
  ultimately have "tw_requested_ms ?w * 1000000 < now"
    by (simp add: throughputWindow_def Let_def)
  moreover have "tw_width_ms ?w = (if width \<le> 0 then 300000 else width div 1000000)"
    by (simp add: throughputWindow_def Let_def milliseconds_def go_div_nonneg defaultWindowWidth_def
        minute_def)
  ultimately show ?thesis
    using assms by (simp add: collectThroughputWindow_run Let_def split_beta)
qed

text \<open>
  Attaching the window touches nothing but the partitions' windows, and if the section is
  still ok afterwards every partition of every topic has one, with a non-negative offset; so a
  missing answer is always visible in the section.
\<close>

theorem attach_complete:
  assumes "attach kc (Some listed) topics sec = (topics', sec')"
  shows "map no_window topics' = map no_window topics \<and>
    (s_status sec' = SectionOK \<longrightarrow>
      (\<forall>t \<in> set topics'. \<forall>p \<in> set (t_partitions t).
         \<exists>w. p_window p = Some w \<and> wo_offset w \<noteq> None \<and> nonneg_opt (wo_offset w) \<and>
           nonneg_opt (wo_timestamp_ms w)))"
proof -
  have r: "topics' = fst (attachTopics kc listed topics sec)"
    "sec' = snd (attachTopics kc listed topics sec)"
    using assms by (simp_all add: attach_def)
  show ?thesis
    unfolding r using attachTopics_frame attachTopics_OK [of kc listed topics sec]
    by (fastforce simp: window_wf_def)
qed

subsection \<open>A worked window\<close>

definition wit_window_call :: window_call where
  "wit_window_call ms names = wit_list 40 None names"

theorem window_request_witness:
  "snd (snd (snd (collectThroughputWindow wit_collector wit_window_call 5000000000
     (Some [wit_detail]) 2000000000 True))) = [(windowAPI, [''orders''])]"
proof -
  have "selected wit_collector (Some [wit_detail]) \<noteq> []" by (simp add: wit_selected)
  from window_request [OF TrueI this, of wit_window_call 5000000000 2000000000]
  show ?thesis by (simp add: wit_selected) (simp add: wit_detail_def)
qed

definition wit_window_topic :: topic_metrics where
  "wit_window_topic = topic_of wit_samples wit_detail"

theorem attach_complete_witness:
  "map no_window (fst (attach wit_codes (Some (fst (wit_list 40 None []))) [wit_window_topic]
     (newSection wit_collector ''topics_window''))) = [no_window wit_window_topic] \<and>
   p_window (t_partitions (hd (fst (attach wit_codes (Some (fst (wit_list 40 None [])))
     [wit_window_topic] (newSection wit_collector ''topics_window'')))) ! 1) \<noteq> None"
proof -
  let ?a = "attach wit_codes (Some (fst (wit_list 40 None []))) [wit_window_topic]
     (newSection wit_collector ''topics_window'')"
  have ok: "s_status (snd ?a) = SectionOK" by code_simp
  have "map (\<lambda>t. length (t_partitions t)) (fst ?a) = [2]" by code_simp
  then obtain t where t: "fst ?a = [t]" "length (t_partitions t) = 2" by auto
  have "?a = (fst ?a, snd ?a)" by (rule surjective_pairing)
  note c = attach_complete [OF this]
  have "t_partitions t ! 1 \<in> set (t_partitions t)" using t(2) by simp
  with c ok t(1) show ?thesis by (auto simp del: surjective_pairing)
qed

end
