(* ===== verification/Epochs.thy ===== *)
theory Epochs
  imports Window "HOL-Library.Product_Lexorder"
begin

text \<open>
  \<open>src/internal/collector/truncation.go\<close>: leader-epoch probes. A group's committed epoch that
  differs from the partition's current one is a question; questions are packed into at most four
  requests, and a question a leader has answered is not asked again.

  The suppression set, a Go map measured with \<open>len\<close>, is the list \<open>seen\<close> without repetitions (the
  mutex serialises \<open>answered\<close> and \<open>remember\<close>, which are the transitions). kadm's request
  \<open>map[topic]map[partition]epoch\<close> is an association list keyed by the pair; its response is read
  by topic and partition. \<open>sort.Slice\<close> orders by topic, partition and group; ties, which it may
  order either way, cannot occur between distinct groups.
\<close>

subsection \<open>Questions and answers\<close>

definition maxEpochProbeRounds :: nat where "maxEpochProbeRounds = 4"

definition maxEpochProbesPerCycle :: int where "maxEpochProbesPerCycle = 1024"

definition maxProbedEpochs :: nat where "maxProbedEpochs = 8192"

record epoch_probe_key =
  pk_topic :: string
  pk_topic_id :: string
  pk_partition :: int32
  pk_committed :: int32
  pk_current :: int32

type_synonym probed_epochs = "epoch_probe_key list"

definition answered :: "epoch_probe_key \<Rightarrow> probed_epochs \<Rightarrow> bool" where
  "answered k seen \<longleftrightarrow> k \<in> set seen"

definition remember :: "epoch_probe_key \<Rightarrow> probed_epochs \<Rightarrow> probed_epochs" where
  "remember k seen =
     (let seen1 = (if length seen \<ge> maxProbedEpochs then [] else seen)
      in List.insert k seen1)"

record epoch_answer_row =
  er_node :: int32
  er_leader_epoch :: int32
  er_end_offset :: int64
  er_err :: "goerr option"

type_synonym epoch_response = "((string \<times> int32) \<times> epoch_answer_row) list"

type_synonym epoch_request = "((string \<times> int32) \<times> int32) list"

type_synonym epoch_call = "epoch_request \<Rightarrow> epoch_response \<times> goerr option"

record epoch_answer =
  ea_offset :: "epoch_answer_row option"
  ea_usable :: bool

text \<open>\<open>found\<close> of the source is \<open>ea_offset a \<noteq> None\<close>.\<close>

definition settles :: "epoch_answer \<Rightarrow> bool" where
  "settles a \<longleftrightarrow>
     ea_usable a \<and> (case ea_offset a of None \<Rightarrow> False | Some o' \<Rightarrow> er_err o' = None)"

record epoch_key =
  qk_topic :: string
  qk_partition :: int32
  qk_epoch :: int32

record epoch_trigger =
  et_topic :: string
  et_topic_id :: string
  et_partition :: int32
  et_group :: string
  et_committed_offset :: "int64 option"
  et_committed_epoch :: int32
  et_current_epoch :: int32

definition trigger_key :: "epoch_trigger \<Rightarrow> epoch_key" where
  "trigger_key t =
     \<lparr>qk_topic = et_topic t, qk_partition = et_partition t, qk_epoch = et_committed_epoch t\<rparr>"

definition probeKey :: "epoch_trigger \<Rightarrow> epoch_probe_key" where
  "probeKey t =
     \<lparr>pk_topic = et_topic t, pk_topic_id = et_topic_id t, pk_partition = et_partition t,
      pk_committed = et_committed_epoch t, pk_current = et_current_epoch t\<rparr>"

definition probe :: "kerr_codes \<Rightarrow> epoch_trigger \<Rightarrow> epoch_answer \<Rightarrow> sect \<Rightarrow> epoch_probe \<times> sect" where
  "probe kc t a sec =
     (let p = \<lparr>ep_topic = et_topic t, ep_topic_id = et_topic_id t, ep_partition = et_partition t,
               ep_group_id = et_group t, ep_committed_offset = et_committed_offset t,
               ep_committed_epoch = et_committed_epoch t,
               ep_current_leader_epoch = et_current_epoch t, ep_returned_epoch = None,
               ep_end_offset = None, ep_node_id = None, ep_error_code = 0\<rparr>
      in if \<not> ea_usable a then (p, sec)
         else case ea_offset a of
           None \<Rightarrow>
             (p, recordPartition kc ''OffsetForLeaderEpoch'' (et_topic t) (et_partition t)
                   errEpochNotReturned sec)
         | Some o' \<Rightarrow>
             (let p1 = p\<lparr>ep_node_id := Some (er_node o')\<rparr>
              in case er_err o' of
                   Some e \<Rightarrow>
                     (p1\<lparr>ep_error_code := errorCode (Some e)\<rparr>,
                      recordPartition kc ''OffsetForLeaderEpoch'' (et_topic t) (et_partition t) e sec)
                 | None \<Rightarrow>
                     (p1\<lparr>ep_returned_epoch := Some (er_leader_epoch o'),
                         ep_end_offset := nullableOffset (er_end_offset o') None\<rparr>, sec)))"

subsection \<open>Triggers\<close>

text \<open>\<open>current[topic][partition]\<close>: the topic id and the epoch; a later assignment wins.\<close>

definition current_epoch :: "topic_metrics list \<Rightarrow> string \<Rightarrow> int32 \<Rightarrow> (string \<times> int32) option" where
  "current_epoch topics topic pid =
     Option.bind (map_of (rev (map (\<lambda>t. (t_name t, t)) topics)) topic)
       (\<lambda>t. map_of (rev (map (\<lambda>p. (p_id p, (t_id t, p_leader_epoch p))) (t_partitions t))) pid)"

definition offset_trigger ::
    "topic_metrics list \<Rightarrow> string \<Rightarrow> partition_offset \<Rightarrow> epoch_trigger option" where
  "offset_trigger topics gid o' =
     (if po_offset o' = None \<or> po_leader_epoch o' < 0 then None
      else case current_epoch topics (po_topic o') (po_partition o') of
        None \<Rightarrow> None
      | Some (tid, epoch) \<Rightarrow>
          if epoch < 0 \<or> epoch = po_leader_epoch o' then None
          else Some \<lparr>et_topic = po_topic o', et_topic_id = tid, et_partition = po_partition o',
                     et_group = gid, et_committed_offset = po_offset o',
                     et_committed_epoch = po_leader_epoch o', et_current_epoch = epoch\<rparr>)"

definition raw_triggers :: "topic_metrics list \<Rightarrow> consumer_offset list \<Rightarrow> epoch_trigger list" where
  "raw_triggers topics offsets =
     concat (map (\<lambda>co. List.map_filter (offset_trigger topics (co_group_id co))
       (case co_offsets co of None \<Rightarrow> [] | Some os \<Rightarrow> os)) offsets)"

definition trigger_order :: "epoch_trigger \<Rightarrow> string \<times> int32 \<times> string" where
  "trigger_order t = (et_topic t, et_partition t, et_group t)"

definition epochTriggers ::
    "topic_metrics list \<Rightarrow> consumer_offset list \<Rightarrow> int \<Rightarrow> epoch_trigger list \<times> bool" where
  "epochTriggers topics offsets ceiling =
     (if topics = [] \<or> offsets = [] then ([], False)
      else let triggers = sort_key trigger_order (raw_triggers topics offsets);
               (keep, cut) = capLen (length triggers) ceiling
           in (take keep triggers, cut > 0))"

subsection \<open>Rounds\<close>

record epoch_round =
  rd_req :: epoch_request
  rd_keys :: "epoch_key list"

text \<open>
  Place a question in the first round that does not ask another epoch of its partition; \<open>None\<close>
  when every round does.
\<close>

fun place :: "epoch_key \<Rightarrow> epoch_round list \<Rightarrow> epoch_round list option" where
  "place k [] = None"
| "place k (r # rs) =
     (case map_of (rd_req r) (qk_topic k, qk_partition k) of
        Some e \<Rightarrow>
          if e \<noteq> qk_epoch k then map_option (\<lambda>rs'. r # rs') (place k rs) else Some (r # rs)
      | None \<Rightarrow>
          Some (r\<lparr>rd_req := AList.update (qk_topic k, qk_partition k) (qk_epoch k) (rd_req r),
                  rd_keys := rd_keys r @ [k]\<rparr> # rs))"

definition new_round :: "epoch_key \<Rightarrow> epoch_round" where
  "new_round k = \<lparr>rd_req = [((qk_topic k, qk_partition k), qk_epoch k)], rd_keys = [k]\<rparr>"

fun epochRounds_loop ::
    "epoch_trigger list \<Rightarrow> epoch_round list \<Rightarrow> bool \<Rightarrow> epoch_round list \<times> bool" where
  "epochRounds_loop [] rounds dropped = (rounds, dropped)"
| "epochRounds_loop (t # ts) rounds dropped =
     (case place (trigger_key t) rounds of
        Some rounds' \<Rightarrow> epochRounds_loop ts rounds' dropped
      | None \<Rightarrow>
          if length rounds \<ge> maxEpochProbeRounds then epochRounds_loop ts rounds True
          else epochRounds_loop ts (rounds @ [new_round (trigger_key t)]) dropped)"

definition epochRounds :: "epoch_trigger list \<Rightarrow> epoch_round list \<times> bool" where
  "epochRounds triggers = epochRounds_loop triggers [] False"

subsection \<open>The phase\<close>

type_synonym asked = "epoch_key \<Rightarrow> epoch_answer option"

fun ask_keys :: "epoch_response \<Rightarrow> bool \<Rightarrow> epoch_key list \<Rightarrow> asked \<Rightarrow> asked" where
  "ask_keys resp ok [] asked = asked"
| "ask_keys resp ok (k # ks) asked =
     ask_keys resp ok ks
       (asked(k \<mapsto> \<lparr>ea_offset = map_of resp (qk_topic k, qk_partition k), ea_usable = ok\<rparr>))"

fun ask_rounds ::
    "kerr_codes \<Rightarrow> epoch_call \<Rightarrow> epoch_round list \<Rightarrow> asked \<Rightarrow> sect \<Rightarrow> asked \<times> sect" where
  "ask_rounds kc call [] asked sec = (asked, sec)"
| "ask_rounds kc call (r # rs) asked sec =
     (let (resp, err) = call (rd_req r);
          (ok, sec1) = requestPartial kc ''OffsetForLeaderEpoch'' err (length resp > 0) sec
      in ask_rounds kc call rs (ask_keys resp ok (rd_keys r) asked) sec1)"

fun probe_rows ::
    "kerr_codes \<Rightarrow> asked \<Rightarrow> epoch_trigger list \<Rightarrow> probed_epochs \<Rightarrow> sect \<Rightarrow>
     epoch_probe list \<times> probed_epochs \<times> sect" where
  "probe_rows kc asked [] seen sec = ([], seen, sec)"
| "probe_rows kc asked (t # ts) seen sec =
     (case asked (trigger_key t) of
        None \<Rightarrow> probe_rows kc asked ts seen sec
      | Some a \<Rightarrow>
          (let (p, sec1) = probe kc t a sec;
               seen1 = (if settles a then remember (probeKey t) seen else seen);
               (rest, seen2, sec2) = probe_rows kc asked ts seen1 sec1
           in (p # rest, seen2, sec2)))"

definition collectEpochProbes ::
    "collector \<Rightarrow> epoch_call \<Rightarrow> bool \<Rightarrow> topic_metrics list \<Rightarrow> consumer_offset list \<Rightarrow>
     probed_epochs \<Rightarrow> epoch_probe list \<times> sect \<times> probed_epochs \<times> epoch_request list" where
  "collectEpochProbes c call run topics offsets seen =
     (let kc = cn_codes c; sec = newSection c ''epoch_probes''
      in if \<not> run then ([], stopSection c (downgrade SectionSkipped sec), seen, [])
         else let (triggers, dropped) = epochTriggers topics offsets maxEpochProbesPerCycle;
                  sec1 = (if dropped then sec\<lparr>s_truncated := True\<rparr> else sec);
                  fresh = filter (\<lambda>t. \<not> answered (probeKey t) seen) triggers
              in if fresh = [] then ([], stopSection c (downgrade SectionSkipped sec1), seen, [])
                 else let (rounds, roundDropped) = epochRounds fresh;
                          sec2 = (if roundDropped then sec1\<lparr>s_truncated := True\<rparr> else sec1);
                          (asked, sec3) = ask_rounds kc call rounds (\<lambda>_. None) sec2;
                          (probes, seen', sec4) = probe_rows kc asked fresh seen sec3
                      in (probes, stopSection c sec4, seen', map rd_req rounds))"

end
