(* ===== verification/Epochs_Props.thy ===== *)
theory Epochs_Props
  imports Epochs
begin

text \<open>
  The packing of questions into rounds, what a cycle may and may not retire, and that a settled
  mismatch costs nothing afterwards.
\<close>

subsection \<open>Rounds\<close>

abbreviation key_part :: "epoch_key \<Rightarrow> string \<times> int32" where
  "key_part k \<equiv> (qk_topic k, qk_partition k)"

definition round_ok :: "epoch_round \<Rightarrow> bool" where
  "round_ok r \<longleftrightarrow>
     rd_keys r \<noteq> [] \<and> distinct (rd_keys r) \<and> distinct (map fst (rd_req r)) \<and>
     (\<forall>k. k \<in> set (rd_keys r) \<longleftrightarrow> map_of (rd_req r) (key_part k) = Some (qk_epoch k))"

definition conflicts :: "epoch_round \<Rightarrow> epoch_key \<Rightarrow> bool" where
  "conflicts r k \<longleftrightarrow> (\<exists>e. map_of (rd_req r) (key_part k) = Some e \<and> e \<noteq> qk_epoch k)"

definition rounds_ok :: "epoch_round list \<Rightarrow> bool" where
  "rounds_ok rs \<longleftrightarrow>
     (\<forall>r \<in> set rs. round_ok r) \<and> sorted_wrt (\<lambda>r r'. \<forall>k \<in> set (rd_keys r'). conflicts r k) rs"

definition all_keys :: "epoch_round list \<Rightarrow> epoch_key set" where
  "all_keys rs = (\<Union>r \<in> set rs. set (rd_keys r))"

lemma all_keys_simps [simp]:
  "all_keys [] = {}" "all_keys (r # rs) = set (rd_keys r) \<union> all_keys rs"
  "all_keys (rs @ rs') = all_keys rs \<union> all_keys rs'"
  by (auto simp: all_keys_def)

lemma rounds_ok_simps [simp]:
  "rounds_ok []"
  "rounds_ok (r # rs) \<longleftrightarrow> round_ok r \<and> rounds_ok rs \<and> (\<forall>k \<in> all_keys rs. conflicts r k)"
  by (auto simp: rounds_ok_def all_keys_def)

lemma epoch_key_eq: "key_part k = key_part k' \<Longrightarrow> qk_epoch k = qk_epoch k' \<Longrightarrow> k = k'"
  by (cases k; cases k') simp

lemma round_ok_add:
  assumes "round_ok r" "map_of (rd_req r) (key_part k) = None"
  shows "round_ok (r\<lparr>rd_req := AList.update (key_part k) (qk_epoch k) (rd_req r),
    rd_keys := rd_keys r @ [k]\<rparr>)"
proof -
  have "k \<notin> set (rd_keys r)" using assms by (auto simp: round_ok_def)
  moreover have "(k' \<in> set (rd_keys r) \<or> k' = k) \<longleftrightarrow>
      map_of (AList.update (key_part k) (qk_epoch k) (rd_req r)) (key_part k') = Some (qk_epoch k')"
    for k'
    using assms epoch_key_eq [of k' k] by (auto simp: update_conv' round_ok_def)
  ultimately show ?thesis using assms by (auto simp: round_ok_def distinct_update)
qed

lemma round_ok_new [simp]: "round_ok (new_round k)"
  using epoch_key_eq by (auto simp: round_ok_def new_round_def)

lemma conflicts_add:
  "conflicts r k' \<Longrightarrow> map_of (rd_req r) (key_part k) = None \<Longrightarrow>
     conflicts (r\<lparr>rd_req := AList.update (key_part k) (qk_epoch k) (rd_req r), rd_keys := ks\<rparr>) k'"
  by (auto simp: conflicts_def update_conv')

lemma place_None: "place k rs = None \<Longrightarrow> r \<in> set rs \<Longrightarrow> conflicts r k"
  by (induction rs) (auto simp: conflicts_def split: option.splits if_splits)

lemma place_Some:
  "place k rs = Some rs' \<Longrightarrow> rounds_ok rs \<Longrightarrow>
     rounds_ok rs' \<and> length rs' = length rs \<and> all_keys rs' = insert k (all_keys rs)"
proof (induction rs arbitrary: rs')
  case Nil
  then show ?case by simp
next
  case (Cons r rs)
  show ?case
  proof (cases "map_of (rd_req r) (key_part k)")
    case None
    with Cons.prems have "rs' = r\<lparr>rd_req := AList.update (key_part k) (qk_epoch k) (rd_req r),
        rd_keys := rd_keys r @ [k]\<rparr> # rs" by simp
    with None Cons.prems(2) round_ok_add [of r k] conflicts_add [of r _ k] show ?thesis by auto
  next
    case (Some e)
    show ?thesis
    proof (cases "e = qk_epoch k")
      case True
      with Some Cons.prems have "k \<in> set (rd_keys r)" "rs' = r # rs" by (auto simp: round_ok_def)
      with Cons.prems(2) show ?thesis by auto
    next
      case False
      with Some Cons.prems(1) obtain rs2 where rs2: "place k rs = Some rs2" "rs' = r # rs2" by auto
      have "conflicts r k" using Some False by (simp add: conflicts_def)
      with Cons.IH [OF rs2(1)] Cons.prems(2) rs2(2) show ?thesis by auto
    qed
  qed
qed

lemma rounds_ok_snoc:
  assumes "rounds_ok rs" "place k rs = None"
  shows "rounds_ok (rs @ [new_round k])"
proof -
  have "\<forall>k' \<in> set (rd_keys (new_round k)). conflicts r k'" if "r \<in> set rs" for r
    using place_None [OF assms(2) that] by (simp add: new_round_def)
  with assms(1) show ?thesis by (auto simp: rounds_ok_def sorted_wrt_append)
qed

lemma epochRounds_loop_spec:
  assumes "rounds_ok rs" "length rs \<le> maxEpochProbeRounds"
    and "epochRounds_loop ts rs d = (rs', d')"
  shows "rounds_ok rs' \<and> length rs' \<le> maxEpochProbeRounds \<and>
    all_keys rs \<subseteq> all_keys rs' \<and> all_keys rs' \<subseteq> all_keys rs \<union> trigger_key ` set ts \<and>
    (\<not> d' \<longrightarrow> \<not> d \<and> trigger_key ` set ts \<subseteq> all_keys rs')"
  using assms
proof (induction ts arbitrary: rs d)
  case Nil
  then show ?case by simp
next
  case (Cons t ts)
  show ?case
  proof (cases "place (trigger_key t) rs")
    case (Some rs1)
    note p = place_Some [OF Some Cons.prems(1)]
    from Cons.prems Some have "epochRounds_loop ts rs1 d = (rs', d')" by simp
    from Cons.IH [OF _ _ this] p Cons.prems(2) show ?thesis by auto
  next
    case None
    show ?thesis
    proof (cases "length rs \<ge> maxEpochProbeRounds")
      case True
      with Cons.prems None have "epochRounds_loop ts rs True = (rs', d')" by simp
      from Cons.IH [OF Cons.prems(1,2) this] show ?thesis by auto
    next
      case False
      let ?rs = "rs @ [new_round (trigger_key t)]"
      from False Cons.prems None have e: "epochRounds_loop ts ?rs d = (rs', d')" by simp
      have "rounds_ok ?rs" using rounds_ok_snoc [OF Cons.prems(1) None] .
      from Cons.IH [OF this _ e] False show ?thesis by (auto simp: new_round_def)
    qed
  qed
qed

lemma rounds_ok_nth:
  "rounds_ok rs \<Longrightarrow> i < j \<Longrightarrow> j < length rs \<Longrightarrow> k \<in> set (rd_keys (rs ! j)) \<Longrightarrow> conflicts (rs ! i) k"
  by (auto simp: rounds_ok_def sorted_wrt_iff_nth_less)

text \<open>The number of rounds is the largest number of epochs asked of one partition.\<close>

definition epochs_asked :: "epoch_round list \<Rightarrow> string \<times> int32 \<Rightarrow> int32 set" where
  "epochs_asked rs tp = {qk_epoch k |k. k \<in> all_keys rs \<and> key_part k = tp}"

lemma rounds_minimal:
  assumes "rounds_ok rs" "rs \<noteq> []"
  shows "\<exists>tp. length rs \<le> card (epochs_asked rs tp)"
proof -
  let ?n = "length rs"
  have last: "?n - 1 < ?n" using assms(2) by simp
  then have "round_ok (rs ! (?n - 1))" using assms(1) by (auto simp: rounds_ok_def)
  then have "rd_keys (rs ! (?n - 1)) \<noteq> []" by (simp add: round_ok_def)
  then obtain k where k: "k \<in> set (rd_keys (rs ! (?n - 1)))" using list.set_sel(1) by blast
  let ?tp = "key_part k"
  have entry: "\<exists>e. map_of (rd_req (rs ! i)) ?tp = Some e" if "i < ?n" for i
  proof (cases "i = ?n - 1")
    case True
    with k assms(1) last show ?thesis by (auto simp: rounds_ok_def round_ok_def)
  next
    case False
    with that have "i < ?n - 1" by simp
    from rounds_ok_nth [OF assms(1) this last k] show ?thesis by (auto simp: conflicts_def)
  qed
  define f where "f = (\<lambda>i. the (map_of (rd_req (rs ! i)) ?tp))"
  have key: "\<lparr>qk_topic = fst ?tp, qk_partition = snd ?tp, qk_epoch = f i\<rparr> \<in> set (rd_keys (rs ! i))"
    if "i < ?n" for i
  proof -
    have "round_ok (rs ! i)" using assms(1) that by (auto simp: rounds_ok_def)
    with entry [OF that] show ?thesis by (auto simp: round_ok_def f_def)
  qed
  have inj: "inj_on f {..<?n}"
  proof (rule linorder_inj_onI)
    fix i j assume "i < j" "i \<in> {..<?n}" "j \<in> {..<?n}"
    from rounds_ok_nth [OF assms(1) this(1) _ key] this(3)
    show "f i \<noteq> f j" by (auto simp: conflicts_def f_def)
  qed auto
  have "f ` {..<?n} \<subseteq> epochs_asked rs ?tp"
  proof
    fix e assume "e \<in> f ` {..<?n}"
    then obtain i where i: "i < ?n" "e = f i" by auto
    with key [OF i(1)] show "e \<in> epochs_asked rs ?tp"
      unfolding epochs_asked_def all_keys_def
      by (intro CollectI exI [where x = "\<lparr>qk_topic = fst ?tp, qk_partition = snd ?tp, qk_epoch = f i\<rparr>"])
        auto
  qed
  moreover have "finite (epochs_asked rs ?tp)"
    by (simp add: epochs_asked_def all_keys_def)
  ultimately have "card (f ` {..<?n}) \<le> card (epochs_asked rs ?tp)" by (rule card_mono [rotated])
  with inj show ?thesis by (auto simp: card_image)
qed

subsection \<open>Asking and settling\<close>

lemma ask_keys_dom: "dom (ask_keys resp ok ks asked) = dom asked \<union> set ks"
  by (induction ks arbitrary: asked) auto

lemma ask_rounds_dom: "dom (fst (ask_rounds kc call rs asked sec)) = dom asked \<union> all_keys rs"
  by (induction rs arbitrary: asked sec) (auto simp: split_beta Let_def ask_keys_dom)

lemma ask_rounds_ext: "sec_ext sec (snd (ask_rounds kc call rs asked sec))"
proof (induction rs arbitrary: asked sec)
  case (Cons r rs)
  show ?case
    using sec_ext_trans [OF sec_ext_requestPartial Cons.IH] by (simp add: split_beta Let_def)
qed simp

lemma remember_props:
  assumes "length seen \<le> maxProbedEpochs" "distinct seen"
  shows "length (remember k seen) \<le> maxProbedEpochs" "distinct (remember k seen)"
    "set (remember k seen) \<subseteq> insert k (set seen)" "k \<in> set (remember k seen)"
    "length seen < maxProbedEpochs \<Longrightarrow> set (remember k seen) = insert k (set seen)"
    "length (remember k seen) \<le> Suc (length seen)"
  using assms by (auto simp: remember_def Let_def maxProbedEpochs_def List.insert_def)

definition seen_ok :: "probed_epochs \<Rightarrow> bool" where
  "seen_ok seen \<longleftrightarrow> length seen \<le> maxProbedEpochs \<and> distinct seen"

definition settled_keys :: "asked \<Rightarrow> epoch_trigger list \<Rightarrow> epoch_probe_key set" where
  "settled_keys asked ts =
     {probeKey t |t. t \<in> set ts \<and> (\<exists>a. asked (trigger_key t) = Some a \<and> settles a)}"

lemma settled_keys_simps [simp]:
  "settled_keys asked [] = {}"
  "settled_keys asked (t # ts) =
     (if \<exists>a. asked (trigger_key t) = Some a \<and> settles a then insert (probeKey t) (settled_keys asked ts)
      else settled_keys asked ts)"
  by (auto simp: settled_keys_def)

lemma probe_rows_seen:
  "seen_ok seen \<Longrightarrow>
     seen_ok (fst (snd (probe_rows kc asked ts seen sec))) \<and>
     set (fst (snd (probe_rows kc asked ts seen sec))) \<subseteq> set seen \<union> settled_keys asked ts \<and>
     (length seen + length ts \<le> maxProbedEpochs \<longrightarrow>
       set (fst (snd (probe_rows kc asked ts seen sec))) = set seen \<union> settled_keys asked ts)"
proof (induction ts arbitrary: seen sec)
  case Nil
  then show ?case by simp
next
  case (Cons t ts)
  show ?case
  proof (cases "asked (trigger_key t)")
    case None
    with Cons.IH [OF Cons.prems, of sec] show ?thesis by auto
  next
    case (Some a)
    let ?seen = "if settles a then remember (probeKey t) seen else seen"
    let ?sec = "snd (probe kc t a sec)"
    have r: "fst (snd (probe_rows kc asked (t # ts) seen sec)) =
        fst (snd (probe_rows kc asked ts ?seen ?sec))"
      using Some by (simp add: split_beta Let_def)
    have ok: "seen_ok ?seen"
      using Cons.prems remember_props(1,2) by (auto simp: seen_ok_def)
    have sub: "set ?seen \<subseteq> set seen \<union> (if settles a then {probeKey t} else {})"
      using Cons.prems remember_props(3) [of seen "probeKey t"] by (auto simp: seen_ok_def)
    have room: "length seen + length (t # ts) \<le> maxProbedEpochs \<Longrightarrow>
        length ?seen + length ts \<le> maxProbedEpochs \<and>
        set ?seen = set seen \<union> (if settles a then {probeKey t} else {})"
      using Cons.prems remember_props(5,6) [of seen "probeKey t"] by (auto simp: seen_ok_def)
    show ?thesis
      unfolding r using Cons.IH [OF ok, of ?sec] sub room Some by (auto split: if_splits)
  qed
qed

definition answer_of :: "epoch_answer \<Rightarrow> epoch_answer_row option" where
  "answer_of a = (if ea_usable a then ea_offset a else None)"

definition probe_row :: "epoch_trigger \<Rightarrow> epoch_answer \<Rightarrow> epoch_probe" where
  "probe_row t a =
     \<lparr>ep_topic = et_topic t, ep_topic_id = et_topic_id t, ep_partition = et_partition t,
      ep_group_id = et_group t, ep_committed_offset = et_committed_offset t,
      ep_committed_epoch = et_committed_epoch t, ep_current_leader_epoch = et_current_epoch t,
      ep_returned_epoch = (if settles a then map_option er_leader_epoch (answer_of a) else None),
      ep_end_offset = (if settles a
        then Option.bind (answer_of a) (\<lambda>o'. nullableOffset (er_end_offset o') None) else None),
      ep_node_id = map_option er_node (answer_of a),
      ep_error_code = (case answer_of a of None \<Rightarrow> 0 | Some o' \<Rightarrow> errorCode (er_err o'))\<rparr>"

lemma probe_fst: "fst (probe kc t a sec) = probe_row t a"
  by (cases "ea_offset a")
    (auto simp: probe_def probe_row_def answer_of_def settles_def Let_def split: option.split)

lemma probe_rows_fst:
  "fst (probe_rows kc asked ts seen sec) =
     List.map_filter (\<lambda>t. map_option (probe_row t) (asked (trigger_key t))) ts"
  by (induction ts arbitrary: seen sec)
    (auto simp: map_filter_simps split_beta Let_def probe_fst split: option.split)

lemma probe_ext: "sec_ext sec (snd (probe kc t a sec))"
  by (auto simp: probe_def Let_def split: option.split)

lemma probe_rows_ext: "sec_ext sec (snd (snd (probe_rows kc asked ts seen sec)))"
proof (induction ts arbitrary: seen sec)
  case (Cons t ts)
  show ?case
    using Cons.IH sec_ext_trans [OF probe_ext Cons.IH]
    by (auto simp: split_beta Let_def split: option.split)
qed simp

subsection \<open>The phase in closed form\<close>

definition fresh_triggers ::
    "topic_metrics list \<Rightarrow> consumer_offset list \<Rightarrow> probed_epochs \<Rightarrow> epoch_trigger list" where
  "fresh_triggers topics offsets seen =
     filter (\<lambda>t. \<not> answered (probeKey t) seen)
       (fst (epochTriggers topics offsets maxEpochProbesPerCycle))"

definition epoch_sec0 :: "collector \<Rightarrow> topic_metrics list \<Rightarrow> consumer_offset list \<Rightarrow> probed_epochs \<Rightarrow> sect" where
  "epoch_sec0 c topics offsets seen =
     (let dropped = snd (epochTriggers topics offsets maxEpochProbesPerCycle);
          rd = snd (epochRounds (fresh_triggers topics offsets seen));
          sec = newSection c ''epoch_probes'';
          sec1 = (if dropped then sec\<lparr>s_truncated := True\<rparr> else sec)
      in if rd then sec1\<lparr>s_truncated := True\<rparr> else sec1)"

definition epoch_asked ::
    "collector \<Rightarrow> epoch_call \<Rightarrow> topic_metrics list \<Rightarrow> consumer_offset list \<Rightarrow> probed_epochs \<Rightarrow> asked" where
  "epoch_asked c call topics offsets seen =
     fst (ask_rounds (cn_codes c) call (fst (epochRounds (fresh_triggers topics offsets seen)))
       (\<lambda>_. None) (epoch_sec0 c topics offsets seen))"

lemma collectEpochProbes_silent:
  assumes "\<not> run \<or> fresh_triggers topics offsets seen = []"
  shows "fst (collectEpochProbes c call run topics offsets seen) = [] \<and>
    s_status (fst (snd (collectEpochProbes c call run topics offsets seen))) = SectionSkipped \<and>
    snd (snd (collectEpochProbes c call run topics offsets seen)) = (seen, [])"
proof (cases run)
  case False
  then show ?thesis by (simp add: collectEpochProbes_def Let_def status_order)
next
  case True
  with assms have "filter (\<lambda>t. \<not> answered (probeKey t) seen)
      (fst (epochTriggers topics offsets maxEpochProbesPerCycle)) = []"
    by (simp add: fresh_triggers_def)
  with True show ?thesis
    by (simp add: collectEpochProbes_def Let_def split_beta status_order)
qed

lemma collectEpochProbes_asks:
  assumes "fresh_triggers topics offsets seen \<noteq> []"
  shows "collectEpochProbes c call True topics offsets seen =
    (let fresh = fresh_triggers topics offsets seen; kc = cn_codes c;
         rounds = fst (epochRounds fresh);
         r = ask_rounds kc call rounds (\<lambda>_. None) (epoch_sec0 c topics offsets seen);
         (probes, seen', sec4) = probe_rows kc (fst r) fresh seen (snd r)
     in (probes, stopSection c sec4, seen', map rd_req rounds))"
  using assms unfolding collectEpochProbes_def fresh_triggers_def epoch_sec0_def Let_def
  by (simp add: split_beta if_distrib [where f = "\<lambda>s. s\<lparr>s_truncated := True\<rparr>"])

lemma collectEpochProbes_seen:
  "snd (snd (collectEpochProbes c call run topics offsets seen)) =
     (if run \<and> fresh_triggers topics offsets seen \<noteq> []
      then (fst (snd (probe_rows (cn_codes c) (epoch_asked c call topics offsets seen)
              (fresh_triggers topics offsets seen) seen
              (snd (ask_rounds (cn_codes c) call
                (fst (epochRounds (fresh_triggers topics offsets seen))) (\<lambda>_. None)
                (epoch_sec0 c topics offsets seen))))),
            map rd_req (fst (epochRounds (fresh_triggers topics offsets seen))))
      else (seen, []))"
  using collectEpochProbes_silent [of run topics offsets seen c call]
  by (auto simp: collectEpochProbes_asks epoch_asked_def Let_def split_beta)

lemma truncated_ext: "sec_ext s (s\<lparr>s_truncated := True\<rparr>)"
  by (auto simp: sec_ext_def sec_inv_def)

lemma collectEpochProbes_section:
  "phase_section ''epoch_probes'' (fst (snd (collectEpochProbes c call run topics offsets seen)))"
proof -
  have tr: "phase_section n (s\<lparr>s_truncated := True\<rparr>)" if "phase_section n s" for n s
    using phase_section_ext [OF that truncated_ext] .
  have dg: "phase_section n (downgrade st s)" if "phase_section n s" for n st s
    using phase_section_ext [OF that sec_ext_downgrade] .
  show ?thesis
    unfolding collectEpochProbes_def Let_def split_beta
    by (auto simp: tr dg intro!: phase_section_ext [OF _ probe_rows_ext]
        phase_section_ext [OF _ ask_rounds_ext])
qed

subsection \<open>Triggers\<close>

lemma capLen_fst: "fst (capLen n ceiling) \<le> n" "ceiling > 0 \<Longrightarrow> int (fst (capLen n ceiling)) \<le> ceiling"
  "snd (capLen n ceiling) = n - fst (capLen n ceiling)"
  by (auto simp: capLen_def)

definition mismatch ::
    "topic_metrics list \<Rightarrow> consumer_offset list \<Rightarrow> epoch_trigger \<Rightarrow> bool" where
  "mismatch topics offsets t \<longleftrightarrow>
     (\<exists>co \<in> set offsets. \<exists>os o'. co_offsets co = Some os \<and> o' \<in> set os \<and>
        co_group_id co = et_group t \<and> po_topic o' = et_topic t \<and> po_partition o' = et_partition t \<and>
        po_offset o' = et_committed_offset t \<and> po_leader_epoch o' = et_committed_epoch t) \<and>
     (\<exists>tm \<in> set topics. \<exists>p \<in> set (t_partitions tm). t_name tm = et_topic t \<and>
        t_id tm = et_topic_id t \<and> p_id p = et_partition t \<and> p_leader_epoch p = et_current_epoch t) \<and>
     et_committed_offset t \<noteq> None \<and> 0 \<le> et_committed_epoch t \<and> 0 \<le> et_current_epoch t \<and>
     et_committed_epoch t \<noteq> et_current_epoch t"

lemma current_epoch_Some:
  assumes "current_epoch topics topic pid = Some (tid, e)"
  shows "\<exists>tm \<in> set topics. \<exists>p \<in> set (t_partitions tm). t_name tm = topic \<and> t_id tm = tid \<and>
    p_id p = pid \<and> p_leader_epoch p = e"
proof -
  obtain tm where "map_of (rev (map (\<lambda>t. (t_name t, t)) topics)) topic = Some tm"
    and p: "map_of (rev (map (\<lambda>p. (p_id p, (t_id tm, p_leader_epoch p))) (t_partitions tm))) pid =
      Some (tid, e)"
    using assms by (auto simp: current_epoch_def bind_eq_Some_conv)
  then have "tm \<in> set topics" "t_name tm = topic" by (auto dest: map_of_SomeD)
  moreover from p have "\<exists>p \<in> set (t_partitions tm). p_id p = pid \<and> p_leader_epoch p = e \<and> t_id tm = tid"
    using map_of_SomeD [OF p] by auto
  ultimately show ?thesis by blast
qed

lemma raw_triggers_sound:
  assumes "t \<in> set (raw_triggers topics offsets)"
  shows "mismatch topics offsets t"
proof -
  obtain co os o' where co: "co \<in> set offsets" "co_offsets co = Some os" "o' \<in> set os"
    and t: "offset_trigger topics (co_group_id co) o' = Some t"
  proof -
    from assms obtain co where co: "co \<in> set offsets"
      and m: "t \<in> set (List.map_filter (offset_trigger topics (co_group_id co))
        (case co_offsets co of None \<Rightarrow> [] | Some os \<Rightarrow> os))"
      by (auto simp: raw_triggers_def)
    then obtain os where os: "co_offsets co = Some os"
      by (cases "co_offsets co") (auto simp: map_filter_simps)
    with m obtain o' where "o' \<in> set os" "offset_trigger topics (co_group_id co) o' = Some t"
      by (auto simp: List.map_filter_def)
    with co os that show ?thesis by blast
  qed
  from t obtain tid e where "current_epoch topics (po_topic o') (po_partition o') = Some (tid, e)"
    by (auto simp: offset_trigger_def split: option.splits if_splits prod.splits)
  note cur = this
  then have te: "t = \<lparr>et_topic = po_topic o', et_topic_id = tid, et_partition = po_partition o',
      et_group = co_group_id co, et_committed_offset = po_offset o',
      et_committed_epoch = po_leader_epoch o', et_current_epoch = e\<rparr>"
    and ok: "po_offset o' \<noteq> None" "0 \<le> po_leader_epoch o'" "0 \<le> e" "po_leader_epoch o' \<noteq> e"
    using t by (auto simp: offset_trigger_def split: if_splits)
  have "\<exists>tm \<in> set topics. \<exists>p \<in> set (t_partitions tm). t_name tm = et_topic t \<and>
        t_id tm = et_topic_id t \<and> p_id p = et_partition t \<and> p_leader_epoch p = et_current_epoch t"
    using current_epoch_Some [OF cur] by (simp add: te)
  moreover have "\<exists>co \<in> set offsets. \<exists>os o'. co_offsets co = Some os \<and> o' \<in> set os \<and>
        co_group_id co = et_group t \<and> po_topic o' = et_topic t \<and> po_partition o' = et_partition t \<and>
        po_offset o' = et_committed_offset t \<and> po_leader_epoch o' = et_committed_epoch t"
    using co by (auto simp: te)
  ultimately show ?thesis using ok by (simp add: mismatch_def te)
qed

lemma epochTriggers_set: "set (fst (epochTriggers topics offsets n)) \<subseteq> set (raw_triggers topics offsets)"
  by (auto simp: epochTriggers_def split_beta Let_def dest: in_set_takeD)

lemma epochTriggers_length:
  "n > 0 \<Longrightarrow> int (length (fst (epochTriggers topics offsets n))) \<le> n"
  using capLen_fst(2) [of n "length (raw_triggers topics offsets)"]
    capLen_fst(1) [of "length (raw_triggers topics offsets)" n]
  by (simp add: epochTriggers_def split_beta Let_def)


lemma fresh_mismatch: "t \<in> set (fresh_triggers topics offsets seen) \<Longrightarrow> mismatch topics offsets t"
  using epochTriggers_set raw_triggers_sound by (fastforce simp: fresh_triggers_def)

lemma fresh_length: "length (fresh_triggers topics offsets seen) \<le> 1024"
proof -
  have "int (length (fst (epochTriggers topics offsets maxEpochProbesPerCycle))) \<le> 1024"
    using epochTriggers_length [of maxEpochProbesPerCycle] by (simp add: maxEpochProbesPerCycle_def)
  moreover have "length (fresh_triggers topics offsets seen) \<le>
      length (fst (epochTriggers topics offsets maxEpochProbesPerCycle))"
    by (simp add: fresh_triggers_def)
  ultimately show ?thesis by simp
qed

lemma epochRounds_spec:
  assumes "epochRounds ts = (rs, dropped)"
  shows "rounds_ok rs" "length rs \<le> 4" "all_keys rs \<subseteq> trigger_key ` set ts"
    "\<not> dropped \<Longrightarrow> all_keys rs = trigger_key ` set ts"
  using epochRounds_loop_spec [of "[]" ts False rs dropped] assms
  by (auto simp: epochRounds_def maxEpochProbeRounds_def)

lemma collectEpochProbes_fst:
  "fst (collectEpochProbes c call run topics offsets seen) =
     (if run then List.map_filter
        (\<lambda>t. map_option (probe_row t) (epoch_asked c call topics offsets seen (trigger_key t)))
        (fresh_triggers topics offsets seen)
      else [])"
proof (cases "run \<and> fresh_triggers topics offsets seen \<noteq> []")
  case True
  then show ?thesis
    by (simp add: collectEpochProbes_asks Let_def split_beta probe_rows_fst epoch_asked_def)
next
  case False
  then have "\<not> run \<or> fresh_triggers topics offsets seen = []" by simp
  from collectEpochProbes_silent [OF this, of c call] False show ?thesis
    by (auto simp: map_filter_simps)
qed

subsection \<open>What a cycle asked\<close>

lemma ask_keys_other: "k \<notin> set ks \<Longrightarrow> ask_keys resp ok ks asked k = asked k"
  by (induction ks arbitrary: asked) auto

lemma ask_keys_in:
  "k \<in> set ks \<Longrightarrow> ask_keys resp ok ks asked k = Some \<lparr>ea_offset = map_of resp (key_part k), ea_usable = ok\<rparr>"
proof (induction ks arbitrary: asked)
  case (Cons x ks)
  then show ?case by (cases "k \<in> set ks") (auto simp: ask_keys_other)
qed simp

lemma ask_rounds_other:
  "k \<notin> all_keys rs \<Longrightarrow> fst (ask_rounds kc call rs asked sec) k = asked k"
  by (induction rs arbitrary: asked sec) (auto simp: split_beta Let_def ask_keys_other)

lemma round_ok_conflicts: "round_ok r \<Longrightarrow> k \<in> set (rd_keys r) \<Longrightarrow> \<not> conflicts r k"
  by (simp add: round_ok_def conflicts_def)

lemma ask_rounds_in:
  "rounds_ok rs \<Longrightarrow> r \<in> set rs \<Longrightarrow> k \<in> set (rd_keys r) \<Longrightarrow>
     fst (ask_rounds kc call rs asked sec) k =
       Some \<lparr>ea_offset = map_of (fst (call (rd_req r))) (key_part k),
             ea_usable = request_usable (snd (call (rd_req r))) \<or> fst (call (rd_req r)) \<noteq> []\<rparr>"
proof (induction rs arbitrary: asked sec)
  case (Cons x rs)
  show ?case
  proof (cases "r = x")
    case True
    have "k \<notin> all_keys rs"
      using Cons.prems True round_ok_conflicts [of x k] by auto
    with True Cons.prems show ?thesis
      by (simp add: split_beta Let_def ask_rounds_other ask_keys_in)
  next
    case False
    with Cons.prems Cons.IH show ?thesis by (simp add: split_beta Let_def)
  qed
qed simp

text \<open>
  The leader answered a question of a trigger: one of the requests named the partition with the
  committed epoch, and its response has an entry for the partition that bears no error.
\<close>

definition leader_answered :: "epoch_call \<Rightarrow> epoch_request list \<Rightarrow> epoch_trigger \<Rightarrow> bool" where
  "leader_answered call reqs t \<longleftrightarrow>
     (\<exists>req \<in> set reqs. map_of req (et_topic t, et_partition t) = Some (et_committed_epoch t) \<and>
        (case map_of (fst (call req)) (et_topic t, et_partition t) of
           None \<Rightarrow> False | Some row \<Rightarrow> er_err row = None))"

lemma settles_iff_answered:
  assumes "fresh_triggers topics offsets seen = ts"
  shows "(\<exists>a. epoch_asked c call topics offsets seen (trigger_key t) = Some a \<and> settles a) \<longleftrightarrow>
    leader_answered call (map rd_req (fst (epochRounds ts))) t"
proof -
  let ?rs = "fst (epochRounds ts)" and ?k = "trigger_key t"
  have ok: "rounds_ok ?rs" using epochRounds_spec(1) [of ts ?rs "snd (epochRounds ts)"] by simp
  have part: "key_part ?k = (et_topic t, et_partition t)" "qk_epoch ?k = et_committed_epoch t"
    by (simp_all add: trigger_key_def)
  have in_round: "?k \<in> set (rd_keys r) \<longleftrightarrow>
      map_of (rd_req r) (et_topic t, et_partition t) = Some (et_committed_epoch t)"
    if "r \<in> set ?rs" for r
    using ok that part by (simp add: rounds_ok_def round_ok_def)
  have ask: "epoch_asked c call topics offsets seen ?k =
      Some \<lparr>ea_offset = map_of (fst (call (rd_req r))) (et_topic t, et_partition t),
            ea_usable = request_usable (snd (call (rd_req r))) \<or> fst (call (rd_req r)) \<noteq> []\<rparr>"
    if "r \<in> set ?rs" "?k \<in> set (rd_keys r)" for r
    using ask_rounds_in [OF ok that] part(1) by (simp add: epoch_asked_def assms)
  have settled: "settles \<lparr>ea_offset = map_of resp q, ea_usable = u \<or> resp \<noteq> []\<rparr> \<longleftrightarrow>
      (case map_of resp q of None \<Rightarrow> False | Some row \<Rightarrow> er_err row = None)" for resp q u
    by (auto simp: settles_def split: option.split)
  have none: "epoch_asked c call topics offsets seen ?k = None" if "?k \<notin> all_keys ?rs"
    using that by (simp add: epoch_asked_def assms ask_rounds_other)
  show ?thesis
  proof (cases "?k \<in> all_keys ?rs")
    case True
    then obtain r where r: "r \<in> set ?rs" "?k \<in> set (rd_keys r)" by (auto simp: all_keys_def)
    have "leader_answered call (map rd_req ?rs) t" if "settles (the (epoch_asked c call topics offsets seen ?k))"
    proof -
      have "case map_of (fst (call (rd_req r))) (et_topic t, et_partition t) of
          None \<Rightarrow> False | Some row \<Rightarrow> er_err row = None"
        using that unfolding ask [OF r] option.sel settled .
      with r in_round [OF r(1)] show ?thesis unfolding leader_answered_def by auto
    qed
    moreover have "settles (the (epoch_asked c call topics offsets seen ?k))"
      if "leader_answered call (map rd_req ?rs) t"
    proof -
      from that obtain r' where r': "r' \<in> set ?rs" "?k \<in> set (rd_keys r')"
        "case map_of (fst (call (rd_req r'))) (et_topic t, et_partition t) of
           None \<Rightarrow> False | Some row \<Rightarrow> er_err row = None"
        using in_round by (auto simp: leader_answered_def)
      then show ?thesis unfolding ask [OF r'(1,2)] option.sel settled by simp
    qed
    ultimately show ?thesis using ask [OF r] by auto
  next
    case False
    then have "\<not> leader_answered call (map rd_req ?rs) t"
      using in_round by (auto simp: leader_answered_def all_keys_def)
    with none [OF False] show ?thesis by simp
  qed
qed

subsection \<open>Properties\<close>

text \<open>
  Packing the questions into requests: at most four requests; no question is asked twice, and
  none is made up; when nothing is reported dropped every question is asked; and the packing is
  optimal, since some partition is asked about as many different epochs as there are requests and
  one request can only ask one.
\<close>

theorem epochRounds_pack:
  assumes "epochRounds ts = (rs, dropped)"
  shows "length rs \<le> 4 \<and> all_keys rs \<subseteq> trigger_key ` set ts \<and>
    (\<not> dropped \<longrightarrow> all_keys rs = trigger_key ` set ts) \<and>
    (\<forall>j < length rs. \<forall>i < j. set (rd_keys (rs ! i)) \<inter> set (rd_keys (rs ! j)) = {}) \<and>
    (rs \<noteq> [] \<longrightarrow> (\<exists>tp. length rs \<le> card (epochs_asked rs tp)))"
proof -
  note spec = epochRounds_spec [OF assms]
  have "set (rd_keys (rs ! i)) \<inter> set (rd_keys (rs ! j)) = {}" if "i < j" "j < length rs" for i j
  proof -
    have "round_ok (rs ! i)" using spec(1) that by (auto simp: rounds_ok_def)
    then have "\<not> conflicts (rs ! i) k" if "k \<in> set (rd_keys (rs ! i))" for k
      using that by (simp add: round_ok_def conflicts_def)
    with rounds_ok_nth [OF spec(1) that] show ?thesis by blast
  qed
  with spec rounds_minimal show ?thesis by blast
qed

text \<open>
  C22: only a leader's answer retires a question. In any cycle the suppression set stays within
  8192 questions, and a question that was open before it is remembered afterwards only if a
  request of this cycle named its partition with its committed epoch and the response has an entry
  for that partition without an error. So a question that went unasked, whose request failed, whose
  partition the response omits, or whose entry bears an error is still open. Conversely, while the
  set has room for the open questions, every one so answered is remembered.
\<close>

theorem open_questions_survive:
  assumes "seen_ok seen"
    and "collectEpochProbes c call run topics offsets seen = (probes, sec, seen', reqs)"
  shows "length seen' \<le> 8192 \<and> distinct seen' \<and>
    (\<forall>k. answered k seen' \<and> \<not> answered k seen \<longrightarrow>
       (\<exists>t \<in> set (fst (epochTriggers topics offsets maxEpochProbesPerCycle)).
          probeKey t = k \<and> leader_answered call reqs t)) \<and>
    (\<forall>t \<in> set (fst (epochTriggers topics offsets maxEpochProbesPerCycle)).
       \<not> answered (probeKey t) seen \<longrightarrow> \<not> leader_answered call reqs t \<longrightarrow>
       \<not> answered (probeKey t) seen') \<and>
    (length seen + length (fst (epochTriggers topics offsets maxEpochProbesPerCycle)) \<le> 8192 \<longrightarrow>
     (\<forall>t \<in> set (fst (epochTriggers topics offsets maxEpochProbesPerCycle)).
       leader_answered call reqs t \<longrightarrow> answered (probeKey t) seen'))"
proof -
  let ?asked = "epoch_asked c call topics offsets seen"
  let ?fresh = "fresh_triggers topics offsets seen"
  let ?ts = "fst (epochTriggers topics offsets maxEpochProbesPerCycle)"
  have fresh: "t \<in> set ?fresh \<longleftrightarrow> t \<in> set ?ts \<and> \<not> answered (probeKey t) seen" for t
    by (auto simp: fresh_triggers_def)
  have len: "length ?fresh \<le> length ?ts" by (simp add: fresh_triggers_def)
  have out: "(seen', reqs) = snd (snd (collectEpochProbes c call run topics offsets seen))"
    using assms(2) by simp
  have same: "leader_answered call reqs t' = leader_answered call reqs t"
    if "probeKey t' = probeKey t" for t t'
    using that by (simp add: probeKey_def leader_answered_def)
  have main: "seen_ok seen' \<and>
      (\<forall>k. answered k seen' \<and> \<not> answered k seen \<longrightarrow>
         (\<exists>t \<in> set ?fresh. probeKey t = k \<and> leader_answered call reqs t)) \<and>
      (length seen + length ?fresh \<le> 8192 \<longrightarrow> set seen \<subseteq> set seen' \<and>
         (\<forall>t \<in> set ?fresh. leader_answered call reqs t \<longrightarrow> answered (probeKey t) seen'))"
  proof (cases "run \<and> ?fresh \<noteq> []")
    case True
    then obtain sec' where s: "seen' = fst (snd (probe_rows (cn_codes c) ?asked ?fresh seen sec'))"
      and reqs: "reqs = map rd_req (fst (epochRounds ?fresh))"
      using out by (simp add: collectEpochProbes_seen)
    have "(\<exists>a. ?asked (trigger_key t) = Some a \<and> settles a) \<longleftrightarrow> leader_answered call reqs t" for t
      using settles_iff_answered [where c = c and t = t, OF refl] by (simp add: reqs)
    then have keys: "settled_keys ?asked ?fresh =
        {probeKey t |t. t \<in> set ?fresh \<and> leader_answered call reqs t}"
      by (simp add: settled_keys_def)
    from probe_rows_seen [OF assms(1), of "cn_codes c" ?asked ?fresh sec'] s keys show ?thesis
      by (auto simp: answered_def maxProbedEpochs_def)
  next
    case False
    then have "seen' = seen" "reqs = []"
      using out by (simp_all add: collectEpochProbes_seen del: de_Morgan_conj)
    with assms(1) show ?thesis by (simp add: leader_answered_def)
  qed
  then have "\<not> answered (probeKey t) seen'"
    if "\<not> answered (probeKey t) seen" "\<not> leader_answered call reqs t" for t
    using that same by blast
  moreover have "answered (probeKey t) seen'"
    if "length seen + length ?ts \<le> 8192" "t \<in> set ?ts" "leader_answered call reqs t" for t
    using main that len fresh [of t] by (cases "answered (probeKey t) seen") (auto simp: answered_def)
  moreover have "\<exists>t \<in> set ?ts. probeKey t = k \<and> leader_answered call reqs t"
    if "answered k seen'" "\<not> answered k seen" for k
    using main that fresh by blast
  moreover have "length seen' \<le> 8192 \<and> distinct seen'"
    using main by (simp add: seen_ok_def maxProbedEpochs_def)
  ultimately show ?thesis by blast
qed

text \<open>
  A mismatch is paid for once: after a cycle in which a leader settled every open question
  (and the set had room for them), a cycle over the same topics and offsets issues no request,
  ships no probe and reports skipped, whatever the brokers would answer.
\<close>

theorem settled_mismatch_is_silent:
  assumes "seen_ok seen" "length seen + length (fresh_triggers topics offsets seen) \<le> 8192"
    and "\<forall>t \<in> set (fresh_triggers topics offsets seen).
      \<exists>a. epoch_asked c call topics offsets seen (trigger_key t) = Some a \<and> settles a"
    and "fst (snd (snd (collectEpochProbes c call True topics offsets seen))) = seen'"
  shows "fst (collectEpochProbes c' call' run topics offsets seen') = [] \<and>
    s_status (fst (snd (collectEpochProbes c' call' run topics offsets seen'))) = SectionSkipped \<and>
    snd (snd (snd (collectEpochProbes c' call' run topics offsets seen'))) = []"
proof -
  let ?asked = "epoch_asked c call topics offsets seen"
  let ?fresh = "fresh_triggers topics offsets seen"
  have seen': "set seen' = set seen \<union> settled_keys ?asked ?fresh"
  proof (cases "?fresh = []")
    case True
    with assms(4) show ?thesis by (simp add: collectEpochProbes_seen)
  next
    case False
    then obtain sec where "seen' = fst (snd (probe_rows (cn_codes c) ?asked ?fresh seen sec))"
      using assms(4) by (auto simp: collectEpochProbes_seen)
    with assms(2) probe_rows_seen [OF assms(1), of "cn_codes c" ?asked ?fresh sec]
    show ?thesis by (simp add: maxProbedEpochs_def)
  qed
  have "answered (probeKey t) seen'"
    if t: "t \<in> set (fst (epochTriggers topics offsets maxEpochProbesPerCycle))" for t
  proof (cases "t \<in> set ?fresh")
    case True
    with assms(3) seen' show ?thesis by (auto simp: answered_def settled_keys_def)
  next
    case False
    with t seen' show ?thesis by (auto simp: fresh_triggers_def answered_def)
  qed
  then have "fresh_triggers topics offsets seen' = []"
    by (simp add: fresh_triggers_def filter_empty_conv)
  then show ?thesis using collectEpochProbes_silent [of run topics offsets seen' c' call'] by simp
qed

text \<open>
  Every probe row is a mismatch the same batch shows: its group, partition, committed offset
  and committed epoch are a row of the committed offsets, its topic id and current epoch are a row
  of the topics, the two epochs are known and differ, and an end offset is never negative. A cycle
  ships at most 1024 rows and issues at most four requests.
\<close>

theorem probes_sound:
  assumes "p \<in> set (fst (collectEpochProbes c call run topics offsets seen))"
  shows "(\<exists>t. mismatch topics offsets t \<and> ep_topic p = et_topic t \<and> ep_topic_id p = et_topic_id t \<and>
      ep_partition p = et_partition t \<and> ep_group_id p = et_group t \<and>
      ep_committed_offset p = et_committed_offset t \<and> ep_committed_epoch p = et_committed_epoch t \<and>
      ep_current_leader_epoch p = et_current_epoch t) \<and>
    nonneg_opt (ep_end_offset p) \<and>
    length (fst (collectEpochProbes c call run topics offsets seen)) \<le> 1024 \<and>
    length (snd (snd (snd (collectEpochProbes c call run topics offsets seen)))) \<le> 4"
proof -
  let ?fresh = "fresh_triggers topics offsets seen"
  let ?f = "\<lambda>t. map_option (probe_row t) (epoch_asked c call topics offsets seen (trigger_key t))"
  have rows: "fst (collectEpochProbes c call run topics offsets seen) = List.map_filter ?f ?fresh"
    using assms by (auto simp: collectEpochProbes_fst split: if_splits)
  with assms obtain t a where t: "t \<in> set ?fresh" "p = probe_row t a"
    by (auto simp: List.map_filter_def)
  have "length (List.map_filter ?f ?fresh) \<le> length ?fresh"
    by (simp add: List.map_filter_def)
  then have "length (List.map_filter ?f ?fresh) \<le> 1024" using fresh_length le_trans by blast
  moreover have "length (snd (snd (snd (collectEpochProbes c call run topics offsets seen)))) \<le> 4"
    using epochRounds_spec(2) [of ?fresh "fst (epochRounds ?fresh)" "snd (epochRounds ?fresh)"]
    by (simp add: collectEpochProbes_seen)
  moreover have "nonneg_opt (ep_end_offset p)"
    by (cases "answer_of a") (simp_all add: t(2) probe_row_def)
  ultimately show ?thesis
    using fresh_mismatch [OF t(1)] t(2) unfolding rows
    by (intro conjI exI [of _ t]) (simp_all add: probe_row_def)
qed

subsection \<open>A worked election\<close>

definition wit_epoch_offsets :: "consumer_offset list" where
  "wit_epoch_offsets =
     map (\<lambda>(g, e). \<lparr>co_group_id = g, co_error_code = 0, co_offsets = Some
       [\<lparr>po_topic = ''orders'', po_partition = 0, po_offset = Some 90, po_leader_epoch = e,
         po_metadata = [], po_error_code = 0\<rparr>], co_offset_count = 1\<rparr>)
     [(''a'', 3), (''b'', 3), (''c'', 2)]"

definition wit_epoch_topics :: "topic_metrics list" where
  "wit_epoch_topics = [topic_of wit_samples wit_detail]"

definition wit_epoch_call :: epoch_call where
  "wit_epoch_call req =
     (map (\<lambda>(tp, e). (tp, \<lparr>er_node = 1, er_leader_epoch = e, er_end_offset = 80, er_err = None\<rparr>)) req,
      None)"

abbreviation "wit_probes \<equiv>
  collectEpochProbes wit_collector wit_epoch_call True wit_epoch_topics wit_epoch_offsets []"

lemma wit_probe_rows:
  "map (\<lambda>p. (ep_group_id p, ep_committed_epoch p, ep_end_offset p)) (fst wit_probes) =
     [(''a'', 3, Some 80), (''b'', 3, Some 80), (''c'', 2, Some 80)]"
  by code_simp

lemma wit_fresh: "map trigger_key (fresh_triggers wit_epoch_topics wit_epoch_offsets []) =
    map (\<lambda>e. \<lparr>qk_topic = ''orders'', qk_partition = 0, qk_epoch = e\<rparr>) [3, 3, 2]"
  by code_simp

theorem epochRounds_pack_witness:
  "length (fst (epochRounds (fresh_triggers wit_epoch_topics wit_epoch_offsets []))) = 2 \<and>
   (\<exists>tp. 2 \<le> card (epochs_asked
     (fst (epochRounds (fresh_triggers wit_epoch_topics wit_epoch_offsets []))) tp))"
proof -
  let ?r = "epochRounds (fresh_triggers wit_epoch_topics wit_epoch_offsets [])"
  have l: "length (fst ?r) = 2" by code_simp
  have "?r = (fst ?r, snd ?r)" by (rule surjective_pairing)
  from epochRounds_pack [OF this] l show ?thesis by force
qed

lemma wit_all_settle:
  "list_all (\<lambda>k. case epoch_asked wit_collector wit_epoch_call wit_epoch_topics wit_epoch_offsets [] k
      of None \<Rightarrow> False | Some a \<Rightarrow> settles a)
     (map trigger_key (fresh_triggers wit_epoch_topics wit_epoch_offsets []))"
  by code_simp

text \<open>
  An election still in flight: the leader answers for epoch 2 and refuses epoch 3, so the question
  of the first two groups stays open and that of the third is settled.
\<close>

definition wit_flight_call :: epoch_call where
  "wit_flight_call req =
     (map (\<lambda>(tp, e). (tp, \<lparr>er_node = 1, er_leader_epoch = e, er_end_offset = 80,
        er_err = (if e = 3 then Some errEpochNotReturned else None)\<rparr>)) req, None)"

abbreviation "wit_triggers \<equiv> fst (epochTriggers wit_epoch_topics wit_epoch_offsets maxEpochProbesPerCycle)"

abbreviation "wit_flight \<equiv>
  collectEpochProbes wit_collector wit_flight_call True wit_epoch_topics wit_epoch_offsets []"

lemma wit_flight_answers:
  "map (\<lambda>t. (et_committed_epoch t, leader_answered wit_flight_call (snd (snd (snd wit_flight))) t))
     wit_triggers = [(3, False), (3, False), (2, True)]"
  by code_simp

theorem open_questions_survive_witness:
  "\<not> answered (probeKey (wit_triggers ! 0)) (fst (snd (snd wit_flight))) \<and>
   answered (probeKey (wit_triggers ! 2)) (fst (snd (snd wit_flight)))"
proof -
  have ok: "seen_ok []" by (simp add: seen_ok_def)
  have eq: "wit_flight = (fst wit_flight, fst (snd wit_flight), fst (snd (snd wit_flight)),
      snd (snd (snd wit_flight)))" by simp
  have len: "length wit_triggers = 3" using arg_cong [OF wit_flight_answers, of length] by simp
  have at: "leader_answered wit_flight_call (snd (snd (snd wit_flight))) (wit_triggers ! i) =
      ([False, False, True] ! i)" if "i < 3" for i
    using that len arg_cong [OF wit_flight_answers, of "\<lambda>xs. snd (xs ! i)"]
    by (auto simp: less_Suc_eq numeral_3_eq_3)
  have here: "wit_triggers ! 0 \<in> set wit_triggers" "wit_triggers ! 2 \<in> set wit_triggers"
    using len by simp_all
  from open_questions_survive [OF ok eq] here at [of 0] at [of 2] len show ?thesis
    by (simp add: answered_def)
qed

theorem settled_mismatch_is_silent_witness:
  "fst (collectEpochProbes wit_collector wit_epoch_call True wit_epoch_topics wit_epoch_offsets
     (fst (snd (snd wit_probes)))) = []"
proof -
  have ok: "seen_ok []" by (simp add: seen_ok_def)
  have len: "length ([]::probed_epochs) +
      length (fresh_triggers wit_epoch_topics wit_epoch_offsets []) \<le> 8192"
    using arg_cong [OF wit_fresh, of length] by simp
  have "\<forall>t \<in> set (fresh_triggers wit_epoch_topics wit_epoch_offsets []).
      \<exists>a. epoch_asked wit_collector wit_epoch_call wit_epoch_topics wit_epoch_offsets []
        (trigger_key t) = Some a \<and> settles a"
    using wit_all_settle by (auto simp: list_all_iff split: option.splits)
  from settled_mismatch_is_silent [OF ok len this refl] show ?thesis by blast
qed

theorem probes_sound_witness:
  "nonneg_opt (ep_end_offset (fst wit_probes ! 2)) \<and> length (snd (snd (snd wit_probes))) \<le> 4"
proof -
  have "length (fst wit_probes) = 3" using arg_cong [OF wit_probe_rows, of length] by simp
  then have "fst wit_probes ! 2 \<in> set (fst wit_probes)" by simp
  from probes_sound [OF this] show ?thesis by blast
qed

end
