(* ===== verification/Reassign.thy ===== *)
theory Reassign
  imports Epochs_Props
begin

text \<open>
  \<open>src/internal/collector/reassign.go\<close>: reassignments, asked for only when an under-replicated
  partition is observed in the topics the cycle ships.

  A \<open>kadm.TopicsSet\<close> under construction is the list of the pairs added to it. The two nested loops
  of \<open>underReplicated\<close> run over \<open>topic_partitions\<close>, their flattening. In an answer row, a nil
  replica list is \<open>None\<close>.
\<close>

subsection \<open>The code\<close>

definition maxReassignPartitions :: nat where "maxReassignPartitions = 1000"

type_synonym topics_set = "(string \<times> int32) list"

record reassign_answer =
  rr_topic :: string
  rr_partition :: int32
  rr_replicas :: "int32 list option"
  rr_adding :: "int32 list option"
  rr_removing :: "int32 list option"

type_synonym reassign_call = "topics_set \<Rightarrow> reassign_answer list \<times> goerr option"

definition topic_partitions :: "topic_metrics list \<Rightarrow> (string \<times> partition_metrics) list" where
  "topic_partitions topics = concat (map (\<lambda>t. map (\<lambda>p. (t_name t, p)) (t_partitions t)) topics)"

fun underReplicated_loop ::
    "(string \<times> partition_metrics) list \<Rightarrow> topics_set \<Rightarrow> nat \<Rightarrow> topics_set \<times> bool" where
  "underReplicated_loop [] s n = (s, False)"
| "underReplicated_loop ((t, p) # ps) s n =
     (if length (p_replicas p) = 0 \<or> length (p_isr p) \<ge> length (p_replicas p)
      then underReplicated_loop ps s n
      else if n \<ge> maxReassignPartitions then (s, True)
      else underReplicated_loop ps (s @ [(t, p_id p)]) (n + 1))"

definition underReplicated :: "topic_metrics list \<Rightarrow> topics_set \<times> bool" where
  "underReplicated topics = underReplicated_loop (topic_partitions topics) [] 0"

definition int32sOrEmpty :: "int32 list option \<Rightarrow> int32 list" where
  "int32sOrEmpty v = (case v of None \<Rightarrow> [] | Some l \<Rightarrow> l)"

fun buildReassignments :: "reassign_answer list \<Rightarrow> reassignment list" where
  "buildReassignments [] = []"
| "buildReassignments (r # rs) =
     (if length (int32sOrEmpty (rr_adding r)) = 0 \<and> length (int32sOrEmpty (rr_removing r)) = 0
      then buildReassignments rs
      else \<lparr>ra_topic = rr_topic r, ra_partition = rr_partition r,
            ra_replicas = int32sOrEmpty (rr_replicas r), ra_adding = int32sOrEmpty (rr_adding r),
            ra_removing = int32sOrEmpty (rr_removing r)\<rparr> # buildReassignments rs)"

definition collectReassignments ::
    "collector \<Rightarrow> reassign_call \<Rightarrow> topic_metrics list \<Rightarrow> bool \<Rightarrow>
     reassignment list \<times> sect \<times> topics_set list" where
  "collectReassignments c call topics run =
     (let sec = newSection c ''reassignments''
      in if \<not> run then ([], stopSection c (downgrade SectionSkipped sec), [])
         else let (s, truncated) = underReplicated topics;
                  sec1 = sec\<lparr>s_truncated := truncated\<rparr>
              in if length s = 0 then ([], stopSection c (downgrade SectionSkipped sec1), [])
                 else let (listed, err) = call s;
                          (ok, sec2) = request (cn_codes c) ''ListPartitionReassignments'' err sec1
                      in (if ok then buildReassignments listed else [], stopSection c sec2, [s]))"

subsection \<open>The trigger\<close>

definition under_replicated :: "partition_metrics \<Rightarrow> bool" where
  "under_replicated p \<longleftrightarrow> p_replicas p \<noteq> [] \<and> length (p_isr p) < length (p_replicas p)"

definition urps :: "topic_metrics list \<Rightarrow> topics_set" where
  "urps topics =
     map (\<lambda>(t, p). (t, p_id p)) (filter (\<lambda>(t, p). under_replicated p) (topic_partitions topics))"

lemma underReplicated_loop_eq:
  "n \<le> maxReassignPartitions \<Longrightarrow>
     underReplicated_loop ps s n =
       (let us = map (\<lambda>(t, p). (t, p_id p)) (filter (\<lambda>(t, p). under_replicated p) ps)
        in (s @ take (maxReassignPartitions - n) us, length us > maxReassignPartitions - n))"
proof (induction ps s n rule: underReplicated_loop.induct)
  case (2 t p ps s n)
  show ?case
  proof (cases "under_replicated p")
    case False
    with 2 show ?thesis by (auto simp: under_replicated_def)
  next
    case True
    then have c: "\<not> (length (p_replicas p) = 0 \<or> length (p_isr p) \<ge> length (p_replicas p))"
      by (auto simp: under_replicated_def)
    show ?thesis
    proof (cases "n \<ge> maxReassignPartitions")
      case True
      with c \<open>under_replicated p\<close> 2(3) show ?thesis by (simp add: Let_def)
    next
      case False
      then obtain m where "maxReassignPartitions - n = Suc m" "maxReassignPartitions - (n + 1) = m"
        by (metis Suc_diff_Suc add.commute not_le plus_1_eq_Suc)
      with 2(2) [OF c False] False c \<open>under_replicated p\<close> show ?thesis by (simp add: Let_def)
    qed
  qed
qed simp

lemma underReplicated_eq: "underReplicated topics = (take 1000 (urps topics), 1000 < length (urps topics))"
  by (simp add: underReplicated_def underReplicated_loop_eq urps_def maxReassignPartitions_def Let_def)

lemma set_urps:
  "(topic, pid) \<in> set (urps topics) \<longleftrightarrow>
     (\<exists>t \<in> set topics. \<exists>p \<in> set (t_partitions t). t_name t = topic \<and> p_id p = pid \<and> under_replicated p)"
  by (force simp: urps_def topic_partitions_def)

lemma buildReassignments_rows:
  "r \<in> set (buildReassignments listed) \<Longrightarrow> ra_adding r \<noteq> [] \<or> ra_removing r \<noteq> []"
  by (induction listed) (auto split: if_splits)

lemma truncated_any_ext: "phase_section n s \<Longrightarrow> s_dropped s = no_truncation \<Longrightarrow>
    phase_section n (s\<lparr>s_truncated := b\<rparr>)"
  by (auto simp: phase_section_def sec_inv_def)

lemma collectReassignments_section:
  "phase_section ''reassignments'' (fst (snd (collectReassignments c call topics run)))"
proof -
  have t: "phase_section ''reassignments'' (newSection c ''reassignments''\<lparr>s_truncated := b\<rparr>)" for b
    by (rule truncated_any_ext) simp_all
  show ?thesis
    unfolding collectReassignments_def Let_def split_beta
    by (auto simp: t)
qed

subsection \<open>Properties\<close>

text \<open>
  Reassignments are asked for exactly when they can matter: a request goes out if and only if
  the phase is enabled and some partition the cycle ships is under-replicated (has replicas, and
  fewer in sync than assigned); it names those partitions in batch order, at most 1000, marks the
  section truncated when there are more, and without one the section is skipped, not ok.
\<close>

theorem reassignments_trigger:
  "(snd (snd (collectReassignments c call topics run)) =
      (if run \<and> urps topics \<noteq> [] then [take 1000 (urps topics)] else [])) \<and>
   (\<not> (run \<and> urps topics \<noteq> []) \<longrightarrow>
      fst (collectReassignments c call topics run) = [] \<and>
      s_status (fst (snd (collectReassignments c call topics run))) = SectionSkipped) \<and>
   (run \<and> length (urps topics) > 1000 \<longrightarrow>
      snd (underReplicated topics)) \<and>
   (\<forall>r \<in> set (fst (collectReassignments c call topics run)). ra_adding r \<noteq> [] \<or> ra_removing r \<noteq> [])"
  using buildReassignments_rows
  by (auto simp: collectReassignments_def underReplicated_eq Let_def split_beta status_order)

subsection \<open>A worked cycle\<close>

definition wit_reassign_call :: reassign_call where
  "wit_reassign_call s =
     (map (\<lambda>(t, p). \<lparr>rr_topic = t, rr_partition = p, rr_replicas = Some [2, 1, 3],
        rr_adding = Some [3], rr_removing = None\<rparr>) s, None)"

theorem reassignments_trigger_witness:
  "snd (snd (collectReassignments wit_collector wit_reassign_call wit_epoch_topics True)) =
     [[(''orders'', 1)]] \<and>
   s_status (fst (snd (collectReassignments wit_collector wit_reassign_call [] True))) = SectionSkipped"
proof -
  have "urps wit_epoch_topics = [(''orders'', 1)]" "urps [] = []" by code_simp+
  with reassignments_trigger [of wit_collector wit_reassign_call wit_epoch_topics True]
    reassignments_trigger [of wit_collector wit_reassign_call "[]" True]
  show ?thesis by simp
qed

end
