(* ===== verification/LogDirs.thy ===== *)
theory LogDirs
  imports Reassign
begin

text \<open>
  \<open>src/internal/collector/logdirs.go\<close>: the on-disk footprint of every replica of the selected
  topics, on either request path, and the detection of a broker that silently refused.

  A \<open>logDirReport\<close> is an association list from brokers to directories: its key set is observed.
  \<open>raw\<close> is \<open>RequestSharded\<close> on the request's topics, \<open>kd\<close> is \<open>DescribeAllLogDirs\<close>, and \<open>caps\<close> is
  the cached capability probe (\<open>None\<close> when it failed). \<open>efc\<close> is \<open>kerr.ErrorForCode\<close>. A shard's
  response is \<open>None\<close> when it is of another type.
\<close>

subsection \<open>Data\<close>

definition apiDescribeLogDirs :: string where "apiDescribeLogDirs = ''DescribeLogDirs''"

record described_dir =
  dd_broker :: int32
  dd_dir :: string
  dd_err :: "goerr option"
  dd_total :: "int64 option"
  dd_usable :: "int64 option"
  dd_partitions :: "log_dir_partition list option"

type_synonym log_dir_report = "(int32 \<times> described_dir list) list"

record raw_log_dir =
  rl_code :: int16
  rl_dir :: string
  rl_total :: int64
  rl_usable :: int64
  rl_topics :: "(string \<times> log_dir_partition list) list"

record raw_log_dirs_response =
  rlr_code :: int16
  rlr_dirs :: "raw_log_dir list"

record log_dir_shard =
  lsh_node :: int32
  lsh_err :: "goerr option"
  lsh_resp :: "raw_log_dirs_response option"

type_synonym log_dirs_request = "(string \<times> int32 list) list"

type_synonym raw_log_dirs_call = "log_dirs_request \<Rightarrow> log_dir_shard list"

record kadm_log_dir =
  kl_dir :: string
  kl_err :: "goerr option"
  kl_partitions :: "log_dir_partition list"

type_synonym kadm_log_dirs_call =
  "topics_set \<Rightarrow> (int32 \<times> kadm_log_dir list) list \<times> goerr option"

subsection \<open>The request\<close>

definition logDirTopics :: "collector \<Rightarrow> topic_detail list \<Rightarrow> topics_set" where
  "logDirTopics c tds =
     concat (map (\<lambda>td. map (\<lambda>p. (td_topic td, pd_partition p)) (td_partitions td))
       (selectTopics tds (cn_topics c) (op_include_internal (cn_opts c))))"

text \<open>\<open>kadm.TopicsSet.Sorted\<close>: topics in order, each with its partitions in order.\<close>

definition topics_set_sorted :: "topics_set \<Rightarrow> (string \<times> int32 list) list" where
  "topics_set_sorted s =
     map (\<lambda>t. (t, sort (remdups (map snd (filter (\<lambda>tp. fst tp = t) s)))))
       (sort (remdups (map fst s)))"

definition describeLogDirsRequest :: "topics_set \<Rightarrow> log_dirs_request" where
  "describeLogDirsRequest s = map (\<lambda>(t, ps). (t, ps)) (topics_set_sorted s)"

definition supportsLogDirVolumeBytes :: "bool option \<Rightarrow> bool" where
  "supportsLogDirVolumeBytes caps = (case caps of None \<Rightarrow> False | Some b \<Rightarrow> b)"

subsection \<open>Decoding\<close>

definition nullableBytes :: "int64 \<Rightarrow> int64 option" where
  "nullableBytes v = nullableOffset v None"

definition logDirPartitions :: "raw_log_dir \<Rightarrow> log_dir_partition list" where
  "logDirPartitions d =
     sort_key (\<lambda>p. (ldp_topic p, ldp_partition p))
       (concat (map (\<lambda>(t, ps). map (\<lambda>p. p\<lparr>ldp_topic := t\<rparr>) ps) (rl_topics d)))"

definition shardLogDirs ::
    "(int16 \<Rightarrow> goerr option) \<Rightarrow> log_dir_shard \<Rightarrow> goerr + described_dir list" where
  "shardLogDirs efc shard =
     (case lsh_err shard of
        Some e \<Rightarrow> Inl e
      | None \<Rightarrow>
          (case lsh_resp shard of
             None \<Rightarrow> Inl errNotLogDirsResponse
           | Some resp \<Rightarrow>
               (case efc (rlr_code resp) of
                  Some e \<Rightarrow> Inl e
                | None \<Rightarrow>
                    Inr (map (\<lambda>d. \<lparr>dd_broker = lsh_node shard, dd_dir = rl_dir d,
                           dd_err = efc (rl_code d), dd_total = nullableBytes (rl_total d),
                           dd_usable = nullableBytes (rl_usable d),
                           dd_partitions = (if efc (rl_code d) = None then Some (logDirPartitions d)
                             else None)\<rparr>) (rlr_dirs resp)))))"

fun logDirShards_loop ::
    "(int16 \<Rightarrow> goerr option) \<Rightarrow> log_dir_shard list \<Rightarrow> log_dir_report \<Rightarrow> (int32 \<times> goerr) list \<Rightarrow>
     log_dir_report \<times> (int32 \<times> goerr) list" where
  "logDirShards_loop efc [] report errs = (report, errs)"
| "logDirShards_loop efc (shard # shards) report errs =
     (case shardLogDirs efc shard of
        Inl e \<Rightarrow> logDirShards_loop efc shards report (errs @ [(lsh_node shard, e)])
      | Inr dirs \<Rightarrow> logDirShards_loop efc shards (AList.update (lsh_node shard) dirs report) errs)"

definition shard_errors :: "(int32 \<times> goerr) list \<Rightarrow> bool \<Rightarrow> goerr" where
  "shard_errors errs allFailed = GoErr (Some (errs, allFailed)) None None False False False []"

definition logDirShards ::
    "(int16 \<Rightarrow> goerr option) \<Rightarrow> log_dir_shard list \<Rightarrow> log_dir_report \<times> goerr option" where
  "logDirShards efc shards =
     (let (report, errs) = logDirShards_loop efc shards [] []
      in if length errs = 0 then (report, None)
         else (report, Some (shard_errors errs (length errs = length shards))))"

definition kadmLogDirs :: "(int32 \<times> kadm_log_dir list) list \<Rightarrow> log_dir_report" where
  "kadmLogDirs described =
     map (\<lambda>(b, ds). (b, map (\<lambda>d. \<lparr>dd_broker = b, dd_dir = kl_dir d, dd_err = kl_err d,
       dd_total = None, dd_usable = None,
       dd_partitions = (if kl_err d = None then Some (kl_partitions d) else None)\<rparr>) ds)) described"

definition describeLogDirs ::
    "(int16 \<Rightarrow> goerr option) \<Rightarrow> bool option \<Rightarrow> raw_log_dirs_call \<Rightarrow> kadm_log_dirs_call \<Rightarrow> topics_set \<Rightarrow>
     log_dir_report \<times> goerr option" where
  "describeLogDirs efc caps raw kd s =
     (if supportsLogDirVolumeBytes caps then logDirShards efc (raw (describeLogDirsRequest s))
      else let (described, err) = kd s in (kadmLogDirs described, err))"

subsection \<open>Shaping\<close>

definition report_sorted :: "log_dir_report \<Rightarrow> described_dir list" where
  "report_sorted r = sort_key (\<lambda>d. (dd_broker d, dd_dir d)) (concat (map snd r))"

fun log_dir_rows :: "kerr_codes \<Rightarrow> described_dir list \<Rightarrow> sect \<Rightarrow> log_dir list \<times> sect" where
  "log_dir_rows kc [] sec = ([], sec)"
| "log_dir_rows kc (d # ds) sec =
     (let lg = \<lparr>ld_broker = dd_broker d, ld_dir = dd_dir d, ld_total_bytes = dd_total d,
                ld_usable_bytes = dd_usable d, ld_error_code = 0, ld_partitions = None\<rparr>
      in case dd_err d of
           Some e \<Rightarrow>
             (let (rest, sec2) = log_dir_rows kc ds
                    (recordLogDir kc apiDescribeLogDirs (dd_broker d) (dd_dir d) e sec)
              in (lg\<lparr>ld_error_code := errorCode (Some e)\<rparr> # rest, sec2))
         | None \<Rightarrow>
             (let (rest, sec2) = log_dir_rows kc ds sec
              in (lg\<lparr>ld_partitions := dd_partitions d\<rparr> # rest, sec2)))"

fun silent_refusals :: "kerr_codes \<Rightarrow> log_dir_report \<Rightarrow> broker list \<Rightarrow> sect \<Rightarrow> sect" where
  "silent_refusals kc described [] sec = sec"
| "silent_refusals kc described (b # bs) sec =
     silent_refusals kc described bs
       (if map_of described (b_id b) = Some []
        then recordLogDir kc apiDescribeLogDirs (b_id b) [] errNoLogDirs sec else sec)"

definition buildLogDirs ::
    "kerr_codes \<Rightarrow> log_dir_report \<Rightarrow> cluster_metrics \<Rightarrow> sect \<Rightarrow> log_dir list \<times> sect" where
  "buildLogDirs kc described cluster sec =
     (let (dirs, sec1) = log_dir_rows kc (report_sorted described) sec
      in (dirs, silent_refusals kc described (cl_brokers cluster) sec1))"

text \<open>The third component: the set described, when a request is issued.\<close>

definition collectLogDirs ::
    "collector \<Rightarrow> (int16 \<Rightarrow> goerr option) \<Rightarrow> bool option \<Rightarrow> raw_log_dirs_call \<Rightarrow> kadm_log_dirs_call \<Rightarrow>
     cluster_metrics option \<Rightarrow> topic_details \<Rightarrow> bool \<Rightarrow> log_dir list \<times> sect \<times> topics_set list" where
  "collectLogDirs c efc caps raw kd cluster tds run =
     (let sec = newSection c ''log_dirs'';
          skip = ([], stopSection c (downgrade SectionSkipped sec), [])
      in case (run, tds, cluster) of
           (True, Some l, Some cl) \<Rightarrow>
             (let s = logDirTopics c l
              in if length s = 0 then skip
                 else let (described, err) = describeLogDirs efc caps raw kd s;
                          (ok, sec1) = request (cn_codes c) apiDescribeLogDirs err sec
                      in if \<not> ok \<and> length described = 0 then ([], stopSection c sec1, [s])
                         else let (dirs, sec2) = buildLogDirs (cn_codes c) described cl sec1
                              in (dirs, stopSection c sec2, [s]))
         | _ \<Rightarrow> skip)"


subsection \<open>The report\<close>

definition dir_ok :: "described_dir \<Rightarrow> bool" where
  "dir_ok d \<longleftrightarrow> (dd_partitions d = None \<longleftrightarrow> dd_err d \<noteq> None) \<and>
     nonneg_opt (dd_total d) \<and> nonneg_opt (dd_usable d)"

definition report_ok :: "log_dir_report \<Rightarrow> bool" where
  "report_ok r \<longleftrightarrow> (\<forall>ds \<in> snd ` set r. \<forall>d \<in> set ds. dir_ok d)"

lemma shardLogDirs_ok: "shardLogDirs efc shard = Inr ds \<Longrightarrow> d \<in> set ds \<Longrightarrow> dir_ok d"
  by (auto simp: shardLogDirs_def dir_ok_def nullableBytes_def split: option.splits if_splits)

lemma report_ok_update: "report_ok r \<Longrightarrow> \<forall>d \<in> set ds. dir_ok d \<Longrightarrow> report_ok (AList.update k ds r)"
proof -
  have "snd ` set (AList.update k ds r) \<subseteq> insert ds (snd ` set r)"
    by (induction r) auto
  then show "report_ok r \<Longrightarrow> \<forall>d \<in> set ds. dir_ok d \<Longrightarrow> report_ok (AList.update k ds r)"
    by (auto simp: report_ok_def)
qed

lemma logDirShards_loop_ok:
  "report_ok r \<Longrightarrow> report_ok (fst (logDirShards_loop efc shards r errs))"
proof (induction shards arbitrary: r errs)
  case (Cons shard shards)
  then show ?case
    using shardLogDirs_ok [of efc shard] report_ok_update [of r]
    by (cases "shardLogDirs efc shard") auto
qed simp

lemma logDirShards_loop_errs:
  "snd (logDirShards_loop efc shards r errs) =
     errs @ List.map_filter (\<lambda>shard. case shardLogDirs efc shard of
       Inl e \<Rightarrow> Some (lsh_node shard, e) | Inr _ \<Rightarrow> None) shards"
  by (induction shards arbitrary: r errs) (auto simp: map_filter_simps split: sum.split)

lemma logDirShards_loop_keys:
  "fst ` set (fst (logDirShards_loop efc shards r errs)) =
     fst ` set r \<union> lsh_node ` {shard \<in> set shards. \<exists>ds. shardLogDirs efc shard = Inr ds}"
  by (induction shards arbitrary: r errs)
    (auto simp: fst_set_alist_update split: sum.split)

lemma describeLogDirs_ok: "report_ok (fst (describeLogDirs efc caps raw kd s))"
proof -
  have "report_ok (kadmLogDirs x)" for x
    by (auto simp: kadmLogDirs_def report_ok_def dir_ok_def split: if_splits)
  moreover have "report_ok []" by (simp add: report_ok_def)
  ultimately show ?thesis
    using logDirShards_loop_ok by (simp add: describeLogDirs_def logDirShards_def split_beta Let_def)
qed

definition log_dir_row :: "described_dir \<Rightarrow> log_dir" where
  "log_dir_row d =
     \<lparr>ld_broker = dd_broker d, ld_dir = dd_dir d, ld_total_bytes = dd_total d,
      ld_usable_bytes = dd_usable d, ld_error_code = errorCode (dd_err d),
      ld_partitions = (if dd_err d = None then dd_partitions d else None)\<rparr>"

lemma log_dir_rows_fst: "fst (log_dir_rows kc ds sec) = map log_dir_row ds"
  by (induction ds arbitrary: sec)
    (auto simp: log_dir_row_def split_beta Let_def split: option.split)

lemma log_dir_rows_status:
  "s_status (snd (log_dir_rows kc ds sec)) =
     (if \<exists>d \<in> set ds. dd_err d \<noteq> None then max (s_status sec) SectionPartial else s_status sec)"
proof (induction ds arbitrary: sec)
  case (Cons d ds)
  show ?case
    by (cases "dd_err d") (simp_all add: split_beta Let_def Cons max.assoc)
qed simp

lemma log_dir_rows_phase [simp]:
  "phase_section n sec \<Longrightarrow> phase_section n (snd (log_dir_rows kc ds sec))"
  by (induction ds arbitrary: sec) (auto simp: split_beta Let_def split: option.split)

lemma silent_refusals_status:
  "s_status (silent_refusals kc r bs sec) =
     (if \<exists>b \<in> set bs. map_of r (b_id b) = Some [] then max (s_status sec) SectionPartial
      else s_status sec)"
  by (induction bs arbitrary: sec) (auto simp: max.assoc)

lemma silent_refusals_phase [simp]:
  "phase_section n sec \<Longrightarrow> phase_section n (silent_refusals kc r bs sec)"
  by (induction bs arbitrary: sec) auto

lemma collectLogDirs_skip:
  assumes "\<not> run \<or> tds = None \<or> cluster = None \<or> logDirTopics c (the tds) = []"
  shows "collectLogDirs c efc caps raw kd cluster tds run =
    ([], stopSection c (downgrade SectionSkipped (newSection c ''log_dirs'')), [])"
  using assms by (cases run; cases tds; cases cluster) (auto simp: collectLogDirs_def Let_def)

lemma collectLogDirs_run:
  assumes "run" "logDirTopics c l \<noteq> []"
  shows "collectLogDirs c efc caps raw kd (Some cl) (Some l) run =
    (let s = logDirTopics c l; (described, err) = describeLogDirs efc caps raw kd s;
         (ok, sec1) = request (cn_codes c) apiDescribeLogDirs err (newSection c ''log_dirs'')
     in if \<not> ok \<and> length described = 0 then ([], stopSection c sec1, [s])
        else let (dirs, sec2) = buildLogDirs (cn_codes c) described cl sec1
             in (dirs, stopSection c sec2, [s]))"
  using assms by (simp add: collectLogDirs_def Let_def)

lemma collectLogDirs_section:
  "phase_section ''log_dirs'' (fst (snd (collectLogDirs c efc caps raw kd cluster tds run)))"
proof (cases "\<not> run \<or> tds = None \<or> cluster = None \<or> logDirTopics c (the tds) = []")
  case True
  then show ?thesis by (simp add: collectLogDirs_skip)
next
  case False
  then obtain l cl where "tds = Some l" "cluster = Some cl" by auto
  with False show ?thesis
    by (simp add: collectLogDirs_run Let_def split_beta buildLogDirs_def)
qed

lemma set_logDirTopics:
  "(topic, pid) \<in> set (logDirTopics c l) \<longleftrightarrow>
     (\<exists>td \<in> set (selected c (Some l)). \<exists>p \<in> set (td_partitions td). td_topic td = topic \<and>
        pd_partition p = pid)"
  by (force simp: logDirTopics_def selected_def)

lemma topics_set_sorted_iff:
  "(t, ps) \<in> set (topics_set_sorted s) \<longleftrightarrow>
     t \<in> fst ` set s \<and> ps = sort (remdups (map snd (filter (\<lambda>tp. fst tp = t) s)))"
  by (auto simp: topics_set_sorted_def)

lemma topics_set_sorted_pairs:
  "{(t, p). \<exists>ps. (t, ps) \<in> set (topics_set_sorted s) \<and> p \<in> set ps} = set s"
  unfolding topics_set_sorted_iff by force

lemma topics_set_sorted_nonempty:
  assumes "(t, ps) \<in> set (topics_set_sorted s)"
  shows "ps \<noteq> []"
proof -
  from assms obtain tp where "tp \<in> set s" "fst tp = t"
    and ps: "ps = sort (remdups (map snd (filter (\<lambda>tp. fst tp = t) s)))"
    by (auto simp: topics_set_sorted_iff)
  then have "snd tp \<in> set ps" by simp
  then show ?thesis by auto
qed

subsection \<open>Properties\<close>

text \<open>
  The log-directory request never describes the whole cluster: a request names at least one
  partition, and exactly the partitions of the selected topics (the topics the batch ships); on the
  raw path the encoded request names the same partitions, each topic with a non-empty list. A
  filter that matches nothing, or metadata that failed, issues no request at all.
\<close>

theorem logDirs_scope:
  assumes "s \<in> set (snd (snd (collectLogDirs c efc caps raw kd cluster tds run)))"
  shows "s \<noteq> [] \<and>
    set s = {(td_topic td, pd_partition p) |td p. td \<in> set (selected c tds) \<and> p \<in> set (td_partitions td)} \<and>
    {(t, p). \<exists>ps. (t, ps) \<in> set (describeLogDirsRequest s) \<and> p \<in> set ps} = set s \<and>
    (\<forall>(t, ps) \<in> set (describeLogDirsRequest s). ps \<noteq> [])"
proof -
  have "\<not> (\<not> run \<or> tds = None \<or> cluster = None \<or> logDirTopics c (the tds) = [])"
  proof
    assume "\<not> run \<or> tds = None \<or> cluster = None \<or> logDirTopics c (the tds) = []"
    from collectLogDirs_skip [OF this, of efc caps raw kd] assms show False by simp
  qed
  then obtain l cl where l: "tds = Some l" "cluster = Some cl" "run" "logDirTopics c l \<noteq> []"
    by auto
  with assms have s: "s = logDirTopics c l"
    by (simp add: collectLogDirs_run Let_def split_beta split: if_splits)
  have "set s = {(td_topic td, pd_partition p) |td p.
      td \<in> set (selected c tds) \<and> p \<in> set (td_partitions td)}"
  proof (rule set_eqI)
    fix x
    show "x \<in> set s \<longleftrightarrow> x \<in> {(td_topic td, pd_partition p) |td p.
        td \<in> set (selected c tds) \<and> p \<in> set (td_partitions td)}"
    proof -
      obtain t q where x: "x = (t, q)" by (cases x)
      have "x \<in> set s \<longleftrightarrow> (\<exists>td \<in> set (selected c tds). \<exists>p \<in> set (td_partitions td).
          td_topic td = t \<and> pd_partition p = q)"
        unfolding s l(1) x by (rule set_logDirTopics)
      then show ?thesis unfolding x by blast
    qed
  qed
  note eq = this
  have d: "describeLogDirsRequest s = topics_set_sorted s"
    by (simp add: describeLogDirsRequest_def)
  have "\<forall>(t, ps) \<in> set (topics_set_sorted s). ps \<noteq> []"
    using topics_set_sorted_nonempty by blast
  moreover have "s \<noteq> []" using l(4) s by simp
  ultimately show ?thesis
    unfolding d topics_set_sorted_pairs using eq by (intro conjI) (assumption | rule refl)+
qed

text \<open>An ok section of the log directories: the phase ran and its request did not fail.\<close>

lemma logDirs_ok_ran:
  assumes "s_status (fst (snd (collectLogDirs c efc caps raw kd (Some cl) (Some l) run))) = SectionOK"
  shows run "logDirTopics c l \<noteq> []" "snd (describeLogDirs efc caps raw kd (logDirTopics c l)) = None"
proof -
  let ?s = "logDirTopics c l"
  let ?d = "describeLogDirs efc caps raw kd ?s"
  let ?req = "request (cn_codes c) apiDescribeLogDirs (snd ?d) (newSection c ''log_dirs'')"
  show run: run "?s \<noteq> []"
  proof -
    have "\<not> (\<not> run \<or> Some l = None \<or> Some cl = None \<or> logDirTopics c (the (Some l)) = [])"
    proof
      assume "\<not> run \<or> Some l = None \<or> Some cl = None \<or> logDirTopics c (the (Some l)) = []"
      from collectLogDirs_skip [OF this, of efc caps raw kd] assms show False
        by (simp add: status_order)
    qed
    then show run "?s \<noteq> []" by auto
  qed
  have "s_status (snd ?req) = max SectionOK (request_status (cn_codes c) (snd ?d))"
    by (simp add: request_status_of)
  moreover have "request_status (cn_codes c) (snd ?d) \<noteq> SectionOK" if "snd ?d \<noteq> None"
    using that by (auto simp: request_status_def split: option.splits)
  ultimately show "snd ?d = None"
  proof (rule_tac ccontr)
    assume a: "snd ?d \<noteq> None" "s_status (snd ?req) = max SectionOK (request_status (cn_codes c) (snd ?d))"
      "snd ?d \<noteq> None \<Longrightarrow> request_status (cn_codes c) (snd ?d) \<noteq> SectionOK"
    then have bad: "s_status (snd ?req) \<noteq> SectionOK"
      by (cases "request_status (cn_codes c) (snd ?d)") (auto simp: status_order)
    have "SectionOK < s_status (snd ?req)"
      using bad by (cases "s_status (snd ?req)") (auto simp: status_order)
    then show False
      using assms run
      by (auto simp: collectLogDirs_run Let_def split_beta buildLogDirs_def silent_refusals_status
          log_dir_rows_status status_order split: if_splits)
  qed
qed

lemma describeLogDirs_shards:
  assumes "snd (describeLogDirs efc (Some True) raw kd s) = None"
    and "shard \<in> set (raw (describeLogDirsRequest s))"
  shows "\<exists>ds. shardLogDirs efc shard = Inr ds"
proof (cases "shardLogDirs efc shard")
  case (Inl e)
  let ?f = "\<lambda>shard. case shardLogDirs efc shard of Inl e \<Rightarrow> Some (lsh_node shard, e) | Inr _ \<Rightarrow> None"
  have "(lsh_node shard, e) \<in> set (List.map_filter ?f (raw (describeLogDirsRequest s)))"
    using assms(2) Inl by (force simp: List.map_filter_def)
  then have "snd (describeLogDirs efc (Some True) raw kd s) \<noteq> None"
    using logDirShards_loop_errs [of efc "raw (describeLogDirsRequest s)" "[]" "[]"]
    by (auto simp: describeLogDirs_def supportsLogDirVolumeBytes_def logDirShards_def Let_def split_beta)
  with assms(1) show ?thesis by simp
qed auto

text \<open>The replicas one directory of a broker's answer lists, and the rows the answers call for.\<close>

definition raw_replicas :: "raw_log_dir \<Rightarrow> log_dir_partition list" where
  "raw_replicas d = concat (map (\<lambda>(t, ps). map (\<lambda>p. p\<lparr>ldp_topic := t\<rparr>) ps) (rl_topics d))"

definition raw_rows :: "log_dir_shard list \<Rightarrow> (int32 \<times> string \<times> log_dir_partition multiset) list" where
  "raw_rows shards =
     concat (map (\<lambda>shard. case lsh_resp shard of None \<Rightarrow> [] | Some resp \<Rightarrow>
       map (\<lambda>d. (lsh_node shard, rl_dir d, mset (raw_replicas d))) (rlr_dirs resp)) shards)"

definition kadm_rows ::
    "(int32 \<times> kadm_log_dir list) list \<Rightarrow> (int32 \<times> string \<times> log_dir_partition multiset) list" where
  "kadm_rows described =
     concat (map (\<lambda>(b, ds). map (\<lambda>d. (b, kl_dir d, mset (kl_partitions d))) ds) described)"

definition shipped_row :: "log_dir \<Rightarrow> int32 \<times> string \<times> log_dir_partition multiset" where
  "shipped_row row = (ld_broker row, ld_dir row, mset (case ld_partitions row of None \<Rightarrow> [] | Some ps \<Rightarrow> ps))"

definition dir_triple :: "described_dir \<Rightarrow> int32 \<times> string \<times> log_dir_partition multiset" where
  "dir_triple d = (dd_broker d, dd_dir d, mset (case dd_partitions d of None \<Rightarrow> [] | Some ps \<Rightarrow> ps))"

lemma alist_update_fresh: "k \<notin> fst ` set al \<Longrightarrow> AList.update k v al = al @ [(k, v)]"
  by (induction al) auto

lemma logDirShards_loop_report:
  assumes "\<forall>shard \<in> set shards. \<exists>ds. shardLogDirs efc shard = Inr ds"
    and "distinct (map lsh_node shards)" "fst ` set r \<inter> lsh_node ` set shards = {}"
  shows "fst (logDirShards_loop efc shards r errs) =
    r @ map (\<lambda>shard. (lsh_node shard, projr (shardLogDirs efc shard))) shards"
  using assms
proof (induction shards arbitrary: r)
  case (Cons shard shards)
  then obtain ds where "shardLogDirs efc shard = Inr ds" by auto
  moreover have "lsh_node shard \<notin> fst ` set r" using Cons.prems(3) by auto
  ultimately show ?case
    using Cons.IH [of "r @ [(lsh_node shard, ds)]"] Cons.prems by (auto simp: alist_update_fresh)
qed simp

lemma shardLogDirs_rows:
  assumes "shardLogDirs efc shard = Inr ds" "\<forall>d \<in> set ds. dd_err d = None"
  shows "map dir_triple ds = (case lsh_resp shard of None \<Rightarrow> [] | Some resp \<Rightarrow>
    map (\<lambda>d. (lsh_node shard, rl_dir d, mset (raw_replicas d))) (rlr_dirs resp))"
  using assms
  by (auto simp: shardLogDirs_def dir_triple_def logDirPartitions_def raw_replicas_def
      split: option.splits)

lemma raw_rows_report:
  assumes "\<forall>shard \<in> set shards. \<exists>ds. shardLogDirs efc shard = Inr ds"
    and "\<forall>d \<in> set (concat (map (\<lambda>shard. projr (shardLogDirs efc shard)) shards)). dd_err d = None"
  shows "map dir_triple (concat (map (\<lambda>shard. projr (shardLogDirs efc shard)) shards)) = raw_rows shards"
  using assms
proof (induction shards)
  case (Cons shard shards)
  then obtain ds where "shardLogDirs efc shard = Inr ds" by auto
  with Cons shardLogDirs_rows [of efc shard ds] show ?case by (simp add: raw_rows_def)
qed (simp add: raw_rows_def)

lemma kadm_rows_report:
  assumes "\<forall>d \<in> set (concat (map snd (kadmLogDirs described))). dd_err d = None"
  shows "map dir_triple (concat (map snd (kadmLogDirs described))) = kadm_rows described"
proof -
  have "\<forall>(b, ds) \<in> set described. \<forall>d \<in> set ds. kl_err d = None"
    using assms by (fastforce simp: kadmLogDirs_def)
  then show ?thesis
  proof (induction described)
    case (Cons x described)
    obtain b ds where x: "x = (b, ds)" by (cases x)
    have "map dir_triple (concat (map snd (kadmLogDirs [x]))) = kadm_rows [x]"
      using Cons.prems by (simp add: x kadmLogDirs_def kadm_rows_def dir_triple_def)
    with Cons show ?case by (simp add: kadmLogDirs_def kadm_rows_def)
  qed (simp add: kadmLogDirs_def kadm_rows_def)
qed


subsection \<open>A worked cluster\<close>

definition wit_efc :: "int16 \<Rightarrow> goerr option" where
  "wit_efc code = (if code = 0 then None else Some (GoErr None None (Some code) False False False []))"

lemma wit_efc_ok: "error_for_code_ok wit_efc"
  by (auto simp: error_for_code_ok_def wit_efc_def)

definition wit_raw_dirs :: raw_log_dirs_call where
  "wit_raw_dirs req =
     [\<lparr>lsh_node = 1, lsh_err = None, lsh_resp = Some \<lparr>rlr_code = 0, rlr_dirs =
        [\<lparr>rl_code = 0, rl_dir = ''/d'', rl_total = 1000, rl_usable = -1, rl_topics =
           [(''orders'', [\<lparr>ldp_topic = [], ldp_partition = 0, ldp_size = 7, ldp_offset_lag = 0,
             ldp_is_future = False\<rparr>])]\<rparr>]\<rparr>\<rparr>]"

definition wit_kadm_dirs :: kadm_log_dirs_call where
  "wit_kadm_dirs s = ([], None)"

definition wit_cluster :: cluster_metrics where
  "wit_cluster = \<lparr>cl_id = ''c'', cl_broker_count = 1,
     cl_brokers = [\<lparr>b_id = 1, b_host = ''h'', b_port = 9092, b_rack = None\<rparr>],
     cl_capabilities = None\<rparr>"

abbreviation "wit_log_dirs \<equiv> collectLogDirs wit_collector wit_efc (Some True) wit_raw_dirs
  wit_kadm_dirs (Some wit_cluster) (Some [wit_detail]) True"

theorem logDirs_scope_witness:
  "set (hd (snd (snd wit_log_dirs))) =
     {(t, p). \<exists>ps. (t, ps) \<in> set (describeLogDirsRequest (hd (snd (snd wit_log_dirs)))) \<and> p \<in> set ps} \<and>
   hd (snd (snd wit_log_dirs)) \<noteq> []"
proof -
  have "length (snd (snd wit_log_dirs)) = 1" by code_simp
  then have "hd (snd (snd wit_log_dirs)) \<in> set (snd (snd wit_log_dirs))"
    by (intro hd_in_set) auto
  from logDirs_scope [OF this] show ?thesis by blast
qed

text \<open>Two brokers; the first has two directories, the second of them with two replicas.\<close>

definition wit_replica :: "int32 \<Rightarrow> log_dir_partition" where
  "wit_replica p = \<lparr>ldp_topic = [], ldp_partition = p, ldp_size = 7, ldp_offset_lag = 0,
     ldp_is_future = False\<rparr>"

definition wit_raw_two :: raw_log_dirs_call where
  "wit_raw_two req =
     [\<lparr>lsh_node = 2, lsh_err = None, lsh_resp = Some \<lparr>rlr_code = 0, rlr_dirs =
        [\<lparr>rl_code = 0, rl_dir = ''/e'', rl_total = 1000, rl_usable = -1, rl_topics = []\<rparr>,
         \<lparr>rl_code = 0, rl_dir = ''/d'', rl_total = 1000, rl_usable = 5, rl_topics =
           [(''orders'', [wit_replica 1, wit_replica 0])]\<rparr>]\<rparr>\<rparr>,
      \<lparr>lsh_node = 1, lsh_err = None, lsh_resp = Some \<lparr>rlr_code = 0, rlr_dirs =
        [\<lparr>rl_code = 0, rl_dir = ''/d'', rl_total = 1000, rl_usable = -1, rl_topics =
           [(''orders'', [wit_replica 1])]\<rparr>]\<rparr>\<rparr>]"

abbreviation "wit_two_dirs \<equiv> collectLogDirs wit_collector wit_efc (Some True) wit_raw_two
  wit_kadm_dirs (Some wit_cluster) (Some [wit_detail]) True"


end
