(* ===== verification/Configs.thy ===== *)
theory Configs
  imports LogDirs "HOL-Library.Word"
begin

text \<open>
  \<open>src/internal/collector/configs.go\<close>: topic and broker configuration, projected onto an allowlist.

  \<open>kmsg.ConfigSource\<close>'s constants are the constructors of \<open>config_source\<close>. The broker id is parsed
  in Go's \<open>int32\<close>, a \<open>32 word\<close> here: the multiplication wraps. \<open>range\<close> over a string yields runes; a
  byte of a multi-byte rune is never a digit, so reading bytes gives the same answer.
\<close>

subsection \<open>Data\<close>

definition apiDescribeConfigs :: string where "apiDescribeConfigs = ''DescribeConfigs''"

datatype config_source =
    DynamicTopicConfig
  | DynamicBrokerConfig
  | DynamicDefaultBrokerConfig
  | StaticBrokerConfig
  | DefaultConfig
  | DynamicBrokerLoggerConfig
  | ClientMetricsConfig
  | GroupConfig
  | OtherConfigSource int

record kadm_config =
  kc_key :: string
  kc_value :: "string option"
  kc_sensitive :: bool
  kc_source :: config_source

record resource_config =
  rc_name :: string
  rc_configs :: "kadm_config list"
  rc_err :: "goerr option"

definition topicConfigKeys :: "string list" where
  "topicConfigKeys =
     [''cleanup.policy'', ''min.insync.replicas'', ''retention.ms'', ''retention.bytes'',
      ''unclean.leader.election.enable'', ''segment.bytes'', ''segment.ms'',
      ''message.timestamp.type'', ''max.message.bytes'', ''compression.type'']"

definition brokerConfigKeys :: "string list" where
  "brokerConfigKeys =
     [''offsets.retention.minutes'', ''min.insync.replicas'', ''unclean.leader.election.enable'',
      ''default.replication.factor'', ''num.partitions'', ''auto.create.topics.enable'',
      ''log.retention.ms'', ''log.retention.bytes'', ''log.segment.bytes'',
      ''num.replica.fetchers'', ''transaction.max.timeout.ms'']"

subsection \<open>Projection\<close>

definition stripSensitive :: "kadm_config \<Rightarrow> string option" where
  "stripSensitive cfg = (if kc_sensitive cfg then None else kc_value cfg)"

fun configSourceName :: "config_source \<Rightarrow> string" where
  "configSourceName DynamicTopicConfig = ''DYNAMIC_TOPIC_CONFIG''"
| "configSourceName DynamicBrokerConfig = ''DYNAMIC_BROKER_CONFIG''"
| "configSourceName DynamicDefaultBrokerConfig = ''DYNAMIC_DEFAULT_BROKER_CONFIG''"
| "configSourceName StaticBrokerConfig = ''STATIC_BROKER_CONFIG''"
| "configSourceName DefaultConfig = ''DEFAULT_CONFIG''"
| "configSourceName DynamicBrokerLoggerConfig = ''DYNAMIC_BROKER_LOGGER_CONFIG''"
| "configSourceName ClientMetricsConfig = ''CLIENT_METRICS_CONFIG''"
| "configSourceName GroupConfig = ''GROUP_CONFIG''"
| "configSourceName (OtherConfigSource n) = []"

text \<open>\<open>byKey\<close>: the last of several entries of a key wins.\<close>

definition config_by_key :: "kadm_config list \<Rightarrow> string \<Rightarrow> kadm_config option" where
  "config_by_key cfgs key = map_of (rev (map (\<lambda>cfg. (kc_key cfg, cfg)) cfgs)) key"

fun selectConfigs_loop :: "(string \<Rightarrow> kadm_config option) \<Rightarrow> string list \<Rightarrow> config_entry list" where
  "selectConfigs_loop byKey [] = []"
| "selectConfigs_loop byKey (key # keys) =
     (case byKey key of
        None \<Rightarrow> selectConfigs_loop byKey keys
      | Some cfg \<Rightarrow>
          \<lparr>cf_key = kc_key cfg, cf_value = stripSensitive cfg, cf_sensitive = kc_sensitive cfg,
           cf_source = configSourceName (kc_source cfg)\<rparr> # selectConfigs_loop byKey keys)"

definition selectConfigs :: "kadm_config list \<Rightarrow> string list \<Rightarrow> config_entry list option" where
  "selectConfigs cfgs keys =
     (if length cfgs = 0 then None
      else let out = selectConfigs_loop (config_by_key cfgs) keys
           in if length out = 0 then None else Some out)"

text \<open>\<open>id = id*10 + (r - '0')\<close> in 32 bits.\<close>

fun brokerIDOf_loop :: "string \<Rightarrow> 32 word \<Rightarrow> int32" where
  "brokerIDOf_loop [] i = sint i"
| "brokerIDOf_loop (r # rs) i =
     (if (of_char r :: nat) < 48 \<or> (of_char r :: nat) > 57 then -1
      else brokerIDOf_loop rs (i * 10 + of_nat (of_char r - 48)))"

definition brokerIDOf :: "string \<Rightarrow> int32" where
  "brokerIDOf name = (if name = [] then -1 else brokerIDOf_loop name 0)"

subsection \<open>The phases\<close>

type_synonym topic_configs_call = "string list \<Rightarrow> resource_config list \<times> goerr option"

type_synonym broker_configs_call = "int32 list \<Rightarrow> resource_config list \<times> goerr option"

fun topic_config_rows ::
    "kerr_codes \<Rightarrow> resource_config list \<Rightarrow> sect \<Rightarrow> topic_config list \<times> sect" where
  "topic_config_rows kc [] sec = ([], sec)"
| "topic_config_rows kc (rc # rcs) sec =
     (let (code, sec1) = (case rc_err rc of
            None \<Rightarrow> (0, sec)
          | Some e \<Rightarrow> (errorCode (Some e), recordTopic kc apiDescribeConfigs (rc_name rc) e sec));
          (rest, sec2) = topic_config_rows kc rcs sec1
      in (\<lparr>tc_topic = rc_name rc, tc_error_code = code,
           tc_configs = selectConfigs (rc_configs rc) topicConfigKeys\<rparr> # rest, sec2))"

definition collectTopicConfigs ::
    "collector \<Rightarrow> topic_configs_call \<Rightarrow> topic_metrics list \<Rightarrow> bool \<Rightarrow>
     topic_config list \<times> sect \<times> string list list" where
  "collectTopicConfigs c call topics run =
     (let sec = newSection c ''topic_configs'';
          skip = ([], stopSection c (downgrade SectionSkipped sec), [])
      in if \<not> run then skip
         else let names = map t_name topics
              in if length names = 0 then skip
                 else let (described, err) = call names;
                          (ok, sec1) = request (cn_codes c) apiDescribeConfigs err sec
                      in if \<not> ok \<and> length described = 0 then ([], stopSection c sec1, [names])
                         else let (out, sec2) = topic_config_rows (cn_codes c) described sec1
                              in (sort_key tc_topic out, stopSection c sec2, [names]))"

fun broker_config_rows ::
    "kerr_codes \<Rightarrow> resource_config list \<Rightarrow> sect \<Rightarrow> broker_config list \<times> sect" where
  "broker_config_rows kc [] sec = ([], sec)"
| "broker_config_rows kc (rc # rcs) sec =
     (let bid = brokerIDOf (rc_name rc);
          (code, sec1) = (case rc_err rc of
            None \<Rightarrow> (0, sec)
          | Some e \<Rightarrow> (errorCode (Some e),
              record_error ((newError kc apiDescribeConfigs e sec)\<lparr>ce_broker := Some bid\<rparr>) False sec));
          (rest, sec2) = broker_config_rows kc rcs sec1
      in (\<lparr>bcf_broker = bid, bcf_error_code = code,
           bcf_configs = selectConfigs (rc_configs rc) brokerConfigKeys\<rparr> # rest, sec2))"

definition collectBrokerConfigs ::
    "collector \<Rightarrow> broker_configs_call \<Rightarrow> cluster_metrics option \<Rightarrow> bool \<Rightarrow>
     broker_config list \<times> sect \<times> int32 list list" where
  "collectBrokerConfigs c call cluster run =
     (let sec = newSection c ''broker_configs'';
          skip = ([], stopSection c (downgrade SectionSkipped sec), [])
      in case (run, cluster) of
           (True, Some cl) \<Rightarrow>
             (let ids = map b_id (cl_brokers cl)
              in if length ids = 0 then skip
                 else let (described, err) = call ids;
                          (ok, sec1) = request (cn_codes c) apiDescribeConfigs err sec
                      in if \<not> ok \<and> length described = 0 then ([], stopSection c sec1, [ids])
                         else let (out, sec2) = broker_config_rows (cn_codes c) described sec1
                              in (sort_key bcf_broker out, stopSection c sec2, [ids]))
         | _ \<Rightarrow> skip)"

subsection \<open>The allowlist\<close>

lemma config_by_key_key: "config_by_key cfgs key = Some cfg \<Longrightarrow> kc_key cfg = key \<and> cfg \<in> set cfgs"
  by (auto simp: config_by_key_def dest!: map_of_SomeD)

lemma selectConfigs_loop_keys:
  "(\<And>k cfg. byKey k = Some cfg \<Longrightarrow> kc_key cfg = k) \<Longrightarrow>
     map cf_key (selectConfigs_loop byKey keys) = filter (\<lambda>k. byKey k \<noteq> None) keys"
  by (induction keys) (auto split: option.split)

lemma selectConfigs_loop_entry:
  "e \<in> set (selectConfigs_loop byKey keys) \<Longrightarrow>
     \<exists>k cfg. k \<in> set keys \<and> byKey k = Some cfg \<and> cf_key e = kc_key cfg \<and>
       cf_value e = stripSensitive cfg \<and> cf_sensitive e = kc_sensitive cfg"
  by (induction keys) (auto split: option.splits)

text \<open>What a config list on the wire may hold.\<close>

definition configs_ok :: "kadm_config list \<Rightarrow> string list \<Rightarrow> config_entry list option \<Rightarrow> bool" where
  "configs_ok cfgs keys out \<longleftrightarrow>
     (case out of
        None \<Rightarrow> (\<forall>k \<in> set keys. config_by_key cfgs k = None)
      | Some es \<Rightarrow>
          es \<noteq> [] \<and> map cf_key es = filter (\<lambda>k. config_by_key cfgs k \<noteq> None) keys \<and>
          (\<forall>e \<in> set es. \<exists>cfg \<in> set cfgs. kc_key cfg = cf_key e \<and> cf_sensitive e = kc_sensitive cfg \<and>
             (if kc_sensitive cfg then cf_value e = None else cf_value e = kc_value cfg)))"

lemma selectConfigs_ok: "configs_ok cfgs keys (selectConfigs cfgs keys)"
proof -
  let ?out = "selectConfigs_loop (config_by_key cfgs) keys"
  have keys: "map cf_key ?out = filter (\<lambda>k. config_by_key cfgs k \<noteq> None) keys"
    by (rule selectConfigs_loop_keys) (simp add: config_by_key_key)
  have entry: "\<exists>cfg \<in> set cfgs. kc_key cfg = cf_key e \<and> cf_sensitive e = kc_sensitive cfg \<and>
      (if kc_sensitive cfg then cf_value e = None else cf_value e = kc_value cfg)"
    if "e \<in> set ?out" for e
    using selectConfigs_loop_entry [OF that] config_by_key_key [of cfgs]
    by (force simp: stripSensitive_def)
  have none: "\<forall>k \<in> set keys. config_by_key cfgs k = None" if "?out = []"
    using keys that by (auto simp: filter_empty_conv dest!: sym [of "[]"])
  have nil: "config_by_key [] k = None" for k by (simp add: config_by_key_def)
  show ?thesis
    using keys entry none nil by (auto simp: configs_ok_def selectConfigs_def Let_def)
qed

subsection \<open>Broker ids\<close>

fun decimal :: "nat \<Rightarrow> string" where
  "decimal n = (if n < 10 then [char_of (48 + n)] else decimal (n div 10) @ [char_of (48 + n mod 10)])"

declare decimal.simps [simp del]

lemma of_char_digit: "d < 10 \<Longrightarrow> of_char (char_of (48 + d) :: char) = (48 + d :: nat)"
  by (simp add: of_char_of)

lemma brokerIDOf_loop_snoc:
  "(\<forall>c \<in> set s. 48 \<le> (of_char c :: nat) \<and> (of_char c :: nat) \<le> 57) \<Longrightarrow> d < 10 \<Longrightarrow>
     \<exists>w :: 32 word. brokerIDOf_loop s i = sint w \<and>
       brokerIDOf_loop (s @ [char_of (48 + d)]) i = sint (w * 10 + of_nat d)"
proof (induction s arbitrary: i)
  case Nil
  then have "brokerIDOf_loop ([] @ [char_of (48 + d)]) i = sint (i * 10 + of_nat d)"
    by (simp add: of_char_digit)
  then show ?case by - (rule exI [of _ i], simp)
qed auto

lemma decimal_digits: "c \<in> set (decimal n) \<Longrightarrow> 48 \<le> (of_char c :: nat) \<and> (of_char c :: nat) \<le> 57"
proof (induction n rule: decimal.induct)
  case (1 n)
  show ?case
  proof (cases "n < 10")
    case True
    with 1 show ?thesis by (subst (asm) decimal.simps) (auto simp: of_char_digit)
  next
    case False
    then have "c \<in> set (decimal (n div 10)) \<or> c = char_of (48 + n mod 10)"
      using 1(2) by (subst (asm) decimal.simps) auto
    with 1(1) [OF False] show ?thesis by (auto simp: of_char_digit)
  qed
qed

lemma brokerIDOf_loop_decimal: "brokerIDOf_loop (decimal n) 0 = sint (of_nat n :: 32 word)"
proof (induction n rule: decimal.induct)
  case (1 n)
  show ?case
  proof (cases "n < 10")
    case True
    then show ?thesis by (subst decimal.simps) (simp add: of_char_digit)
  next
    case False
    then have dec: "decimal n = decimal (n div 10) @ [char_of (48 + n mod 10)]"
      by (subst decimal.simps) simp
    have "\<exists>w :: 32 word. brokerIDOf_loop (decimal (n div 10)) 0 = sint w \<and>
       brokerIDOf_loop (decimal (n div 10) @ [char_of (48 + n mod 10)]) 0 =
         sint (w * 10 + of_nat (n mod 10))"
      by (rule brokerIDOf_loop_snoc) (auto dest: decimal_digits)
    then obtain w :: "32 word" where w: "brokerIDOf_loop (decimal (n div 10)) 0 = sint w"
      "brokerIDOf_loop (decimal n) 0 = sint (w * 10 + of_nat (n mod 10))"
      unfolding dec by blast
    from w(1) 1 [OF False] have "sint w = sint (of_nat (n div 10) :: 32 word)" by simp
    then have "w = of_nat (n div 10)" by (rule signed_word_eqI)
    moreover have "(of_nat n :: 32 word) = of_nat (n div 10) * 10 + of_nat (n mod 10)"
    proof -
      have "(of_nat n :: 32 word) = of_nat (n div 10 * 10 + n mod 10)"
        by (simp only: div_mult_mod_eq)
      then show ?thesis by (simp only: of_nat_add of_nat_mult of_nat_numeral)
    qed
    ultimately show ?thesis using w(2) by simp
  qed
qed

lemma brokerIDOf_bad:
  "(\<exists>c \<in> set s. (of_char c :: nat) < 48 \<or> (of_char c :: nat) > 57) \<Longrightarrow> brokerIDOf_loop s i = -1"
  by (induction s arbitrary: i) auto


lemma brokerIDOf_decimal: "brokerIDOf (decimal n) = sint (of_nat n :: 32 word)"
proof -
  have "decimal n \<noteq> []" by (subst decimal.simps) simp
  then show ?thesis by (simp add: brokerIDOf_def brokerIDOf_loop_decimal)
qed

lemma sint_of_nat_32: "n < 2 ^ 31 \<Longrightarrow> sint (of_nat n :: 32 word) = int n"
  by (simp add: sint_uint signed_take_bit_int_eq_self_iff unsigned_of_nat take_bit_nat_eq_self
      signed_take_bit_int_eq_self)

subsection \<open>The phases\<close>

lemma topic_config_rows_fst:
  "fst (topic_config_rows kc rcs sec) =
     map (\<lambda>rc. \<lparr>tc_topic = rc_name rc, tc_error_code = errorCode (rc_err rc),
       tc_configs = selectConfigs (rc_configs rc) topicConfigKeys\<rparr>) rcs"
  by (induction rcs arbitrary: sec) (auto simp: split_beta Let_def split: option.split)

lemma topic_config_rows_phase [simp]:
  "phase_section n sec \<Longrightarrow> phase_section n (snd (topic_config_rows kc rcs sec))"
  by (induction rcs arbitrary: sec) (auto simp: split_beta Let_def split: option.split)

lemma broker_config_rows_fst:
  "fst (broker_config_rows kc rcs sec) =
     map (\<lambda>rc. \<lparr>bcf_broker = brokerIDOf (rc_name rc), bcf_error_code = errorCode (rc_err rc),
       bcf_configs = selectConfigs (rc_configs rc) brokerConfigKeys\<rparr>) rcs"
  by (induction rcs arbitrary: sec) (auto simp: split_beta Let_def split: option.split)

lemma broker_record_phase [simp]:
  "phase_section n sec \<Longrightarrow>
     phase_section n (record_error ((newError kc api e sec)\<lparr>ce_broker := b\<rparr>) False sec)"
  using phase_section_ext [OF _ newError_scoped_ext(1)] by (simp add: add_error_def)

lemma broker_config_rows_phase [simp]:
  "phase_section n sec \<Longrightarrow> phase_section n (snd (broker_config_rows kc rcs sec))"
  by (induction rcs arbitrary: sec) (auto simp: split_beta Let_def split: option.split)

lemma collectTopicConfigs_section:
  "phase_section ''topic_configs'' (fst (snd (collectTopicConfigs c call topics run)))"
  by (simp add: collectTopicConfigs_def Let_def split_beta)

lemma collectBrokerConfigs_section:
  "phase_section ''broker_configs'' (fst (snd (collectBrokerConfigs c call cluster run)))"
  by (cases run; cases cluster) (simp_all add: collectBrokerConfigs_def Let_def split_beta)

subsection \<open>Properties\<close>

text \<open>
  C24: only allowlisted configuration leaves the agent, and never a secret: for every topic the
  phase ships, the entries are the allowlisted keys the broker answered with, in allowlist order,
  each with the broker's own value unless the broker flagged it sensitive, in which case the value
  is absent; a topic with none of them carries no list. Rows are sorted by topic.
\<close>

theorem topic_configs_allowlisted:
  assumes "row \<in> set (fst (collectTopicConfigs c call topics run))"
  shows "(\<exists>rc \<in> set (fst (call (map t_name topics))). tc_topic row = rc_name rc \<and>
      configs_ok (rc_configs rc) topicConfigKeys (tc_configs row)) \<and>
    sorted (map tc_topic (fst (collectTopicConfigs c call topics run)))"
proof -
  have rows: "fst (collectTopicConfigs c call topics run) =
      sort_key tc_topic (fst (topic_config_rows (cn_codes c) (fst (call (map t_name topics)))
        (snd (request (cn_codes c) apiDescribeConfigs (snd (call (map t_name topics)))
          (newSection c ''topic_configs'')))))"
    using assms by (auto simp: collectTopicConfigs_def Let_def split_beta split: if_splits)
  with assms show ?thesis
    unfolding rows by (auto simp: topic_config_rows_fst selectConfigs_ok)
qed

text \<open>
  The same for brokers, whose phase in addition never asks for cluster-level defaults: a
  request names every broker of the metadata and is never empty.
\<close>

theorem broker_configs_allowlisted:
  assumes "collectBrokerConfigs c call (Some cl) True = (rows, sec, issued)"
  shows "(\<forall>ids \<in> set issued. ids = map b_id (cl_brokers cl) \<and> ids \<noteq> []) \<and>
    (\<forall>row \<in> set rows. \<exists>rc \<in> set (fst (call (map b_id (cl_brokers cl)))).
      bcf_broker row = brokerIDOf (rc_name rc) \<and>
      configs_ok (rc_configs rc) brokerConfigKeys (bcf_configs row))"
proof -
  have r: "rows = fst (collectBrokerConfigs c call (Some cl) True)"
    "issued = snd (snd (collectBrokerConfigs c call (Some cl) True))"
    using assms by simp_all
  show ?thesis
    unfolding r
    by (auto simp: collectBrokerConfigs_def Let_def split_beta broker_config_rows_fst
        selectConfigs_ok split: if_splits)
qed

text \<open>
  Parsing a broker resource name undoes its decimal rendering for every legal broker id, and
  gives -1, which is no broker's id, for a name with any other character or none.
\<close>

theorem brokerIDOf_roundtrip:
  assumes "n < 2 ^ 31"
  shows "brokerIDOf (decimal n) = int n \<and>
    ((\<exists>c \<in> set s. (of_char c :: nat) < 48 \<or> (of_char c :: nat) > 57) \<or> s = [] \<longrightarrow>
      brokerIDOf s = -1)"
  using brokerIDOf_bad [of s 0] assms
  by (auto simp: brokerIDOf_def brokerIDOf_decimal [unfolded brokerIDOf_def] sint_of_nat_32
      split: if_splits)

subsection \<open>A worked answer\<close>

definition wit_configs :: topic_configs_call where
  "wit_configs names =
     (map (\<lambda>n. \<lparr>rc_name = n, rc_configs =
        [\<lparr>kc_key = ''retention.ms'', kc_value = Some ''1000'', kc_sensitive = False,
          kc_source = DefaultConfig\<rparr>,
         \<lparr>kc_key = ''cleanup.policy'', kc_value = Some ''secret'', kc_sensitive = True,
          kc_source = DynamicTopicConfig\<rparr>,
         \<lparr>kc_key = ''ssl.keystore'', kc_value = Some ''secret'', kc_sensitive = False,
          kc_source = StaticBrokerConfig\<rparr>], rc_err = None\<rparr>) names, None)"

theorem topic_configs_allowlisted_witness:
  "sorted (map tc_topic (fst (collectTopicConfigs wit_collector wit_configs wit_epoch_topics True))) \<and>
   map (\<lambda>r. map_option (map (\<lambda>e. (cf_key e, cf_value e))) (tc_configs r))
     (fst (collectTopicConfigs wit_collector wit_configs wit_epoch_topics True)) =
     [Some [(''cleanup.policy'', None), (''retention.ms'', Some ''1000'')]]"
proof
  let ?r = "fst (collectTopicConfigs wit_collector wit_configs wit_epoch_topics True)"
  show rows: "map (\<lambda>r. map_option (map (\<lambda>e. (cf_key e, cf_value e))) (tc_configs r)) ?r =
     [Some [(''cleanup.policy'', None), (''retention.ms'', Some ''1000'')]]"
    by code_simp
  have "length ?r = 1" using arg_cong [OF rows, of length] by simp
  then have "?r ! 0 \<in> set ?r" by simp
  from topic_configs_allowlisted [OF this] show "sorted (map tc_topic ?r)" by blast
qed

lemma hd_in_set_1: "length xs = 1 \<Longrightarrow> hd xs \<in> set xs"
  by (cases xs) auto

definition wit_broker_configs :: broker_configs_call where
  "wit_broker_configs ids =
     (map (\<lambda>i. \<lparr>rc_name = decimal (nat i), rc_configs = [], rc_err = None\<rparr>) ids, None)"

theorem broker_configs_allowlisted_witness:
  "hd (snd (snd (collectBrokerConfigs wit_collector wit_broker_configs (Some wit_cluster) True))) = [1] \<and>
   bcf_broker (hd (fst (collectBrokerConfigs wit_collector wit_broker_configs (Some wit_cluster) True))) =
     brokerIDOf (decimal 1)"
proof -
  let ?r = "collectBrokerConfigs wit_collector wit_broker_configs (Some wit_cluster) True"
  have "?r = (fst ?r, fst (snd ?r), snd (snd ?r))" by (simp only: prod.collapse)
  note c = broker_configs_allowlisted [OF this]
  have l: "length (fst ?r) = 1" "length (snd (snd ?r)) = 1" by code_simp+
  note m = hd_in_set_1 [OF l(1)] hd_in_set_1 [OF l(2)]
  have "rc_name ` set (fst (wit_broker_configs (map b_id (cl_brokers wit_cluster)))) = {decimal 1}"
    by (simp add: wit_broker_configs_def wit_cluster_def)
  moreover obtain rc where rc: "rc \<in> set (fst (wit_broker_configs (map b_id (cl_brokers wit_cluster))))"
    "bcf_broker (hd (fst ?r)) = brokerIDOf (rc_name rc)"
    using c m(1) by blast
  moreover have "rc_name rc \<in> rc_name ` set (fst (wit_broker_configs (map b_id (cl_brokers wit_cluster))))"
    using rc(1) by (rule imageI)
  ultimately have "bcf_broker (hd (fst ?r)) = brokerIDOf (decimal 1)" by simp
  moreover have "hd (snd (snd ?r)) = map b_id (cl_brokers wit_cluster)" using c m(2) by blast
  ultimately show ?thesis by (simp add: wit_cluster_def)
qed

theorem brokerIDOf_roundtrip_witness: "brokerIDOf (decimal 1001) = 1001 \<and> brokerIDOf ''b1'' = -1"
proof -
  have "(1001::nat) < 2 ^ 31" by simp
  from brokerIDOf_roundtrip [OF this, of "''b1''"] show ?thesis by simp
qed

text \<open>Beyond the 32-bit range the parse wraps, onto another broker's id.\<close>

lemma brokerIDOf_wraps: "brokerIDOf (decimal 4294967297) = 1"
  by (simp add: brokerIDOf_decimal)

end
