(* ===== verification/Consumer_Groups.thy ===== *)
theory Consumer_Groups
  imports Configs
begin

text \<open>
  \<open>src/internal/collector/groups.go\<close>: the one ListGroups broadcast of the cycle, the classic
  describe, and the KIP-848 overlay.

  A shard's response is \<open>None\<close> when it is of another type; its groups are pairs of name and group
  type. \<open>Join.AsConsumer\<close> and \<open>Assigned.AsConsumer\<close> are options. \<open>described\<close> is in \<open>Sorted()\<close> order.
  \<open>map[string]string\<close> is an association list.
\<close>

subsection \<open>Listing\<close>

record list_groups_response =
  lgr_code :: int16
  lgr_groups :: "(string \<times> string) list"

record list_groups_shard =
  lgs_err :: "goerr option"
  lgs_resp :: "list_groups_response option"

type_synonym list_groups_call = "string list \<Rightarrow> list_groups_shard list"

fun add_groups ::
    "(string \<times> string) list \<Rightarrow> string list \<Rightarrow> (string \<times> string) list \<Rightarrow>
     string list \<times> (string \<times> string) list" where
  "add_groups [] groups types = (groups, types)"
| "add_groups ((g, t) # gs) groups types =
     add_groups gs (groups @ [g]) (if t \<noteq> [] then AList.update g t types else types)"

fun listGroups_loop ::
    "(int16 \<Rightarrow> goerr option) \<Rightarrow> list_groups_shard list \<Rightarrow> string list \<Rightarrow> (string \<times> string) list \<Rightarrow>
     goerr option \<Rightarrow> string list \<times> (string \<times> string) list \<times> goerr option" where
  "listGroups_loop efc [] groups types firstErr = (groups, types, firstErr)"
| "listGroups_loop efc (shard # shards) groups types firstErr =
     (case lgs_err shard of
        Some e \<Rightarrow>
          listGroups_loop efc shards groups types (if firstErr = None then Some e else firstErr)
      | None \<Rightarrow>
          (case lgs_resp shard of
             None \<Rightarrow> listGroups_loop efc shards groups types firstErr
           | Some resp \<Rightarrow>
               (let err = efc (lgr_code resp);
                    firstErr' = (if err \<noteq> None \<and> firstErr = None then err else firstErr);
                    (groups', types') = add_groups (lgr_groups resp) groups types
                in listGroups_loop efc shards groups' types' firstErr')))"

definition listGroupsWithTypes ::
    "(int16 \<Rightarrow> goerr option) \<Rightarrow> list_groups_call \<Rightarrow> collector \<Rightarrow>
     string list \<times> (string \<times> string) list \<times> goerr option" where
  "listGroupsWithTypes efc call c =
     (let (groups, types, firstErr) =
            listGroups_loop efc (call (op_group_states (cn_opts c))) [] [] None
      in (sort groups, types, firstErr))"

definition listGroups ::
    "(int16 \<Rightarrow> goerr option) \<Rightarrow> list_groups_call \<Rightarrow> collector \<Rightarrow>
     string list \<times> (string \<times> string) list \<times> goerr option" where
  "listGroups efc call c =
     (let (listed, types, err) = listGroupsWithTypes efc call c
      in (filter (\<lambda>g. \<not> isInternalGroup g \<and> allow (cn_groups c) g) listed, types, err))"

subsection \<open>Describing\<close>

record consumer_join =
  jn_topics :: "string list"
  jn_rack :: "string option"
  jn_generation :: int32
  jn_owned :: "(string \<times> int32 list) list"

record described_member =
  dm_member_id :: string
  dm_instance_id :: "string option"
  dm_client_id :: string
  dm_host :: string
  dm_join :: "consumer_join option"
  dm_assigned :: "(string \<times> int32 list) list option"

record described_group =
  dg_group :: string
  dg_state :: string
  dg_coordinator :: int32
  dg_protocol :: string
  dg_protocol_type :: string
  dg_members :: "described_member list"
  dg_err :: "goerr option"

type_synonym describe_groups_call = "string list \<Rightarrow> described_group list \<times> goerr option"

definition flatten_topics :: "(string \<times> int32 list) list \<Rightarrow> topic_partition list" where
  "flatten_topics ts =
     concat (map (\<lambda>(t, ps). map (\<lambda>p. \<lparr>tp_topic = t, tp_partition = p\<rparr>) ps) ts)"

definition build_member :: "described_member \<Rightarrow> group_member" where
  "build_member m =
     (let member = \<lparr>gm_member_id = dm_member_id m, gm_instance_id = dm_instance_id m,
            gm_client_id = dm_client_id m, gm_host = dm_host m, gm_rack = None,
            gm_subscribed = [], gm_assignment = [], gm_owned = [], gm_member_epoch = None,
            gm_target_assignment = [], gm_subscribed_regex = None\<rparr>;
          member1 = (case dm_join m of
             None \<Rightarrow> member
           | Some j \<Rightarrow> member\<lparr>gm_subscribed := jn_topics j, gm_rack := jn_rack j,
                              gm_owned := flatten_topics (jn_owned j)\<rparr>)
      in case dm_assigned m of
           None \<Rightarrow> member1
         | Some ts \<Rightarrow> member1\<lparr>gm_assignment := flatten_topics ts\<rparr>)"

text \<open>\<open>if join.Generation > gm.Generation { gm.Generation = join.Generation }\<close> over the members.\<close>

fun max_generation :: "described_member list \<Rightarrow> int32 \<Rightarrow> int32" where
  "max_generation [] g = g"
| "max_generation (m # ms) g =
     max_generation ms
       (case dm_join m of
          None \<Rightarrow> g
        | Some j \<Rightarrow> if jn_generation j > g then jn_generation j else g)"

definition build_group :: "(string \<times> string) list \<Rightarrow> described_group \<Rightarrow> group_metrics" where
  "build_group types g =
     \<lparr>g_id = dg_group g, g_state = dg_state g, g_coordinator = dg_coordinator g,
      g_generation = max_generation (dg_members g) (-1), g_protocol = dg_protocol g,
      g_protocol_type = dg_protocol_type g,
      g_group_type = (case map_of types (dg_group g) of None \<Rightarrow> [] | Some t \<Rightarrow> t),
      g_member_count = length (dg_members g), g_members = map build_member (dg_members g),
      g_error_code = (case dg_err g of None \<Rightarrow> 0 | Some e \<Rightarrow> errorCode (Some e)),
      g_group_epoch = None, g_assignment_epoch = None, g_assignor = []\<rparr>"

fun build_groups ::
    "kerr_codes \<Rightarrow> (string \<times> string) list \<Rightarrow> described_group list \<Rightarrow> sect \<Rightarrow>
     group_metrics list \<times> sect" where
  "build_groups kc types [] sec = ([], sec)"
| "build_groups kc types (g # gs) sec =
     (let sec1 = (case dg_err g of
            None \<Rightarrow> sec | Some e \<Rightarrow> recordGroup kc ''DescribeGroups'' (dg_group g) e sec);
          (rest, sec2) = build_groups kc types gs sec1
      in (build_group types g # rest, sec2))"

subsection \<open>The overlay\<close>

record consumer_group_member =
  cgm_member_id :: string
  cgm_epoch :: int32
  cgm_regex :: "string option"
  cgm_target :: topics_set
  cgm_subscribed :: "string list"
  cgm_assignment :: topics_set

record described_consumer_group =
  cg_err :: "goerr option"
  cg_epoch :: int32
  cg_assignment_epoch :: int32
  cg_assignor :: string
  cg_members :: "consumer_group_member list"

type_synonym describe_consumer_groups_call =
  "string list \<Rightarrow> (string \<times> described_consumer_group) list \<times> goerr option"

definition topicsSetToPartitions :: "topics_set \<Rightarrow> topic_partition list" where
  "topicsSetToPartitions ts =
     (if length ts = 0 then []
      else concat (map (\<lambda>(t, ps). map (\<lambda>p. \<lparr>tp_topic = t, tp_partition = p\<rparr>) ps)
        (topics_set_sorted ts)))"

definition overlay_member :: "(string \<Rightarrow> consumer_group_member option) \<Rightarrow> group_member \<Rightarrow> group_member" where
  "overlay_member byID gm =
     (case byID (gm_member_id gm) of
        None \<Rightarrow> gm
      | Some m \<Rightarrow>
          gm\<lparr>gm_member_epoch := Some (cgm_epoch m), gm_subscribed_regex := cgm_regex m,
             gm_target_assignment := topicsSetToPartitions (cgm_target m),
             gm_subscribed := (if length (gm_subscribed gm) = 0 then cgm_subscribed m
                               else gm_subscribed gm),
             gm_assignment := (if length (gm_assignment gm) = 0
                               then topicsSetToPartitions (cgm_assignment m)
                               else gm_assignment gm)\<rparr>)"

definition applyConsumerGroup :: "group_metrics \<Rightarrow> described_consumer_group \<Rightarrow> group_metrics" where
  "applyConsumerGroup gm d =
     gm\<lparr>g_group_epoch := Some (cg_epoch d), g_assignment_epoch := Some (cg_assignment_epoch d),
        g_assignor := cg_assignor d,
        g_members := map (overlay_member
          (map_of (rev (map (\<lambda>m. (cgm_member_id m, m)) (cg_members d))))) (g_members gm)\<rparr>"

definition overlay_group ::
    "(string \<times> described_consumer_group) list \<Rightarrow> group_metrics \<Rightarrow> group_metrics" where
  "overlay_group described gm =
     (case map_of described (g_id gm) of
        None \<Rightarrow> gm
      | Some d \<Rightarrow> if cg_err d \<noteq> None then gm else applyConsumerGroup gm d)"

definition enrichConsumerGroups ::
    "collector \<Rightarrow> describe_consumer_groups_call \<Rightarrow> group_metrics list \<Rightarrow> sect \<Rightarrow>
     group_metrics list \<times> sect" where
  "enrichConsumerGroups c call groups sec =
     (if \<not> op_consumer_groups (cn_opts c) \<or> length groups = 0 then (groups, sec)
      else let (described, err) = call (map g_id groups);
               (ok, sec1) = requestPartial (cn_codes c) ''ConsumerGroupDescribe'' err
                 (length described > 0) sec
           in (if ok then map (overlay_group described) groups else groups, sec1))"

definition collectGroups ::
    "collector \<Rightarrow> describe_groups_call \<Rightarrow> describe_consumer_groups_call \<Rightarrow> string list \<Rightarrow>
     (string \<times> string) list \<Rightarrow> goerr option \<Rightarrow> gotime \<Rightarrow> group_metrics list \<times> sect" where
  "collectGroups c dgs dcgs ids types listErr listedAt =
     (let kc = cn_codes c;
          sec0 = c_newSectionAt (cn_limits c) ''groups'' listedAt;
          sec = snd (request kc ''ListGroups'' listErr sec0)
      in if length ids = 0 then ([], stopSection c sec)
         else let (described, err) = dgs ids;
                  (ok, sec1) = request kc ''DescribeGroups'' err sec
              in if \<not> ok \<and> length described = 0 then ([], stopSection c sec1)
                 else let (groups, sec2) = build_groups kc types described sec1;
                          (groups', sec3) = enrichConsumerGroups c dcgs groups sec2
                      in (groups', stopSection c sec3))"

subsection \<open>Lemmas\<close>

lemma add_groups_fst: "fst (add_groups gs groups types) = groups @ map fst gs"
  by (induction gs arbitrary: groups types) auto

definition shard_groups :: "list_groups_shard \<Rightarrow> string list" where
  "shard_groups shard =
     (if lgs_err shard \<noteq> None then []
      else case lgs_resp shard of None \<Rightarrow> [] | Some resp \<Rightarrow> map fst (lgr_groups resp))"

lemma listGroups_loop_fst:
  "fst (listGroups_loop efc shards groups types e) = groups @ concat (map shard_groups shards)"
  by (induction shards arbitrary: groups types e)
    (auto simp: shard_groups_def split_beta Let_def add_groups_fst split: option.split)

lemma listGroups_ids:
  "fst (listGroups efc call c) =
     filter (\<lambda>g. \<not> isInternalGroup g \<and> allow (cn_groups c) g)
       (sort (concat (map shard_groups (call (op_group_states (cn_opts c))))))"
  by (simp add: listGroups_def listGroupsWithTypes_def split_beta Let_def listGroups_loop_fst)

lemma build_groups_fst: "fst (build_groups kc types gs sec) = map (build_group types) gs"
  by (induction gs arbitrary: sec) (simp_all add: split_beta Let_def)

lemma build_groups_phase [simp]:
  "phase_section n sec \<Longrightarrow> phase_section n (snd (build_groups kc types gs sec))"
  by (induction gs arbitrary: sec) (auto simp: split_beta Let_def split: option.split)

lemma enrich_phase [simp]:
  "phase_section n sec \<Longrightarrow> phase_section n (snd (enrichConsumerGroups c call groups sec))"
  by (simp add: enrichConsumerGroups_def split_beta Let_def)

lemma collectGroups_section:
  "phase_section ''groups'' (snd (collectGroups c dgs dcgs ids types listErr listedAt))"
proof -
  have "phase_section ''groups'' (c_newSectionAt (cn_limits c) ''groups'' listedAt)"
    by (simp add: phase_section_def)
  then show ?thesis by (simp add: collectGroups_def Let_def split_beta)
qed

lemma overlay_member_frame:
  "gm_member_id (overlay_member byID m) = gm_member_id m"
  "gm_instance_id (overlay_member byID m) = gm_instance_id m"
  "gm_client_id (overlay_member byID m) = gm_client_id m"
  "gm_host (overlay_member byID m) = gm_host m"
  "gm_rack (overlay_member byID m) = gm_rack m"
  "gm_owned (overlay_member byID m) = gm_owned m"
  "gm_assignment m \<noteq> [] \<Longrightarrow> gm_assignment (overlay_member byID m) = gm_assignment m"
  "gm_subscribed m \<noteq> [] \<Longrightarrow> gm_subscribed (overlay_member byID m) = gm_subscribed m"
  by (simp_all add: overlay_member_def split: option.split)

text \<open>What the overlay leaves of a group: everything but the epochs, the assignor and holes in
  the members' subscriptions and assignments.\<close>

definition overlays :: "group_metrics \<Rightarrow> group_metrics \<Rightarrow> bool" where
  "overlays gm gm' \<longleftrightarrow>
     gm'\<lparr>g_group_epoch := g_group_epoch gm, g_assignment_epoch := g_assignment_epoch gm,
         g_assignor := g_assignor gm, g_members := g_members gm\<rparr> = gm \<and>
     list_all2 (\<lambda>m m'. gm_member_id m' = gm_member_id m \<and> gm_client_id m' = gm_client_id m \<and>
       gm_host m' = gm_host m \<and> gm_instance_id m' = gm_instance_id m \<and> gm_rack m' = gm_rack m \<and>
       gm_owned m' = gm_owned m \<and>
       (gm_assignment m \<noteq> [] \<longrightarrow> gm_assignment m' = gm_assignment m) \<and>
       (gm_subscribed m \<noteq> [] \<longrightarrow> gm_subscribed m' = gm_subscribed m)) (g_members gm) (g_members gm')"

lemma overlays_refl: "overlays gm gm"
  by (simp add: overlays_def list.rel_refl)

lemma overlays_apply: "overlays gm (applyConsumerGroup gm d)"
  by (simp add: overlays_def applyConsumerGroup_def list_all2_conv_all_nth overlay_member_frame)

lemma overlays_group: "overlays gm (overlay_group described gm)"
  by (simp add: overlay_group_def overlays_refl overlays_apply split: option.split)

lemma max_generation_eq:
  "max_generation ms g = Max (insert g {jn_generation j |j. \<exists>m \<in> set ms. dm_join m = Some j})"
proof (induction ms arbitrary: g)
  case Nil
  then show ?case by simp
next
  case (Cons m ms)
  have fin: "finite {jn_generation j |j. \<exists>m \<in> set ms. dm_join m = Some j}"
  proof (rule finite_subset)
    show "{jn_generation j |j. \<exists>m \<in> set ms. dm_join m = Some j} \<subseteq>
        (jn_generation \<circ> the \<circ> dm_join) ` set ms" by force
  qed simp
  show ?case
  proof (cases "dm_join m")
    case None
    then have "{jn_generation j |j. \<exists>m \<in> set (m # ms). dm_join m = Some j} =
        {jn_generation j |j. \<exists>m \<in> set ms. dm_join m = Some j}" by auto
    with None Cons show ?thesis by simp
  next
    case (Some j)
    then have set: "{jn_generation j |j. \<exists>m \<in> set (m # ms). dm_join m = Some j} =
        insert (jn_generation j) {jn_generation j |j. \<exists>m \<in> set ms. dm_join m = Some j}" by auto
    have step: "Max (insert (max g (jn_generation j)) S) = Max (insert g (insert (jn_generation j) S))"
      if "finite S" for S
      using that by (cases "S = {}") (simp_all add: max.assoc)
    have "max_generation (m # ms) g = max_generation ms (max g (jn_generation j))"
      using Some by (simp add: max_def)
    then show ?thesis
      by (simp only: Cons.IH step [OF fin] set)
  qed
qed

lemma listGroups_loop_err:
  "snd (snd (listGroups_loop efc shards groups types e)) = None \<longleftrightarrow>
     e = None \<and> (\<forall>shard \<in> set shards. lgs_err shard = None \<and>
       (case lgs_resp shard of None \<Rightarrow> True | Some resp \<Rightarrow> efc (lgr_code resp) = None))"
  by (induction shards arbitrary: groups types e)
    (auto simp: split_beta Let_def split: option.split)

lemma overlays_members:
  assumes "overlays gm gm'"
  shows "g_id gm' = g_id gm" "g_state gm' = g_state gm" "g_error_code gm' = g_error_code gm"
    "g_member_count gm' = g_member_count gm" "length (g_members gm') = length (g_members gm)"
    "g_generation gm' = g_generation gm"
    "map gm_member_id (g_members gm') = map gm_member_id (g_members gm)"
proof -
  have eq: "gm'\<lparr>g_group_epoch := g_group_epoch gm, g_assignment_epoch := g_assignment_epoch gm,
      g_assignor := g_assignor gm, g_members := g_members gm\<rparr> = gm"
    using assms by (simp add: overlays_def)
  have "g_id (gm'\<lparr>g_group_epoch := e, g_assignment_epoch := a, g_assignor := s, g_members := ms\<rparr>) =
      g_id gm'" "g_state (gm'\<lparr>g_group_epoch := e, g_assignment_epoch := a, g_assignor := s,
      g_members := ms\<rparr>) = g_state gm'" "g_error_code (gm'\<lparr>g_group_epoch := e,
      g_assignment_epoch := a, g_assignor := s, g_members := ms\<rparr>) = g_error_code gm'"
      "g_member_count (gm'\<lparr>g_group_epoch := e, g_assignment_epoch := a, g_assignor := s,
      g_members := ms\<rparr>) = g_member_count gm'" "g_generation (gm'\<lparr>g_group_epoch := e,
      g_assignment_epoch := a, g_assignor := s, g_members := ms\<rparr>) = g_generation gm'"
      for e a s ms by simp_all
  then show "g_id gm' = g_id gm" "g_state gm' = g_state gm" "g_error_code gm' = g_error_code gm"
    "g_member_count gm' = g_member_count gm" "g_generation gm' = g_generation gm"
    by (metis eq)+
  have rel: "list_all2 (\<lambda>m m'. gm_member_id m' = gm_member_id m) (g_members gm) (g_members gm')"
    using assms unfolding overlays_def by (auto elim!: list_all2_mono)
  show "length (g_members gm') = length (g_members gm)"
    using list_all2_lengthD [OF rel] by simp
  show "map gm_member_id (g_members gm') = map gm_member_id (g_members gm)"
    using rel by (induction rule: list_all2_induct) simp_all
qed

lemma enrich_overlays:
  "list_all2 overlays groups (fst (enrichConsumerGroups c call groups sec))"
proof -
  have "list_all2 overlays groups (map (overlay_group d) groups)" for d
    by (simp add: list_all2_conv_all_nth overlays_group)
  moreover have "list_all2 overlays groups groups"
    by (rule list.rel_refl) (rule overlays_refl)
  ultimately show ?thesis by (simp add: enrichConsumerGroups_def split_beta Let_def)
qed

subsection \<open>Properties\<close>

text \<open>
  Groups and offsets speak of the same groups: the ids handed to both phases are, in order,
  every group an answering broker listed that is not internal and passes the group filter; and the
  listing error is nil exactly when every broker answered without one.
\<close>

theorem listGroups_spec:
  "sorted (fst (listGroups efc call c)) \<and>
   set (fst (listGroups efc call c)) =
     {g. (\<exists>shard \<in> set (call (op_group_states (cn_opts c))). g \<in> set (shard_groups shard)) \<and>
        \<not> isInternalGroup g \<and> allow (cn_groups c) g} \<and>
   (snd (snd (listGroups efc call c)) = None \<longleftrightarrow>
     list_all (\<lambda>shard. lgs_err shard = None \<and>
       (case lgs_resp shard of None \<Rightarrow> True | Some resp \<Rightarrow> efc (lgr_code resp) = None))
       (call (op_group_states (cn_opts c))))"
proof -
  have err: "snd (snd (listGroups efc call c)) =
      snd (snd (listGroups_loop efc (call (op_group_states (cn_opts c))) [] [] None))"
    by (simp add: listGroups_def listGroupsWithTypes_def split_beta Let_def)
  have "sorted (fst (listGroups efc call c))"
    by (simp add: listGroups_ids sorted_wrt_filter)
  moreover have "set (fst (listGroups efc call c)) =
     {g. (\<exists>shard \<in> set (call (op_group_states (cn_opts c))). g \<in> set (shard_groups shard)) \<and>
        \<not> isInternalGroup g \<and> allow (cn_groups c) g}"
    unfolding listGroups_ids by auto
  ultimately show ?thesis by (simp add: err listGroups_loop_err list_all_iff)
qed

text \<open>
  The groups phase emits one row per described group, in order, whatever the overlay
  answers: each row agrees with the classic describe on identity, state, error code and the
  members that exist, carries every member with the count equal to the length, and the highest
  generation a member's join metadata proves (or -1).
\<close>

theorem collectGroups_rows:
  assumes "ids \<noteq> []" "dgs ids = (described, err)" "described \<noteq> []"
  shows "list_all2 (\<lambda>d gm. g_id gm = dg_group d \<and> g_state gm = dg_state d \<and>
      g_error_code gm = (if dg_err d = None then 0 else errorCode (dg_err d)) \<and>
      map gm_member_id (g_members gm) = map dm_member_id (dg_members d) \<and>
      g_member_count gm = length (g_members gm) \<and>
      g_generation gm =
        Max (insert (-1) {jn_generation j |j. \<exists>m \<in> set (dg_members d). dm_join m = Some j}))
    described (fst (collectGroups c dgs dcgs ids types listErr listedAt))"
    (is "list_all2 ?row _ _")
proof -
  define sec where "sec = snd (request (cn_codes c) ''DescribeGroups'' err
    (snd (request (cn_codes c) ''ListGroups'' listErr
      (c_newSectionAt (cn_limits c) ''groups'' listedAt))))"
  have "fst (collectGroups c dgs dcgs ids types listErr listedAt) =
      fst (enrichConsumerGroups c dcgs (map (build_group types) described)
        (snd (build_groups (cn_codes c) types described sec)))"
    using assms by (simp add: collectGroups_def Let_def split_beta sec_def build_groups_fst)
  then have rel: "list_all2 overlays (map (build_group types) described)
      (fst (collectGroups c dgs dcgs ids types listErr listedAt))"
    by (simp add: enrich_overlays)
  have row: "?row d gm" if o: "overlays (build_group types d) gm" for d gm
  proof -
    have ids: "map gm_member_id (map build_member ms) = map dm_member_id ms" for ms
      by (simp add: build_member_def Let_def split: option.split)
    show ?thesis
      unfolding overlays_members [OF o] build_group_def
      by (simp add: max_generation_eq ids del: map_map split: option.split)
  qed
  from rel show ?thesis
    unfolding list_all2_map1 by (rule list_all2_mono) (rule row)
qed

definition wit_shards :: list_groups_call where
  "wit_shards states =
     [\<lparr>lgs_err = Some wit_auth_err, lgs_resp = None\<rparr>,
      \<lparr>lgs_err = None, lgs_resp = Some \<lparr>lgr_code = 0, lgr_groups =
         [(''g2'', ''consumer''), (''__internal'', []), (''g1'', [])]\<rparr>\<rparr>]"

definition wit_described :: described_group where
  "wit_described =
     \<lparr>dg_group = ''g1'', dg_state = ''Stable'', dg_coordinator = 1, dg_protocol = ''range'',
      dg_protocol_type = ''consumer'', dg_members =
        [\<lparr>dm_member_id = ''m1'', dm_instance_id = None, dm_client_id = ''c'', dm_host = ''h'',
          dm_join = Some \<lparr>jn_topics = [''orders''], jn_rack = None, jn_generation = 7,
            jn_owned = []\<rparr>, dm_assigned = Some [(''orders'', [0, 1])]\<rparr>], dg_err = None\<rparr>"

definition wit_describe :: describe_groups_call where
  "wit_describe ids = ([wit_described], None)"

definition wit_consumer :: describe_consumer_groups_call where
  "wit_consumer ids = ([(''g1'', \<lparr>cg_err = None, cg_epoch = 4, cg_assignment_epoch = 4,
     cg_assignor = ''uniform'', cg_members = []\<rparr>)], None)"

theorem collectGroups_rows_witness:
  "map g_generation (fst (collectGroups wit_collector wit_describe wit_consumer [''g1''] [] None 0)) =
     [Max (insert (-1) {jn_generation j |j. \<exists>m \<in> set (dg_members wit_described). dm_join m = Some j})] \<and>
   map g_group_epoch (fst (collectGroups wit_collector wit_describe wit_consumer [''g1''] [] None 0)) =
     [Some 4]"
proof -
  have "[''g1''] \<noteq> []" "wit_describe [''g1''] = ([wit_described], None)" "[wit_described] \<noteq> []"
    by (simp_all add: wit_describe_def)
  from collectGroups_rows [where ids = "[''g1'']" and dgs = wit_describe and
      c = wit_collector and dcgs = wit_consumer and types = "[]" and listErr = None and
      listedAt = 0, OF this]
  have "map g_generation (fst (collectGroups wit_collector wit_describe wit_consumer [''g1''] [] None 0)) =
     [Max (insert (-1) {jn_generation j |j. \<exists>m \<in> set (dg_members wit_described). dm_join m = Some j})]"
    by (auto simp: list_all2_Cons1)
  moreover have "map g_group_epoch
      (fst (collectGroups wit_collector wit_describe wit_consumer [''g1''] [] None 0)) = [Some 4]"
    by code_simp
  ultimately show ?thesis by simp
qed

text \<open>
  One broker that refuses ListGroups makes the whole section unauthorized, although the groups
  another broker listed are described and shipped: the listing hands its first shard error on as
  an error of the call.
\<close>

lemma partial_listing_reads_unauthorized:
  "let (ids, types, err) = listGroups (\<lambda>_. None) wit_shards wit_collector;
       (groups, sec) = collectGroups wit_collector wit_describe wit_consumer ids types err 0
   in ids = [''g1'', ''g2''] \<and> map g_id groups = [''g1''] \<and>
      s_status sec = SectionUnauthorized"
  by code_simp

end
