(* ===== verification/ShareGroups.thy ===== *)
theory ShareGroups
  imports Consumer_Groups
begin

text \<open>
  \<open>src/internal/collector/sharegroups.go\<close>: the phase of the KIP-932 share groups.

  \<open>described\<close> is a Go map the code ranges over: the list the model takes is one order of the range,
  and the theorems say what does not depend on it. The maps from topics to partitions to offsets
  are association lists. The phase also returns the groups it named in its requests.
\<close>

definition apiShareGroupDescribe :: string where
  "apiShareGroupDescribe = ''ShareGroupDescribe''"

definition apiDescribeShareGroupOffsets :: string where
  "apiDescribeShareGroupOffsets = ''DescribeShareGroupOffsets''"

definition shareGroupType :: string where "shareGroupType = ''share''"

record described_share_member =
  dsm_member_id :: string
  dsm_client_id :: string
  dsm_host :: string
  dsm_rack :: "string option"
  dsm_epoch :: int32
  dsm_subscribed :: "string list"
  dsm_assignment :: topics_set

record described_share_group =
  dsg_id :: string
  dsg_state :: string
  dsg_coordinator :: int32
  dsg_epoch :: int32
  dsg_assignment_epoch :: int32
  dsg_assignor :: string
  dsg_members :: "described_share_member list"
  dsg_err :: "goerr option"

record share_offset =
  sho_start :: int64
  sho_leader_epoch :: int32
  sho_err :: "goerr option"

record share_group_offsets =
  sgo_group :: string
  sgo_offsets :: "(string \<times> (int32 \<times> share_offset) list) list"
  sgo_err :: "goerr option"

type_synonym describe_share_groups_call =
  "string list \<Rightarrow> described_share_group list \<times> goerr option"

type_synonym describe_share_offsets_call =
  "string list \<Rightarrow> share_group_offsets list \<times> goerr option"

subsection \<open>Shaping\<close>

definition sortedShareTopics :: "(string \<times> 'a) list \<Rightarrow> string list" where
  "sortedShareTopics o' = sort (map fst o')"

definition sortedSharePartitions :: "(int32 \<times> 'a) list \<Rightarrow> int32 list" where
  "sortedSharePartitions ps = sort (map fst ps)"

definition share_member :: "described_share_member \<Rightarrow> share_group_member" where
  "share_member m =
     \<lparr>sm_member_id = dsm_member_id m, sm_client_id = dsm_client_id m, sm_host = dsm_host m,
      sm_rack = dsm_rack m, sm_member_epoch = dsm_epoch m, sm_subscribed = dsm_subscribed m,
      sm_assignment = flatten_topics (topics_set_sorted (dsm_assignment m))\<rparr>"

text \<open>One row of the innermost loop. The lookups of the ranged keys always succeed.\<close>

definition share_offset_row :: "string \<Rightarrow> int32 \<Rightarrow> share_offset \<Rightarrow> share_group_offset" where
  "share_offset_row topic p so =
     (let row = \<lparr>so_topic = topic, so_partition = p, so_start_offset = None,
                 so_leader_epoch = sho_leader_epoch so, so_error_code = 0\<rparr>
      in case sho_err so of
           Some e \<Rightarrow> row\<lparr>so_error_code := errorCode (Some e)\<rparr>
         | None \<Rightarrow> if sho_start so \<ge> 0 then row\<lparr>so_start_offset := Some (sho_start so)\<rparr> else row)"

definition share_offset_error ::
    "kerr_codes \<Rightarrow> string \<Rightarrow> int32 \<Rightarrow> share_offset \<Rightarrow> sect \<Rightarrow> sect" where
  "share_offset_error kc topic p so sec =
     (case sho_err so of
        Some e \<Rightarrow> recordPartition kc apiDescribeShareGroupOffsets topic p e sec
      | None \<Rightarrow> sec)"

text \<open>The topic and partition loops flattened into the sequence of offsets they visit.\<close>

definition share_offsets_visited ::
    "(string \<times> (int32 \<times> share_offset) list) list \<Rightarrow> (string \<times> int32 \<times> share_offset) list" where
  "share_offsets_visited o' =
     concat (map (\<lambda>topic.
       (let ps = the (map_of o' topic)
        in map (\<lambda>p. (topic, p, the (map_of ps p))) (sortedSharePartitions ps)))
       (sortedShareTopics o'))"

definition share_group_base :: "described_share_group \<Rightarrow> share_group" where
  "share_group_base g =
     \<lparr>sg_id = dsg_id g, sg_state = dsg_state g, sg_coordinator = dsg_coordinator g,
      sg_group_epoch = dsg_epoch g, sg_assignment_epoch = dsg_assignment_epoch g,
      sg_assignor = dsg_assignor g,
      sg_error_code = (case dsg_err g of None \<Rightarrow> 0 | Some e \<Rightarrow> errorCode (Some e)),
      sg_member_count = length (dsg_members g), sg_members = map share_member (dsg_members g),
      sg_start_offsets = []\<rparr>"

definition build_share_group ::
    "kerr_codes \<Rightarrow> (string \<Rightarrow> share_group_offsets option) \<Rightarrow> described_share_group \<Rightarrow> sect \<Rightarrow>
     share_group \<times> sect" where
  "build_share_group kc byGroup g sec =
     (let sg = share_group_base g;
          sec1 = (case dsg_err g of
             None \<Rightarrow> sec | Some e \<Rightarrow> recordGroup kc apiShareGroupDescribe (dsg_id g) e sec)
      in case byGroup (dsg_id g) of
           None \<Rightarrow> (sg, sec1)
         | Some o' \<Rightarrow>
             (let (sg1, sec2) = (case sgo_err o' of
                     None \<Rightarrow> (sg, sec1)
                   | Some e \<Rightarrow>
                       (if sg_error_code sg = 0 then sg\<lparr>sg_error_code := errorCode (Some e)\<rparr> else sg,
                        recordGroup kc apiDescribeShareGroupOffsets (dsg_id g) e sec1));
                  visited = share_offsets_visited (sgo_offsets o')
              in (sg1\<lparr>sg_start_offsets := map (\<lambda>(t, p, so). share_offset_row t p so) visited\<rparr>,
                  fold (\<lambda>(t, p, so). share_offset_error kc t p so) visited sec2)))"

fun build_share_rows ::
    "kerr_codes \<Rightarrow> (string \<Rightarrow> share_group_offsets option) \<Rightarrow> described_share_group list \<Rightarrow> sect \<Rightarrow>
     share_group list \<times> sect" where
  "build_share_rows kc byGroup [] sec = ([], sec)"
| "build_share_rows kc byGroup (g # gs) sec =
     (let (sg, sec1) = build_share_group kc byGroup g sec;
          (rest, sec2) = build_share_rows kc byGroup gs sec1
      in (sg # rest, sec2))"

definition buildShareGroups ::
    "kerr_codes \<Rightarrow> described_share_group list \<Rightarrow> share_group_offsets list \<Rightarrow> sect \<Rightarrow>
     share_group list \<times> sect" where
  "buildShareGroups kc described offsets sec =
     (let byGroup = map_of (rev (map (\<lambda>o'. (sgo_group o', o')) offsets));
          (out, sec') = build_share_rows kc byGroup described sec
      in (sort_key sg_id out, sec'))"

subsection \<open>The phase\<close>

definition share_group_ids :: "collector \<Rightarrow> (string \<times> string) list \<Rightarrow> string list" where
  "share_group_ids c types =
     map fst (filter (\<lambda>(g, t). t = shareGroupType \<and> allow (cn_groups c) g \<and> \<not> isInternalGroup g)
       types)"

definition collectShareGroups ::
    "collector \<Rightarrow> describe_share_groups_call \<Rightarrow> describe_share_offsets_call \<Rightarrow>
     (string \<times> string) list \<Rightarrow> bool \<Rightarrow> share_group list \<times> sect \<times> string list list" where
  "collectShareGroups c dsgs dsos types run =
     (let kc = cn_codes c;
          sec = newSection c ''share_groups''
      in if \<not> run then ([], stopSection c (downgrade SectionSkipped sec), [])
         else let ids = share_group_ids c types
              in if length ids = 0 then ([], stopSection c (downgrade SectionSkipped sec), [])
                 else let ids = sort ids;
                          (described, err) = dsgs ids;
                          (ok, sec1) = request kc apiShareGroupDescribe err sec
                      in if \<not> ok \<and> length described = 0 then ([], stopSection c sec1, [ids])
                         else let (offsets, offErr) = dsos ids;
                                  sec2 = (if offErr \<noteq> None
                                    then snd (requestPartial kc apiDescribeShareGroupOffsets offErr
                                      (length described > 0) sec1)
                                    else sec1);
                                  (out, sec3) = buildShareGroups kc described offsets sec2
                              in (out, stopSection c sec3, [ids, ids]))"

subsection \<open>Lemmas\<close>

definition share_row ::
    "(string \<Rightarrow> share_group_offsets option) \<Rightarrow> described_share_group \<Rightarrow> share_group" where
  "share_row byGroup g =
     (let sg = share_group_base g
      in case byGroup (dsg_id g) of
           None \<Rightarrow> sg
         | Some o' \<Rightarrow>
             sg\<lparr>sg_error_code := (if sg_error_code sg = 0 \<and> sgo_err o' \<noteq> None
                  then errorCode (sgo_err o') else sg_error_code sg),
                sg_start_offsets := map (\<lambda>(t, p, so). share_offset_row t p so)
                  (share_offsets_visited (sgo_offsets o'))\<rparr>)"

lemma build_share_group_fst: "fst (build_share_group kc byGroup g sec) = share_row byGroup g"
  by (simp add: build_share_group_def share_row_def Let_def split: option.split)

lemma build_share_rows_fst:
  "fst (build_share_rows kc byGroup gs sec) = map (share_row byGroup) gs"
proof (induction gs arbitrary: sec)
  case (Cons g gs)
  then show ?case
    by (simp add: split_beta Let_def build_share_group_fst)
qed simp

lemma share_row_simps [simp]:
  "sg_id (share_row byGroup g) = dsg_id g"
  "sg_member_count (share_row byGroup g) = length (dsg_members g)"
  "sg_members (share_row byGroup g) = map share_member (dsg_members g)"
  by (simp_all add: share_row_def share_group_base_def Let_def split: option.split)

lemma fold_offset_errors_phase [simp]:
  "phase_section n sec \<Longrightarrow>
     phase_section n (fold (\<lambda>(t, p, so). share_offset_error kc t p so) visited sec)"
  by (induction visited arbitrary: sec) (auto simp: share_offset_error_def split: option.split)

lemma build_share_rows_phase [simp]:
  "phase_section n sec \<Longrightarrow> phase_section n (snd (build_share_rows kc byGroup gs sec))"
proof (induction gs arbitrary: sec)
  case (Cons g gs)
  have "phase_section n (snd (build_share_group kc byGroup g sec))"
    using Cons.prems by (simp add: build_share_group_def Let_def split_beta split: option.split)
  then show ?case by (simp add: split_beta Let_def Cons.IH)
qed simp

lemma collectShareGroups_section:
  "phase_section ''share_groups'' (fst (snd (collectShareGroups c dsgs dsos types run)))"
  by (simp add: collectShareGroups_def buildShareGroups_def Let_def split_beta)

text \<open>Rows with different ids, sorted by id, do not depend on the order they are built in.\<close>

lemma sort_key_perm:
  assumes "mset xs = mset ys" "distinct (map k xs)"
  shows "sort_key k xs = sort_key k ys"
proof (rule sort_key_inj_key_eq)
  show "mset xs = mset (sort_key k ys)" using assms(1) by simp
  show "inj_on k (set xs)" using assms(2) by (simp add: distinct_map)
qed simp

lemma buildShareGroups_fst:
  "fst (buildShareGroups kc described offsets sec) =
     sort_key sg_id (map (share_row (map_of (rev (map (\<lambda>o'. (sgo_group o', o')) offsets)))) described)"
  by (simp add: buildShareGroups_def split_beta Let_def build_share_rows_fst)

lemma share_row_offsets:
  "r \<in> set (sg_start_offsets (share_row byGroup g)) \<Longrightarrow>
     nonneg_opt (so_start_offset r) \<and> (so_start_offset r \<noteq> None \<longrightarrow> so_error_code r = 0)"
  by (auto simp: share_row_def Let_def share_group_base_def share_offset_row_def
      split: option.splits)

subsection \<open>Properties\<close>

text \<open>
  The share-group rows do not depend on the order Go ranges over the described map: for any
  two orders of the same groups the rows are the same, sorted by id, one for each group with all
  its members and their count; and a start offset is null or a non-negative number, null whenever
  the broker reported an error for the partition.
\<close>

theorem shareGroups_deterministic:
  assumes "mset described = mset described'" "distinct (map dsg_id described)"
  shows "fst (buildShareGroups kc described offsets sec) =
      fst (buildShareGroups kc' described' offsets sec') \<and>
    map sg_id (fst (buildShareGroups kc described offsets sec)) = sort (map dsg_id described) \<and>
    (\<forall>g \<in> set (fst (buildShareGroups kc described offsets sec)).
       sg_member_count g = length (sg_members g) \<and>
       (\<forall>r \<in> set (sg_start_offsets g). nonneg_opt (so_start_offset r) \<and>
          (so_start_offset r \<noteq> None \<longrightarrow> so_error_code r = 0)))"
proof -
  define bg where "bg = map_of (rev (map (\<lambda>o'. (sgo_group o', o')) offsets))"
  have rows: "fst (buildShareGroups kc' ds offsets sec') = sort_key sg_id (map (share_row bg) ds)"
    for kc' ds sec' by (simp add: buildShareGroups_fst bg_def)
  have ids: "map sg_id (map (share_row bg) ds) = map dsg_id ds" for ds by simp
  have "sort_key sg_id (map (share_row bg) described) =
      sort_key sg_id (map (share_row bg) described')"
  proof (rule sort_key_perm)
    show "mset (map (share_row bg) described) = mset (map (share_row bg) described')"
      by (simp only: mset_map assms(1))
    show "distinct (map sg_id (map (share_row bg) described))"
      using assms(2) by (simp only: ids)
  qed
  moreover have "map sg_id (sort_key sg_id (map (share_row bg) described)) =
      sort (map dsg_id described)"
    by (rule properties_for_sort [symmetric]) (simp_all add: multiset.map_comp comp_def)
  ultimately show ?thesis
    unfolding rows by (auto dest: share_row_offsets)
qed

text \<open>
  The phase asks about nothing but share groups: it issues no request exactly when it does
  not run this cycle or no listed group is of type share, allowed and not internal, and otherwise
  each request names exactly those groups, sorted.
\<close>

theorem shareGroups_scope:
  "set (snd (snd (collectShareGroups c dsgs dsos types run))) \<subseteq> {sort (share_group_ids c types)} \<and>
   (snd (snd (collectShareGroups c dsgs dsos types run)) = [] \<longleftrightarrow>
     \<not> (run \<and> (\<exists>g. (g, ''share'') \<in> set types \<and> allow (cn_groups c) g \<and> \<not> isInternalGroup g))) \<and>
   set (share_group_ids c types) =
     {g. (g, ''share'') \<in> set types \<and> allow (cn_groups c) g \<and> \<not> isInternalGroup g}"
proof -
  have ids: "set (share_group_ids c types) =
     {g. (g, ''share'') \<in> set types \<and> allow (cn_groups c) g \<and> \<not> isInternalGroup g}"
    by (force simp: share_group_ids_def shareGroupType_def)
  have none: "share_group_ids c types = [] \<longleftrightarrow>
      \<not> (\<exists>g. (g, ''share'') \<in> set types \<and> allow (cn_groups c) g \<and> \<not> isInternalGroup g)"
    unfolding set_empty [symmetric] ids by blast
  have "set (snd (snd (collectShareGroups c dsgs dsos types run))) \<subseteq>
      {sort (share_group_ids c types)}"
    by (simp add: collectShareGroups_def Let_def split_beta)
  moreover have "snd (snd (collectShareGroups c dsgs dsos types run)) = [] \<longleftrightarrow>
      \<not> run \<or> share_group_ids c types = []"
    by (simp add: collectShareGroups_def Let_def split_beta)
  ultimately show ?thesis using ids none by blast
qed

definition wit_share :: "string \<Rightarrow> described_share_group" where
  "wit_share g =
     \<lparr>dsg_id = g, dsg_state = ''Stable'', dsg_coordinator = 1, dsg_epoch = 2,
      dsg_assignment_epoch = 2, dsg_assignor = ''simple'', dsg_members = [], dsg_err = None\<rparr>"

definition wit_share_offsets :: "share_group_offsets list" where
  "wit_share_offsets = [\<lparr>sgo_group = ''s1'', sgo_offsets =
     [(''orders'', [(1, \<lparr>sho_start = -1, sho_leader_epoch = 0, sho_err = None\<rparr>),
                    (0, \<lparr>sho_start = 5, sho_leader_epoch = 0, sho_err = None\<rparr>)])],
     sgo_err = None\<rparr>]"

theorem shareGroups_deterministic_witness:
  "map sg_id (fst (buildShareGroups wit_codes [wit_share ''s2'', wit_share ''s1''] wit_share_offsets
     (newSection wit_collector ''share_groups''))) = [''s1'', ''s2'']"
proof -
  have m: "mset [wit_share ''s2'', wit_share ''s1''] = mset [wit_share ''s1'', wit_share ''s2'']"
    by simp
  have d: "distinct (map dsg_id [wit_share ''s2'', wit_share ''s1''])" by code_simp
  have s: "sort (map dsg_id [wit_share ''s2'', wit_share ''s1'']) = [''s1'', ''s2'']" by code_simp
  from shareGroups_deterministic [OF m d, of wit_codes wit_share_offsets
      "newSection wit_collector ''share_groups''"] s
  show ?thesis by metis
qed

end
