(* ===== verification/Collector.thy ===== *)
theory Collector
  imports ShareGroups "HOL-Library.Word"
begin

text \<open>
  \<open>src/internal/collector/collector.go\<close> and \<open>rpc.go\<close>: the cadences, the data flow between the
  phases of one cycle, and \<open>finalize\<close>. \<open>Schedule\<close> holds the goroutines.

  The client is the record \<open>cycle_env\<close>: one field per request, and the instants the cycle reads
  off the clock. The variables of \<open>Collect\<close> that the goroutines write are the record \<open>cycle_vars\<close>,
  \<open>zero_vars\<close> their zero values; the zero of an unwritten section is the nil pointer \<open>None\<close>. The
  collector's own state is the cycle counter, a 64-bit word that wraps, and the probed epochs.
\<close>

subsection \<open>Cadence\<close>

definition phaseLogDirs :: "64 word" where "phaseLogDirs = 0"
definition phaseMaxTS :: "64 word" where "phaseMaxTS = 2"
definition phaseConfigs :: "64 word" where "phaseConfigs = 5"
definition phaseWindow :: "64 word" where "phaseWindow = 0"

definition everyNth :: "int \<Rightarrow> 64 word" where
  "everyNth every = (if every < 1 then 1 else word_of_int every)"

definition runsThisCycle :: "bool \<Rightarrow> int \<Rightarrow> 64 word \<Rightarrow> 64 word \<Rightarrow> bool" where
  "runsThisCycle enabled every offset n \<longleftrightarrow> enabled \<and> (n + offset) mod everyNth every = 0"

record cadence =
  ca_window :: bool
  ca_dirs :: bool
  ca_cfg :: bool
  ca_maxTS :: bool

definition cadence_of :: "options \<Rightarrow> 64 word \<Rightarrow> cadence" where
  "cadence_of op n =
     \<lparr>ca_window = runsThisCycle (op_window op) (op_window_every op) phaseWindow n,
      ca_dirs = runsThisCycle (op_log_dirs op) (op_log_dirs_every op) phaseLogDirs n,
      ca_cfg = runsThisCycle (op_configs op) (op_configs_every op) phaseConfigs n,
      ca_maxTS = runsThisCycle (op_max_timestamp op) (op_max_timestamp_every op) phaseMaxTS n\<rparr>"

subsection \<open>The client and the variables of a cycle\<close>

record cycle_env =
  ce_efc :: "int16 \<Rightarrow> goerr option"
  ce_start :: gotime
  ce_list_start :: gotime
  ce_window_now :: gotime
  ce_end :: gotime
  ce_metadata :: "metadata_answer \<times> goerr option"
  ce_list_groups :: list_groups_call
  ce_describe :: describe_groups_call
  ce_describe_consumer :: describe_consumer_groups_call
  ce_fetch :: fetch_call
  ce_window :: window_call
  ce_lists :: list_client
  ce_volume_bytes :: "bool option"
  ce_raw_dirs :: raw_log_dirs_call
  ce_kadm_dirs :: kadm_log_dirs_call
  ce_share :: describe_share_groups_call
  ce_share_offsets :: describe_share_offsets_call
  ce_topic_configs :: topic_configs_call
  ce_broker_configs :: broker_configs_call
  ce_reassign :: reassign_call
  ce_epochs :: epoch_call
  ce_rpc :: "rpc_stats option"

record cycle_vars =
  v_cluster :: "cluster_metrics option"
  v_details :: topic_details
  v_cluster_sec :: "sect option"
  v_group_ids :: "string list"
  v_group_types :: "(string \<times> string) list"
  v_list_err :: "goerr option"
  v_list_start :: gotime
  v_groups :: "group_metrics list"
  v_groups_sec :: "sect option"
  v_offsets :: "consumer_offset list"
  v_offsets_sec :: "sect option"
  v_window :: "throughput_window option"
  v_window_offsets :: "listed_offsets option"
  v_window_sec :: "sect option"
  v_topics :: "topic_metrics list"
  v_topic_secs :: "topic_sections option"
  v_log_dirs :: "log_dir list"
  v_log_dirs_sec :: "sect option"
  v_share :: "share_group list"
  v_share_sec :: "sect option"
  v_topic_cfgs :: "topic_config list"
  v_topic_cfg_sec :: "sect option"
  v_broker_cfgs :: "broker_config list"
  v_broker_cfg_sec :: "sect option"
  v_reassign :: "reassignment list"
  v_reassign_sec :: "sect option"
  v_probes :: "epoch_probe list"
  v_epoch_sec :: "sect option"
  v_probed :: probed_epochs

definition zero_vars :: "probed_epochs \<Rightarrow> cycle_vars" where
  "zero_vars probed =
     \<lparr>v_cluster = None, v_details = None, v_cluster_sec = None, v_group_ids = [],
      v_group_types = [], v_list_err = None, v_list_start = 0, v_groups = [], v_groups_sec = None,
      v_offsets = [], v_offsets_sec = None, v_window = None, v_window_offsets = None,
      v_window_sec = None, v_topics = [], v_topic_secs = None, v_log_dirs = [],
      v_log_dirs_sec = None, v_share = [], v_share_sec = None, v_topic_cfgs = [],
      v_topic_cfg_sec = None, v_broker_cfgs = [], v_broker_cfg_sec = None, v_reassign = [],
      v_reassign_sec = None, v_probes = [], v_epoch_sec = None, v_probed = probed\<rparr>"

subsection \<open>The goroutines' bodies\<close>

text \<open>
  The eleven goroutines the wait group counts and the one that lists groups. The topics goroutine
  is two tasks, before and after its wait for the committed and window samples.
\<close>

datatype task =
    TMeta | TListGroups | TGroups | TOffsets | TWindow | TTopicsStart | TTopics
  | TLogDirs | TShare | TTopicConfigs | TBrokerConfigs | TReassign | TEpochs

fun run_task ::
    "collector \<Rightarrow> cycle_env \<Rightarrow> cadence \<Rightarrow> task \<Rightarrow> cycle_vars \<Rightarrow> cycle_vars" where
  "run_task c env ca TMeta v =
     (let (cl, tds, sec) = collectCluster c (ce_metadata env)
      in v\<lparr>v_cluster := cl, v_details := tds, v_cluster_sec := Some sec\<rparr>)"
| "run_task c env ca TListGroups v =
     (let (ids, types, err) = listGroups (ce_efc env) (ce_list_groups env) c
      in v\<lparr>v_list_start := ce_list_start env, v_group_ids := ids, v_group_types := types,
           v_list_err := err\<rparr>)"
| "run_task c env ca TGroups v =
     (let (groups, sec) = collectGroups c (ce_describe env) (ce_describe_consumer env)
            (v_group_ids v) (v_group_types v) (v_list_err v) (v_list_start v)
      in v\<lparr>v_groups := groups, v_groups_sec := Some sec\<rparr>)"
| "run_task c env ca TOffsets v =
     (let (offsets, sec) = collectOffsets c (ce_fetch env) (v_group_ids v) (v_list_err v)
            (internalTopics (v_details v))
      in v\<lparr>v_offsets := offsets, v_offsets_sec := Some sec\<rparr>)"
| "run_task c env ca TWindow v =
     (let (window, sample, sec, _) = collectThroughputWindow c (ce_window env) (ce_window_now env)
            (v_details v) (op_window_width (cn_opts c)) (ca_window ca)
      in v\<lparr>v_window := window, v_window_offsets := sample, v_window_sec := Some sec\<rparr>)"
| "run_task c env ca TTopicsStart v = v"
| "run_task c env ca TTopics v =
     (let (topics, secs, _) = collectTopics c (ce_lists env) (v_details v) (ca_maxTS ca)
      in v\<lparr>v_topics := topics, v_topic_secs := Some secs\<rparr>)"
| "run_task c env ca TLogDirs v =
     (let (dirs, sec, _) = collectLogDirs c (ce_efc env) (ce_volume_bytes env) (ce_raw_dirs env)
            (ce_kadm_dirs env) (v_cluster v) (v_details v) (ca_dirs ca)
      in v\<lparr>v_log_dirs := dirs, v_log_dirs_sec := Some sec\<rparr>)"
| "run_task c env ca TShare v =
     (let (groups, sec, _) = collectShareGroups c (ce_share env) (ce_share_offsets env)
            (v_group_types v) (op_share_groups (cn_opts c))
      in v\<lparr>v_share := groups, v_share_sec := Some sec\<rparr>)"
| "run_task c env ca TTopicConfigs v =
     (let (cfgs, sec, _) = collectTopicConfigs c (ce_topic_configs env) (v_topics v) (ca_cfg ca)
      in v\<lparr>v_topic_cfgs := cfgs, v_topic_cfg_sec := Some sec\<rparr>)"
| "run_task c env ca TBrokerConfigs v =
     (let (cfgs, sec, _) = collectBrokerConfigs c (ce_broker_configs env) (v_cluster v) (ca_cfg ca)
      in v\<lparr>v_broker_cfgs := cfgs, v_broker_cfg_sec := Some sec\<rparr>)"
| "run_task c env ca TReassign v =
     (let (rs, sec, _) = collectReassignments c (ce_reassign env) (v_topics v)
            (op_reassignments (cn_opts c))
      in v\<lparr>v_reassign := rs, v_reassign_sec := Some sec\<rparr>)"
| "run_task c env ca TEpochs v =
     (let (probes, sec, probed, _) = collectEpochProbes c (ce_epochs env)
            (op_epoch_probes (cn_opts c)) (v_topics v) (v_offsets v) (v_probed v)
      in v\<lparr>v_probes := probes, v_epoch_sec := Some sec, v_probed := probed\<rparr>)"

text \<open>One order in which every goroutine finds what it waits for; \<open>Schedule\<close> shows it is as good as
  any other.\<close>

definition all_tasks :: "task list" where
  "all_tasks =
     [TMeta, TListGroups, TGroups, TWindow, TTopicsStart, TOffsets, TTopics, TLogDirs, TShare,
      TTopicConfigs, TBrokerConfigs, TReassign, TEpochs]"

definition collect_vars ::
    "collector \<Rightarrow> cycle_env \<Rightarrow> cadence \<Rightarrow> probed_epochs \<Rightarrow> cycle_vars" where
  "collect_vars c env ca probed = fold (run_task c env ca) all_tasks (zero_vars probed)"

subsection \<open>The end of a cycle\<close>

definition collectRPC :: "collector \<Rightarrow> rpc_stats option \<Rightarrow> rpc_stats option \<times> sect" where
  "collectRPC c stats =
     (let sec = newSection c ''broker_rpc''
      in case stats of
           None \<Rightarrow> (None, stopSection c (downgrade SectionSkipped sec))
         | Some _ \<Rightarrow> (stats, stopSection c sec))"

definition finalize :: "collector \<Rightarrow> batch \<Rightarrow> sect option list \<Rightarrow> batch" where
  "finalize c b secs =
     (let (errs, _, secs') = mergeErrors secs (lim_max_errors (cn_limits c));
          trunc = fold (\<lambda>so t. case so of None \<Rightarrow> t | Some s \<Rightarrow> truncation_add t (s_dropped s))
            secs' no_truncation;
          b1 = b\<lparr>ba_errors := errs, ba_sections := ba_sections b @ map finish secs'\<rparr>;
          b2 = (if trunc \<noteq> no_truncation then b1\<lparr>ba_truncation := Some trunc\<rparr> else b1)
      in b2\<lparr>ba_selection := selection_of (cn_opts c)\<rparr>)"

text \<open>\<open>windowOffsets.attach(topics)\<close>: a non-nil sample holds the phase's section.\<close>

definition attach_window :: "collector \<Rightarrow> cycle_vars \<Rightarrow> topic_metrics list \<times> sect option" where
  "attach_window c v =
     (case v_window_sec v of
        None \<Rightarrow> (v_topics v, None)
      | Some sec \<Rightarrow>
          (let (topics, sec') = attach (cn_codes c) (v_window_offsets v) (v_topics v) sec
           in (topics, Some sec')))"

definition zero_agent_stats :: agent_stats where
  "zero_agent_stats =
     \<lparr>as_uptime_sec = 0, as_batches_collected = 0, as_batches_exported = 0,
      as_batches_dropped = 0, as_batches_rejected = 0, as_export_retries = 0,
      as_queue_depth = 0, as_last_export_error = [], as_rpc = None\<rparr>"

text \<open>The sections in wire order.\<close>

definition cycle_sections :: "cycle_vars \<Rightarrow> sect option \<Rightarrow> sect \<Rightarrow> sect option list" where
  "cycle_sections v windowSec rpcSec =
     (let ts = (\<lambda>f. map_option f (v_topic_secs v))
      in [v_cluster_sec v,
          ts ts_starts, windowSec, ts ts_lso, ts ts_end,
          ts ts_maxTS, ts ts_local, ts ts_remote,
          v_groups_sec v, v_offsets_sec v,
          v_epoch_sec v,
          v_log_dirs_sec v, v_reassign_sec v, v_topic_cfg_sec v, v_broker_cfg_sec v,
          v_share_sec v, Some rpcSec])"

definition draft_batch :: "collector \<Rightarrow> cycle_env \<Rightarrow> cycle_vars \<Rightarrow> batch" where
  "draft_batch c env v =
     \<lparr>ba_schema_version = schema_version, ba_agent_version = [], ba_instance_id = [], ba_seq = 0,
      ba_collected_at = ce_start env,
      ba_collection_ms = milliseconds (ce_end env - ce_start env),
      ba_cluster = v_cluster v, ba_topics = fst (attach_window c v), ba_groups = v_groups v,
      ba_offsets = v_offsets v, ba_log_dirs = v_log_dirs v, ba_window = v_window v,
      ba_reassignments = v_reassign v, ba_epoch_probes = v_probes v,
      ba_topic_configs = v_topic_cfgs v, ba_broker_configs = v_broker_cfgs v,
      ba_share_groups = v_share v, ba_principal = [],
      ba_agent = zero_agent_stats\<lparr>as_rpc := fst (collectRPC c (ce_rpc env))\<rparr>,
      ba_sections = [], ba_errors = [], ba_truncation = None, ba_selection = None\<rparr>"

definition assemble :: "collector \<Rightarrow> cycle_env \<Rightarrow> cycle_vars \<Rightarrow> batch" where
  "assemble c env v =
     finalize c (draft_batch c env v)
       (cycle_sections v (snd (attach_window c v)) (snd (collectRPC c (ce_rpc env))))"

text \<open>One cycle, from and to the collector's own state: the next cycle's number, the probed epochs.\<close>

definition Collect ::
    "collector \<Rightarrow> cycle_env \<Rightarrow> 64 word \<times> probed_epochs \<Rightarrow>
     batch \<times> cycle_vars \<times> 64 word \<times> probed_epochs" where
  "Collect c env st =
     (let (n, probed) = st;
          v = collect_vars c env (cadence_of (cn_opts c) n) probed
      in (assemble c env v, v, n + 1, v_probed v))"

subsection \<open>The variables at the end\<close>

text \<open>Every phase's variables as its result on the variables of the phases it reads.\<close>

lemma collect_vars_fix:
  assumes "v = collect_vars c env ca probed"
  shows "(v_cluster v, v_details v, the (v_cluster_sec v)) = collectCluster c (ce_metadata env)"
    "(v_group_ids v, v_group_types v, v_list_err v) = listGroups (ce_efc env) (ce_list_groups env) c"
    "v_list_start v = ce_list_start env"
    "(v_groups v, the (v_groups_sec v)) = collectGroups c (ce_describe env)
       (ce_describe_consumer env) (v_group_ids v) (v_group_types v) (v_list_err v) (v_list_start v)"
    "(v_offsets v, the (v_offsets_sec v)) = collectOffsets c (ce_fetch env) (v_group_ids v)
       (v_list_err v) (internalTopics (v_details v))"
    "(v_topics v, the (v_topic_secs v), snd (snd (collectTopics c (ce_lists env) (v_details v)
       (ca_maxTS ca)))) = collectTopics c (ce_lists env) (v_details v) (ca_maxTS ca)"
    "(v_probes v, the (v_epoch_sec v), v_probed v) =
       (let (p, s, q, _) = collectEpochProbes c (ce_epochs env) (op_epoch_probes (cn_opts c))
              (v_topics v) (v_offsets v) probed in (p, s, q))"
  unfolding assms collect_vars_def all_tasks_def
  by (simp_all add: zero_vars_def split_beta Let_def)

lemma collect_vars_sections:
  assumes "v = collect_vars c env ca probed"
  shows "v_cluster_sec v = Some (snd (snd (collectCluster c (ce_metadata env))))"
    "v_groups_sec v = Some (snd (collectGroups c (ce_describe env)
       (ce_describe_consumer env) (v_group_ids v) (v_group_types v) (v_list_err v) (v_list_start v)))"
    "v_offsets_sec v = Some (snd (collectOffsets c (ce_fetch env) (v_group_ids v)
       (v_list_err v) (internalTopics (v_details v))))"
    "v_window_sec v = Some (fst (snd (snd (collectThroughputWindow c (ce_window env)
       (ce_window_now env) (v_details v) (op_window_width (cn_opts c)) (ca_window ca)))))"
    "v_topic_secs v = Some (fst (snd (collectTopics c (ce_lists env) (v_details v) (ca_maxTS ca))))"
    "v_log_dirs_sec v = Some (fst (snd (collectLogDirs c (ce_efc env) (ce_volume_bytes env)
       (ce_raw_dirs env) (ce_kadm_dirs env) (v_cluster v) (v_details v) (ca_dirs ca))))"
    "v_share_sec v = Some (fst (snd (collectShareGroups c (ce_share env) (ce_share_offsets env)
       (v_group_types v) (op_share_groups (cn_opts c)))))"
    "v_topic_cfg_sec v = Some (fst (snd (collectTopicConfigs c (ce_topic_configs env)
       (v_topics v) (ca_cfg ca))))"
    "v_broker_cfg_sec v = Some (fst (snd (collectBrokerConfigs c (ce_broker_configs env)
       (v_cluster v) (ca_cfg ca))))"
    "v_reassign_sec v = Some (fst (snd (collectReassignments c (ce_reassign env) (v_topics v)
       (op_reassignments (cn_opts c)))))"
    "v_epoch_sec v = Some (fst (snd (collectEpochProbes c (ce_epochs env)
       (op_epoch_probes (cn_opts c)) (v_topics v) (v_offsets v) probed)))"
  unfolding assms collect_vars_def all_tasks_def
  by (simp_all add: zero_vars_def split_beta Let_def)

lemma collectCluster_section: "phase_section ''cluster'' (snd (snd (collectCluster c answer)))"
  by (simp add: collectCluster_def Let_def split_beta)

lemma collectRPC_section: "phase_section ''broker_rpc'' (snd (collectRPC c stats))"
  by (simp add: collectRPC_def Let_def split: option.split)

lemma attach_phase: "phase_section n sec \<Longrightarrow> phase_section n (snd (attach kc w topics sec))"
  using attach_worse [of sec kc w topics] phase_section_ext by (auto simp: worse_def)

lemma cycle_sections_named:
  assumes v: "v = collect_vars c env ca probed"
  shows "\<exists>ss. cycle_sections v (snd (attach_window c v)) (snd (collectRPC c rpc)) = map Some ss \<and>
    list_all2 phase_section sectionNames ss"
proof -
  note secs = collect_vars_sections [OF v]
  let ?cl = "snd (snd (collectCluster c (ce_metadata env)))"
  obtain win where win: "v_window_sec v = Some win" "phase_section ''topics_window'' win"
    using secs(4) collectThroughputWindow_section by metis
  obtain ts where ts: "v_topic_secs v = Some ts" "\<And>fl. phase_section (flavour_section fl) (sec_of fl ts)"
    using secs(5) collectTopics_sections by metis
  let ?w = "snd (attach (cn_codes c) (v_window_offsets v) (v_topics v) win)"
  have w: "snd (attach_window c v) = Some ?w" "phase_section ''topics_window'' ?w"
    using win by (simp_all add: attach_window_def split_beta attach_phase)
  obtain ge oe ee le re te be se where
    ge: "v_groups_sec v = Some ge" "phase_section ''groups'' ge" and
    oe: "v_offsets_sec v = Some oe" "phase_section ''offsets'' oe" and
    ee: "v_epoch_sec v = Some ee" "phase_section ''epoch_probes'' ee" and
    le: "v_log_dirs_sec v = Some le" "phase_section ''log_dirs'' le" and
    re: "v_reassign_sec v = Some re" "phase_section ''reassignments'' re" and
    te: "v_topic_cfg_sec v = Some te" "phase_section ''topic_configs'' te" and
    be: "v_broker_cfg_sec v = Some be" "phase_section ''broker_configs'' be" and
    se: "v_share_sec v = Some se" "phase_section ''share_groups'' se"
    using secs(2,3,6-11) collectGroups_section collectOffsets_section collectEpochProbes_section
      collectLogDirs_section collectReassignments_section collectTopicConfigs_section
      collectBrokerConfigs_section collectShareGroups_section by metis
  have fl: "phase_section ''topics'' (ts_starts ts)" "phase_section ''topics_lso'' (ts_lso ts)"
    "phase_section ''topics_end'' (ts_end ts)" "phase_section ''topics_max_timestamp'' (ts_maxTS ts)"
    "phase_section ''topics_local_start'' (ts_local ts)"
    "phase_section ''topics_remote_end'' (ts_remote ts)"
    using ts(2) [of Starts] ts(2) [of Lso] ts(2) [of Ends] ts(2) [of MaxTS] ts(2) [of Locals]
      ts(2) [of Remotes] by (simp_all add: flavour_section_def)
  have "cycle_sections v (snd (attach_window c v)) (snd (collectRPC c rpc)) = map Some
      [?cl, ts_starts ts, ?w, ts_lso ts, ts_end ts, ts_maxTS ts, ts_local ts, ts_remote ts, ge, oe,
       ee, le, re, te, be, se, snd (collectRPC c rpc)]"
    by (simp add: cycle_sections_def Let_def secs(1) ts(1) w(1) ge(1) oe(1) ee(1) le(1) re(1) te(1)
        be(1) se(1))
  moreover have "list_all2 phase_section sectionNames
      [?cl, ts_starts ts, ?w, ts_lso ts, ts_end ts, ts_maxTS ts, ts_local ts, ts_remote ts, ge, oe,
       ee, le, re, te, be, se, snd (collectRPC c rpc)]"
    by (simp add: sectionNames_def collectCluster_section fl w(2) ge(2) oe(2) ee(2) le(2) re(2)
        te(2) be(2) se(2) collectRPC_section)
  ultimately show ?thesis by blast
qed

lemma mergeErrors_sections:
  assumes "secs_inv (map Some ss)"
  shows "\<exists>ss'. snd (snd (mergeErrors (map Some ss) ceiling)) = map Some ss' \<and>
    map s_name ss' = map s_name ss"
proof -
  define out where "out = snd (snd (mergeErrors (map Some ss) ceiling))"
  have len: "length (merge_admitted (map Some ss) ceiling) = length ss"
    using list_all2_lengthD [OF merge_admitted_rows [OF assms, of ceiling]] by simp
  have "map (map_option s_name) (map (snd \<circ> snd) (map2 merge_section (map Some ss) as)) =
      map Some (map s_name ss)" if "length as = length ss" for as
    using that by (induction as ss rule: list_induct2) (simp_all add: merge_section_name)
  from this [OF len] have n: "map (map_option s_name) out = map Some (map s_name ss)"
    by (simp add: out_def mergeErrors_eq Let_def)
  have "None \<notin> set out"
  proof
    assume "None \<in> set out"
    then have "None \<in> set (map (map_option s_name) out)" by force
    then show False unfolding n by auto
  qed
  then have "\<forall>x \<in> set out. (Some \<circ> the) x = id x"
    by (metis comp_apply id_apply option.collapse)
  then have "map (Some \<circ> the) out = map id out"
    by (simp only: map_eq_conv)
  then have out: "out = map Some (map the out)" by simp
  have "map Some (map s_name (map the out)) = map (map_option s_name) (map Some (map the out))"
    by simp
  also have "\<dots> = map Some (map s_name ss)" by (simp only: out [symmetric] n)
  finally have "map Some (map s_name (map the out)) = map Some (map s_name ss)" .
  then have "map s_name (map the out) = map s_name ss"
    by (rule map_injective) (simp add: inj_def)
  with out show ?thesis unfolding out_def by blast
qed

lemma truncation_fold:
  "fold (\<lambda>so t. case so of None \<Rightarrow> t | Some s \<Rightarrow> truncation_add t (s_dropped s)) (map Some ss) t0 =
     \<lparr>tr_collapsed = tr_collapsed t0 + sum_list (map (\<lambda>s. tr_collapsed (s_dropped s)) ss),
      tr_dropped = tr_dropped t0 + sum_list (map (\<lambda>s. tr_dropped (s_dropped s)) ss)\<rparr>"
  by (induction ss arbitrary: t0) (simp_all add: truncation_add_def add.assoc)

text \<open>What \<open>finalize\<close> makes of sections that are all there.\<close>

lemma finalize_blocks:
  assumes "secs_inv (map Some ss)" "ba_sections b = []" "ba_truncation b = None"
  obtains ss' where
    "snd (snd (mergeErrors (map Some ss) (lim_max_errors (cn_limits c)))) = map Some ss'"
    "map s_name ss' = map s_name ss"
    "ba_errors (finalize c b (map Some ss)) =
       fst (mergeErrors (map Some ss) (lim_max_errors (cn_limits c)))"
    "ba_sections (finalize c b (map Some ss)) = map (\<lambda>s. finish (Some s)) ss'"
    "ba_truncation (finalize c b (map Some ss)) =
       (let t = \<lparr>tr_collapsed = sum_list (map (\<lambda>s. tr_collapsed (s_dropped s)) ss'),
                 tr_dropped = sum_list (map (\<lambda>s. tr_dropped (s_dropped s)) ss')\<rparr>
        in if t = no_truncation then None else Some t)"
proof -
  obtain ss' where ss': "snd (snd (mergeErrors (map Some ss) (lim_max_errors (cn_limits c)))) = map Some ss'"
    "map s_name ss' = map s_name ss"
    using mergeErrors_sections [OF assms(1)] by blast
  have f: "fold (\<lambda>so t. case so of None \<Rightarrow> t | Some s \<Rightarrow> truncation_add t (s_dropped s)) (map Some ss')
      no_truncation = \<lparr>tr_collapsed = sum_list (map (\<lambda>s. tr_collapsed (s_dropped s)) ss'),
                 tr_dropped = sum_list (map (\<lambda>s. tr_dropped (s_dropped s)) ss')\<rparr>"
    unfolding truncation_fold by (simp add: no_truncation_def)
  show ?thesis
    by (rule that [OF ss'])
      (simp_all add: finalize_def split_beta ss' f Let_def assms(2,3) comp_def del: fold_map)
qed

text \<open>The blocks of a batch from the finished sections of its cycle.\<close>

lemma Collect_blocks:
  obtains ss ss' where "map s_name ss = sectionNames" "secs_inv (map Some ss)"
    "snd (snd (mergeErrors (map Some ss) (lim_max_errors (cn_limits c)))) = map Some ss'"
    "map s_name ss' = map s_name ss"
    "ba_errors (fst (Collect c env st)) =
       fst (mergeErrors (map Some ss) (lim_max_errors (cn_limits c)))"
    "ba_sections (fst (Collect c env st)) = map (\<lambda>s. finish (Some s)) ss'"
    "ba_truncation (fst (Collect c env st)) =
       (let t = \<lparr>tr_collapsed = sum_list (map (\<lambda>s. tr_collapsed (s_dropped s)) ss'),
                 tr_dropped = sum_list (map (\<lambda>s. tr_dropped (s_dropped s)) ss')\<rparr>
        in if t = no_truncation then None else Some t)"
proof -
  obtain n probed where st: "st = (n, probed)" by (cases st)
  define v where "v = collect_vars c env (cadence_of (cn_opts c) n) probed"
  obtain ss where ss: "cycle_sections v (snd (attach_window c v)) (snd (collectRPC c (ce_rpc env))) =
      map Some ss" "list_all2 phase_section sectionNames ss"
    using cycle_sections_named [OF v_def] by blast
  have names: "map s_name ss = sectionNames"
    using ss(2) by (induction rule: list_all2_induct) (simp_all add: phase_section_def)
  have inv: "secs_inv (map Some ss)"
    using ss(2) by (induction rule: list_all2_induct) (simp_all add: phase_section_def)
  let ?b = "draft_batch c env v"
  have b: "fst (Collect c env st) = finalize c ?b (map Some ss)" "ba_sections ?b = []"
      "ba_truncation ?b = None"
    by (simp_all add: Collect_def st assemble_def Let_def draft_batch_def flip: v_def ss(1))
  show ?thesis
    by (rule finalize_blocks [OF inv b(2,3), of c]) (rule that [OF names inv], unfold b(1))
qed

lemma word_multiple_iff:
  fixes n :: "64 word"
  assumes "m < 2 ^ 64" "k < 2 ^ 64" "unat n + k < 2 ^ 64"
  shows "(n + of_nat k) mod of_nat m = 0 \<longleftrightarrow> (unat n + k) mod m = 0"
proof -
  have "unat (n + of_nat k) = unat n + k"
    using assms(2,3) by (simp add: unat_word_ariths(1) unat_of_nat)
  then have "unat ((n + of_nat k) mod of_nat m) = (unat n + k) mod m"
    using assms(1) by (simp add: unat_mod_distrib unat_of_nat)
  then show ?thesis by (metis unat_eq_zero)
qed

lemma shifted_multiple_iff:
  fixes x :: nat
  assumes "0 < k" "k < m"
  shows "(x + k) mod m = 0 \<longleftrightarrow> x mod m = m - k"
proof -
  define r where "r = x mod m"
  have "(x + k) mod m = (r + k) mod m" by (simp add: r_def mod_add_left_eq)
  moreover have "(r + k) mod m = 0 \<longleftrightarrow> r = m - k"
  proof (cases "r + k < m")
    case True
    with assms show ?thesis by auto
  next
    case False
    have "r < m" using assms by (simp add: r_def)
    with False assms have "(r + k) mod m = r + k - m" by (simp add: mod_if)
    with False assms show ?thesis by auto
  qed
  ultimately show ?thesis by (simp add: r_def)
qed

lemma subseq_set_subset: "subseq xs ys \<Longrightarrow> set xs \<subseteq> set ys"
  by (auto simp: subseq_conv_nths dest: in_set_nthsD)

lemma mod_twelfth: "12 dvd m \<Longrightarrow> (x :: nat) mod m = r \<Longrightarrow> x mod 12 = r mod 12"
  by (metis mod_mod_cancel)

subsection \<open>Properties\<close>

text \<open>
  C25: at the shipped cadences no two of the expensive phases ever sample on the same cycle, for
  every value of the 64-bit counter, and until the counter nears its end they sample exactly on the
  cycles 24k, 12k+10 and 360k+355.
\<close>

theorem cadenced_phases_never_coincide:
  assumes "op_log_dirs_every op = 24" "op_max_timestamp_every op = 12" "op_configs_every op = 360"
    and "unat n < 2 ^ 64 - 5"
  shows "(ca_dirs (cadence_of op n) \<longleftrightarrow> op_log_dirs op \<and> unat n mod 24 = 0) \<and>
    (ca_maxTS (cadence_of op n) \<longleftrightarrow> op_max_timestamp op \<and> unat n mod 12 = 10) \<and>
    (ca_cfg (cadence_of op n) \<longleftrightarrow> op_configs op \<and> unat n mod 360 = 355) \<and>
    \<not> (ca_dirs (cadence_of op n) \<and> ca_maxTS (cadence_of op n)) \<and>
    \<not> (ca_dirs (cadence_of op n) \<and> ca_cfg (cadence_of op n)) \<and>
    \<not> (ca_maxTS (cadence_of op n) \<and> ca_cfg (cadence_of op n))"
proof -
  have 0: "n mod 24 = 0 \<longleftrightarrow> unat n mod 24 = 0"
    using word_multiple_iff [of 24 0 n] assms(4) by simp
  have 2: "(n + 2) mod 12 = 0 \<longleftrightarrow> (unat n + 2) mod 12 = 0"
    using word_multiple_iff [of 12 2 n] assms(4) by simp
  have 5: "(n + 5) mod 360 = 0 \<longleftrightarrow> (unat n + 5) mod 360 = 0"
    using word_multiple_iff [of 360 5 n] assms(4) by simp
  have a: "(unat n + 2) mod 12 = 0 \<longleftrightarrow> unat n mod 12 = 10"
    and b: "(unat n + 5) mod 360 = 0 \<longleftrightarrow> unat n mod 360 = 355"
    using shifted_multiple_iff [of 2 12 "unat n"] shifted_multiple_iff [of 5 360 "unat n"]
    by simp_all
  have d: "ca_dirs (cadence_of op n) \<longleftrightarrow> op_log_dirs op \<and> unat n mod 24 = 0"
    by (simp add: cadence_of_def runsThisCycle_def everyNth_def assms phaseLogDirs_def 0)
  moreover have m: "ca_maxTS (cadence_of op n) \<longleftrightarrow> op_max_timestamp op \<and> unat n mod 12 = 10"
    by (simp add: cadence_of_def runsThisCycle_def everyNth_def assms phaseMaxTS_def 2 [unfolded a])
  moreover have c: "ca_cfg (cadence_of op n) \<longleftrightarrow> op_configs op \<and> unat n mod 360 = 355"
    by (simp add: cadence_of_def runsThisCycle_def everyNth_def assms phaseConfigs_def 5 [unfolded b])
  moreover have "unat n mod 12 = 0" if "unat n mod 24 = 0"
    using mod_twelfth [OF _ that] by simp
  moreover have "unat n mod 12 = 7" if "unat n mod 360 = 355"
    using mod_twelfth [OF _ that] by simp
  ultimately show ?thesis by fastforce
qed

lemma Collect_section_names: "map sw_name (ba_sections (fst (Collect c env st))) = sectionNames"
proof -
  obtain ss ss' where names: "map s_name ss = sectionNames" "secs_inv (map Some ss)"
    "snd (snd (mergeErrors (map Some ss) (lim_max_errors (cn_limits c)))) = map Some ss'"
    "map s_name ss' = map s_name ss"
    and secs: "ba_sections (fst (Collect c env st)) = map (\<lambda>s. finish (Some s)) ss'"
    by (rule Collect_blocks [of c env st])
  show ?thesis using names(1,4) by (simp add: secs finish_def comp_def)
qed

lemma Collect_books:
  "map sw_name (ba_sections (fst (Collect c env st))) = sectionNames \<and>
   list_all (\<lambda>sw. sw_error_count sw =
       int (length (filter (\<lambda>e. ce_section e = sw_name sw) (ba_errors (fst (Collect c env st))))))
     (ba_sections (fst (Collect c env st))) \<and>
   ce_section ` set (ba_errors (fst (Collect c env st))) \<subseteq> set sectionNames \<and>
   (lim_max_errors (cn_limits c) \<le> 0 \<or>
    int (length (ba_errors (fst (Collect c env st)))) \<le> lim_max_errors (cn_limits c))"
proof -
  obtain ss ss' where names: "map s_name ss = sectionNames" and inv: "secs_inv (map Some ss)"
    and ss': "snd (snd (mergeErrors (map Some ss) (lim_max_errors (cn_limits c)))) = map Some ss'"
      "map s_name ss' = map s_name ss"
    and errs: "ba_errors (fst (Collect c env st)) =
       fst (mergeErrors (map Some ss) (lim_max_errors (cn_limits c)))"
    and secs: "ba_sections (fst (Collect c env st)) = map (\<lambda>s. finish (Some s)) ss'"
    by (rule Collect_blocks [of c env st])
  have "map sw_name (ba_sections (fst (Collect c env st))) = sectionNames"
    by (rule Collect_section_names)
  moreover have "list_all (\<lambda>sw. sw_error_count sw =
       int (length (filter (\<lambda>e. ce_section e = sw_name sw) (ba_errors (fst (Collect c env st))))))
     (ba_sections (fst (Collect c env st)))"
  proof -
    have d: "distinct (sect_names (map Some ss))"
      by (simp add: sect_names_def comp_def names sectionNames_def)
    have "sw_error_count (finish (Some s)) = int (named (s_name s) (ba_errors (fst (Collect c env st))))"
      if "s \<in> set ss'" for s
      using mergeErrors_named [OF inv d, of s] that by (simp add: ss'(1) errs)
    then show ?thesis unfolding secs list_all_iff by (simp add: finish_def named_def)
  qed
  moreover have "ce_section ` set (ba_errors (fst (Collect c env st))) \<subseteq> set sectionNames"
  proof
    fix x assume "x \<in> ce_section ` set (ba_errors (fst (Collect c env st)))"
    then obtain e where e: "x = ce_section e" "e \<in> set (all_errs (map Some ss))"
      using subseq_set_subset [OF mergeErrors_subseq [OF inv]] unfolding errs by blast
    then obtain s where s: "s \<in> set ss" "e \<in> set (s_errs s)"
      by (auto simp: all_errs_def row_errs_def)
    then have "sec_inv s" using inv by (auto simp: secs_inv_def)
    then have "x = s_name s" using e(1) s(2) by (simp add: sec_inv_def)
    then show "x \<in> set sectionNames" unfolding names [symmetric] using s(1) by simp
  qed
  moreover have "lim_max_errors (cn_limits c) \<le> 0 \<or>
    int (length (ba_errors (fst (Collect c env st)))) \<le> lim_max_errors (cn_limits c)"
    by (auto simp: errs mergeErrors_length [OF inv] merge_budget_def)
  ultimately show ?thesis by blast
qed

text \<open>
  C26: every batch carries all seventeen sections in wire order, whatever failed; each section's
  error count is the number of the batch's errors that bear its name, every error bears the name
  of a section, and the errors stay within the configured ceiling.
\<close>

theorem Collect_sections:
  "map sw_name (ba_sections (fst (Collect c env st))) = sectionNames \<and>
   list_all (\<lambda>sw. sw_error_count sw =
       int (length (filter (\<lambda>e. ce_section e = sw_name sw) (ba_errors (fst (Collect c env st))))))
     (ba_sections (fst (Collect c env st))) \<and>
   ce_section ` set (ba_errors (fst (Collect c env st))) \<subseteq> set sectionNames \<and>
   (lim_max_errors (cn_limits c) \<le> 0 \<or>
    int (length (ba_errors (fst (Collect c env st)))) \<le> lim_max_errors (cn_limits c))"
  by (rule Collect_books)

text \<open>
  Presence is the signal: a batch has a truncation block exactly when some section collapsed
  or dropped an error, and then the block's two counts are the sums over the sections.
\<close>

theorem Collect_truncation:
  "ba_truncation (fst (Collect c env st)) =
     (if list_all (\<lambda>sw. sw_errors_collapsed sw = 0 \<and> sw_errors_dropped sw = 0)
           (ba_sections (fst (Collect c env st)))
      then None
      else Some \<lparr>tr_collapsed = sum_list (map sw_errors_collapsed (ba_sections (fst (Collect c env st)))),
                 tr_dropped = sum_list (map sw_errors_dropped (ba_sections (fst (Collect c env st))))\<rparr>)"
proof -
  obtain ss' where secs: "ba_sections (fst (Collect c env st)) = map (\<lambda>s. finish (Some s)) ss'"
    and trunc: "ba_truncation (fst (Collect c env st)) =
       (let t = \<lparr>tr_collapsed = sum_list (map (\<lambda>s. tr_collapsed (s_dropped s)) ss'),
                 tr_dropped = sum_list (map (\<lambda>s. tr_dropped (s_dropped s)) ss')\<rparr>
        in if t = no_truncation then None else Some t)"
    by (rule Collect_blocks [of c env st])
  show ?thesis
    unfolding trunc secs
    by (auto simp: no_truncation_def finish_def list_all_iff comp_def Let_def)
qed

theorem cadenced_phases_never_coincide_witness:
  "ca_cfg (cadence_of wit_options 355) \<and> \<not> ca_dirs (cadence_of wit_options 355) \<and>
   \<not> ca_maxTS (cadence_of wit_options 355) \<and> ca_dirs (cadence_of wit_options 0) \<and>
   ca_maxTS (cadence_of wit_options 10)"
proof -
  have op: "op_log_dirs_every wit_options = 24" "op_max_timestamp_every wit_options = 12"
    "op_configs_every wit_options = 360" by (simp_all add: wit_options_def)
  note at = cadenced_phases_never_coincide [OF op]
  show ?thesis
    using at [of 355] at [of 0] at [of 10] by (simp add: wit_options_def)
qed

end
