(* ===== verification/Schedule.thy ===== *)
theory Schedule
  imports Collector
begin

text \<open>
  The goroutines of \<open>Collect\<close> (\<open>src/internal/collector/collector.go\<close>): which task waits for which
  channel, every interleaving of them, and what does not depend on the interleaving.

  A closed channel is the fact that its goroutine has run: \<open>metaDone\<close> is \<open>TMeta\<close>, \<open>groupsListed\<close>
  \<open>TListGroups\<close>, \<open>committedDone\<close> \<open>TOffsets\<close>, \<open>windowDone\<close> \<open>TWindow\<close>, \<open>endDone\<close> \<open>TTopics\<close>. The topics
  goroutine waits for \<open>committedDone\<close> and \<open>windowDone\<close> in a \<open>select\<close> that a cancelled context also
  releases; its two halves are two tasks.
\<close>

subsection \<open>Schedules of a graph of tasks\<close>

text \<open>
  Tasks that read variables other tasks write, and write their own once. \<open>only D\<close> are the variables
  when exactly the tasks of \<open>D\<close> have run. If each task finds what it reads, every schedule that
  respects the waits ends in the same variables; and if the waits are acyclic none gets stuck.
\<close>

locale task_graph =
  fixes awaits :: "'t \<Rightarrow> 't set"
    and run :: "'t \<Rightarrow> 'v \<Rightarrow> 'v"
    and only :: "'t set \<Rightarrow> 'v"
    and rank :: "'t \<Rightarrow> nat"
  assumes run_only: "awaits t \<subseteq> D \<Longrightarrow> t \<notin> D \<Longrightarrow> run t (only D) = only (insert t D)"
    and awaits_rank: "u \<in> awaits t \<Longrightarrow> rank u < rank t"
begin

inductive sched :: "'t list \<Rightarrow> 'v \<Rightarrow> bool" where
  start: "sched [] (only {})"
| step: "sched tr v \<Longrightarrow> t \<notin> set tr \<Longrightarrow> awaits t \<subseteq> set tr \<Longrightarrow> sched (tr @ [t]) (run t v)"

lemma sched_only: "sched tr v \<Longrightarrow> v = only (set tr)"
  by (induction rule: sched.induct) (simp_all add: run_only)

lemma sched_distinct: "sched tr v \<Longrightarrow> distinct tr"
  by (induction rule: sched.induct) auto

lemma sched_awaits:
  "sched tr v \<Longrightarrow> tr = xs @ t # ys \<Longrightarrow> awaits t \<subseteq> set xs"
proof (induction arbitrary: ys rule: sched.induct)
  case (step tr v u)
  show ?case
  proof (cases ys rule: rev_cases)
    case Nil
    with step show ?thesis by simp
  next
    case (snoc zs z)
    with step show ?thesis by simp
  qed
qed simp

lemma sched_progress:
  assumes "sched tr v" "t \<notin> set tr"
  shows "\<exists>u. u \<notin> set tr \<and> awaits u \<subseteq> set tr"
  using assms(2)
proof (induction "rank t" arbitrary: t rule: less_induct)
  case less
  show ?case
  proof (cases "awaits t \<subseteq> set tr")
    case True
    with less.prems show ?thesis by blast
  next
    case False
    then obtain u where "u \<in> awaits t" "u \<notin> set tr" by blast
    with less.hyps awaits_rank show ?thesis by blast
  qed
qed

end

subsection \<open>The waits of a cycle\<close>

text \<open>\<open>cancelled\<close>: the context was done before the channels closed.\<close>

fun awaits :: "bool \<Rightarrow> task \<Rightarrow> task list" where
  "awaits cancelled TMeta = []"
| "awaits cancelled TListGroups = []"
| "awaits cancelled TGroups = [TListGroups]"
| "awaits cancelled TOffsets = [TMeta, TListGroups]"
| "awaits cancelled TWindow = [TMeta]"
| "awaits cancelled TTopicsStart = [TMeta]"
| "awaits cancelled TTopics =
     TMeta # TTopicsStart # (if cancelled then [] else [TOffsets, TWindow])"
| "awaits cancelled TLogDirs = [TMeta, TTopics]"
| "awaits cancelled TShare = [TListGroups]"
| "awaits cancelled TTopicConfigs = [TTopics]"
| "awaits cancelled TBrokerConfigs = [TMeta, TTopics]"
| "awaits cancelled TReassign = [TTopics]"
| "awaits cancelled TEpochs = [TOffsets, TTopics]"

text \<open>
  \<open>cycle_run c env ca probed tr cancelled v\<close>: the tasks \<open>tr\<close> have run in this order, and left the
  variables \<open>v\<close>.
\<close>

inductive cycle_run ::
    "collector \<Rightarrow> cycle_env \<Rightarrow> cadence \<Rightarrow> probed_epochs \<Rightarrow> task list \<Rightarrow> bool \<Rightarrow> cycle_vars \<Rightarrow> bool"
  for c env ca probed where
  begin_cycle: "cycle_run c env ca probed [] False (zero_vars probed)"
| cancel: "cycle_run c env ca probed tr False v \<Longrightarrow> cycle_run c env ca probed tr True v"
| run: "cycle_run c env ca probed tr x v \<Longrightarrow> t \<notin> set tr \<Longrightarrow> set (awaits x t) \<subseteq> set tr \<Longrightarrow>
    cycle_run c env ca probed (tr @ [t]) x (run_task c env ca t v)"

text \<open>The wait group: every goroutine but the one that lists the groups counts.\<close>

definition cycle_done :: "task list \<Rightarrow> bool" where
  "cycle_done tr \<longleftrightarrow> list_all (\<lambda>t. t \<in> set tr)
     [TMeta, TGroups, TOffsets, TWindow, TTopics, TLogDirs, TShare, TTopicConfigs, TBrokerConfigs,
      TReassign, TEpochs]"

definition before :: "'t list \<Rightarrow> 't \<Rightarrow> 't \<Rightarrow> bool" where
  "before tr t u \<longleftrightarrow> (u \<in> set tr \<longrightarrow> t \<in> set (takeWhile (\<lambda>x. x \<noteq> u) tr))"

subsection \<open>The variables when some tasks have run\<close>

definition vars_only :: "probed_epochs \<Rightarrow> cycle_vars \<Rightarrow> task set \<Rightarrow> cycle_vars" where
  "vars_only probed F D =
     (let z = zero_vars probed; pick = (\<lambda>t. if t \<in> D then F else z)
      in \<lparr>v_cluster = v_cluster (pick TMeta), v_details = v_details (pick TMeta),
          v_cluster_sec = v_cluster_sec (pick TMeta), v_group_ids = v_group_ids (pick TListGroups),
          v_group_types = v_group_types (pick TListGroups),
          v_list_err = v_list_err (pick TListGroups),
          v_list_start = v_list_start (pick TListGroups), v_groups = v_groups (pick TGroups),
          v_groups_sec = v_groups_sec (pick TGroups), v_offsets = v_offsets (pick TOffsets),
          v_offsets_sec = v_offsets_sec (pick TOffsets), v_window = v_window (pick TWindow),
          v_window_offsets = v_window_offsets (pick TWindow),
          v_window_sec = v_window_sec (pick TWindow), v_topics = v_topics (pick TTopics),
          v_topic_secs = v_topic_secs (pick TTopics), v_log_dirs = v_log_dirs (pick TLogDirs),
          v_log_dirs_sec = v_log_dirs_sec (pick TLogDirs), v_share = v_share (pick TShare),
          v_share_sec = v_share_sec (pick TShare),
          v_topic_cfgs = v_topic_cfgs (pick TTopicConfigs),
          v_topic_cfg_sec = v_topic_cfg_sec (pick TTopicConfigs),
          v_broker_cfgs = v_broker_cfgs (pick TBrokerConfigs),
          v_broker_cfg_sec = v_broker_cfg_sec (pick TBrokerConfigs),
          v_reassign = v_reassign (pick TReassign),
          v_reassign_sec = v_reassign_sec (pick TReassign), v_probes = v_probes (pick TEpochs),
          v_epoch_sec = v_epoch_sec (pick TEpochs), v_probed = v_probed (pick TEpochs)\<rparr>)"

lemma run_task_only:
  assumes F: "F = collect_vars c env ca probed"
    and "set (awaits True t) \<subseteq> D" "t \<notin> D"
  shows "run_task c env ca t (vars_only probed F D) = vars_only probed F (insert t D)"
  using assms(2,3)
  by (cases t)
    (simp_all add: vars_only_def Let_def F collect_vars_def all_tasks_def zero_vars_def split_beta)

lemma vars_only_none: "vars_only probed F {} = zero_vars probed"
  by (simp add: vars_only_def zero_vars_def Let_def)

lemma all_tasks_UNIV: "set all_tasks = UNIV"
proof
  show "UNIV \<subseteq> set all_tasks"
  proof
    fix t show "t \<in> set all_tasks" by (cases t) (simp_all add: all_tasks_def)
  qed
qed simp

lemma vars_only_all: "vars_only probed F (set all_tasks) = F"
  by (simp add: vars_only_def all_tasks_UNIV)

text \<open>Each task waits for earlier ones of \<open>all_tasks\<close> only.\<close>

fun position :: "'t list \<Rightarrow> 't \<Rightarrow> nat" where
  "position [] t = 0"
| "position (u # us) t = (if t = u then 0 else Suc (position us t))"

lemma awaits_position: "u \<in> set (awaits x t) \<Longrightarrow> position all_tasks u < position all_tasks t"
  by (cases t) (auto simp: all_tasks_def split: if_splits)

lemma awaits_cancelled: "set (awaits True t) \<subseteq> set (awaits x t)"
  by (cases t) auto

interpretation cycle: task_graph "\<lambda>t. set (awaits x t)" "run_task c env ca"
  "vars_only probed (collect_vars c env ca probed)" "position all_tasks"
  for x c env ca probed
proof
  fix D t
  assume "set (awaits x t) \<subseteq> D" "t \<notin> D"
  then show "run_task c env ca t (vars_only probed (collect_vars c env ca probed) D) =
      vars_only probed (collect_vars c env ca probed) (insert t D)"
    using run_task_only [OF refl, of t D] awaits_cancelled [of t x] by blast
qed (rule awaits_position)

lemma cycle_run_sched:
  "cycle_run c env ca probed tr x v \<Longrightarrow>
     task_graph.sched (\<lambda>t. set (awaits x t)) (run_task c env ca)
       (vars_only probed (collect_vars c env ca probed)) tr v"
proof (induction rule: cycle_run.induct)
  case begin_cycle
  show ?case using cycle.sched.start [where x = False] by (simp add: vars_only_none)
next
  case (cancel tr v)
  from cancel.IH show ?case
  proof (induction rule: cycle.sched.induct)
    case start
    show ?case by (rule cycle.sched.start)
  next
    case (step tr v t)
    show ?case
      by (rule cycle.sched.step [OF step.IH]) (use step.hyps awaits_cancelled in blast)+
  qed
next
  case (run tr x v t)
  show ?case by (rule cycle.sched.step [OF run.IH run.hyps(2,3)])
qed

lemma before_awaits:
  assumes "cycle_run c env ca probed tr x v" "t \<in> set (awaits x u)"
  shows "before tr t u"
  unfolding before_def
proof
  assume "u \<in> set tr"
  then have "tr = takeWhile (\<lambda>y. y \<noteq> u) tr @ u # tl (dropWhile (\<lambda>y. y \<noteq> u) tr)"
    by (induction tr) auto
  from cycle.sched_awaits [OF cycle_run_sched [OF assms(1)] this] assms(2)
  show "t \<in> set (takeWhile (\<lambda>y. y \<noteq> u) tr)" by blast
qed

lemma cycle_done_all:
  assumes "cycle_run c env ca probed tr x v" "cycle_done tr"
  shows "set tr = set all_tasks"
proof -
  have "before tr TListGroups TGroups" "before tr TTopicsStart TTopics"
    by (rule before_awaits [OF assms(1)]; simp)+
  moreover have "TGroups \<in> set tr" "TTopics \<in> set tr"
    using assms(2) by (simp_all add: cycle_done_def)
  ultimately have "TListGroups \<in> set tr" "TTopicsStart \<in> set tr"
    by (auto simp: before_def dest: set_takeWhileD)
  then have "t \<in> set tr" for t
    using assms(2) by (cases t) (simp_all add: cycle_done_def)
  then show ?thesis unfolding all_tasks_UNIV by blast
qed

subsection \<open>Properties\<close>

text \<open>
  C7: the batch does not depend on how the goroutines interleave: when the wait group is released,
  every variable holds what the phases compute in dependency order, for every schedule and
  whether or not the context was cancelled; no phase reads a variable before it is written.
\<close>

theorem interleaving_irrelevant:
  assumes "cycle_run c env ca probed tr x v" "cycle_done tr"
  shows "v = collect_vars c env ca probed"
  using cycle.sched_only [OF cycle_run_sched [OF assms(1)]] cycle_done_all [OF assms]
  by (simp add: vars_only_all)

text \<open>
  C27: the order of the samples. In every run, cancelled or not, the metadata precedes everything
  shaped by topics, the group listing precedes its three consumers, the start offsets precede the
  last stable offsets and the high watermarks, and every phase that must not inflate that sample
  comes after it. In every run whose context was not cancelled, the committed offsets and the
  throughput window precede it too; a cancelled run does not wait for these two.
\<close>

theorem phase_order:
  assumes "cycle_run c env ca probed tr x v"
  shows "before tr TMeta TTopicsStart \<and> before tr TTopicsStart TTopics \<and>
    (\<not> x \<longrightarrow> before tr TOffsets TTopics \<and> before tr TWindow TTopics) \<and>
    before tr TListGroups TGroups \<and> before tr TListGroups TOffsets \<and> before tr TListGroups TShare \<and>
    before tr TMeta TOffsets \<and> before tr TMeta TWindow \<and>
    before tr TTopics TLogDirs \<and> before tr TTopics TTopicConfigs \<and>
    before tr TTopics TBrokerConfigs \<and> before tr TTopics TReassign \<and> before tr TTopics TEpochs \<and>
    before tr TOffsets TEpochs"
  by (intro conjI impI before_awaits [OF assms]) simp_all

text \<open>
  C28: a cycle always ends: no reachable schedule is stuck before the wait group is released, no
  goroutine runs twice, and after at most thirteen tasks all have run.
\<close>

theorem cycle_never_stuck:
  assumes "cycle_run c env ca probed tr x v"
  shows "distinct tr \<and> length tr \<le> 13 \<and>
    (cycle_done tr \<or> (\<exists>t. t \<notin> set tr \<and>
       cycle_run c env ca probed (tr @ [t]) x (run_task c env ca t v)))"
proof (intro conjI)
  show d: "distinct tr" by (rule cycle.sched_distinct [OF cycle_run_sched [OF assms]])
  have "card (set tr) \<le> card (set all_tasks)" by (rule card_mono [OF finite_set]) (simp add: all_tasks_UNIV)
  also have "card (set all_tasks) = 13" by (simp add: all_tasks_def)
  finally show "length tr \<le> 13" using distinct_card [OF d] by simp
  show "cycle_done tr \<or> (\<exists>t. t \<notin> set tr \<and>
      cycle_run c env ca probed (tr @ [t]) x (run_task c env ca t v))"
  proof (cases "cycle_done tr")
    case False
    then obtain u where "u \<notin> set tr" by (auto simp: cycle_done_def)
    from cycle.sched_progress [OF cycle_run_sched [OF assms] this]
    show ?thesis using cycle_run.run [OF assms] by blast
  qed simp
qed

subsection \<open>A worked cycle\<close>

definition wit_env :: cycle_env where
  "wit_env =
     \<lparr>ce_efc = wit_efc, ce_start = 0, ce_list_start = 0, ce_window_now = 0, ce_end = 3000000,
      ce_metadata = (\<lparr>ma_cluster = ''c'', ma_brokers = cl_brokers wit_cluster,
        ma_topics = Some [wit_detail]\<rparr>, None),
      ce_list_groups = wit_shards, ce_describe = wit_describe,
      ce_describe_consumer = wit_consumer, ce_fetch = wit_fetch, ce_window = wit_window_call,
      ce_lists = wit_list_client, ce_volume_bytes = Some True, ce_raw_dirs = wit_raw_dirs,
      ce_kadm_dirs = wit_kadm_dirs, ce_share = (\<lambda>_. ([], None)),
      ce_share_offsets = (\<lambda>_. ([], None)), ce_topic_configs = wit_configs,
      ce_broker_configs = wit_broker_configs, ce_reassign = wit_reassign_call,
      ce_epochs = wit_epoch_call, ce_rpc = None\<rparr>"

fun runnable :: "bool \<Rightarrow> task list \<Rightarrow> task list \<Rightarrow> bool" where
  "runnable x tr [] \<longleftrightarrow> True"
| "runnable x tr (t # ts) \<longleftrightarrow>
     t \<notin> set tr \<and> list_all (\<lambda>u. u \<in> set tr) (awaits x t) \<and> runnable x (tr @ [t]) ts"

lemma cycle_run_runnable:
  "cycle_run c env ca probed tr x v \<Longrightarrow> runnable x tr ts \<Longrightarrow>
     cycle_run c env ca probed (tr @ ts) x (fold (run_task c env ca) ts v)"
proof (induction ts arbitrary: tr v)
  case (Cons t ts)
  have "cycle_run c env ca probed (tr @ [t]) x (run_task c env ca t v)"
    by (rule cycle_run.run [OF Cons.prems(1)]) (use Cons.prems(2) in \<open>auto simp: list_all_iff\<close>)
  from Cons.IH [OF this] Cons.prems(2) show ?case by simp
qed simp

text \<open>Another order than \<open>all_tasks\<close>: the group phases first, the triggered phases reversed.\<close>

definition wit_order :: "task list" where
  "wit_order =
     [TListGroups, TShare, TMeta, TOffsets, TTopicsStart, TWindow, TGroups, TTopics, TEpochs,
      TReassign, TBrokerConfigs, TTopicConfigs, TLogDirs]"

lemma wit_cycle_run:
  "cycle_run wit_collector wit_env (cadence_of wit_options 0) [] wit_order False
     (fold (run_task wit_collector wit_env (cadence_of wit_options 0)) wit_order (zero_vars []))"
  using cycle_run_runnable [OF cycle_run.begin_cycle, of wit_order] by (simp add: wit_order_def)

theorem interleaving_irrelevant_witness:
  "fold (run_task wit_collector wit_env (cadence_of wit_options 0)) wit_order (zero_vars []) =
     collect_vars wit_collector wit_env (cadence_of wit_options 0) []"
proof -
  have "cycle_done wit_order" by (simp add: cycle_done_def wit_order_def)
  from interleaving_irrelevant [OF wit_cycle_run this] show ?thesis .
qed

text \<open>Cancelled at the start, the high watermarks may be read ahead of the committed offsets.\<close>

definition wit_cancelled_order :: "task list" where
  "wit_cancelled_order = [TMeta, TTopicsStart, TTopics, TListGroups, TOffsets, TEpochs]"

lemma wit_cancelled_run:
  "cycle_run wit_collector wit_env (cadence_of wit_options 0) [] wit_cancelled_order True
     (fold (run_task wit_collector wit_env (cadence_of wit_options 0)) wit_cancelled_order (zero_vars []))"
  using cycle_run_runnable [OF cycle_run.cancel [OF cycle_run.begin_cycle], of wit_cancelled_order]
  by (simp add: wit_cancelled_order_def)

theorem phase_order_witness:
  "before wit_order TOffsets TTopics \<and> before wit_order TTopics TEpochs \<and>
   before wit_cancelled_order TTopicsStart TTopics \<and> before wit_cancelled_order TTopics TEpochs \<and>
   \<not> before wit_cancelled_order TOffsets TTopics"
proof -
  have "\<not> before wit_cancelled_order TOffsets TTopics"
    by (simp add: before_def wit_cancelled_order_def)
  with phase_order [OF wit_cycle_run] phase_order [OF wit_cancelled_run] show ?thesis by blast
qed

theorem cycle_never_stuck_witness:
  "distinct wit_order \<and> length wit_order \<le> 13 \<and>
    (\<exists>t. t \<notin> set [TMeta] \<and> cycle_run wit_collector wit_env (cadence_of wit_options 0) []
       ([TMeta] @ [t]) False (run_task wit_collector wit_env (cadence_of wit_options 0) t
         (run_task wit_collector wit_env (cadence_of wit_options 0) TMeta (zero_vars []))))"
proof -
  have "cycle_run wit_collector wit_env (cadence_of wit_options 0) [] [TMeta] False
      (run_task wit_collector wit_env (cadence_of wit_options 0) TMeta (zero_vars []))"
    using cycle_run_runnable [OF cycle_run.begin_cycle, of "[TMeta]"] by simp
  moreover have "\<not> cycle_done [TMeta]" by (simp add: cycle_done_def)
  ultimately show ?thesis
    using cycle_never_stuck [OF wit_cycle_run] cycle_never_stuck by blast
qed

end
