(* ===== verification/Capabilities.thy ===== *)
theory Capabilities
  imports GoError Wire
begin

text \<open>
  \<open>src/internal/kafka/capabilities.go\<close> and the parts of \<open>client.go\<close> that decide something: what the
  cluster can be asked, folded from one ApiVersions answer per broker, and the cached probe.

  A map from API keys is an association list. \<open>KeyMaxVersion\<close> of a broker's answer is a function;
  the answers come in the node order of \<open>Sorted()\<close>.
\<close>

subsection \<open>Constants\<close>

definition unknownVersion :: string where "unknownVersion = ''unknown''"

definition listGroupsKey :: int16 where "listGroupsKey = 16"
definition listGroupsStatesFilterVersion :: int16 where "listGroupsStatesFilterVersion = 4"
definition consumerGroupDescribeKey :: int16 where "consumerGroupDescribeKey = 69"
definition listOffsetsKey :: int16 where "listOffsetsKey = 2"
definition listOffsetsIsolationVersion :: int16 where "listOffsetsIsolationVersion = 2"
definition listOffsetsTimestampVersion :: int16 where "listOffsetsTimestampVersion = 1"
definition metadataKey :: int16 where "metadataKey = 3"
definition describeLogDirsKey :: int16 where "describeLogDirsKey = 35"
definition describeLogDirsTotalBytesVersion :: int16 where "describeLogDirsTotalBytesVersion = 4"
definition offsetForLeaderEpochKey :: int16 where "offsetForLeaderEpochKey = 23"
definition shareGroupDescribeKey :: int16 where "shareGroupDescribeKey = 77"
definition describeConfigsKey :: int16 where "describeConfigsKey = 32"
definition listPartitionReassignmentsKey :: int16 where "listPartitionReassignmentsKey = 46"

lemmas api_keys = listGroupsKey_def consumerGroupDescribeKey_def listOffsetsKey_def metadataKey_def
  describeLogDirsKey_def offsetForLeaderEpochKey_def shareGroupDescribeKey_def
  describeConfigsKey_def listPartitionReassignmentsKey_def

definition probedKeys :: "int16 list" where
  "probedKeys =
     [listOffsetsKey, metadataKey, listGroupsKey, offsetForLeaderEpochKey, describeLogDirsKey,
      listPartitionReassignmentsKey, describeConfigsKey, shareGroupDescribeKey,
      consumerGroupDescribeKey]"

definition math_MaxInt16 :: int16 where "math_MaxInt16 = 32767"

subsection \<open>State\<close>

record broker_keys =
  pk_node :: int32
  pk_version :: string
  pk_keys :: "(int16 \<times> int16) list"

record key_floor =
  kf_node :: int32
  kf_version :: int16
  kf_present :: bool

definition no_floor :: key_floor where
  "no_floor = \<lparr>kf_node = 0, kf_version = 0, kf_present = False\<rparr>"

record capabilities =
  cp_floors :: "(int16 \<times> key_floor) list"
  cp_brokers :: "(int32 \<times> string) list"
  cp_probed :: "broker_keys list"

subsection \<open>The probe\<close>

record api_versions_answer =
  av_node :: int32
  av_err :: "goerr option"
  av_raw :: bool
  av_guess :: string
  av_max :: "int16 \<Rightarrow> int16 option"

datatype probe_error = NoBrokerAnswered | BrokerDidNotAnswer int32 goerr | ApiVersionsFailed goerr

definition broker_keys_of :: "api_versions_answer \<Rightarrow> broker_keys" where
  "broker_keys_of v =
     \<lparr>pk_node = av_node v, pk_version = (if av_raw v then av_guess v else unknownVersion),
      pk_keys = List.map_filter (\<lambda>key. map_option (Pair key) (av_max v key)) probedKeys\<rparr>"

fun probe_loop :: "api_versions_answer list \<Rightarrow> probe_error + broker_keys list" where
  "probe_loop [] = Inr []"
| "probe_loop (v # vs) =
     (case av_err v of
        Some e \<Rightarrow> Inl (BrokerDidNotAnswer (av_node v) e)
      | None \<Rightarrow>
          (case probe_loop vs of
             Inl e \<Rightarrow> Inl e
           | Inr bs \<Rightarrow> Inr (broker_keys_of v # bs)))"

definition probeBrokers :: "api_versions_answer list \<Rightarrow> probe_error + broker_keys list" where
  "probeBrokers versions = (if length versions = 0 then Inl NoBrokerAnswered else probe_loop versions)"

fun fold_key :: "int16 \<Rightarrow> broker_keys list \<Rightarrow> key_floor \<Rightarrow> key_floor" where
  "fold_key key [] floor = floor"
| "fold_key key (b # bs) floor =
     (case map_of (pk_keys b) key of
        None \<Rightarrow> \<lparr>kf_node = pk_node b, kf_version = 0, kf_present = False\<rparr>
      | Some mx \<Rightarrow>
          fold_key key bs
            (if mx < kf_version floor
             then \<lparr>kf_node = pk_node b, kf_version = mx, kf_present = True\<rparr> else floor))"

definition foldCapabilities :: "broker_keys list \<Rightarrow> capabilities" where
  "foldCapabilities brokers =
     \<lparr>cp_floors = map (\<lambda>key. (key, fold_key key brokers
        \<lparr>kf_node = 0, kf_version = math_MaxInt16, kf_present = length brokers > 0\<rparr>)) probedKeys,
      cp_brokers = map (\<lambda>b. (pk_node b, pk_version b)) brokers, cp_probed = brokers\<rparr>"

definition floor_of :: "capabilities \<Rightarrow> int16 \<Rightarrow> key_floor" where
  "floor_of c key = (case map_of (cp_floors c) key of None \<Rightarrow> no_floor | Some f \<Rightarrow> f)"

definition atLeast_version :: "capabilities \<Rightarrow> int16 \<Rightarrow> int16 \<Rightarrow> bool" where
  "atLeast_version c key version \<longleftrightarrow>
     kf_present (floor_of c key) \<and> kf_version (floor_of c key) \<ge> version"

definition SupportsGroupStatesFilter :: "capabilities \<Rightarrow> bool" where
  "SupportsGroupStatesFilter c = atLeast_version c listGroupsKey listGroupsStatesFilterVersion"

definition SupportsConsumerGroupDescribe :: "capabilities \<Rightarrow> bool" where
  "SupportsConsumerGroupDescribe c = atLeast_version c consumerGroupDescribeKey 0"

definition SupportsListOffsetsIsolation :: "capabilities \<Rightarrow> bool" where
  "SupportsListOffsetsIsolation c = atLeast_version c listOffsetsKey listOffsetsIsolationVersion"

definition SupportsListOffsetsAfterMilli :: "capabilities \<Rightarrow> bool" where
  "SupportsListOffsetsAfterMilli c = atLeast_version c listOffsetsKey listOffsetsTimestampVersion"

definition SupportsLogDirTotalBytes :: "capabilities \<Rightarrow> bool" where
  "SupportsLogDirTotalBytes c = atLeast_version c describeLogDirsKey describeLogDirsTotalBytesVersion"

definition SupportsOffsetForLeaderEpoch :: "capabilities \<Rightarrow> bool" where
  "SupportsOffsetForLeaderEpoch c = atLeast_version c offsetForLeaderEpochKey 0"

definition SupportsListPartitionReassignments :: "capabilities \<Rightarrow> bool" where
  "SupportsListPartitionReassignments c = atLeast_version c listPartitionReassignmentsKey 0"

definition SupportsMaxTimestampOffsets :: "capabilities \<Rightarrow> bool" where
  "SupportsMaxTimestampOffsets c = atLeast_version c listOffsetsKey 7"

definition SupportsLocalLogStartOffsets :: "capabilities \<Rightarrow> bool" where
  "SupportsLocalLogStartOffsets c = atLeast_version c listOffsetsKey 8"

definition SupportsLatestTieredOffsets :: "capabilities \<Rightarrow> bool" where
  "SupportsLatestTieredOffsets c = atLeast_version c listOffsetsKey 9"

definition SupportsListGroupsTypes :: "capabilities \<Rightarrow> bool" where
  "SupportsListGroupsTypes c = atLeast_version c listGroupsKey 5"

definition SupportsShareGroupDescribe :: "capabilities \<Rightarrow> bool" where
  "SupportsShareGroupDescribe c = atLeast_version c shareGroupDescribeKey 0"

definition SupportsDescribeConfigs :: "capabilities \<Rightarrow> bool" where
  "SupportsDescribeConfigs c = atLeast_version c describeConfigsKey 1"

lemmas supports_defs = SupportsGroupStatesFilter_def SupportsConsumerGroupDescribe_def
  SupportsListOffsetsIsolation_def SupportsListOffsetsAfterMilli_def SupportsLogDirTotalBytes_def
  SupportsOffsetForLeaderEpoch_def SupportsListPartitionReassignments_def
  SupportsMaxTimestampOffsets_def SupportsLocalLogStartOffsets_def SupportsLatestTieredOffsets_def
  SupportsListGroupsTypes_def SupportsShareGroupDescribe_def SupportsDescribeConfigs_def

definition All_capabilities :: "capabilities \<Rightarrow> (string \<times> bool) list" where
  "All_capabilities c =
     [(''group_states_filter'', SupportsGroupStatesFilter c),
      (''consumer_group_describe'', SupportsConsumerGroupDescribe c),
      (''list_offsets_isolation'', SupportsListOffsetsIsolation c),
      (''list_offsets_after_milli'', SupportsListOffsetsAfterMilli c),
      (''log_dir_total_bytes'', SupportsLogDirTotalBytes c),
      (''offset_for_leader_epoch'', SupportsOffsetForLeaderEpoch c),
      (''list_partition_reassignments'', SupportsListPartitionReassignments c)]"

subsection \<open>On the wire\<close>

definition wireAPINames :: "(int16 \<times> string) list" where
  "wireAPINames =
     [(listOffsetsKey, ''list_offsets''), (metadataKey, ''metadata''),
      (listGroupsKey, ''list_groups''), (offsetForLeaderEpochKey, ''offset_for_leader_epoch''),
      (describeLogDirsKey, ''describe_log_dirs''),
      (listPartitionReassignmentsKey, ''list_partition_reassignments''),
      (consumerGroupDescribeKey, ''consumer_group_describe'')]"

definition wire_broker :: "broker_keys \<Rightarrow> broker_capability" where
  "wire_broker b =
     \<lparr>bc_broker_id = pk_node b,
      bc_software_version = (if pk_version b \<noteq> unknownVersion then pk_version b else []),
      bc_api_max_versions = List.map_filter
        (\<lambda>(key, mx). map_option (\<lambda>name. (name, mx)) (map_of wireAPINames key)) (pk_keys b)\<rparr>"

text \<open>The versions appended while ranging over the brokers, each the first time it is seen.\<close>

fun seen_versions :: "broker_keys list \<Rightarrow> string list \<Rightarrow> string list" where
  "seen_versions [] seen = []"
| "seen_versions (b # bs) seen =
     (if pk_version b \<noteq> unknownVersion \<and> pk_version b \<notin> set seen
      then pk_version b # seen_versions bs (pk_version b # seen)
      else seen_versions bs seen)"

definition Wire :: "capabilities option \<Rightarrow> cluster_capabilities option" where
  "Wire co =
     (case co of
        None \<Rightarrow> None
      | Some c \<Rightarrow>
          (let versions = sort (seen_versions (cp_probed c) [])
           in Some \<lparr>cc_features =
                [(''last_stable_offset'', SupportsListOffsetsIsolation c),
                 (''list_offsets_after_milli'', SupportsListOffsetsAfterMilli c),
                 (''group_state_filter'', SupportsGroupStatesFilter c),
                 (''consumer_group_describe'', SupportsConsumerGroupDescribe c),
                 (''log_dirs_volume_bytes'', SupportsLogDirTotalBytes c),
                 (''offset_for_leader_epoch'', SupportsOffsetForLeaderEpoch c),
                 (''list_partition_reassignments'', SupportsListPartitionReassignments c)],
              cc_software_versions = versions, cc_mixed_versions = length versions > 1,
              cc_brokers = map wire_broker (cp_probed c)\<rparr>))"

definition MixedVersions :: "capabilities \<Rightarrow> bool" where
  "MixedVersions c \<longleftrightarrow> list_ex (\<lambda>b. snd b \<noteq> snd (hd (cp_brokers c))) (cp_brokers c)"

datatype filter_check_error =
    NoBrokersProbed
  | NoListGroups int32
  | ListGroupsTooOld int32 int16

definition checkGroupStateFilter :: "capabilities \<Rightarrow> filter_check_error option" where
  "checkGroupStateFilter c =
     (let f = floor_of c listGroupsKey
      in if \<not> kf_present f \<and> length (cp_brokers c) = 0 then Some NoBrokersProbed
         else if \<not> kf_present f then Some (NoListGroups (kf_node f))
         else if kf_version f < listGroupsStatesFilterVersion
              then Some (ListGroupsTooOld (kf_node f) (kf_version f))
         else None)"

subsection \<open>The client\<close>

text \<open>\<open>Probe\<close>: the cached fingerprint and the answer, with the number of requests it issued.\<close>

definition Probe ::
    "api_versions_answer list \<times> goerr option \<Rightarrow> capabilities option \<Rightarrow>
     (probe_error + capabilities) \<times> capabilities option \<times> nat" where
  "Probe answer caps =
     (case caps of
        Some c \<Rightarrow> (Inr c, caps, 0)
      | None \<Rightarrow>
          (case snd answer of
             Some e \<Rightarrow> (Inl (ApiVersionsFailed e), None, 1)
           | None \<Rightarrow>
               (case probeBrokers (fst answer) of
                  Inl e \<Rightarrow> (Inl e, None, 1)
                | Inr brokers \<Rightarrow>
                    (let c = foldCapabilities brokers in (Inr c, Some c, 1)))))"

definition maxRetryTimeout :: duration where "maxRetryTimeout = 15 * second"
definition minRetryTimeout :: duration where "minRetryTimeout = 2 * second"
definition metadataMinAgeFloor :: duration where "metadataMinAgeFloor = 10 * millisecond"
definition metadataMinAgeCeil :: duration where "metadataMinAgeCeil = 5 * second"

definition retryTimeout :: "duration \<Rightarrow> duration" where
  "retryTimeout collectionTimeout =
     (let d = go_div collectionTimeout 2
      in if d > maxRetryTimeout then maxRetryTimeout
         else if d < minRetryTimeout then minRetryTimeout else d)"

definition metadataMinAge :: "duration \<Rightarrow> duration" where
  "metadataMinAge collectionInterval =
     (let d = go_div collectionInterval 2
      in if d > metadataMinAgeCeil then metadataMinAgeCeil
         else if d < metadataMinAgeFloor then metadataMinAgeFloor else d)"

subsection \<open>Lemmas\<close>

definition offers :: "int16 \<Rightarrow> broker_keys \<Rightarrow> int16 \<Rightarrow> bool" where
  "offers key b version \<longleftrightarrow> (case map_of (pk_keys b) key of None \<Rightarrow> False | Some mx \<Rightarrow> version \<le> mx)"

lemma fold_key_atLeast:
  "kf_present floor \<Longrightarrow>
     kf_present (fold_key key bs floor) \<and> v \<le> kf_version (fold_key key bs floor) \<longleftrightarrow>
     v \<le> kf_version floor \<and> (\<forall>b \<in> set bs. offers key b v)"
proof (induction bs arbitrary: floor)
  case (Cons b bs)
  show ?case
  proof (cases "map_of (pk_keys b) key")
    case None
    then show ?thesis by (simp add: offers_def)
  next
    case (Some mx)
    have "kf_present (if mx < kf_version floor
        then \<lparr>kf_node = pk_node b, kf_version = mx, kf_present = True\<rparr> else floor)"
      using Cons.prems by simp
    from Cons.IH [OF this] Some show ?thesis by (auto simp: offers_def)
  qed
qed simp

lemma floor_of_fold:
  "key \<in> set probedKeys \<Longrightarrow> floor_of (foldCapabilities bs) key =
     fold_key key bs \<lparr>kf_node = 0, kf_version = math_MaxInt16, kf_present = length bs > 0\<rparr>"
  by (auto simp: floor_of_def foldCapabilities_def probedKeys_def api_keys)

lemma atLeast_fold:
  assumes "key \<in> set probedKeys" "v \<le> math_MaxInt16"
  shows "atLeast_version (foldCapabilities bs) key v \<longleftrightarrow>
    bs \<noteq> [] \<and> (\<forall>b \<in> set bs. offers key b v)"
proof (cases "bs = []")
  case True
  with assms show ?thesis by (simp add: atLeast_version_def floor_of_fold)
next
  case False
  with fold_key_atLeast [of "\<lparr>kf_node = 0, kf_version = math_MaxInt16, kf_present = length bs > 0\<rparr>"]
  show ?thesis using assms by (simp add: atLeast_version_def floor_of_fold)
qed

lemma fold_key_culprit:
  "bs \<noteq> [] \<Longrightarrow> \<not> kf_present (fold_key key bs floor) \<Longrightarrow> kf_present floor \<Longrightarrow>
     \<exists>b \<in> set bs. pk_node b = kf_node (fold_key key bs floor) \<and> map_of (pk_keys b) key = None"
proof (induction bs arbitrary: floor)
  case (Cons b bs)
  show ?case
  proof (cases "map_of (pk_keys b) key")
    case (Some mx)
    show ?thesis
    proof (cases "bs = []")
      case True
      with Cons.prems Some show ?thesis by (simp split: if_splits)
    next
      case False
      with Cons.IH [OF False] Cons.prems Some show ?thesis by (simp split: if_splits)
    qed
  qed simp
qed simp

lemma fold_key_minimum:
  "kf_present (fold_key key bs floor) \<Longrightarrow> kf_version (fold_key key bs floor) < kf_version floor \<Longrightarrow>
     \<exists>b \<in> set bs. pk_node b = kf_node (fold_key key bs floor) \<and>
       map_of (pk_keys b) key = Some (kf_version (fold_key key bs floor))"
proof (induction bs arbitrary: floor)
  case (Cons b bs)
  show ?case
  proof (cases "map_of (pk_keys b) key")
    case None
    with Cons.prems show ?thesis by simp
  next
    case (Some mx)
    define f where "f = (if mx < kf_version floor
      then \<lparr>kf_node = pk_node b, kf_version = mx, kf_present = True\<rparr> else floor)"
    have eq: "fold_key key (b # bs) floor = fold_key key bs f" using Some by (simp add: f_def)
    show ?thesis
    proof (cases "kf_version (fold_key key bs f) < kf_version f")
      case True
      with Cons.IH [of f] Cons.prems(1) show ?thesis unfolding eq by auto
    next
      case False
      have "fold_key key bs g = g \<or> \<not> kf_present (fold_key key bs g) \<or>
          kf_version (fold_key key bs g) < kf_version g" for g
        by (induction bs arbitrary: g) (fastforce split: option.splits if_splits)+
      with False Cons.prems(1) have "fold_key key bs f = f" unfolding eq by blast
      with Cons.prems(2) Some show ?thesis unfolding eq by (auto simp: f_def split: if_splits)
    qed
  qed
qed simp

lemma seen_versions_set:
  "set (seen_versions bs seen) = pk_version ` set bs - set seen - {unknownVersion}"
  by (induction bs arbitrary: seen) auto

lemma seen_versions_distinct: "distinct (seen_versions bs seen)"
  by (induction bs arbitrary: seen) (auto simp: seen_versions_set)

lemma two_distinct: "distinct xs \<Longrightarrow> length xs > 1 \<longleftrightarrow> (\<exists>u v. u \<noteq> v \<and> {u, v} \<subseteq> set xs)"
proof (cases xs)
  case (Cons x ys)
  assume "distinct xs"
  with Cons show ?thesis by (cases ys) auto
qed simp

subsection \<open>Properties\<close>

text \<open>
  C29: a capability is the minimum over the brokers: for a probed key, the fingerprint offers a
  version exactly when some broker answered and every broker advertises the key at that version
  or above; one old broker switches it off, and an empty cluster has none.
\<close>

theorem capability_is_minimum:
  assumes "key \<in> set probedKeys" "version \<le> math_MaxInt16"
  shows "atLeast_version (foldCapabilities bs) key version \<longleftrightarrow>
    bs \<noteq> [] \<and> (\<forall>b \<in> set bs. \<exists>mx. map_of (pk_keys b) key = Some mx \<and> version \<le> mx)"
proof -
  have "offers key b version \<longleftrightarrow> (\<exists>mx. map_of (pk_keys b) key = Some mx \<and> version \<le> mx)" for b
    by (simp add: offers_def split: option.split)
  then show ?thesis using atLeast_fold [OF assms] by simp
qed

text \<open>
  C30: the startup check of GROUP_STATES accepts a cluster exactly when some broker answered and
  every one of them advertises ListGroups at the version that honours the filter, so a single
  incapable broker, wherever it stands, refuses it. The refusal names a real culprit: a broker that
  does not advertise ListGroups, or one that offers the version in the message, which is too old
  and the least of all brokers; and only an empty cluster is reported as unanswered.
\<close>

theorem checkGroupStateFilter_exact:
  "(checkGroupStateFilter (foldCapabilities bs) = None \<longleftrightarrow>
      bs \<noteq> [] \<and> (\<forall>b \<in> set bs. \<exists>v. map_of (pk_keys b) listGroupsKey = Some v \<and>
        listGroupsStatesFilterVersion \<le> v)) \<and>
   (case checkGroupStateFilter (foldCapabilities bs) of
      None \<Rightarrow> True
    | Some NoBrokersProbed \<Rightarrow> bs = []
    | Some (NoListGroups n) \<Rightarrow> (\<exists>b \<in> set bs. pk_node b = n \<and> map_of (pk_keys b) listGroupsKey = None)
    | Some (ListGroupsTooOld n v) \<Rightarrow> v < listGroupsStatesFilterVersion \<and>
        (\<exists>b \<in> set bs. pk_node b = n \<and> map_of (pk_keys b) listGroupsKey = Some v) \<and>
        (\<forall>b \<in> set bs. \<exists>w. map_of (pk_keys b) listGroupsKey = Some w \<and> v \<le> w))"
proof -
  define f where "f = floor_of (foldCapabilities bs) listGroupsKey"
  let ?init = "\<lparr>kf_node = 0, kf_version = math_MaxInt16, kf_present = length bs > 0\<rparr>"
  have f: "f = fold_key listGroupsKey bs ?init"
    unfolding f_def by (rule floor_of_fold) (simp add: probedKeys_def)
  have empty: "\<not> kf_present f \<and> kf_version f = math_MaxInt16" if "bs = []" using that f by simp
  have culprit: "\<exists>b \<in> set bs. pk_node b = kf_node f \<and> map_of (pk_keys b) listGroupsKey = None"
    if "\<not> kf_present f" "bs \<noteq> []"
    using fold_key_culprit [of bs listGroupsKey ?init] that f by simp
  have minimum: "\<exists>b \<in> set bs. pk_node b = kf_node f \<and>
      map_of (pk_keys b) listGroupsKey = Some (kf_version f)"
    if "kf_present f" "kf_version f < listGroupsStatesFilterVersion"
    using fold_key_minimum [of listGroupsKey bs ?init] that f
    by (simp add: listGroupsStatesFilterVersion_def math_MaxInt16_def)
  have len: "length (cp_brokers (foldCapabilities bs)) = length bs" by (simp add: foldCapabilities_def)
  have check: "checkGroupStateFilter (foldCapabilities bs) =
      (if \<not> kf_present f \<and> bs = [] then Some NoBrokersProbed
       else if \<not> kf_present f then Some (NoListGroups (kf_node f))
       else if kf_version f < listGroupsStatesFilterVersion
            then Some (ListGroupsTooOld (kf_node f) (kf_version f)) else None)"
    by (simp add: checkGroupStateFilter_def len flip: f_def)
  have offered: "offers listGroupsKey b v \<longleftrightarrow> (\<exists>w. map_of (pk_keys b) listGroupsKey = Some w \<and> v \<le> w)"
    for b v by (simp add: offers_def split: option.split)
  have least: "kf_present f \<and> v \<le> kf_version f \<longleftrightarrow> v \<le> math_MaxInt16 \<and>
      (\<forall>b \<in> set bs. \<exists>w. map_of (pk_keys b) listGroupsKey = Some w \<and> v \<le> w)" if "bs \<noteq> []" for v
    using fold_key_atLeast [of ?init listGroupsKey bs v] that f by (simp add: offered)
  have all: "kf_present f \<and> listGroupsStatesFilterVersion \<le> kf_version f \<longleftrightarrow> bs \<noteq> [] \<and>
      (\<forall>b \<in> set bs. \<exists>w. map_of (pk_keys b) listGroupsKey = Some w \<and> listGroupsStatesFilterVersion \<le> w)"
    using least [of listGroupsStatesFilterVersion] empty
    by (cases "bs = []") (auto simp: listGroupsStatesFilterVersion_def math_MaxInt16_def)
  have none: "checkGroupStateFilter (foldCapabilities bs) = None \<longleftrightarrow>
      kf_present f \<and> listGroupsStatesFilterVersion \<le> kf_version f"
    unfolding check by auto
  have nonempty: "bs \<noteq> []" if "kf_present f" using that empty by blast
  show ?thesis
    unfolding none all [symmetric] unfolding check
    using culprit minimum nonempty least [of "kf_version f"] by (auto simp del: f_def)
qed

text \<open>
  The fingerprint on the wire: one row per probed broker in order, the releases guessed for
  them sorted, each once and never the placeholder, and mixed exactly when two brokers were
  guessed as different releases; a later probe asks nothing and answers the same.
\<close>

theorem wire_fingerprint:
  assumes "Probe (answers, None) None = (Inr c, cache, asked)"
  shows "asked = 1 \<and> Probe other cache = (Inr c, cache, 0) \<and>
    (\<exists>w. Wire (Some c) = Some w \<and> map bc_broker_id (cc_brokers w) = map av_node answers \<and>
      sorted (cc_software_versions w) \<and> distinct (cc_software_versions w) \<and>
      set (cc_software_versions w) = {av_guess v |v. v \<in> set answers \<and> av_raw v} - {unknownVersion} \<and>
      (cc_mixed_versions w \<longleftrightarrow> (\<exists>u v. u \<noteq> v \<and> {u, v} \<subseteq> set (cc_software_versions w))))"
proof -
  have loop: "probe_loop vs = Inr bs \<Longrightarrow> bs = map broker_keys_of vs" for vs bs
    by (induction vs arbitrary: bs) (auto split: option.splits sum.splits)
  have "answers \<noteq> []" using assms by (auto simp: Probe_def probeBrokers_def)
  moreover obtain bs where bs: "probeBrokers answers = Inr bs"
    using assms by (cases "probeBrokers answers") (auto simp: Probe_def)
  ultimately have c: "c = foldCapabilities (map broker_keys_of answers)" "cache = Some c" "asked = 1"
    using assms loop [of answers bs] by (auto simp: Probe_def probeBrokers_def Let_def)
  let ?bs = "map broker_keys_of answers"
  let ?vs = "seen_versions ?bs []"
  have vs: "set ?vs = {av_guess v |v. v \<in> set answers \<and> av_raw v} - {unknownVersion}"
    unfolding seen_versions_set by (auto simp: broker_keys_of_def image_iff)
  have mixed: "length ?vs > 1 \<longleftrightarrow> (\<exists>u v. u \<noteq> v \<and> {u, v} \<subseteq> set ?vs)"
    by (rule two_distinct) (rule seen_versions_distinct)
  have "map bc_broker_id (map wire_broker ?bs) = map av_node answers"
    by (simp add: wire_broker_def broker_keys_of_def)
  moreover have "cp_probed c = ?bs" by (simp add: c(1) foldCapabilities_def)
  ultimately have "\<exists>w. Wire (Some c) = Some w \<and> map bc_broker_id (cc_brokers w) = map av_node answers \<and>
      sorted (cc_software_versions w) \<and> distinct (cc_software_versions w) \<and>
      set (cc_software_versions w) = {av_guess v |v. v \<in> set answers \<and> av_raw v} - {unknownVersion} \<and>
      (cc_mixed_versions w \<longleftrightarrow> (\<exists>u v. u \<noteq> v \<and> {u, v} \<subseteq> set (cc_software_versions w)))"
    using seen_versions_distinct [of ?bs "[]"] vs mixed by (simp add: Wire_def Let_def)
  then show ?thesis using c(2,3) by (simp add: Probe_def)
qed

definition wit_answer :: "int32 \<Rightarrow> int16 \<Rightarrow> string \<Rightarrow> api_versions_answer" where
  "wit_answer n v guess =
     \<lparr>av_node = n, av_err = None, av_raw = guess \<noteq> [], av_guess = guess, av_max = (\<lambda>_. Some v)\<rparr>"

theorem capability_is_minimum_witness:
  "\<not> atLeast_version (foldCapabilities
       (map broker_keys_of [wit_answer 1 9 ''v3.9'', wit_answer 2 3 ''v2.5''])) listGroupsKey 4 \<and>
   atLeast_version (foldCapabilities (map broker_keys_of [wit_answer 1 9 ''v3.9'']))
     listGroupsKey 4"
proof -
  have "listGroupsKey \<in> set probedKeys" "(4 :: int16) \<le> math_MaxInt16"
    by (simp_all add: probedKeys_def math_MaxInt16_def)
  note min = capability_is_minimum [OF this]
  have "map_of (pk_keys (broker_keys_of (wit_answer n v guess))) listGroupsKey = Some v" for n v guess
    by (simp add: broker_keys_of_def wit_answer_def probedKeys_def List.map_filter_def api_keys)
  with min show ?thesis by auto
qed

theorem checkGroupStateFilter_exact_witness:
  "checkGroupStateFilter (foldCapabilities
     (map broker_keys_of [wit_answer 1 9 ''v3.9'', wit_answer 2 3 ''v2.5''])) \<noteq> None"
proof -
  have "map_of (pk_keys (broker_keys_of (wit_answer n v guess))) listGroupsKey = Some v" for n v guess
    by (simp add: broker_keys_of_def wit_answer_def probedKeys_def List.map_filter_def api_keys)
  then show ?thesis
    using checkGroupStateFilter_exact
      [of "map broker_keys_of [wit_answer 1 9 ''v3.9'', wit_answer 2 3 ''v2.5'']"]
    by (simp add: listGroupsStatesFilterVersion_def)
qed

theorem wire_fingerprint_witness:
  "\<exists>w. Wire (Some (foldCapabilities (map broker_keys_of [wit_answer 1 9 ''v3.9'', wit_answer 2 3 []]))) =
     Some w \<and> set (cc_software_versions w) = {''v3.9''} \<and> map bc_broker_id (cc_brokers w) = [1, 2]"
proof -
  let ?as = "[wit_answer 1 9 ''v3.9'', wit_answer 2 3 []]"
  let ?c = "foldCapabilities (map broker_keys_of ?as)"
  have p: "Probe (?as, None) None = (Inr ?c, Some ?c, 1)"
    by (simp add: Probe_def probeBrokers_def wit_answer_def Let_def)
  obtain w where w: "Wire (Some ?c) = Some w" "map bc_broker_id (cc_brokers w) = map av_node ?as"
    "set (cc_software_versions w) = {av_guess v |v. v \<in> set ?as \<and> av_raw v} - {unknownVersion}"
    using wire_fingerprint [OF p, of undefined] by blast
  have eq: "{av_guess v |v. v \<in> set xs \<and> av_raw v} = av_guess ` set (filter av_raw xs)" for xs
    by auto
  have one: "av_guess ` set (filter av_raw ?as) = {''v3.9''}" by (simp add: wit_answer_def)
  have "set (cc_software_versions w) = {''v3.9''}"
    unfolding w(3) eq one by (simp add: unknownVersion_def)
  moreover have "map av_node ?as = [1, 2]" by (simp add: wit_answer_def)
  ultimately show ?thesis using w(1,2) by (intro exI [of _ w]) simp
qed

text \<open>
  \<open>MixedVersions\<close>, unlike the wire, counts a broker that could not be guessed as a release of its
  own.
\<close>

lemma mixed_versions_disagree:
  "let c = foldCapabilities (map broker_keys_of [wit_answer 1 9 ''v3.9'', wit_answer 2 3 []])
   in MixedVersions c \<and> map_option cc_mixed_versions (Wire (Some c)) = Some False"
  by code_simp

end
