(* ===== verification/Agent.thy ===== *)
theory Agent
  imports Agent_Config Schedule Capabilities
begin

text \<open>
  \<open>src/internal/agent/agent.go\<close>, and \<open>NewClient\<close> of \<open>src/internal/kafka/client.go\<close>: what startup
  builds from a configuration, the gates, one cycle and the envelope it stamps. The exporter is one
  of the three of \<open>exporter.go\<close>. Logging, signals and the ticker are not modelled: a run of the loop
  is a list of cycles, each with what the collector returned and whether shutdown had begun.
\<close>

subsection \<open>The Kafka client\<close>

datatype sasl_option = SASLPlain string string | SASLSha256 string string | SASLSha512 string string

definition buildSASL :: "config \<Rightarrow> string + sasl_option" where
  "buildSASL cfg =
     (let mech = cf_sasl_mechanism cfg; user = cf_sasl_username cfg; pass = cf_sasl_password cfg
      in if mech = ''PLAIN'' then Inr (SASLPlain user pass)
         else if mech = ''SCRAM-SHA-256'' then Inr (SASLSha256 user pass)
         else if mech = ''SCRAM-SHA-512'' then Inr (SASLSha512 user pass)
         else Inl (''unsupported SASL mechanism: '' @ mech))"

definition dialTimeout :: duration where "dialTimeout = 10 * second"
definition requestRetries :: int where "requestRetries = 3"

text \<open>The options \<open>NewClient\<close> hands to \<open>kgo.NewClient\<close>; TLS is on with system roots or off.\<close>

record client_options =
  co_seeds :: "string list"
  co_client_id :: string
  co_dial_timeout :: duration
  co_retries :: int
  co_retry_timeout :: duration
  co_metadata_min_age :: duration
  co_sasl :: "sasl_option option"
  co_tls :: bool

definition clientOptions :: "config \<Rightarrow> string \<Rightarrow> sasl_option option \<Rightarrow> client_options" where
  "clientOptions cfg version sasl =
     \<lparr>co_seeds = cf_brokers cfg,
      co_client_id = ''streamsight-agent/'' @ (if version = [] then ''dev'' else version) @
        '' ('' @ cf_instance_id cfg @ '')'',
      co_dial_timeout = dialTimeout, co_retries = requestRetries,
      co_retry_timeout = retryTimeout (cf_timeout cfg),
      co_metadata_min_age = metadataMinAge (cf_interval cfg),
      co_sasl = sasl, co_tls = cf_tls cfg\<rparr>"

text \<open>\<open>kgo.NewClient\<close> is a parameter: the error it answers to the options, if any.\<close>

definition NewClient ::
    "(client_options \<Rightarrow> string option) \<Rightarrow> config \<Rightarrow> string \<Rightarrow> string + client_options" where
  "NewClient kgo cfg version =
     (case (if HasSASL cfg then map_sum id Some (buildSASL cfg) else Inr None) of
        Inl e \<Rightarrow> Inl e
      | Inr sasl \<Rightarrow>
          (let opts = clientOptions cfg version sasl
           in case kgo opts of
                Some e \<Rightarrow> Inl (''failed to create kafka client: '' @ e)
              | None \<Rightarrow> Inr opts))"

subsection \<open>Options and gates\<close>

definition collectorOptions :: "config \<Rightarrow> options" where
  "collectorOptions cfg =
     \<lparr>op_timeout = cf_timeout cfg, op_include_internal = cf_include_internal cfg,
      op_topic_include = cf_topic_include cfg, op_topic_exclude = cf_topic_exclude cfg,
      op_group_include = cf_group_include cfg, op_group_exclude = cf_group_exclude cfg,
      op_group_states = cf_group_states cfg,
      op_consumer_groups = cf_consumer_groups cfg, op_last_stable = cf_last_stable cfg,
      op_log_dirs = cf_log_dirs cfg, op_log_dirs_every = cf_log_dirs_every cfg,
      op_window = cf_window cfg, op_window_width = cf_window_width cfg,
      op_window_every = cf_window_every cfg,
      op_max_timestamp = cf_max_timestamp cfg, op_tiered = cf_tiered cfg, op_latest_tiered = True,
      op_share_groups = cf_share_groups cfg,
      op_configs = cf_configs cfg, op_configs_every = cf_configs_every cfg,
      op_max_timestamp_every = cf_max_timestamp_every cfg,
      op_reassignments = True, op_epoch_probes = True,
      op_limits = \<lparr>lim_max_errors = cf_max_errors cfg,
        lim_max_error_samples = cf_max_error_samples cfg\<rparr>\<rparr>"

text \<open>A gate is the switch it guards and whether the cluster supports the phase.\<close>

type_synonym gate =
  "(options \<Rightarrow> bool) \<times> ((bool \<Rightarrow> bool) \<Rightarrow> options \<Rightarrow> options) \<times> (capabilities \<Rightarrow> bool)"

definition gates :: "gate list" where
  "gates =
     [(op_consumer_groups, op_consumer_groups_update, SupportsConsumerGroupDescribe),
      (op_last_stable, op_last_stable_update, SupportsListOffsetsIsolation),
      (op_window, op_window_update, SupportsListOffsetsAfterMilli),
      (op_reassignments, op_reassignments_update, SupportsListPartitionReassignments),
      (op_max_timestamp, op_max_timestamp_update, SupportsMaxTimestampOffsets),
      (op_tiered, op_tiered_update, SupportsLocalLogStartOffsets),
      (op_latest_tiered, op_latest_tiered_update, SupportsLatestTieredOffsets),
      (op_share_groups, op_share_groups_update, SupportsShareGroupDescribe),
      (op_configs, op_configs_update, SupportsDescribeConfigs),
      (op_epoch_probes, op_epoch_probes_update, SupportsOffsetForLeaderEpoch)]"

definition apply_gate :: "capabilities \<Rightarrow> gate \<Rightarrow> options \<Rightarrow> options" where
  "apply_gate caps g opts =
     (case g of (on, set_on, supported) \<Rightarrow>
        if on opts \<and> \<not> supported caps then set_on (\<lambda>_. False) opts else opts)"

definition applyCapabilityGates :: "options \<Rightarrow> capabilities option \<Rightarrow> options" where
  "applyCapabilityGates opts caps =
     (case caps of None \<Rightarrow> opts | Some c \<Rightarrow> fold (apply_gate c) gates opts)"

subsection \<open>The exporter\<close>

datatype pipe =
    HTTPPipe http_exporter
  | FilePipe file_exporter os_state
  | StdoutPipe stdout_exporter

record io =
  io_marshal :: marshal
  io_gzip :: "string \<Rightarrow> string + string"
  io_disk :: disk
  io_stdout :: "string \<Rightarrow> string option"

definition export_config_of :: "config \<Rightarrow> export_config" where
  "export_config_of cfg =
     \<lparr>xc_mode = cf_mode cfg, xc_endpoint = cf_endpoint cfg, xc_api_key = cf_api_key cfg,
      xc_queue_size = cf_queue_size cfg, xc_max_retries = cf_max_retries cfg,
      xc_base_delay = cf_base_delay cfg, xc_timeout = cf_export_timeout cfg,
      xc_path = cf_file cfg, xc_max_mb = cf_file_max_mb cfg,
      xc_max_backups = cf_file_max_backups cfg, xc_sync = cf_file_sync cfg\<rparr>"

datatype exporter_error = ConfigRefused export_config_error | FileRefused string

definition buildExporter :: "disk \<Rightarrow> os_state \<Rightarrow> export_config \<Rightarrow> exporter_error + pipe" where
  "buildExporter d os xc =
     (case newExporter xc of
        Inl e \<Rightarrow> Inl (ConfigRefused e)
      | Inr HTTPKind \<Rightarrow> Inr (HTTPPipe (NewHTTPExporter xc))
      | Inr StdoutKind \<Rightarrow> Inr (StdoutPipe \<lparr>so_counters = zero_counters, so_written = []\<rparr>)
      | Inr FileKind \<Rightarrow>
          (case NewFileExporter d xc os of
             (Inl e, _) \<Rightarrow> Inl (FileRefused e)
           | (Inr f, os') \<Rightarrow> Inr (FilePipe f os')))"

definition pipe_export ::
    "io \<Rightarrow> string option \<Rightarrow> batch \<Rightarrow> pipe \<Rightarrow> (string option \<times> pipe) option" where
  "pipe_export i ctxErr b p =
     (case p of
        HTTPPipe e \<Rightarrow>
          map_option (map_prod id HTTPPipe) (HTTPExport (io_marshal i) (io_gzip i) ctxErr (Some b) e)
      | FilePipe f os \<Rightarrow>
          map_option (\<lambda>(r, f', os'). (r, FilePipe f' os'))
            (FileExport (io_marshal i) (io_disk i) ctxErr (Some b) (f, os))
      | StdoutPipe e \<Rightarrow>
          Some (map_prod id StdoutPipe (stdout_export (io_marshal i) (io_stdout i) ctxErr (Some b) e)))"

definition pipe_counters :: "pipe \<Rightarrow> counters" where
  "pipe_counters p =
     (case p of HTTPPipe e \<Rightarrow> hx_counters e | FilePipe f os \<Rightarrow> fx_counters f
      | StdoutPipe e \<Rightarrow> so_counters e)"

definition pipe_stats :: "pipe \<Rightarrow> export_stats" where
  "pipe_stats p =
     (case p of HTTPPipe e \<Rightarrow> HTTPStats e | _ \<Rightarrow> counters_snapshot (pipe_counters p))"

definition pipe_pending :: "pipe \<Rightarrow> nat" where
  "pipe_pending p = st_queue_depth (pipe_stats p)"

definition pipe_ok :: "pipe \<Rightarrow> bool" where
  "pipe_ok p = (case p of FilePipe f os \<Rightarrow> file_ok (f, os) | _ \<Rightarrow> True)"

subsection \<open>Startup\<close>

datatype startup_error =
    ClientError string
  | PingError string
  | StatesError probe_error
  | StatesRefused filter_check_error
  | CollectorError filter_error
  | ExporterError exporter_error

record agent =
  ag_cfg :: config
  ag_version :: string
  ag_caps :: "cluster_capabilities option"
  ag_started_at :: gotime
  ag_seq :: uint64
  ag_exporter :: pipe
  ag_collector :: collector

text \<open>The world at startup; \<open>su_probe n\<close> is the answer to the probe number \<open>n\<close>.\<close>

record startup =
  su_regexp :: regexp_engine
  su_kgo :: "client_options \<Rightarrow> string option"
  su_ping :: "string option"
  su_probe :: "nat \<Rightarrow> api_versions_answer list \<times> goerr option"
  su_codes :: kerr_codes
  su_clock :: "string \<Rightarrow> gotime \<times> gotime"
  su_disk :: disk
  su_os :: os_state
  su_now :: gotime

datatype client_state = NoClient | ClientOpen | ClientClosed

text \<open>
  \<open>CheckGroupStateFilter\<close> with the client's cache; the probe behind it is free when the cache is
  filled.
\<close>

definition state_filter_check ::
    "startup \<Rightarrow> config \<Rightarrow> startup_error option \<times> capabilities option \<times> nat" where
  "state_filter_check su cfg =
     (if cf_group_states cfg = [] then (None, None, 0)
      else case Probe (su_probe su 0) None of
        (Inl e, cache, n) \<Rightarrow> (Some (StatesError e), cache, n)
      | (Inr caps, cache, n) \<Rightarrow> (map_option StatesRefused (checkGroupStateFilter caps), cache, n))"

definition newAgent :: "startup \<Rightarrow> config \<Rightarrow> string \<Rightarrow> (startup_error + agent) \<times> client_state" where
  "newAgent su cfg version =
     (case NewClient (su_kgo su) cfg version of
        Inl e \<Rightarrow> (Inl (ClientError e), NoClient)
      | Inr _ \<Rightarrow>
          (case su_ping su of
             Some e \<Rightarrow> (Inl (PingError e), ClientClosed)
           | None \<Rightarrow>
               (case state_filter_check su cfg of
                  (Some e, _) \<Rightarrow> (Inl e, ClientClosed)
                | (None, cache, n) \<Rightarrow>
                    (let caps = (case fst (Probe (su_probe su n) cache) of
                           Inl _ \<Rightarrow> None | Inr c \<Rightarrow> Some c);
                         opts = applyCapabilityGates (collectorOptions cfg) caps
                     in case newCollector (su_regexp su) (su_codes su) (su_clock su) opts of
                          Inl e \<Rightarrow> (Inl (CollectorError e), ClientClosed)
                        | Inr coll \<Rightarrow>
                            (case buildExporter (su_disk su) (su_os su) (export_config_of cfg) of
                               Inl e \<Rightarrow> (Inl (ExporterError e), ClientClosed)
                             | Inr ex \<Rightarrow>
                                 (Inr \<lparr>ag_cfg = cfg, ag_version = version, ag_caps = Wire caps,
                                     ag_started_at = su_now su, ag_seq = 0, ag_exporter = ex,
                                     ag_collector = coll\<rparr>, ClientOpen))))))"

subsection \<open>One cycle\<close>

text \<open>\<open>int64(time.Since(t).Seconds())\<close>: whole seconds.\<close>

definition stamp :: "agent \<Rightarrow> gotime \<Rightarrow> batch \<Rightarrow> batch" where
  "stamp a now b =
     (let stats = pipe_stats (ag_exporter a)
      in b\<lparr>ba_schema_version := schema_version, ba_agent_version := ag_version a,
           ba_instance_id := cf_instance_id (ag_cfg a), ba_seq := ag_seq a,
           ba_principal := cf_sasl_username (ag_cfg a),
           ba_cluster := map_option (\<lambda>cl. cl\<lparr>cl_capabilities := ag_caps a\<rparr>) (ba_cluster b),
           ba_agent :=
             \<lparr>as_uptime_sec = go_div (now - ag_started_at a) second,
              as_batches_collected = ag_seq a,
              as_batches_exported = st_exported stats, as_batches_dropped = st_dropped stats,
              as_batches_rejected = st_rejected stats, as_export_retries = st_retries stats,
              as_queue_depth = int (st_queue_depth stats), as_last_export_error = st_last_error stats,
              as_rpc = as_rpc (ba_agent b)\<rparr>\<rparr>)"

text \<open>
  What one cycle meets: the collector's batch, whether shutdown had begun when it returned, the
  clock, and the state of the export context when \<open>Export\<close> looks at it.
\<close>

record cycle_input =
  cy_batch :: "batch option"
  cy_stopped :: bool
  cy_now :: gotime
  cy_ctx :: "string option"
  cy_io :: io

text \<open>The cycle: the agent after it and the batch handed to the exporter; \<open>None\<close> is a panic.\<close>

definition runCycle :: "agent \<Rightarrow> cycle_input \<Rightarrow> (agent \<times> batch option) option" where
  "runCycle a cy =
     (case cy_batch cy of
        None \<Rightarrow> Some (a, None)
      | Some b \<Rightarrow>
          if cy_stopped cy then Some (a, None)
          else
            let a1 = a\<lparr>ag_seq := ag_seq a + 1\<rparr>;
                b1 = stamp a1 (cy_now cy) b
            in (case pipe_export (cy_io cy) (cy_ctx cy) b1 (ag_exporter a1) of
                  None \<Rightarrow> None
                | Some (_, ex) \<Rightarrow> Some (a1\<lparr>ag_exporter := ex\<rparr>, Some b1)))"

fun run_cycles :: "agent \<Rightarrow> cycle_input list \<Rightarrow> (agent \<times> batch list) option" where
  "run_cycles a [] = Some (a, [])"
| "run_cycles a (cy # cys) =
     (case runCycle a cy of
        None \<Rightarrow> None
      | Some (a1, b) \<Rightarrow>
          map_option (\<lambda>(a2, bs). (a2, (case b of None \<Rightarrow> bs | Some x \<Rightarrow> x # bs))) (run_cycles a1 cys))"

definition pipe_close :: "disk \<Rightarrow> pipe \<Rightarrow> string option \<times> pipe" where
  "pipe_close d p =
     (case p of
        HTTPPipe e \<Rightarrow> (None, HTTPPipe (e\<lparr>hx_closed := True\<rparr>))
      | FilePipe f os \<Rightarrow> (case FileClose d (f, os) of (err, f', os') \<Rightarrow> (err, FilePipe f' os'))
      | StdoutPipe e \<Rightarrow> (None, StdoutPipe e))"

text \<open>\<open>Close\<close>: the exporter first, then the client, whatever the exporter answers.\<close>

definition agentClose :: "disk \<Rightarrow> agent \<Rightarrow> string option \<times> agent \<times> client_state" where
  "agentClose d a =
     (let (err, ex) = pipe_close d (ag_exporter a)
      in (map_option (\<lambda>e. ''close exporter: '' @ e) err, a\<lparr>ag_exporter := ex\<rparr>, ClientClosed))"

subsection \<open>The exporter's contract, whichever it is\<close>

interpretation pipe_ex: exporter "pipe_export i" pipe_counters pipe_pending pipe_ok
  for i
proof unfold_locales
  show "pipe_export i (Some e) b s = Some (Some e, s)" for e b s
    by (cases s) (simp_all add: pipe_export_def http_ex.export_dead file_ex.export_dead
        stdout_export_def)
  show "\<exists>err s'. pipe_export i None b s = Some (err, s') \<and> pipe_ok s' \<and>
      settled (pipe_counters s') + pipe_pending s' = settled (pipe_counters s) + pipe_pending s + 1"
    if ok: "pipe_ok s" for b s
  proof (cases s)
    case (HTTPPipe e)
    obtain err e' where "HTTPExport (io_marshal i) (io_gzip i) None (Some b) e = Some (err, e')"
      "settled (hx_counters e') + length (hx_queue e') =
        settled (hx_counters e) + length (hx_queue e) + 1"
      using http_ex.export_live [where s = e and marshal = "io_marshal i" and gz = "io_gzip i" and b = b] by auto
    with HTTPPipe show ?thesis
      by (simp add: pipe_export_def pipe_counters_def pipe_pending_def pipe_stats_def pipe_ok_def
          HTTPStats_def)
  next
    case (FilePipe f os)
    with ok obtain err f' os' where
      "FileExport (io_marshal i) (io_disk i) None (Some b) (f, os) = Some (err, f', os')"
      "file_ok (f', os')" "settled (fx_counters f') = settled (fx_counters f) + 1"
      using file_ex.export_live [where s = "(f, os)" and marshal = "io_marshal i" and d = "io_disk i" and b = b] by (auto simp: pipe_ok_def)
    with FilePipe show ?thesis
      by (simp add: pipe_export_def pipe_counters_def pipe_pending_def pipe_stats_def pipe_ok_def
          counters_snapshot_def)
  next
    case (StdoutPipe e)
    obtain err e' where "stdout_export (io_marshal i) (io_stdout i) None (Some b) e = (err, e')"
      "settled (so_counters e') = settled (so_counters e) + 1"
      using stdout_ex.export_live [where s = e and marshal = "io_marshal i" and wr = "io_stdout i" and b = b] by auto
    with StdoutPipe show ?thesis
      by (simp add: pipe_export_def pipe_counters_def pipe_pending_def pipe_stats_def pipe_ok_def
          counters_snapshot_def)
  qed
qed

subsection \<open>Runs of cycles\<close>

definition ships :: "cycle_input \<Rightarrow> bool" where
  "ships cy \<longleftrightarrow> cy_batch cy \<noteq> None \<and> \<not> cy_stopped cy"

lemma stamp_seq [simp]: "ba_seq (stamp a now b) = ag_seq a"
  by (simp add: stamp_def Let_def)

lemma runCycle_idle: "\<not> ships cy \<Longrightarrow> runCycle a cy = Some (a, None)"
  by (auto simp: runCycle_def ships_def split: option.split)

lemma runCycle_ships:
  assumes "ships cy" "pipe_ok (ag_exporter a)"
  shows "\<exists>a' b. runCycle a cy = Some (a', Some b) \<and> ba_seq b = Suc (ag_seq a) \<and>
    ag_seq a' = Suc (ag_seq a) \<and> pipe_ok (ag_exporter a') \<and>
    settled (pipe_counters (ag_exporter a')) + pipe_pending (ag_exporter a') =
      settled (pipe_counters (ag_exporter a)) + pipe_pending (ag_exporter a) +
      (if cy_ctx cy = None then 1 else 0)"
proof -
  obtain b where b: "cy_batch cy = Some b" "\<not> cy_stopped cy" using assms(1) by (auto simp: ships_def)
  define b1 where "b1 = stamp (a\<lparr>ag_seq := ag_seq a + 1\<rparr>) (cy_now cy) b"
  have seq: "ba_seq b1 = Suc (ag_seq a)" by (simp add: b1_def)
  have "\<exists>err ex. pipe_export (cy_io cy) (cy_ctx cy) b1 (ag_exporter a) = Some (err, ex) \<and> pipe_ok ex \<and>
    settled (pipe_counters ex) + pipe_pending ex =
      settled (pipe_counters (ag_exporter a)) + pipe_pending (ag_exporter a) +
      (if cy_ctx cy = None then 1 else 0)"
  proof (cases "cy_ctx cy")
    case None
    then show ?thesis using pipe_ex.export_live [OF assms(2), of "cy_io cy" b1] by auto
  next
    case (Some e)
    then show ?thesis using pipe_ex.export_dead [of "cy_io cy" e b1 "ag_exporter a"] assms(2) by simp
  qed
  then obtain err ex where ex: "pipe_export (cy_io cy) (cy_ctx cy) b1 (ag_exporter a) = Some (err, ex)"
    "pipe_ok ex" "settled (pipe_counters ex) + pipe_pending ex =
      settled (pipe_counters (ag_exporter a)) + pipe_pending (ag_exporter a) +
      (if cy_ctx cy = None then 1 else 0)" by blast
  have "runCycle a cy = Some (a\<lparr>ag_seq := ag_seq a + 1, ag_exporter := ex\<rparr>, Some b1)"
    using b ex(1) by (simp add: runCycle_def b1_def Let_def)
  with ex(2,3) seq show ?thesis by simp
qed

lemma run_cycles_spec:
  assumes "pipe_ok (ag_exporter a)"
  shows "\<exists>a' bs. run_cycles a cys = Some (a', bs) \<and>
    map ba_seq bs = [Suc (ag_seq a) ..< Suc (ag_seq a')] \<and>
    ag_seq a' = ag_seq a + length (filter ships cys) \<and>
    settled (pipe_counters (ag_exporter a')) + pipe_pending (ag_exporter a') =
      settled (pipe_counters (ag_exporter a)) + pipe_pending (ag_exporter a) +
      length (filter (\<lambda>cy. ships cy \<and> cy_ctx cy = None) cys)"
  using assms
proof (induction cys arbitrary: a)
  case (Cons cy cys)
  show ?case
  proof (cases "ships cy")
    case False
    with Cons.IH [OF Cons.prems] show ?thesis by (auto simp: runCycle_idle)
  next
    case True
    obtain a1 b where a1: "runCycle a cy = Some (a1, Some b)" "ba_seq b = Suc (ag_seq a)"
      "ag_seq a1 = Suc (ag_seq a)" "pipe_ok (ag_exporter a1)"
      "settled (pipe_counters (ag_exporter a1)) + pipe_pending (ag_exporter a1) =
        settled (pipe_counters (ag_exporter a)) + pipe_pending (ag_exporter a) +
        (if cy_ctx cy = None then 1 else 0)"
      using runCycle_ships [OF True Cons.prems] by blast
    obtain a2 bs where a2: "run_cycles a1 cys = Some (a2, bs)"
      "map ba_seq bs = [Suc (ag_seq a1) ..< Suc (ag_seq a2)]"
      "ag_seq a2 = ag_seq a1 + length (filter ships cys)"
       "settled (pipe_counters (ag_exporter a2)) + pipe_pending (ag_exporter a2) =
        settled (pipe_counters (ag_exporter a1)) + pipe_pending (ag_exporter a1) +
        length (filter (\<lambda>cy. ships cy \<and> cy_ctx cy = None) cys)"
      using Cons.IH [OF a1(4)] by blast
    have "map ba_seq (b # bs) = [Suc (ag_seq a) ..< Suc (ag_seq a2)]"
      using a1(2,3) a2(2,3) by (simp add: upt_conv_Cons del: upt_Suc)
    with True a1 a2 show ?thesis by auto
  qed
qed simp

subsection \<open>Startup\<close>

lemma compilePatterns_ok:
  assumes "regexp_ok re" "list_all (\<lambda>entry. ascii entry \<and> validatePattern re entry = None) es"
  shows "\<exists>ms. compilePatterns re es = Inr ms"
  using assms(2)
proof (induction es)
  case (Cons entry es)
  then obtain m ms where "compilePattern re entry = Inr m" "compilePatterns re es = Inr ms"
    using validatePattern_agrees [OF assms(1), of entry] by auto
  then show ?case by simp
qed simp

lemma apply_gate_law:
  "set_on (\<lambda>_. on opts) opts = opts \<Longrightarrow>
     apply_gate c (on, set_on, supports) opts = set_on (\<lambda>_. on opts \<and> supports c) opts"
  by (cases "on opts"; cases "supports c") (simp_all add: apply_gate_def)

lemma apply_gate_each:
  "apply_gate c (op_consumer_groups, op_consumer_groups_update, supports) opts =
     opts\<lparr>op_consumer_groups := op_consumer_groups opts \<and> supports c\<rparr>"
  "apply_gate c (op_last_stable, op_last_stable_update, supports) opts =
     opts\<lparr>op_last_stable := op_last_stable opts \<and> supports c\<rparr>"
  "apply_gate c (op_window, op_window_update, supports) opts =
     opts\<lparr>op_window := op_window opts \<and> supports c\<rparr>"
  "apply_gate c (op_reassignments, op_reassignments_update, supports) opts =
     opts\<lparr>op_reassignments := op_reassignments opts \<and> supports c\<rparr>"
  "apply_gate c (op_max_timestamp, op_max_timestamp_update, supports) opts =
     opts\<lparr>op_max_timestamp := op_max_timestamp opts \<and> supports c\<rparr>"
  "apply_gate c (op_tiered, op_tiered_update, supports) opts =
     opts\<lparr>op_tiered := op_tiered opts \<and> supports c\<rparr>"
  "apply_gate c (op_latest_tiered, op_latest_tiered_update, supports) opts =
     opts\<lparr>op_latest_tiered := op_latest_tiered opts \<and> supports c\<rparr>"
  "apply_gate c (op_share_groups, op_share_groups_update, supports) opts =
     opts\<lparr>op_share_groups := op_share_groups opts \<and> supports c\<rparr>"
  "apply_gate c (op_configs, op_configs_update, supports) opts =
     opts\<lparr>op_configs := op_configs opts \<and> supports c\<rparr>"
  "apply_gate c (op_epoch_probes, op_epoch_probes_update, supports) opts =
     opts\<lparr>op_epoch_probes := op_epoch_probes opts \<and> supports c\<rparr>"
  by (rule apply_gate_law, simp)+

lemma gates_closed:
  "applyCapabilityGates opts (Some c) =
     opts\<lparr>op_consumer_groups := op_consumer_groups opts \<and> SupportsConsumerGroupDescribe c,
       op_last_stable := op_last_stable opts \<and> SupportsListOffsetsIsolation c,
       op_window := op_window opts \<and> SupportsListOffsetsAfterMilli c,
       op_reassignments := op_reassignments opts \<and> SupportsListPartitionReassignments c,
       op_max_timestamp := op_max_timestamp opts \<and> SupportsMaxTimestampOffsets c,
       op_tiered := op_tiered opts \<and> SupportsLocalLogStartOffsets c,
       op_latest_tiered := op_latest_tiered opts \<and> SupportsLatestTieredOffsets c,
       op_share_groups := op_share_groups opts \<and> SupportsShareGroupDescribe c,
       op_configs := op_configs opts \<and> SupportsDescribeConfigs c,
       op_epoch_probes := op_epoch_probes opts \<and> SupportsOffsetForLeaderEpoch c\<rparr>"
  by (simp add: applyCapabilityGates_def gates_def apply_gate_each)

lemma gates_selection:
  "op_topic_include (applyCapabilityGates opts caps) = op_topic_include opts"
  "op_topic_exclude (applyCapabilityGates opts caps) = op_topic_exclude opts"
  "op_group_include (applyCapabilityGates opts caps) = op_group_include opts"
  "op_group_exclude (applyCapabilityGates opts caps) = op_group_exclude opts"
proof -
  have "applyCapabilityGates opts None = opts" by (simp add: applyCapabilityGates_def)
  then show "op_topic_include (applyCapabilityGates opts caps) = op_topic_include opts"
    "op_topic_exclude (applyCapabilityGates opts caps) = op_topic_exclude opts"
    "op_group_include (applyCapabilityGates opts caps) = op_group_include opts"
    "op_group_exclude (applyCapabilityGates opts caps) = op_group_exclude opts"
    by (cases caps; simp add: gates_closed)+
qed

lemma newCollector_ok:
  assumes "regexp_ok re"
    and "list_all (\<lambda>entry. ascii entry \<and> validatePattern re entry = None)
      (op_topic_include opts @ op_topic_exclude opts @ op_group_include opts @ op_group_exclude opts)"
  shows "\<exists>coll. newCollector re codes clk opts = Inr coll"
proof -
  obtain a b c d where "compilePatterns re (op_topic_include opts) = Inr a"
    "compilePatterns re (op_topic_exclude opts) = Inr b"
    "compilePatterns re (op_group_include opts) = Inr c"
    "compilePatterns re (op_group_exclude opts) = Inr d"
    using compilePatterns_ok [OF assms(1)] assms(2) unfolding list_all_append by metis
  then show ?thesis by (simp add: newCollector_def newFilter_def)
qed

lemma newExporter_ok:
  assumes "mode_ok lib cfg" "export_ok cfg"
  shows "\<exists>kind. newExporter (export_config_of cfg) = Inr kind"
  using assms by (auto simp: newExporter_def export_config_of_def mode_ok_def export_ok_def)

lemma buildSASL_ok:
  assumes "kafka_ok cfg" "HasSASL cfg"
  shows "\<exists>opt. buildSASL cfg = Inr opt"
  using assms by (auto simp: kafka_ok_def HasSASL_def buildSASL_def Let_def)

lemma NewClient_kgo:
  assumes "kafka_ok cfg" "NewClient kgo cfg version = Inl e"
  shows "\<exists>opts k. kgo opts = Some k"
proof -
  obtain sasl where sasl: "(if HasSASL cfg then map_sum id Some (buildSASL cfg) else Inr None) = Inr sasl"
  proof (cases "HasSASL cfg")
    case True
    with buildSASL_ok [OF assms(1)] obtain opt where "buildSASL cfg = Inr opt" by blast
    with True that show ?thesis by simp
  qed (use that in simp)
  have "kgo (clientOptions cfg version sasl) \<noteq> None"
    using assms(2) by (auto simp: NewClient_def sasl Let_def split: option.splits)
  then show ?thesis by blast
qed

lemma buildExporter_kind:
  "newExporter xc = Inr kind \<Longrightarrow> buildExporter d os xc = Inl (ConfigRefused e) \<Longrightarrow> False"
  by (cases kind) (auto simp: buildExporter_def split: prod.splits sum.splits)

subsection \<open>Properties\<close>

text \<open>What startup does once the configuration's own checks cannot fail.\<close>

lemma newAgent_causes:
  assumes client: "\<And>e. NewClient (su_kgo su) cfg version = Inl e \<Longrightarrow> \<exists>opts k. su_kgo su opts = Some k"
    and coll: "\<And>caps. \<exists>coll. newCollector (su_regexp su) (su_codes su) (su_clock su)
      (applyCapabilityGates (collectorOptions cfg) caps) = Inr coll"
    and ex: "\<And>x. buildExporter (su_disk su) (su_os su) (export_config_of cfg) = Inl x \<Longrightarrow> \<exists>e. x = FileRefused e"
  shows "(case fst (newAgent su cfg version) of
       Inl (ClientError e) \<Rightarrow> \<exists>opts k. su_kgo su opts = Some k
     | Inl (CollectorError e) \<Rightarrow> False
     | Inl (ExporterError (ConfigRefused e)) \<Rightarrow> False
     | _ \<Rightarrow> True) \<and>
    (snd (newAgent su cfg version) = ClientOpen \<longleftrightarrow> \<not> isl (fst (newAgent su cfg version)))"
proof (cases "NewClient (su_kgo su) cfg version")
  case (Inl e)
  with client [OF Inl] show ?thesis by (simp add: newAgent_def)
next
  case opts: (Inr o')
  show ?thesis
  proof (cases "su_ping su")
    case (Some e)
    with opts show ?thesis by (simp add: newAgent_def)
  next
    case None
    obtain err cache n where check: "state_filter_check su cfg = (err, cache, n)" by (metis prod_cases3)
    show ?thesis
    proof (cases err)
      case (Some e)
      then have "\<forall>x. e \<noteq> CollectorError x" "\<forall>x. e \<noteq> ClientError x" "\<forall>x. e \<noteq> ExporterError x"
        using check by (auto simp: state_filter_check_def split: if_splits sum.splits prod.splits)
      with Some check opts None show ?thesis
        by (cases e) (simp_all add: newAgent_def)
    next
      case ok: None
      define caps where "caps = (case fst (Probe (su_probe su n) cache) of
          Inl _ \<Rightarrow> None | Inr c \<Rightarrow> Some c)"
      obtain c where c: "newCollector (su_regexp su) (su_codes su) (su_clock su)
          (applyCapabilityGates (collectorOptions cfg) caps) = Inr c" using coll by blast
      show ?thesis
        using ex opts None check ok c
        by (cases "buildExporter (su_disk su) (su_os su) (export_config_of cfg)")
          (auto simp: newAgent_def Let_def simp flip: caps_def)
    qed
  qed
qed


text \<open>
  The gates only switch off. Each of the ten gated phases is on after the gates exactly when it
  was on before and every broker supports it; nothing else changes, and a cluster whose probe
  failed keeps every phase as configured.
\<close>

theorem gates_only_disable:
  "applyCapabilityGates opts (Some c) =
     opts\<lparr>op_consumer_groups := op_consumer_groups opts \<and> SupportsConsumerGroupDescribe c,
       op_last_stable := op_last_stable opts \<and> SupportsListOffsetsIsolation c,
       op_window := op_window opts \<and> SupportsListOffsetsAfterMilli c,
       op_reassignments := op_reassignments opts \<and> SupportsListPartitionReassignments c,
       op_max_timestamp := op_max_timestamp opts \<and> SupportsMaxTimestampOffsets c,
       op_tiered := op_tiered opts \<and> SupportsLocalLogStartOffsets c,
       op_latest_tiered := op_latest_tiered opts \<and> SupportsLatestTieredOffsets c,
       op_share_groups := op_share_groups opts \<and> SupportsShareGroupDescribe c,
       op_configs := op_configs opts \<and> SupportsDescribeConfigs c,
       op_epoch_probes := op_epoch_probes opts \<and> SupportsOffsetForLeaderEpoch c\<rparr> \<and>
   applyCapabilityGates opts None = opts"
  using gates_closed [of opts c] by (simp add: applyCapabilityGates_def)

text \<open>
  C14: the agent's books. Over any sequence of cycles nothing panics; the batches handed to the
  exporter are numbered without a hole, one number per batch, and a cycle without a batch or cut
  short by shutdown consumes none; and each of them handed over on a live context is settled or
  queued in the exporter, whichever exporter it is.
\<close>

theorem agent_accounts:
  assumes "pipe_ok (ag_exporter a)"
  shows "\<exists>a' bs. run_cycles a cys = Some (a', bs) \<and>
    map ba_seq bs = [Suc (ag_seq a) ..< Suc (ag_seq a')] \<and>
    ag_seq a' = ag_seq a + length (filter ships cys) \<and>
    settled (pipe_counters (ag_exporter a')) + pipe_pending (ag_exporter a') =
      settled (pipe_counters (ag_exporter a)) + pipe_pending (ag_exporter a) +
      length (filter (\<lambda>cy. ships cy \<and> cy_ctx cy = None) cys)"
  using run_cycles_spec [OF assms] .

text \<open>
  What the collector wrote is what the exporter gets. A cycle ships the collector's batch with
  every section in wire order and with its errors, its inventories and its RPC window unchanged;
  the envelope alone is stamped, with the number of this batch.
\<close>

theorem shipped_batch_is_the_collected_one:
  assumes "cy_batch cy = Some (fst (Collect c env st))" "\<not> cy_stopped cy"
    and "runCycle a cy = Some (a', out)"
  shows "\<exists>b. out = Some b \<and> map sw_name (ba_sections b) = sectionNames \<and>
    b = (fst (Collect c env st))
      \<lparr>ba_schema_version := schema_version, ba_agent_version := ag_version a,
       ba_instance_id := cf_instance_id (ag_cfg a), ba_seq := ag_seq a',
       ba_principal := cf_sasl_username (ag_cfg a),
       ba_cluster := map_option (\<lambda>cl. cl\<lparr>cl_capabilities := ag_caps a\<rparr>)
         (ba_cluster (fst (Collect c env st))),
       ba_agent := (ba_agent b)\<lparr>as_rpc := as_rpc (ba_agent (fst (Collect c env st)))\<rparr>\<rparr> \<and>
    as_batches_collected (ba_agent b) = ba_seq b"
proof -
  let ?b0 = "fst (Collect c env st)"
  define b where "b = stamp (a\<lparr>ag_seq := ag_seq a + 1\<rparr>) (cy_now cy) ?b0"
  have out: "out = Some b" "ag_seq a' = ag_seq a + 1"
    using assms by (auto simp: runCycle_def b_def Let_def split: option.splits)
  have "map sw_name (ba_sections b) = sectionNames"
    using Collect_section_names [of c env st] by (simp add: b_def stamp_def Let_def)
  moreover have "as_rpc (ba_agent b) = as_rpc (ba_agent ?b0)"
    "as_batches_collected (ba_agent b) = ba_seq b"
    by (simp_all add: b_def stamp_def Let_def)
  moreover have "b = ?b0
      \<lparr>ba_schema_version := schema_version, ba_agent_version := ag_version a,
       ba_instance_id := cf_instance_id (ag_cfg a), ba_seq := ag_seq a',
       ba_principal := cf_sasl_username (ag_cfg a),
       ba_cluster := map_option (\<lambda>cl. cl\<lparr>cl_capabilities := ag_caps a\<rparr>) (ba_cluster ?b0),
       ba_agent := (ba_agent b)\<lparr>as_rpc := as_rpc (ba_agent ?b0)\<rparr>\<rparr>"
    by (simp add: b_def stamp_def Let_def out(2))
  ultimately show ?thesis using out(1) by blast
qed

subsection \<open>Witnesses\<close>

definition wit_startup :: startup where
  "wit_startup =
     \<lparr>su_regexp = wit_re, su_kgo = (\<lambda>_. None), su_ping = None, su_probe = (\<lambda>_. ([], None)),
      su_codes = cn_codes wit_collector, su_clock = (\<lambda>_. (0, 0)), su_disk = good_disk,
      su_os = \<lparr>os_files = (\<lambda>_. None), os_ticks = 0\<rparr>, su_now = 0\<rparr>"


definition wit_agent :: agent where
  "wit_agent =
     \<lparr>ag_cfg = plain_config, ag_version = ''1.0'', ag_caps = None, ag_started_at = 0, ag_seq = 0,
      ag_exporter = StdoutPipe \<lparr>so_counters = zero_counters, so_written = []\<rparr>,
      ag_collector = wit_collector\<rparr>"

definition wit_cycle :: "batch option \<Rightarrow> bool \<Rightarrow> cycle_input" where
  "wit_cycle b stopped =
     \<lparr>cy_batch = b, cy_stopped = stopped, cy_now = second, cy_ctx = None,
      cy_io = \<lparr>io_marshal = braces, io_gzip = Inr, io_disk = good_disk, io_stdout = (\<lambda>_. None)\<rparr>\<rparr>"

theorem agent_accounts_witness:
  "\<exists>a' bs. run_cycles wit_agent [wit_cycle (Some (bare_batch 9)) False, wit_cycle None False,
       wit_cycle (Some (bare_batch 9)) True, wit_cycle (Some (bare_batch 9)) False] = Some (a', bs) \<and>
     map ba_seq bs = [1, 2] \<and> settled (pipe_counters (ag_exporter a')) = 2"
proof -
  have ok: "pipe_ok (ag_exporter wit_agent)" by (simp add: wit_agent_def pipe_ok_def)
  from agent_accounts [OF ok, of "[wit_cycle (Some (bare_batch 9)) False, wit_cycle None False,
      wit_cycle (Some (bare_batch 9)) True, wit_cycle (Some (bare_batch 9)) False]"]
  obtain a' bs where run: "run_cycles wit_agent [wit_cycle (Some (bare_batch 9)) False, wit_cycle None False,
       wit_cycle (Some (bare_batch 9)) True, wit_cycle (Some (bare_batch 9)) False] = Some (a', bs)"
    "map ba_seq bs = [Suc (ag_seq wit_agent) ..< Suc (ag_seq a')]" "ag_seq a' = ag_seq wit_agent + 2"
    "settled (pipe_counters (ag_exporter a')) + pipe_pending (ag_exporter a') = 2"
    by (auto simp: wit_cycle_def ships_def wit_agent_def pipe_counters_def pipe_pending_def
        pipe_stats_def counters_snapshot_def)
  have "pipe_pending (ag_exporter a') = 0" using run(1)
    by (auto simp: wit_agent_def wit_cycle_def runCycle_def pipe_export_def pipe_pending_def
        pipe_stats_def counters_snapshot_def Let_def map_prod_def split: prod.splits)
  moreover have "map ba_seq bs = [1, 2]" using run(2,3) by (simp add: wit_agent_def upt_rec)
  ultimately show ?thesis using run(1,4) by auto
qed

theorem shipped_batch_is_the_collected_one_witness:
  "\<exists>a' b. runCycle wit_agent (wit_cycle (Some (fst (Collect wit_collector wit_env (0, [])))) False) =
      Some (a', Some b) \<and> map sw_name (ba_sections b) = sectionNames"
proof -
  let ?cy = "wit_cycle (Some (fst (Collect wit_collector wit_env (0, [])))) False"
  have "ships ?cy" "pipe_ok (ag_exporter wit_agent)"
    by (simp_all add: ships_def wit_cycle_def wit_agent_def pipe_ok_def)
  from runCycle_ships [OF this] obtain a' out where run: "runCycle wit_agent ?cy = Some (a', out)"
    by blast
  from shipped_batch_is_the_collected_one [OF _ _ run, of wit_collector wit_env "(0, [])"] run
  show ?thesis by (auto simp: wit_cycle_def)
qed

end
