(* ===== verification/Mock_Wire.thy ===== *)
theory Mock_Wire
  imports Agent_Config
begin

text \<open>
  What the mock ingest reads of a decoded batch. \<open>Wire\<close> holds the values an agent can build; a
  peer can send any JSON that fits the Go types of \<open>src/internal/metrics/types.go\<close>, so here a
  status and an error kind are the bare strings of those types, a Go \<open>int\<close> is an \<open>int\<close> that may
  be negative, and a \<open>uint64\<close> is a 64-bit word. A list that is absent decodes to the empty list.
  Fields the mock never reads are left out. \<open>decoded\<close> is the batch of an agent as it decodes at
  the other end: the composition of \<open>json.Marshal\<close> and \<open>json.Decode\<close> on these fields.
\<close>

subsection \<open>The enumerations as strings\<close>

fun status_text :: "section_status \<Rightarrow> string" where
  "status_text SectionOK = ''ok''"
| "status_text SectionSkipped = ''skipped''"
| "status_text SectionPartial = ''partial''"
| "status_text SectionFailed = ''failed''"
| "status_text SectionUnauthorized = ''unauthorized''"

fun kind_text :: "error_kind \<Rightarrow> string" where
  "kind_text KindNone = ''''"
| "kind_text KindAuthorization = ''authorization''"
| "kind_text KindCoordinator = ''coordinator''"
| "kind_text KindTransport = ''transport''"
| "kind_text KindUnsupported = ''unsupported''"
| "kind_text KindOther = ''other''"

lemma status_text_inject [simp]: "status_text s = status_text t \<longleftrightarrow> s = t"
  by (cases s; cases t) simp_all

subsection \<open>The decoded batch\<close>

record wsection =
  ws_name :: string
  ws_status :: string
  ws_sampled_at :: gotime
  ws_duration_ms :: int64
  ws_error_count :: int
  ws_errors_collapsed :: int
  ws_errors_dropped :: int

record werror =
  we_section :: string
  we_kind :: string
  we_message :: string
  we_count :: int

record wtruncation =
  wt_collapsed :: int
  wt_dropped :: int

record wagent =
  wa_collected :: "64 word"
  wa_exported :: "64 word"
  wa_dropped :: "64 word"
  wa_rejected :: "64 word"
  wa_queue_depth :: int
  wa_last_export_error :: string

record wpartition =
  wp_id :: int32
  wp_leader :: int32
  wp_replicas :: "int32 list"
  wp_isr :: "int32 list"
  wp_start :: "int64 option"
  wp_end :: "int64 option"
  wp_lso :: "int64 option"
  wp_error_code :: int16

record wtopic =
  wtp_name :: string
  wtp_partition_count :: int
  wtp_replication_factor :: int
  wtp_partitions :: "wpartition list"

record wgroup =
  wg_id :: string
  wg_generation :: int32
  wg_member_count :: int
  wg_members :: nat

record woffset =
  wof_topic :: string
  wof_partition :: int32
  wof_committed :: "int64 option"

record wconsumer =
  wc_group_id :: string
  wc_offset_count :: int
  wc_offsets :: "woffset list"

record wdirpart =
  wdp_topic :: string
  wdp_partition :: int32
  wdp_size :: int64
  wdp_offset_lag :: int64

record wlogdir =
  wd_broker :: int32
  wd_dir :: string
  wd_total :: "int64 option"
  wd_usable :: "int64 option"
  wd_partitions :: "wdirpart list"

record wcluster =
  wcl_broker_count :: int
  wcl_brokers :: nat

record wbatch =
  wb_schema_version :: int
  wb_agent_version :: string
  wb_instance_id :: string
  wb_seq :: "64 word"
  wb_collected_at :: gotime
  wb_collection_ms :: int64
  wb_cluster :: "wcluster option"
  wb_topics :: "wtopic list"
  wb_groups :: "wgroup list"
  wb_offsets :: "wconsumer list"
  wb_log_dirs :: "wlogdir list"
  wb_agent :: wagent
  wb_sections :: "wsection list"
  wb_errors :: "werror list"
  wb_truncation :: "wtruncation option"
  wb_selection :: "selection option"

subsection \<open>A batch of the agent, decoded\<close>

definition decoded_section :: "section_wire \<Rightarrow> wsection" where
  "decoded_section s =
     \<lparr>ws_name = sw_name s, ws_status = status_text (sw_status s), ws_sampled_at = sw_sampled_at s,
      ws_duration_ms = sw_duration_ms s, ws_error_count = sw_error_count s,
      ws_errors_collapsed = int (sw_errors_collapsed s), ws_errors_dropped = int (sw_errors_dropped s)\<rparr>"

definition decoded_error :: "collection_error \<Rightarrow> werror" where
  "decoded_error e =
     \<lparr>we_section = ce_section e, we_kind = kind_text (ce_kind e), we_message = ce_message e,
      we_count = int (ce_count e)\<rparr>"

definition decoded_agent :: "agent_stats \<Rightarrow> wagent" where
  "decoded_agent a =
     \<lparr>wa_collected = of_nat (as_batches_collected a), wa_exported = of_nat (as_batches_exported a),
      wa_dropped = of_nat (as_batches_dropped a), wa_rejected = of_nat (as_batches_rejected a),
      wa_queue_depth = as_queue_depth a, wa_last_export_error = as_last_export_error a\<rparr>"

definition decoded_partition :: "partition_metrics \<Rightarrow> wpartition" where
  "decoded_partition p =
     \<lparr>wp_id = p_id p, wp_leader = p_leader p, wp_replicas = p_replicas p, wp_isr = p_isr p,
      wp_start = p_start_offset p, wp_end = p_end_offset p, wp_lso = p_last_stable_offset p,
      wp_error_code = p_error_code p\<rparr>"

definition decoded_topic :: "topic_metrics \<Rightarrow> wtopic" where
  "decoded_topic t =
     \<lparr>wtp_name = t_name t, wtp_partition_count = int (t_partition_count t),
      wtp_replication_factor = int (t_replication_factor t),
      wtp_partitions = map decoded_partition (t_partitions t)\<rparr>"

definition decoded_group :: "group_metrics \<Rightarrow> wgroup" where
  "decoded_group g =
     \<lparr>wg_id = g_id g, wg_generation = g_generation g, wg_member_count = int (g_member_count g),
      wg_members = length (g_members g)\<rparr>"

definition decoded_consumer :: "consumer_offset \<Rightarrow> wconsumer" where
  "decoded_consumer c =
     \<lparr>wc_group_id = co_group_id c, wc_offset_count = int (co_offset_count c),
      wc_offsets = map (\<lambda>p. \<lparr>wof_topic = po_topic p, wof_partition = po_partition p,
          wof_committed = po_offset p\<rparr>) (case co_offsets c of None \<Rightarrow> [] | Some xs \<Rightarrow> xs)\<rparr>"

definition decoded_log_dir :: "log_dir \<Rightarrow> wlogdir" where
  "decoded_log_dir d =
     \<lparr>wd_broker = ld_broker d, wd_dir = ld_dir d, wd_total = ld_total_bytes d,
      wd_usable = ld_usable_bytes d,
      wd_partitions = map (\<lambda>p. \<lparr>wdp_topic = ldp_topic p, wdp_partition = ldp_partition p,
          wdp_size = ldp_size p, wdp_offset_lag = ldp_offset_lag p\<rparr>)
        (case ld_partitions d of None \<Rightarrow> [] | Some xs \<Rightarrow> xs)\<rparr>"

definition decoded_truncation :: "truncation \<Rightarrow> wtruncation" where
  "decoded_truncation t =
     \<lparr>wt_collapsed = int (tr_collapsed t), wt_dropped = int (tr_dropped t)\<rparr>"

definition decoded :: "batch \<Rightarrow> wbatch" where
  "decoded b =
     \<lparr>wb_schema_version = ba_schema_version b, wb_agent_version = ba_agent_version b,
      wb_instance_id = ba_instance_id b, wb_seq = of_nat (ba_seq b),
      wb_collected_at = ba_collected_at b, wb_collection_ms = ba_collection_ms b,
      wb_cluster = map_option (\<lambda>c. \<lparr>wcl_broker_count = int (cl_broker_count c),
          wcl_brokers = length (cl_brokers c)\<rparr>) (ba_cluster b),
      wb_topics = map decoded_topic (ba_topics b), wb_groups = map decoded_group (ba_groups b),
      wb_offsets = map decoded_consumer (ba_offsets b),
      wb_log_dirs = map decoded_log_dir (ba_log_dirs b), wb_agent = decoded_agent (ba_agent b),
      wb_sections = map decoded_section (ba_sections b), wb_errors = map decoded_error (ba_errors b),
      wb_truncation = map_option decoded_truncation (ba_truncation b),
      wb_selection = ba_selection b\<rparr>"

end
