(* ===== verification/Mock_Check.thy ===== *)
theory Mock_Check
  imports Mock_Wire
begin

text \<open>
  \<open>src/internal/mockingest/check.go\<close>: the conformance suite the mock ingest runs over one decoded
  batch. Each check is a function from the checker to the checker; \<open>steps\<close> runs checks in order and
  \<open>on\<close> guards one. A failure keeps the operands its message prints (\<open>fl_args\<close>) and not the text,
  which the code and the operands determine. Go's order of iteration over a map is the parameter
  \<open>order\<close>. \<open>Mock_Check_Props\<close> shows what the suite accepts.
\<close>

subsection \<open>Failures and the checker\<close>

datatype severity = SeverityFatal | SeverityWarn

datatype operand =
    AStr string
  | AInt int
  | AStrs "string list"
  | AInts "int list"

record failure =
  fl_code :: string
  fl_severity :: severity
  fl_args :: "operand list"
  fl_path :: string
  fl_seq :: "64 word"
  fl_status :: nat

text \<open>The part of \<open>Config\<close> that no writer and no clock stands behind.\<close>

record mock_config =
  mc_path :: string
  mc_api_key :: string
  mc_strict :: bool
  mc_warn_only :: bool
  mc_require :: int
  mc_keep :: int
  mc_max_body :: int64
  mc_clock_skew :: duration
  mc_max_errors :: int
  mc_sections :: "string list"
  mc_optional :: "string list"

text \<open>The checker, with the server's set \<open>warned\<close>.\<close>

record checker =
  ck_now :: gotime
  ck_seq :: "64 word"
  ck_out :: "failure list"
  ck_warned :: "string set"

type_synonym check = "checker \<Rightarrow> checker"

definition emitFailure ::
    "mock_config \<Rightarrow> severity \<Rightarrow> nat \<Rightarrow> string \<Rightarrow> string \<Rightarrow> operand list \<Rightarrow> check" where
  "emitFailure cfg sev status code path args c =
     (let (sev', status') =
        (if sev = SeverityFatal \<and> mc_warn_only cfg then (SeverityWarn, 0)
         else if sev = SeverityWarn \<and> mc_strict cfg then (SeverityFatal, status)
         else (sev, status))
      in c\<lparr>ck_out := ck_out c @
           [\<lparr>fl_code = code, fl_severity = sev', fl_args = args, fl_path = path, fl_seq = ck_seq c,
             fl_status = status'\<rparr>]\<rparr>)"

definition failCheck :: "mock_config \<Rightarrow> string \<Rightarrow> string \<Rightarrow> operand list \<Rightarrow> check" where
  "failCheck cfg code path args = emitFailure cfg SeverityFatal 0 code path args"

definition failStatus :: "mock_config \<Rightarrow> nat \<Rightarrow> string \<Rightarrow> string \<Rightarrow> operand list \<Rightarrow> check" where
  "failStatus cfg status code path args = emitFailure cfg SeverityFatal status code path args"

definition warnCheck :: "mock_config \<Rightarrow> string \<Rightarrow> string \<Rightarrow> operand list \<Rightarrow> check" where
  "warnCheck cfg code path args = emitFailure cfg SeverityWarn 0 code path args"

definition warnOnce :: "mock_config \<Rightarrow> string \<Rightarrow> string \<Rightarrow> string \<Rightarrow> operand list \<Rightarrow> check" where
  "warnOnce cfg key code path args c =
     (let seen = key \<in> ck_warned c;
          c1 = c\<lparr>ck_warned := insert key (ck_warned c)\<rparr>
      in if seen then c1 else warnCheck cfg code path args c1)"

definition on :: "bool \<Rightarrow> check \<Rightarrow> check" where
  "on b f c = (if b then f c else c)"

definition steps :: "check list \<Rightarrow> check" where
  "steps fs c = fold (\<lambda>f. f) fs c"

text \<open>\<open>fmt.Sprintf("%s[%d]", list, i)\<close>.\<close>

definition indexed :: "string \<Rightarrow> nat \<Rightarrow> string" where
  "indexed path i = path @ ''['' @ show_int (int i) @ '']''"

subsection \<open>Go arithmetic\<close>

text \<open>\<open>time.Time.Sub\<close> saturates; addition of \<open>int\<close> and negation of a duration wrap.\<close>

definition time_sub :: "gotime \<Rightarrow> gotime \<Rightarrow> duration" where
  "time_sub a b = max math_MinInt64 (min math_MaxInt64 (a - b))"

definition add64 :: "int \<Rightarrow> int \<Rightarrow> int" where
  "add64 a b = wrap64 (a + b)"

subsection \<open>The envelope\<close>

definition wireKey :: "wbatch \<Rightarrow> string" where
  "wireKey b =
     (if wb_instance_id b = [] then ''unknown'' else wb_instance_id b) @ ''-'' @ digits (unat (wb_seq b))"

definition checkEnvelope :: "mock_config \<Rightarrow> string \<Rightarrow> wbatch \<Rightarrow> check" where
  "checkEnvelope cfg key b c =
     (let skew = time_sub (wb_collected_at b) (ck_now c)
      in steps
        [on (wb_schema_version b \<noteq> schema_version)
           (failCheck cfg ''schema.version'' ''$.schema_version''
              [AInt (wb_schema_version b), AInt schema_version]),
         on (wb_agent_version b = []) (failCheck cfg ''envelope.agent_version'' ''$.agent_version'' []),
         on (wb_instance_id b = [])
           (failCheck cfg ''envelope.instance_id'' ''$.agent_instance_id'' []),
         on (wb_seq b < 1)
           (failCheck cfg ''envelope.batch_seq'' ''$.batch_seq'' [AInt (uint (wb_seq b))]),
         on (key \<noteq> [] \<and> key \<noteq> wireKey b)
           (failCheck cfg ''envelope.idempotency_key_format'' '''' [AStr key, AStr (wireKey b)]),
         if wb_collected_at b = 0
         then failCheck cfg ''envelope.collected_at_zero'' ''$.collected_at'' []
         else on (skew > mc_clock_skew cfg \<or> wrap64 (- skew) > mc_clock_skew cfg)
           (failCheck cfg ''envelope.collected_at_skew'' ''$.collected_at''
              [AInt skew, AInt (mc_clock_skew cfg)]),
         on (wb_collection_ms b < 0)
           (failCheck cfg ''envelope.collection_ms'' ''$.collection_ms''
              [AInt (wb_collection_ms b)])] c)"

subsection \<open>The sections\<close>

definition knownErrorKinds :: "string list" where
  "knownErrorKinds = [''authorization'', ''coordinator'', ''transport'', ''unsupported'', ''other'']"

definition validStatuses :: "string list" where
  "validStatuses = [''ok'', ''partial'', ''failed'', ''unauthorized'', ''skipped'']"

text \<open>\<open>canon\<close>: the position of a required section; a repeated name has its last position.\<close>

definition canon :: "mock_config \<Rightarrow> string \<Rightarrow> nat option" where
  "canon cfg name = map_of (rev (zip (mc_sections cfg) [0 ..< length (mc_sections cfg)])) name"

type_synonym by_name = "(string \<times> wsection) list"

definition name_check :: "mock_config \<Rightarrow> string \<Rightarrow> by_name \<Rightarrow> wsection \<Rightarrow> check" where
  "name_check cfg path byName sec =
     (if ws_name sec = [] then failCheck cfg ''sections.empty_name'' path [AStr (ws_status sec)]
      else on (map_of byName (ws_name sec) \<noteq> None)
        (failCheck cfg ''sections.duplicate'' path [AStr (ws_name sec)]))"

definition entered_name :: "by_name \<Rightarrow> wsection \<Rightarrow> by_name" where
  "entered_name byName sec =
     (if ws_name sec = [] \<or> map_of byName (ws_name sec) \<noteq> None then byName
      else byName @ [(ws_name sec, sec)])"

definition position_check :: "mock_config \<Rightarrow> string \<Rightarrow> int \<Rightarrow> wsection \<Rightarrow> check" where
  "position_check cfg path prev sec =
     (case canon cfg (ws_name sec) of
        Some pos \<Rightarrow>
          on (int pos \<le> prev)
            (failCheck cfg ''sections.order'' path [AStr (ws_name sec), AStrs (mc_sections cfg)])
      | None \<Rightarrow>
          on (\<not> (ws_name sec = [] \<or> ws_name sec \<in> set (mc_optional cfg)))
            (warnOnce cfg (''sections.unknown_name/'' @ ws_name sec) ''sections.unknown_name'' path
               [AStr (ws_name sec), AStrs (mc_sections cfg), AStrs (mc_optional cfg)]))"

definition row_check :: "mock_config \<Rightarrow> string \<Rightarrow> wsection \<Rightarrow> check" where
  "row_check cfg path sec = steps
     [on (ws_status sec \<notin> set validStatuses)
        (failCheck cfg ''sections.status'' path [AStr (ws_status sec)]),
      on (ws_sampled_at sec = 0) (failCheck cfg ''sections.sampled_at'' path []),
      on (ws_duration_ms sec < 0)
        (failCheck cfg ''sections.duration'' path [AInt (ws_duration_ms sec)])]"

fun section_loop ::
    "mock_config \<Rightarrow> nat \<Rightarrow> int \<Rightarrow> by_name \<Rightarrow> wsection list \<Rightarrow> checker \<Rightarrow> by_name \<times> checker" where
  "section_loop cfg i prev byName [] c = (byName, c)"
| "section_loop cfg i prev byName (sec # secs) c =
     (let path = indexed ''$.sections'' i
      in section_loop cfg (Suc i)
           (case canon cfg (ws_name sec) of Some pos \<Rightarrow> int pos | None \<Rightarrow> prev)
           (entered_name byName sec) secs
           (steps [name_check cfg path byName sec, position_check cfg path prev sec,
                   row_check cfg path sec] c))"

definition missing_checks :: "mock_config \<Rightarrow> by_name \<Rightarrow> check list" where
  "missing_checks cfg byName = map (\<lambda>want. on (map_of byName want = None)
       (failCheck cfg ''sections.missing'' ''$.sections'' [AStr want])) (mc_sections cfg)"

definition sectionByName :: "wbatch \<Rightarrow> string \<Rightarrow> wsection option" where
  "sectionByName b name = List.find (\<lambda>sec. ws_name sec = name) (wb_sections b)"

definition usable :: "wbatch \<Rightarrow> string list \<Rightarrow> bool" where
  "usable b names \<longleftrightarrow>
     list_all (\<lambda>name. case sectionByName b name of
        None \<Rightarrow> False
      | Some sec \<Rightarrow> ws_status sec = ''ok'' \<or> ws_status sec = ''partial'') names \<and>
     list_all (\<lambda>e. we_kind e \<noteq> ''transport'') (wb_errors b)"

text \<open>\<open>offsets.SampledAt.Add(time.Duration(offsets.DurationMs) * time.Millisecond)\<close>.\<close>

definition done_at :: "wsection \<Rightarrow> gotime" where
  "done_at sec = ws_sampled_at sec + wrap64 (ws_duration_ms sec * millisecond)"

definition order_checks :: "mock_config \<Rightarrow> wbatch \<Rightarrow> by_name \<Rightarrow> check list" where
  "order_checks cfg b byName =
     (let topics = map_of byName ''topics''; ends = map_of byName ''topics_end'';
          offsets = map_of byName ''offsets''; lso = map_of byName ''topics_lso''
      in [case (topics, ends) of
            (Some t, Some e) \<Rightarrow>
              on (ws_sampled_at e < ws_sampled_at t)
                (failCheck cfg ''sections.topics_end_before_topics'' ''$.sections''
                   [AInt (ws_sampled_at e), AInt (ws_sampled_at t)])
          | _ \<Rightarrow> id,
          case (ends, offsets) of
            (Some e, Some off) \<Rightarrow>
              on (usable b [''topics_end'', ''offsets''])
                (steps
                  [on (ws_sampled_at e < done_at off)
                     (warnCheck cfg ''sections.phase_order'' ''$.sections''
                        [AInt (ws_sampled_at e), AInt (done_at off)]),
                   case lso of
                     None \<Rightarrow> id
                   | Some l \<Rightarrow>
                       on (usable b [''topics_lso''])
                         (steps
                           [on (ws_sampled_at l < done_at off)
                              (warnCheck cfg ''sections.lso_before_offsets'' ''$.sections''
                                 [AInt (ws_sampled_at l), AInt (done_at off)]),
                            on (ws_sampled_at e < ws_sampled_at l)
                              (warnCheck cfg ''sections.lso_after_end'' ''$.sections''
                                 [AInt (ws_sampled_at l), AInt (ws_sampled_at e)])])])
          | _ \<Rightarrow> id])"

definition error_check :: "mock_config \<Rightarrow> by_name \<Rightarrow> nat \<Rightarrow> werror \<Rightarrow> check" where
  "error_check cfg byName i e =
     (let path = indexed ''$.errors'' i
      in steps
        [on (map_of byName (we_section e) = None)
           (failCheck cfg ''errors.unknown_section'' path [AStr (we_section e)]),
         on (we_kind e \<noteq> [] \<and> we_kind e \<notin> set knownErrorKinds)
           (warnOnce cfg (''errors.kind/'' @ we_kind e) ''errors.kind'' path [AStr (we_kind e)]),
         on (we_message e = []) (failCheck cfg ''errors.message_empty'' path [])])"

definition counted :: "wbatch \<Rightarrow> string \<Rightarrow> int" where
  "counted b name = int (length (filter (\<lambda>e. we_section e = name) (wb_errors b)))"

definition count_checks :: "mock_config \<Rightarrow> wbatch \<Rightarrow> string \<times> wsection \<Rightarrow> check" where
  "count_checks cfg b = (\<lambda>(name, sec). steps
     [on (ws_error_count sec \<noteq> counted b name)
        (failCheck cfg ''sections.error_count'' ''$.sections''
           [AStr name, AInt (ws_error_count sec), AInt (counted b name)]),
      on (ws_status sec = ''ok'' \<and> ws_error_count sec > 0)
        (warnCheck cfg ''errors.status_ok_with_errors'' ''$.sections''
           [AStr name, AInt (ws_error_count sec)])])"

definition checkSections :: "mock_config \<Rightarrow> (by_name \<Rightarrow> by_name) \<Rightarrow> wbatch \<Rightarrow> check" where
  "checkSections cfg order b c0 =
     (let (byName, c1) = section_loop cfg 0 (- 1) [] (wb_sections b) c0
      in steps
        (missing_checks cfg byName @ order_checks cfg b byName @
         map (\<lambda>(i, e). error_check cfg byName i e) (enumerate 0 (wb_errors b)) @
         map (count_checks cfg b) (order byName) @
         [on (int (length (wb_errors b)) > mc_max_errors cfg)
            (warnCheck cfg ''errors.unbounded'' ''$.errors''
               [AInt (int (length (wb_errors b))), AInt (mc_max_errors cfg)])]) c1)"

end
