(* ===== verification/Mock_Data.thy ===== *)
theory Mock_Data
  imports Mock_Check
begin

text \<open>
  The rest of the suite of \<open>src/internal/mockingest/check.go\<close>: \<open>checkData\<close> over topics, groups,
  committed offsets and log directories, \<open>checkTruncation\<close> and \<open>checkAgent\<close>. A loop of the code is
  a recursion whose arguments are the variables the loop carries; a Go set is a set of the same
  string keys the code builds.
\<close>

subsection \<open>Keys\<close>

definition tpKey :: "string \<Rightarrow> int32 \<Rightarrow> string" where
  "tpKey topic p = topic @ ''/'' @ show_int p"

definition nul :: string where "nul = [CHR 0x00]"

definition offsetKey :: "string \<Rightarrow> string \<Rightarrow> int32 \<Rightarrow> string" where
  "offsetKey gid topic p = gid @ nul @ tpKey topic p"

definition dirKey :: "int32 \<Rightarrow> string \<Rightarrow> string" where
  "dirKey broker dir = show_int broker @ nul @ dir"

definition countCheck :: "mock_config \<Rightarrow> string \<Rightarrow> string \<Rightarrow> string \<Rightarrow> int \<Rightarrow> int \<Rightarrow> check" where
  "countCheck cfg code path noun declared got =
     on (declared \<noteq> got) (failCheck cfg code path [AStr noun, AInt declared, AInt got])"

definition negative :: "int64 option \<Rightarrow> bool" where
  "negative o' = (case o' of None \<Rightarrow> False | Some n \<Rightarrow> n < 0)"

definition below :: "int64 option \<Rightarrow> int64 option \<Rightarrow> bool" where
  "below a b = (case (a, b) of (Some x, Some y) \<Rightarrow> x < y | _ \<Rightarrow> False)"

definition opt_arg :: "int64 option \<Rightarrow> operand" where
  "opt_arg o' = (case o' of None \<Rightarrow> AInt 0 | Some n \<Rightarrow> AInt n)"

subsection \<open>Topics\<close>

type_synonym end_offsets = "string \<Rightarrow> int64 option"

definition replica_checks :: "mock_config \<Rightarrow> string \<Rightarrow> wpartition \<Rightarrow> check list" where
  "replica_checks cfg path p =
     [on (wp_leader p \<notin> set (wp_replicas p) \<and> wp_leader p \<ge> 0)
        (warnCheck cfg ''data.leader_not_replica'' path [AInt (wp_leader p), AInts (wp_replicas p)]),
      on (\<not> list_all (\<lambda>id. id \<in> set (wp_replicas p)) (wp_isr p))
        (warnCheck cfg ''data.isr_not_subset'' path [AInts (wp_isr p), AInts (wp_replicas p)])]"

definition partition_check ::
    "mock_config \<Rightarrow> string \<Rightarrow> string \<Rightarrow> nat \<Rightarrow> int32 \<Rightarrow> int32 set \<Rightarrow> wpartition \<Rightarrow> check" where
  "partition_check cfg topic path j prevID seen p = steps
     ([on (wp_id p \<in> seen)
         (failCheck cfg ''data.duplicate_partition'' path [AInt (wp_id p), AStr topic]),
       on (j > 0 \<and> wp_id p < prevID)
         (warnOnce cfg ''data.sort_order/partitions'' ''data.sort_order'' path
            [AStr topic, AInt (wp_id p), AInt prevID]),
       on (negative (wp_start p))
         (failCheck cfg ''data.offset_negative'' (path @ ''.start_offset'') [opt_arg (wp_start p)]),
       on (negative (wp_end p))
         (failCheck cfg ''data.offset_negative'' (path @ ''.end_offset'') [opt_arg (wp_end p)]),
       on (negative (wp_lso p))
         (failCheck cfg ''data.offset_negative'' (path @ ''.last_stable_offset'') [opt_arg (wp_lso p)]),
       on (below (wp_end p) (wp_start p))
         (failCheck cfg ''data.offset_inverted'' path [opt_arg (wp_end p), opt_arg (wp_start p)]),
       on (below (wp_end p) (wp_lso p))
         (warnCheck cfg ''data.lso_above_end_offset'' path [opt_arg (wp_lso p), opt_arg (wp_end p)]),
       on (below (wp_lso p) (wp_start p))
         (warnCheck cfg ''data.lso_below_start_offset'' path [opt_arg (wp_lso p), opt_arg (wp_start p)])] @
      (if wp_error_code p = 0 then replica_checks cfg path p else []))"

definition enter_end :: "string \<Rightarrow> wpartition \<Rightarrow> end_offsets \<Rightarrow> end_offsets" where
  "enter_end topic p ends =
     (case wp_end p of None \<Rightarrow> ends | Some n \<Rightarrow> ends(tpKey topic (wp_id p) := Some n))"

definition min_replicas :: "wpartition \<Rightarrow> int \<Rightarrow> int" where
  "min_replicas p minRF =
     (if wp_error_code p = 0 \<and> (minRF < 0 \<or> int (length (wp_replicas p)) < minRF)
      then int (length (wp_replicas p)) else minRF)"

fun partition_loop ::
    "mock_config \<Rightarrow> string \<Rightarrow> string \<Rightarrow> nat \<Rightarrow> int32 \<Rightarrow> int32 set \<Rightarrow> wpartition list \<Rightarrow>
     end_offsets \<times> int \<times> checker \<Rightarrow> end_offsets \<times> int \<times> checker" where
  "partition_loop cfg topic path j prevID seen [] st = st"
| "partition_loop cfg topic path j prevID seen (p # ps) (ends, minRF, c) =
     partition_loop cfg topic path (Suc j) (wp_id p) (insert (wp_id p) seen) ps
       (enter_end topic p ends, min_replicas p minRF,
        partition_check cfg topic (indexed (path @ ''.partitions'') j) j prevID seen p c)"

definition topic_checks :: "mock_config \<Rightarrow> string \<Rightarrow> nat \<Rightarrow> string \<Rightarrow> string set \<Rightarrow> wtopic \<Rightarrow> check list" where
  "topic_checks cfg path i prevTopic seen t =
     [on (wtp_name t \<in> seen) (failCheck cfg ''data.duplicate_topic'' path [AStr (wtp_name t)]),
      on (i > 0 \<and> wtp_name t < prevTopic)
        (warnOnce cfg ''data.sort_order/topics'' ''data.sort_order'' path
           [AStr (wtp_name t), AStr prevTopic]),
      countCheck cfg ''data.partition_count'' path ''partition_count'' (wtp_partition_count t)
        (int (length (wtp_partitions t)))]"

fun topic_loop ::
    "mock_config \<Rightarrow> nat \<Rightarrow> string \<Rightarrow> string set \<Rightarrow> wtopic list \<Rightarrow> end_offsets \<times> checker \<Rightarrow>
     end_offsets \<times> checker" where
  "topic_loop cfg i prevTopic seen [] st = st"
| "topic_loop cfg i prevTopic seen (t # ts) (ends, c) =
     (let path = indexed ''$.topics'' i;
          (ends1, minRF, c1) = partition_loop cfg (wtp_name t) path 0 0 {} (wtp_partitions t)
            (ends, - 1, steps (topic_checks cfg path i prevTopic seen t) c);
          c2 = on (minRF \<ge> 0 \<and> wtp_partition_count t = int (length (wtp_partitions t)) \<and>
                  wtp_replication_factor t \<noteq> minRF)
                (warnCheck cfg ''data.replication_factor'' path
                   [AInt (wtp_replication_factor t), AInt minRF]) c1
      in topic_loop cfg (Suc i) (wtp_name t) (insert (wtp_name t) seen) ts (ends1, c2))"

subsection \<open>Groups\<close>

definition group_check :: "mock_config \<Rightarrow> nat \<Rightarrow> string \<Rightarrow> string set \<Rightarrow> wgroup \<Rightarrow> check" where
  "group_check cfg i prevGroup seen g =
     (let path = indexed ''$.groups'' i
      in steps
        [on (wg_id g \<in> seen) (failCheck cfg ''data.duplicate_group'' path [AStr (wg_id g)]),
         on (i > 0 \<and> wg_id g < prevGroup)
           (warnOnce cfg ''data.sort_order/groups'' ''data.sort_order'' path
              [AStr (wg_id g), AStr prevGroup]),
         countCheck cfg ''data.member_count'' path ''member_count'' (wg_member_count g)
           (int (wg_members g))])"

fun group_loop :: "mock_config \<Rightarrow> nat \<Rightarrow> string \<Rightarrow> string set \<Rightarrow> wgroup list \<Rightarrow> check" where
  "group_loop cfg i prevGroup seen [] c = c"
| "group_loop cfg i prevGroup seen (g # gs) c =
     group_loop cfg (Suc i) (wg_id g) (insert (wg_id g) seen) gs
       (group_check cfg i prevGroup seen g c)"

definition allMinusOne :: "wbatch \<Rightarrow> bool" where
  "allMinusOne b \<longleftrightarrow> wb_groups b \<noteq> [] \<and> list_all (\<lambda>g. wg_generation g = - 1) (wb_groups b)"

subsection \<open>Committed offsets\<close>

definition committed_check ::
    "mock_config \<Rightarrow> wbatch \<Rightarrow> end_offsets \<Rightarrow> string \<Rightarrow> string \<Rightarrow> woffset \<Rightarrow> check" where
  "committed_check cfg b ends gid path po =
     (case wof_committed po of
        None \<Rightarrow> id
      | Some n \<Rightarrow>
          if n < 0 then failCheck cfg ''data.offset_negative'' path [AInt n]
          else case ends (tpKey (wof_topic po) (wof_partition po)) of
            None \<Rightarrow>
              on (wof_topic po \<notin> wtp_name ` set (wb_topics b))
                (warnOnce cfg (''data.orphan_offset/'' @ wof_topic po) ''data.orphan_offset'' path
                   [AStr gid, AStr (wof_topic po)])
          | Some e \<Rightarrow>
              on (n > e \<and> usable b [''topics_end'', ''offsets''])
                (warnCheck cfg ''data.negative_lag'' path
                   [AStr gid, AStr (wof_topic po), AInt (wof_partition po), AInt n, AInt e]))"

fun offset_loop ::
    "mock_config \<Rightarrow> wbatch \<Rightarrow> end_offsets \<Rightarrow> string \<Rightarrow> string \<Rightarrow> nat \<Rightarrow> woffset list \<Rightarrow>
     string set \<times> checker \<Rightarrow> string set \<times> checker" where
  "offset_loop cfg b ends gid path j [] st = st"
| "offset_loop cfg b ends gid path j (po # pos) (seen, c) =
     (let opath = indexed (path @ ''.offsets'') j;
          key = offsetKey gid (wof_topic po) (wof_partition po)
      in offset_loop cfg b ends gid path (Suc j) pos
           (insert key seen,
            steps
              [on (key \<in> seen)
                 (failCheck cfg ''data.duplicate_offset'' opath
                    [AStr gid, AStr (wof_topic po), AInt (wof_partition po)]),
               committed_check cfg b ends gid opath po] c))"

fun consumer_loop ::
    "mock_config \<Rightarrow> wbatch \<Rightarrow> end_offsets \<Rightarrow> nat \<Rightarrow> string \<Rightarrow> string set \<Rightarrow> wconsumer list \<Rightarrow> check" where
  "consumer_loop cfg b ends i prevGID seen [] c = c"
| "consumer_loop cfg b ends i prevGID seen (co # cos) c =
     (let path = indexed ''$.offsets'' i;
          c1 = steps
            [on (i > 0 \<and> wc_group_id co < prevGID)
               (warnOnce cfg ''data.sort_order/offsets'' ''data.sort_order'' path
                  [AStr (wc_group_id co), AStr prevGID]),
             countCheck cfg ''data.offset_count'' path ''offset_count'' (wc_offset_count co)
               (int (length (wc_offsets co)))] c;
          (seen1, c2) = offset_loop cfg b ends (wc_group_id co) path 0 (wc_offsets co) (seen, c1)
      in consumer_loop cfg b ends (Suc i) (wc_group_id co) seen1 cos c2)"

subsection \<open>Log directories\<close>

fun dir_partition_loop ::
    "mock_config \<Rightarrow> wlogdir \<Rightarrow> string \<Rightarrow> nat \<Rightarrow> string set \<Rightarrow> wdirpart list \<Rightarrow> check" where
  "dir_partition_loop cfg d path j seen [] c = c"
| "dir_partition_loop cfg d path j seen (p # ps) c =
     (let ppath = indexed (path @ ''.partitions'') j;
          tp = tpKey (wdp_topic p) (wdp_partition p)
      in dir_partition_loop cfg d path (Suc j) (insert tp seen) ps
           (steps
              [on (tp \<in> seen)
                 (failCheck cfg ''data.duplicate_log_dir_partition'' ppath
                    [AStr tp, AStr (wd_dir d), AInt (wd_broker d)]),
               on (wdp_size p < 0)
                 (failCheck cfg ''data.log_dir_negative'' (ppath @ ''.size'') [AInt (wdp_size p)]),
               on (wdp_offset_lag p < 0)
                 (failCheck cfg ''data.log_dir_negative'' (ppath @ ''.offset_lag'')
                    [AInt (wdp_offset_lag p)])] c))"

definition dir_checks :: "mock_config \<Rightarrow> string \<Rightarrow> string set \<Rightarrow> wlogdir \<Rightarrow> check list" where
  "dir_checks cfg path seen d =
     [on (dirKey (wd_broker d) (wd_dir d) \<in> seen)
        (failCheck cfg ''data.duplicate_log_dir'' path [AStr (wd_dir d), AInt (wd_broker d)]),
      on (wd_dir d = []) (failCheck cfg ''data.log_dir_unnamed'' path []),
      on (negative (wd_total d))
        (failCheck cfg ''data.log_dir_negative'' (path @ ''.total_bytes'') [opt_arg (wd_total d)]),
      on (negative (wd_usable d))
        (failCheck cfg ''data.log_dir_negative'' (path @ ''.usable_bytes'') [opt_arg (wd_usable d)]),
      on (below (wd_total d) (wd_usable d))
        (warnCheck cfg ''data.log_dir_usable_above_total'' path
           [opt_arg (wd_usable d), opt_arg (wd_total d)])]"

fun dir_loop :: "mock_config \<Rightarrow> nat \<Rightarrow> string set \<Rightarrow> wlogdir list \<Rightarrow> check" where
  "dir_loop cfg i seen [] c = c"
| "dir_loop cfg i seen (d # ds) c =
     (let path = indexed ''$.log_dirs'' i
      in dir_loop cfg (Suc i) (insert (dirKey (wd_broker d) (wd_dir d)) seen) ds
           (dir_partition_loop cfg d path 0 {} (wd_partitions d)
              (steps (dir_checks cfg path seen d) c)))"

definition checkLogDirs :: "mock_config \<Rightarrow> wbatch \<Rightarrow> check" where
  "checkLogDirs cfg b = dir_loop cfg 0 {} (wb_log_dirs b)"

definition checkData :: "mock_config \<Rightarrow> wbatch \<Rightarrow> check" where
  "checkData cfg b c0 =
     (let c1 = (case wb_cluster b of
            None \<Rightarrow> c0
          | Some cl \<Rightarrow>
              on (wcl_broker_count cl \<noteq> int (wcl_brokers cl))
                (failCheck cfg ''data.broker_count'' ''$.cluster''
                   [AInt (wcl_broker_count cl), AInt (int (wcl_brokers cl))]) c0);
          (ends, c2) = topic_loop cfg 0 [] {} (wb_topics b) (Map.empty, c1)
      in steps
        [group_loop cfg 0 [] {} (wb_groups b),
         on (allMinusOne b)
           (warnOnce cfg ''data.generation_absent'' ''data.generation_absent'' ''$.groups'' []),
         consumer_loop cfg b ends 0 [] {} (wb_offsets b),
         checkLogDirs cfg b] c2)"

subsection \<open>Truncation and selection\<close>

definition blank_entries :: "mock_config \<Rightarrow> string \<Rightarrow> string list \<Rightarrow> check list" where
  "blank_entries cfg field entries = map (\<lambda>(i, entry). on (trimSpace entry = [])
     (failCheck cfg ''selection.empty_entry'' (indexed (''$.selection.'' @ field) i) []))
     (enumerate 0 entries)"

definition selection_checks :: "mock_config \<Rightarrow> selection \<Rightarrow> check list" where
  "selection_checks cfg s =
     on (sel_topic_include s = [] \<and> sel_topic_exclude s = [] \<and> sel_group_include s = [] \<and>
         sel_group_exclude s = [] \<and> sel_group_states s = [] \<and> \<not> sel_include_internal s)
       (failCheck cfg ''selection.empty'' ''$.selection'' []) #
     blank_entries cfg ''topic_include'' (sel_topic_include s) @
     blank_entries cfg ''topic_exclude'' (sel_topic_exclude s) @
     blank_entries cfg ''group_include'' (sel_group_include s) @
     blank_entries cfg ''group_exclude'' (sel_group_exclude s)"

definition section_sum :: "(wsection \<Rightarrow> int) \<Rightarrow> wbatch \<Rightarrow> int" where
  "section_sum f b = fold (\<lambda>sec n. add64 n (f sec)) (wb_sections b) 0"

definition truncation_checks :: "mock_config \<Rightarrow> wbatch \<Rightarrow> wtruncation \<Rightarrow> check list" where
  "truncation_checks cfg b t =
     (let collapsed = section_sum ws_errors_collapsed b; dropped = section_sum ws_errors_dropped b
      in [on (wt_collapsed t = 0 \<and> wt_dropped t = 0)
            (failCheck cfg ''truncation.empty'' ''$.truncation'' []),
          on (wt_collapsed t \<noteq> collapsed)
            (failCheck cfg ''truncation.errors_collapsed'' ''$.truncation''
               [AInt (wt_collapsed t), AInt collapsed]),
          on (wt_dropped t \<noteq> dropped)
            (failCheck cfg ''truncation.errors_dropped'' ''$.truncation''
               [AInt (wt_dropped t), AInt dropped])])"

definition checkTruncation :: "mock_config \<Rightarrow> wbatch \<Rightarrow> check" where
  "checkTruncation cfg b = steps
     (map (\<lambda>(i, e). on (we_count e < 0)
        (failCheck cfg ''errors.negative_count'' (indexed ''$.errors'' i) [AInt (we_count e)]))
        (enumerate 0 (wb_errors b)) @
      (case wb_selection b of None \<Rightarrow> [] | Some s \<Rightarrow> selection_checks cfg s) @
      (case wb_truncation b of None \<Rightarrow> [] | Some t \<Rightarrow> truncation_checks cfg b t))"

subsection \<open>The agent's counters\<close>

text \<open>The sum of the three counters is a \<open>uint64\<close>, and wraps.\<close>

definition settled_sum :: "wagent \<Rightarrow> 64 word" where
  "settled_sum a = wa_exported a + wa_dropped a + wa_rejected a"

definition checkAgent :: "mock_config \<Rightarrow> wbatch \<Rightarrow> check" where
  "checkAgent cfg b =
     (let a = wb_agent b
      in steps
        [on (wa_collected a \<noteq> wb_seq b)
           (failCheck cfg ''agent.batches_collected'' ''$.agent''
              [AInt (uint (wa_collected a)), AInt (uint (wb_seq b))]),
         on (wa_exported a \<ge> wb_seq b)
           (failCheck cfg ''agent.batches_exported'' ''$.agent''
              [AInt (uint (wa_exported a)), AInt (uint (wb_seq b))]),
         on (settled_sum a > wa_collected a)
           (failCheck cfg ''agent.counter_sum'' ''$.agent''
              [AInt (uint (settled_sum a)), AInt (uint (wa_collected a))]),
         if wa_queue_depth a < 0
         then failCheck cfg ''agent.queue_depth'' ''$.agent'' [AInt (wa_queue_depth a)]
         else on (wa_queue_depth a > 0)
           (warnCheck cfg ''agent.queue_depth_positive'' ''$.agent'' [AInt (wa_queue_depth a)])])"

text \<open>The suite over one decoded batch, without the checks that need memory.\<close>

definition checkBatch :: "mock_config \<Rightarrow> (by_name \<Rightarrow> by_name) \<Rightarrow> string \<Rightarrow> wbatch \<Rightarrow> check" where
  "checkBatch cfg order key b = steps
     [checkEnvelope cfg key b, checkSections cfg order b, checkData cfg b, checkTruncation cfg b,
      checkAgent cfg b]"

end
