(* ===== verification/Mock_Check_Props.thy ===== *)
theory Mock_Check_Props
  imports Mock_Data
begin

text \<open>
  What the suite of \<open>Mock_Check\<close> and \<open>Mock_Data\<close> accepts. A checker is \<open>accepting\<close> while it holds no
  fatal failure. The collection \<open>accept_simps\<close> says of each check when it leaves an accepting
  checker accepting, so that simplification turns a suite into the predicate on batches that it decides. The
  predicates \<open>envelope_ok\<close> to \<open>agent_ok\<close> state the contract without the checks' order, their
  carried variables and their string keys.
\<close>

named_theorems accept_simps \<open>when a check leaves an accepting checker accepting\<close>

definition accepting :: "checker \<Rightarrow> bool" where
  "accepting c \<longleftrightarrow> list_all (\<lambda>f. fl_severity f = SeverityWarn) (ck_out c)"

definition normal :: "mock_config \<Rightarrow> bool" where
  "normal cfg \<longleftrightarrow> \<not> mc_strict cfg \<and> \<not> mc_warn_only cfg"

subsection \<open>Single checks\<close>

lemma clean_fail [accept_simps]:
  "normal cfg \<Longrightarrow> \<not> accepting (failCheck cfg code path args c)"
  "normal cfg \<Longrightarrow> \<not> accepting (failStatus cfg n code path args c)"
  by (simp_all add: accepting_def failCheck_def failStatus_def emitFailure_def normal_def)

lemma clean_warn [accept_simps]:
  "normal cfg \<Longrightarrow> accepting (warnCheck cfg code path args c) \<longleftrightarrow> accepting c"
  "normal cfg \<Longrightarrow> accepting (warnOnce cfg key code path args c) \<longleftrightarrow> accepting c"
  by (simp_all add: accepting_def warnCheck_def warnOnce_def emitFailure_def normal_def Let_def)

lemma clean_on_fail [accept_simps]:
  "normal cfg \<Longrightarrow> accepting (on b (failCheck cfg code path args) c) \<longleftrightarrow> \<not> b \<and> accepting c"
  "normal cfg \<Longrightarrow> accepting (on b (warnCheck cfg code path args) c) \<longleftrightarrow> accepting c"
  "normal cfg \<Longrightarrow> accepting (on b (warnOnce cfg key code path args) c) \<longleftrightarrow> accepting c"
  by (auto simp: on_def accept_simps)

lemma steps_simps [simp, accept_simps]:
  "steps [] c = c"
  "steps (f # fs) c = steps fs (f c)"
  "steps (fs @ gs) c = steps gs (steps fs c)"
  by (simp_all add: steps_def)

lemma clean_count [accept_simps]:
  "normal cfg \<Longrightarrow> accepting (countCheck cfg code path noun m n c) \<longleftrightarrow> m = n \<and> accepting c"
  by (simp add: countCheck_def accept_simps)

text \<open>A list of checks that each decide a condition.\<close>

lemma clean_steps_map:
  assumes "\<And>x c. x \<in> set xs \<Longrightarrow> accepting (f x c) \<longleftrightarrow> P x \<and> accepting c"
  shows "accepting (steps (map f xs) c) \<longleftrightarrow> list_all P xs \<and> accepting c"
  using assms by (induction xs arbitrary: c) auto

lemma list_all_enumerate: "list_all (\<lambda>(i, x). P x) (enumerate n xs) \<longleftrightarrow> list_all P xs"
  by (induction xs arbitrary: n) simp_all

lemma clean_steps_enum:
  assumes "\<And>i x c. accepting (f i x c) \<longleftrightarrow> P x \<and> accepting c"
  shows "accepting (steps (map (\<lambda>(i, x). f i x) (enumerate n xs)) c) \<longleftrightarrow> list_all P xs \<and> accepting c"
proof -
  have "accepting (steps (map (\<lambda>(i, x). f i x) (enumerate n xs)) c) \<longleftrightarrow>
      list_all (\<lambda>(i, x). P x) (enumerate n xs) \<and> accepting c"
    by (rule clean_steps_map) (auto simp: assms)
  then show ?thesis by (simp add: list_all_enumerate)
qed

subsection \<open>Keys\<close>

lemma show_int_chars: "ch \<in> set (show_int n) \<Longrightarrow> is_digit ch \<or> ch = CHR ''-''"
  using digits_props [of "nat n"] digits_props [of "nat (- n)"]
  by (auto simp: show_int_def list_all_iff split: if_splits)

lemma show_int_no: "CHR ''/'' \<notin> set (show_int n)" "CHR 0x00 \<notin> set (show_int n)"
  using show_int_chars [of "CHR ''/''" n] show_int_chars [of "CHR 0x00" n]
  by (auto simp: is_digit_def)

lemma value_digits_inj: "digits m = digits n \<Longrightarrow> m = n"
  by (metis parse_nat_digits option.inject)

lemma show_int_inj: "show_int m = show_int n \<Longrightarrow> m = n"
proof -
  assume eq: "show_int m = show_int n"
  have minus: "digits i \<noteq> CHR ''-'' # r" for i r using digits_sign [of i "CHR ''-''" r] by blast
  show "m = n"
  proof (cases "m < 0"; cases "n < 0")
    assume "m < 0" "n < 0"
    with eq value_digits_inj [of "nat (- m)" "nat (- n)"] show ?thesis by (simp add: show_int_def)
  next
    assume "\<not> m < 0" "\<not> n < 0"
    with eq value_digits_inj [of "nat m" "nat n"] show ?thesis by (simp add: show_int_def)
  next
    assume "m < 0" "\<not> n < 0"
    with eq show ?thesis using minus [of "nat n" "digits (nat (- m))"] by (simp add: show_int_def)
  next
    assume "\<not> m < 0" "n < 0"
    with eq show ?thesis using minus [of "nat m" "digits (nat (- n))"] by (simp add: show_int_def)
  qed
qed

lemma append_last_split:
  assumes "xs @ ch # ys = xs' @ ch # ys'" "ch \<notin> set ys" "ch \<notin> set ys'"
  shows "xs = xs' \<and> ys = ys'"
  using assms by (auto simp: append_eq_append_conv2 append_eq_Cons_conv Cons_eq_append_conv)

lemma tpKey_inj [simp]: "tpKey t p = tpKey t' p' \<longleftrightarrow> t = t' \<and> p = p'"
  using append_last_split [of t "CHR ''/''" "show_int p" t' "show_int p'"]
  by (auto simp: tpKey_def show_int_no dest: show_int_inj)

lemma append_first_split:
  assumes "xs @ ch # ys = xs' @ ch # ys'" "ch \<notin> set xs" "ch \<notin> set xs'"
  shows "xs = xs' \<and> ys = ys'"
  using assms by (auto simp: append_eq_append_conv2 append_eq_Cons_conv Cons_eq_append_conv)

lemma dirKey_inj [simp]: "dirKey n d = dirKey n' d' \<longleftrightarrow> n = n' \<and> d = d'"
  using append_first_split [of "show_int n" "CHR 0x00" d "show_int n'" d']
  by (auto simp: dirKey_def nul_def show_int_no dest: show_int_inj)

lemma offsetKey_inj:
  assumes "CHR 0x00 \<notin> set g" "CHR 0x00 \<notin> set g'"
  shows "offsetKey g t p = offsetKey g' t' p' \<longleftrightarrow> g = g' \<and> t = t' \<and> p = p'"
  using append_first_split [of g "CHR 0x00" "tpKey t p" g' "tpKey t' p'"] assms
  by (auto simp: offsetKey_def nul_def)

subsection \<open>Envelope, truncation and counters\<close>

definition envelope_ok :: "mock_config \<Rightarrow> gotime \<Rightarrow> string \<Rightarrow> wbatch \<Rightarrow> bool" where
  "envelope_ok cfg now key b \<longleftrightarrow>
     wb_schema_version b = schema_version \<and> wb_agent_version b \<noteq> [] \<and> wb_instance_id b \<noteq> [] \<and>
     wb_seq b \<noteq> 0 \<and> (key = [] \<or> key = wireKey b) \<and> wb_collected_at b \<noteq> 0 \<and>
     \<not> mc_clock_skew cfg < time_sub (wb_collected_at b) now \<and>
     \<not> mc_clock_skew cfg < wrap64 (- time_sub (wb_collected_at b) now) \<and> 0 \<le> wb_collection_ms b"

lemma checkEnvelope_clean:
  assumes "normal cfg"
  shows "accepting (checkEnvelope cfg key b c) \<longleftrightarrow> envelope_ok cfg (ck_now c) key b \<and> accepting c"
proof -
  have seq: "wb_seq b < 1 \<longleftrightarrow> wb_seq b = 0" by (simp add: word_less_1)
  show ?thesis
    using assms
    by (auto simp: checkEnvelope_def envelope_ok_def Let_def accept_simps seq not_less)
qed

definition selection_ok_wire :: "selection \<Rightarrow> bool" where
  "selection_ok_wire s \<longleftrightarrow>
     (sel_topic_include s \<noteq> [] \<or> sel_topic_exclude s \<noteq> [] \<or> sel_group_include s \<noteq> [] \<or>
      sel_group_exclude s \<noteq> [] \<or> sel_group_states s \<noteq> [] \<or> sel_include_internal s) \<and>
     list_all (\<lambda>e. trimSpace e \<noteq> []) (sel_topic_include s @ sel_topic_exclude s @
       sel_group_include s @ sel_group_exclude s)"

definition truncation_ok :: "wbatch \<Rightarrow> bool" where
  "truncation_ok b \<longleftrightarrow>
     list_all (\<lambda>e. 0 \<le> we_count e) (wb_errors b) \<and>
     (case wb_selection b of None \<Rightarrow> True | Some s \<Rightarrow> selection_ok_wire s) \<and>
     (case wb_truncation b of
        None \<Rightarrow> True
      | Some t \<Rightarrow>
          (wt_collapsed t \<noteq> 0 \<or> wt_dropped t \<noteq> 0) \<and>
          wt_collapsed t = section_sum ws_errors_collapsed b \<and>
          wt_dropped t = section_sum ws_errors_dropped b)"

lemma blank_entries_clean [accept_simps]:
  "normal cfg \<Longrightarrow> accepting (steps (blank_entries cfg field es) c) \<longleftrightarrow>
     list_all (\<lambda>e. trimSpace e \<noteq> []) es \<and> accepting c"
  unfolding blank_entries_def by (rule clean_steps_enum) (simp add: accept_simps)

lemma checkTruncation_clean:
  assumes "normal cfg"
  shows "accepting (checkTruncation cfg b c) \<longleftrightarrow> truncation_ok b \<and> accepting c"
proof -
  have counts: "accepting (steps (map (\<lambda>(i, e). on (we_count e < 0)
        (failCheck cfg ''errors.negative_count'' (indexed ''$.errors'' i) [AInt (we_count e)]))
        (enumerate 0 (wb_errors b))) c) \<longleftrightarrow> list_all (\<lambda>e. 0 \<le> we_count e) (wb_errors b) \<and> accepting c" for c
    by (rule clean_steps_enum) (use assms in \<open>auto simp: accept_simps\<close>)
  show ?thesis
    using assms
    by (auto simp: checkTruncation_def truncation_ok_def selection_checks_def selection_ok_wire_def
        truncation_checks_def Let_def accept_simps counts split: option.splits)
qed

definition agent_ok :: "wbatch \<Rightarrow> bool" where
  "agent_ok b \<longleftrightarrow>
     wa_collected (wb_agent b) = wb_seq b \<and> wa_exported (wb_agent b) < wb_seq b \<and>
     settled_sum (wb_agent b) \<le> wb_seq b \<and> 0 \<le> wa_queue_depth (wb_agent b)"

lemma checkAgent_clean:
  assumes "normal cfg"
  shows "accepting (checkAgent cfg b c) \<longleftrightarrow> agent_ok b \<and> accepting c"
  using assms
  by (auto simp: checkAgent_def agent_ok_def Let_def accept_simps not_le not_less)

subsection \<open>Sections\<close>

definition names_of :: "wbatch \<Rightarrow> string list" where
  "names_of b = map ws_name (wb_sections b)"

definition row_ok :: "wsection \<Rightarrow> bool" where
  "row_ok sec \<longleftrightarrow>
     ws_name sec \<noteq> [] \<and> ws_status sec \<in> set validStatuses \<and> ws_sampled_at sec \<noteq> 0 \<and>
     0 \<le> ws_duration_ms sec"

definition positions :: "mock_config \<Rightarrow> wsection list \<Rightarrow> int list" where
  "positions cfg secs = map int (List.map_filter (\<lambda>sec. canon cfg (ws_name sec)) secs)"

lemma name_check_clean [accept_simps]:
  "normal cfg \<Longrightarrow> accepting (name_check cfg path byName sec c) \<longleftrightarrow>
     ws_name sec \<noteq> [] \<and> ws_name sec \<notin> fst ` set byName \<and> accepting c"
  by (auto simp: name_check_def accept_simps map_of_eq_None_iff)

lemma position_check_clean [accept_simps]:
  "normal cfg \<Longrightarrow> accepting (position_check cfg path prev sec c) \<longleftrightarrow>
     (case canon cfg (ws_name sec) of None \<Rightarrow> True | Some pos \<Rightarrow> prev < int pos) \<and> accepting c"
  by (auto simp: position_check_def accept_simps split: option.split)

lemma row_check_clean [accept_simps]:
  "normal cfg \<Longrightarrow> accepting (row_check cfg path sec c) \<longleftrightarrow>
     ws_status sec \<in> set validStatuses \<and> ws_sampled_at sec \<noteq> 0 \<and> 0 \<le> ws_duration_ms sec \<and> accepting c"
  by (auto simp: row_check_def accept_simps)

lemma positions_simps:
  "positions cfg [] = []"
  "positions cfg (sec # secs) =
     (case canon cfg (ws_name sec) of
        None \<Rightarrow> positions cfg secs
      | Some p \<Rightarrow> int p # positions cfg secs)"
  by (simp_all add: positions_def List.map_filter_simps split: option.split)

lemma section_loop_clean:
  assumes "normal cfg"
  shows "accepting (snd (section_loop cfg i prev byName secs c)) \<longleftrightarrow>
    list_all row_ok secs \<and> distinct (map ws_name secs) \<and>
    fst ` set byName \<inter> ws_name ` set secs = {} \<and> sorted_wrt (<) (prev # positions cfg secs) \<and> accepting c"
proof (induction secs arbitrary: i prev byName c)
  case Nil
  then show ?case by (simp add: positions_simps)
next
  case (Cons sec secs)
  have names: "fst ` set (entered_name byName sec) =
      (if ws_name sec = [] then fst ` set byName else insert (ws_name sec) (fst ` set byName))"
    by (auto simp: entered_name_def map_of_eq_None_iff image_iff dest: map_of_SomeD)
  show ?case
    unfolding section_loop.simps Let_def Cons.IH
    using assms
    by (cases "canon cfg (ws_name sec)")
      (auto simp: accept_simps names row_ok_def [of sec] positions_simps)
qed

lemma section_loop_names:
  assumes "list_all row_ok secs" "distinct (map ws_name secs)"
    "fst ` set byName \<inter> ws_name ` set secs = {}"
  shows "fst (section_loop cfg i prev byName secs c) = byName @ map (\<lambda>s. (ws_name s, s)) secs"
  using assms
proof (induction secs arbitrary: i prev byName c)
  case (Cons sec secs)
  have "entered_name byName sec = byName @ [(ws_name sec, sec)]"
    using Cons.prems by (auto simp: entered_name_def row_ok_def [of sec] map_of_eq_None_iff)
  then show ?case using Cons by (auto simp: Let_def)
qed simp

text \<open>The section of a name, and the order in which the samples must have been taken.\<close>

definition found :: "wbatch \<Rightarrow> string \<Rightarrow> wsection option" where
  "found b name = map_of (map (\<lambda>s. (ws_name s, s)) (wb_sections b)) name"

definition sections_ok :: "mock_config \<Rightarrow> wbatch \<Rightarrow> bool" where
  "sections_ok cfg b \<longleftrightarrow>
     list_all row_ok (wb_sections b) \<and> distinct (names_of b) \<and>
     sorted_wrt (<) (positions cfg (wb_sections b)) \<and>
     set (mc_sections cfg) \<subseteq> set (names_of b) \<and>
     (case (found b ''topics'', found b ''topics_end'') of
        (Some t, Some e) \<Rightarrow> ws_sampled_at t \<le> ws_sampled_at e
      | _ \<Rightarrow> True) \<and>
     list_all (\<lambda>e. we_section e \<in> set (names_of b) \<and> we_message e \<noteq> []) (wb_errors b) \<and>
     list_all (\<lambda>s. ws_error_count s = counted b (ws_name s)) (wb_sections b)"

lemma positions_nonneg: "x \<in> set (positions cfg secs) \<Longrightarrow> - 1 < x"
  by (auto simp: positions_def)

lemma found_None: "found b name = None \<longleftrightarrow> name \<notin> set (names_of b)"
  by (auto simp: found_def names_of_def map_of_eq_None_iff image_iff)

lemma accepting_steps: "accepting (steps fs (f c)) = accepting (steps (f # fs) c)"
  by simp

lemma missing_checks_clean:
  assumes "normal cfg"
  shows "accepting (steps (missing_checks cfg byName) c) \<longleftrightarrow>
    set (mc_sections cfg) \<subseteq> fst ` set byName \<and> accepting c"
proof -
  have "accepting (steps (missing_checks cfg byName) c) \<longleftrightarrow>
      list_all (\<lambda>want. map_of byName want \<noteq> None) (mc_sections cfg) \<and> accepting c"
    unfolding missing_checks_def by (rule clean_steps_map) (use assms in \<open>simp add: accept_simps\<close>)
  then show ?thesis by (auto simp: list_all_iff map_of_eq_None_iff subset_iff)
qed

lemma order_checks_clean:
  assumes "normal cfg"
  shows "accepting (steps (order_checks cfg b byName) c) \<longleftrightarrow>
    (case (map_of byName ''topics'', map_of byName ''topics_end'') of
        (Some t, Some e) \<Rightarrow> ws_sampled_at t \<le> ws_sampled_at e
      | _ \<Rightarrow> True) \<and> accepting c"
  using assms
  by (auto simp: order_checks_def Let_def on_def accept_simps not_less split: option.split)

lemma error_check_clean [accept_simps]:
  "normal cfg \<Longrightarrow> accepting (error_check cfg byName i e c) \<longleftrightarrow>
     (we_section e \<in> fst ` set byName \<and> we_message e \<noteq> []) \<and> accepting c"
  by (auto simp: error_check_def Let_def accept_simps map_of_eq_None_iff)

lemma count_checks_clean [accept_simps]:
  "normal cfg \<Longrightarrow> accepting (count_checks cfg b p c) \<longleftrightarrow>
     ws_error_count (snd p) = counted b (fst p) \<and> accepting c"
  by (auto simp: count_checks_def split_beta accept_simps)

lemma checkSections_clean:
  assumes "normal cfg" "\<And>xs. set (order xs) = set xs"
  shows "accepting (checkSections cfg order b c) \<longleftrightarrow> sections_ok cfg b \<and> accepting c"
proof -
  define byName where "byName = fst (section_loop cfg 0 (- 1) [] (wb_sections b) c)"
  define c1 where "c1 = snd (section_loop cfg 0 (- 1) [] (wb_sections b) c)"
  have c1: "accepting c1 \<longleftrightarrow> list_all row_ok (wb_sections b) \<and> distinct (names_of b) \<and>
      sorted_wrt (<) (positions cfg (wb_sections b)) \<and> accepting c"
    using section_loop_clean [OF assms(1), of 0 "- 1" "[]" "wb_sections b" c] positions_nonneg
    by (auto simp: c1_def names_of_def)
  have loop: "section_loop cfg 0 (- 1) [] (wb_sections b) c = (byName, c1)"
    by (simp add: byName_def c1_def)
  have errs: "accepting (steps (map (\<lambda>(i, e). error_check cfg byName i e) (enumerate 0 (wb_errors b))) c2) \<longleftrightarrow>
      list_all (\<lambda>e. we_section e \<in> fst ` set byName \<and> we_message e \<noteq> []) (wb_errors b) \<and> accepting c2" for c2
    by (rule clean_steps_enum) (use assms(1) in \<open>simp add: accept_simps\<close>)
  have counts: "accepting (steps (map (count_checks cfg b) (order byName)) c2) \<longleftrightarrow>
      list_all (\<lambda>p. ws_error_count (snd p) = counted b (fst p)) (order byName) \<and> accepting c2" for c2
    by (rule clean_steps_map) (use assms(1) in \<open>simp add: accept_simps\<close>)
  have whole: "accepting (checkSections cfg order b c) \<longleftrightarrow>
      list_all (\<lambda>p. ws_error_count (snd p) = counted b (fst p)) byName \<and>
      list_all (\<lambda>e. we_section e \<in> fst ` set byName \<and> we_message e \<noteq> []) (wb_errors b) \<and>
      (case (map_of byName ''topics'', map_of byName ''topics_end'') of
        (Some t, Some e) \<Rightarrow> ws_sampled_at t \<le> ws_sampled_at e
      | _ \<Rightarrow> True) \<and> set (mc_sections cfg) \<subseteq> fst ` set byName \<and> accepting c1"
    using loop
    by (simp add: checkSections_def clean_on_fail [OF assms(1)] counts errs order_checks_clean [OF assms(1)]
        missing_checks_clean [OF assms(1)] list_all_iff assms(2))
  show ?thesis
  proof (cases "accepting c1")
    case True
    then have "byName = map (\<lambda>s. (ws_name s, s)) (wb_sections b)"
      using section_loop_names [of "wb_sections b" "[]" cfg 0 "- 1" c] c1
      by (simp add: byName_def names_of_def)
    then show ?thesis
      using True c1 unfolding whole sections_ok_def
      by (auto simp: found_def names_of_def list_all_iff image_image)
  next
    case False
    with c1 show ?thesis unfolding whole sections_ok_def by blast
  qed
qed

subsection \<open>Data\<close>

definition partition_ok :: "wpartition \<Rightarrow> bool" where
  "partition_ok p \<longleftrightarrow>
     \<not> negative (wp_start p) \<and> \<not> negative (wp_end p) \<and> \<not> negative (wp_lso p) \<and>
     \<not> below (wp_end p) (wp_start p)"

definition topic_ok :: "wtopic \<Rightarrow> bool" where
  "topic_ok t \<longleftrightarrow>
     wtp_partition_count t = int (length (wtp_partitions t)) \<and>
     distinct (map wp_id (wtp_partitions t)) \<and> list_all partition_ok (wtp_partitions t)"

definition consumer_keys :: "wconsumer \<Rightarrow> string list" where
  "consumer_keys co =
     map (\<lambda>po. offsetKey (wc_group_id co) (wof_topic po) (wof_partition po)) (wc_offsets co)"

definition dir_ok :: "wlogdir \<Rightarrow> bool" where
  "dir_ok d \<longleftrightarrow>
     wd_dir d \<noteq> [] \<and> \<not> negative (wd_total d) \<and> \<not> negative (wd_usable d) \<and>
     distinct (map (\<lambda>p. (wdp_topic p, wdp_partition p)) (wd_partitions d)) \<and>
     list_all (\<lambda>p. 0 \<le> wdp_size p \<and> 0 \<le> wdp_offset_lag p) (wd_partitions d)"

definition data_ok :: "wbatch \<Rightarrow> bool" where
  "data_ok b \<longleftrightarrow>
     (case wb_cluster b of None \<Rightarrow> True | Some cl \<Rightarrow> wcl_broker_count cl = int (wcl_brokers cl)) \<and>
     distinct (map wtp_name (wb_topics b)) \<and> list_all topic_ok (wb_topics b) \<and>
     distinct (map wg_id (wb_groups b)) \<and>
     list_all (\<lambda>g. wg_member_count g = int (wg_members g)) (wb_groups b) \<and>
     distinct (concat (map consumer_keys (wb_offsets b))) \<and>
     list_all (\<lambda>co. wc_offset_count co = int (length (wc_offsets co)) \<and>
       list_all (\<lambda>po. \<not> negative (wof_committed po)) (wc_offsets co)) (wb_offsets b) \<and>
     distinct (map (\<lambda>d. (wd_broker d, wd_dir d)) (wb_log_dirs b)) \<and>
     list_all dir_ok (wb_log_dirs b)"

lemma partition_check_clean [accept_simps]:
  "normal cfg \<Longrightarrow> accepting (partition_check cfg topic path j prevID seen p c) \<longleftrightarrow>
     wp_id p \<notin> seen \<and> partition_ok p \<and> accepting c"
  by (auto simp: partition_check_def replica_checks_def partition_ok_def accept_simps)

lemma partition_loop_clean:
  assumes "normal cfg"
  shows "accepting (snd (snd (partition_loop cfg topic path j prevID seen ps (ends, minRF, c)))) \<longleftrightarrow>
    list_all partition_ok ps \<and> distinct (map wp_id ps) \<and> seen \<inter> wp_id ` set ps = {} \<and> accepting c"
proof (induction ps arbitrary: j prevID seen ends minRF c)
  case (Cons p ps)
  show ?case
    unfolding partition_loop.simps Cons.IH using assms by (auto simp: accept_simps)
qed simp

lemma topic_loop_clean:
  assumes "normal cfg"
  shows "accepting (snd (topic_loop cfg i prevTopic seen ts (ends, c))) \<longleftrightarrow>
    list_all topic_ok ts \<and> distinct (map wtp_name ts) \<and> seen \<inter> wtp_name ` set ts = {} \<and> accepting c"
proof (induction ts arbitrary: i prevTopic seen ends c)
  case (Cons t ts)
  show ?case
    using assms
    by (auto simp: Let_def split_beta Cons.IH accept_simps partition_loop_clean topic_checks_def
        topic_ok_def [of t])
qed simp

lemma group_loop_clean [accept_simps]:
  assumes "normal cfg"
  shows "accepting (group_loop cfg i prevGroup seen gs c) \<longleftrightarrow>
    list_all (\<lambda>g. wg_member_count g = int (wg_members g)) gs \<and> distinct (map wg_id gs) \<and>
    seen \<inter> wg_id ` set gs = {} \<and> accepting c"
proof (induction gs arbitrary: i prevGroup seen c)
  case (Cons g gs)
  show ?case
    unfolding group_loop.simps Cons.IH using assms
    by (auto simp: group_check_def Let_def accept_simps)
qed simp

lemma committed_check_clean [accept_simps]:
  "normal cfg \<Longrightarrow> accepting (committed_check cfg b ends gid path po c) \<longleftrightarrow>
     \<not> negative (wof_committed po) \<and> accepting c"
  by (auto simp: committed_check_def negative_def accept_simps split: option.split)

lemma offset_loop_clean:
  assumes "normal cfg"
  shows "fst (offset_loop cfg b ends gid path j pos (seen, c)) =
      seen \<union> (\<lambda>po. offsetKey gid (wof_topic po) (wof_partition po)) ` set pos"
    "accepting (snd (offset_loop cfg b ends gid path j pos (seen, c))) \<longleftrightarrow>
      list_all (\<lambda>po. \<not> negative (wof_committed po)) pos \<and>
      distinct (map (\<lambda>po. offsetKey gid (wof_topic po) (wof_partition po)) pos) \<and>
      seen \<inter> (\<lambda>po. offsetKey gid (wof_topic po) (wof_partition po)) ` set pos = {} \<and> accepting c"
proof (induction pos arbitrary: j seen c)
  case (Cons po pos)
  {
    case 1
    show ?case by (auto simp: Let_def Cons.IH)
  next
    case 2
    show ?case using assms by (auto simp: Let_def Cons.IH accept_simps)
  }
qed simp_all

lemma consumer_loop_clean [accept_simps]:
  assumes "normal cfg"
  shows "accepting (consumer_loop cfg b ends i prevGID seen cos c) \<longleftrightarrow>
    list_all (\<lambda>co. wc_offset_count co = int (length (wc_offsets co)) \<and>
       list_all (\<lambda>po. \<not> negative (wof_committed po)) (wc_offsets co)) cos \<and>
    distinct (concat (map consumer_keys cos)) \<and>
    seen \<inter> set (concat (map consumer_keys cos)) = {} \<and> accepting c"
proof (induction cos arbitrary: i prevGID seen c)
  case (Cons co cos)
  have keys: "(\<lambda>po. offsetKey (wc_group_id co) (wof_topic po) (wof_partition po)) ` set (wc_offsets co) =
      set (consumer_keys co)"
    "map (\<lambda>po. offsetKey (wc_group_id co) (wof_topic po) (wof_partition po)) (wc_offsets co) =
      consumer_keys co"
    by (simp_all add: consumer_keys_def)
  show ?case
    using assms
    by (auto simp: Let_def split_beta Cons.IH offset_loop_clean keys accept_simps)
qed simp

lemma dir_partition_loop_clean [accept_simps]:
  assumes "normal cfg"
  shows "accepting (dir_partition_loop cfg d path j seen ps c) \<longleftrightarrow>
    list_all (\<lambda>p. 0 \<le> wdp_size p \<and> 0 \<le> wdp_offset_lag p) ps \<and>
    distinct (map (\<lambda>p. (wdp_topic p, wdp_partition p)) ps) \<and>
    seen \<inter> (\<lambda>p. tpKey (wdp_topic p) (wdp_partition p)) ` set ps = {} \<and> accepting c"
proof (induction ps arbitrary: j seen c)
  case (Cons p ps)
  show ?case
    using assms by (auto simp: Let_def Cons.IH accept_simps not_less)
qed simp

lemma dir_loop_clean [accept_simps]:
  assumes "normal cfg"
  shows "accepting (dir_loop cfg i seen ds c) \<longleftrightarrow>
    list_all dir_ok ds \<and> distinct (map (\<lambda>d. (wd_broker d, wd_dir d)) ds) \<and>
    seen \<inter> (\<lambda>d. dirKey (wd_broker d) (wd_dir d)) ` set ds = {} \<and> accepting c"
proof (induction ds arbitrary: i seen c)
  case (Cons d ds)
  show ?case
    using assms by (auto simp: Let_def Cons.IH accept_simps dir_checks_def dir_ok_def [of d])
qed simp

lemma checkData_clean:
  assumes "normal cfg"
  shows "accepting (checkData cfg b c) \<longleftrightarrow> data_ok b \<and> accepting c"
  using assms
  by (cases "wb_cluster b")
    (auto simp: checkData_def data_ok_def checkLogDirs_def Let_def split_beta accept_simps
      topic_loop_clean)

subsection \<open>Modes\<close>

text \<open>
  Whatever a check does to a checker, it appends failures whose severity the mode allows: under
  \<open>WarnOnly\<close> none is fatal, under \<open>Strict\<close> each is.
\<close>

definition mode_ok_failure :: "mock_config \<Rightarrow> failure \<Rightarrow> bool" where
  "mode_ok_failure cfg f \<longleftrightarrow>
     (mc_warn_only cfg \<and> \<not> mc_strict cfg \<longrightarrow> fl_severity f = SeverityWarn) \<and>
     (mc_strict cfg \<and> \<not> mc_warn_only cfg \<longrightarrow> fl_severity f = SeverityFatal)"

definition extends :: "mock_config \<Rightarrow> checker \<Rightarrow> checker \<Rightarrow> bool" where
  "extends cfg c c' \<longleftrightarrow>
     ck_now c' = ck_now c \<and> ck_seq c' = ck_seq c \<and>
     (\<exists>fs. ck_out c' = ck_out c @ fs \<and> list_all (mode_ok_failure cfg) fs)"

definition emits :: "mock_config \<Rightarrow> check \<Rightarrow> bool" where
  "emits cfg f \<longleftrightarrow> (\<forall>c. extends cfg c (f c))"

named_theorems emit_intros \<open>checks that only append failures\<close>

lemma extends_refl [simp]: "extends cfg c c"
  by (simp add: extends_def)

lemma extends_trans: "extends cfg c c' \<Longrightarrow> extends cfg c' c'' \<Longrightarrow> extends cfg c c''"
  by (auto simp: extends_def)

lemma emitsD: "emits cfg f \<Longrightarrow> extends cfg c (f c)"
  by (simp add: emits_def)

lemma emits_emit: "sev = SeverityFatal \<or> sev = SeverityWarn \<Longrightarrow> emits cfg (emitFailure cfg sev n code path args)"
  by (auto simp: emits_def extends_def emitFailure_def mode_ok_failure_def Let_def)

lemma emits_single [emit_intros]:
  "emits cfg (failCheck cfg code path args)"
  "emits cfg (failStatus cfg n code path args)"
  "emits cfg (warnCheck cfg code path args)"
  using emits_emit by (auto simp: failCheck_def [abs_def] failStatus_def [abs_def] warnCheck_def [abs_def])

lemma emits_once [emit_intros]: "emits cfg (warnOnce cfg key code path args)"
  unfolding emits_def
proof
  fix c
  have "extends cfg (c\<lparr>ck_warned := insert key (ck_warned c)\<rparr>)
      (warnCheck cfg code path args (c\<lparr>ck_warned := insert key (ck_warned c)\<rparr>))"
    by (rule emitsD [OF emits_single(3)])
  then show "extends cfg c (warnOnce cfg key code path args c)"
    by (auto simp: warnOnce_def Let_def extends_def)
qed

lemma emits_id [emit_intros]: "emits cfg id" "emits cfg (\<lambda>c. c)"
  by (simp_all add: emits_def)

lemma emits_on [emit_intros]: "emits cfg f \<Longrightarrow> emits cfg (on b f)"
  by (auto simp: emits_def on_def)

lemma emits_steps: "list_all (emits cfg) fs \<Longrightarrow> extends cfg c (steps fs c)"
  by (induction fs arbitrary: c) (auto dest: emitsD intro: extends_trans)

lemma emits_steps_fun [emit_intros]: "list_all (emits cfg) fs \<Longrightarrow> emits cfg (steps fs)"
  by (simp add: emits_def emits_steps)

lemma emits_if [emit_intros]: "emits cfg f \<Longrightarrow> emits cfg g \<Longrightarrow> emits cfg (if b then f else g)"
  by simp

lemmas section_check_defs = name_check_def position_check_def row_check_def missing_checks_def
  order_checks_def error_check_def count_checks_def

lemma emits_section_row:
  "emits cfg (name_check cfg path byName sec)" "emits cfg (position_check cfg path prev sec)"
  "emits cfg (row_check cfg path sec)"
  by (auto simp: name_check_def [abs_def] position_check_def [abs_def] row_check_def [abs_def]
      intro!: emit_intros split: option.split)

lemma section_loop_extends: "extends cfg c (snd (section_loop cfg i prev byName secs c))"
proof (induction secs arbitrary: i prev byName c)
  case (Cons sec secs)
  show ?case
    unfolding section_loop.simps Let_def
    by (rule extends_trans [OF emits_steps Cons.IH]) (simp add: emits_section_row)
qed simp

lemma checkSections_emits [emit_intros]: "emits cfg (checkSections cfg order b)"
  unfolding emits_def
proof
  fix c
  obtain byName c1 where loop: "section_loop cfg 0 (- 1) [] (wb_sections b) c = (byName, c1)"
    by (cases "section_loop cfg 0 (- 1) [] (wb_sections b) c")
  have "list_all (emits cfg) (missing_checks cfg byName)"
    by (auto simp: missing_checks_def list_all_iff intro!: emit_intros)
  moreover have "list_all (emits cfg) (order_checks cfg b byName)"
    by (auto simp: order_checks_def Let_def intro!: emit_intros split: option.split)
  moreover have "list_all (emits cfg) (map (\<lambda>(i, e). error_check cfg byName i e) (enumerate 0 (wb_errors b)))"
    by (auto simp: list_all_iff error_check_def [abs_def] Let_def intro!: emit_intros)
  moreover have "list_all (emits cfg) (map (count_checks cfg b) (order byName))"
    by (auto simp: list_all_iff count_checks_def [abs_def] intro!: emit_intros)
  ultimately have "extends cfg c1 (checkSections cfg order b c)"
    unfolding checkSections_def loop Let_def prod.case
    by (intro emits_steps) (auto intro!: emit_intros)
  moreover have "extends cfg c c1" using section_loop_extends [of cfg c 0 "- 1" "[]" "wb_sections b"] loop by simp
  ultimately show "extends cfg c (checkSections cfg order b c)" using extends_trans by blast
qed

lemma checkEnvelope_emits [emit_intros]: "emits cfg (checkEnvelope cfg key b)"
  unfolding emits_def
  by (auto simp: checkEnvelope_def Let_def intro!: emits_steps emit_intros simp del: steps_simps)

lemma checkTruncation_emits [emit_intros]: "emits cfg (checkTruncation cfg b)"
  unfolding checkTruncation_def
  by (rule emits_steps_fun)
    (auto simp: list_all_iff selection_checks_def blank_entries_def truncation_checks_def Let_def
      intro!: emit_intros split: option.split)

lemma checkAgent_emits [emit_intros]: "emits cfg (checkAgent cfg b)"
  unfolding checkAgent_def Let_def by (rule emits_steps_fun) (auto intro!: emit_intros)

lemma partition_loop_extends:
  "extends cfg c (snd (snd (partition_loop cfg topic path j prevID seen ps (ends, minRF, c))))"
proof (induction ps arbitrary: j prevID seen ends minRF c)
  case (Cons p ps)
  have "list_all (emits cfg) (replica_checks cfg q p)" for q
    by (auto simp: replica_checks_def intro!: emit_intros)
  then have "extends cfg c (partition_check cfg topic q j prevID seen p c)" for q
    unfolding partition_check_def by (intro emits_steps) (auto intro!: emit_intros)
  then show ?case using Cons.IH extends_trans unfolding partition_loop.simps by blast
qed simp

lemma topic_loop_extends: "extends cfg c (snd (topic_loop cfg i prevTopic seen ts (ends, c)))"
proof (induction ts arbitrary: i prevTopic seen ends c)
  case (Cons t ts)
  let ?c0 = "steps (topic_checks cfg (indexed ''$.topics'' i) i prevTopic seen t) c"
  obtain ends1 minRF c1 where loop: "partition_loop cfg (wtp_name t) (indexed ''$.topics'' i) 0 0 {}
      (wtp_partitions t) (ends, - 1, ?c0) = (ends1, minRF, c1)"
    by (metis prod_cases3)
  have "extends cfg c ?c0"
    by (rule emits_steps) (auto simp: topic_checks_def countCheck_def intro!: emit_intros)
  also have "extends cfg ?c0 c1"
    using partition_loop_extends [of cfg ?c0] loop by (metis snd_conv)
  finally (extends_trans) have c1: "extends cfg c c1" .
  show ?case
    unfolding topic_loop.simps Let_def loop prod.case
    by (rule extends_trans [OF extends_trans [OF c1 emitsD [OF emits_on [OF emits_single(3)]]] Cons.IH])
qed simp

lemma group_loop_emits [emit_intros]: "emits cfg (group_loop cfg i prevGroup seen gs)"
  unfolding emits_def
proof
  fix c show "extends cfg c (group_loop cfg i prevGroup seen gs c)"
  proof (induction gs arbitrary: i prevGroup seen c)
    case (Cons g gs)
    have "extends cfg c (group_check cfg i prevGroup seen g c)"
      unfolding group_check_def Let_def countCheck_def
      by (rule emits_steps) (auto intro!: emit_intros)
    then show ?case using Cons.IH extends_trans unfolding group_loop.simps by blast
  qed simp
qed

lemma offset_loop_extends: "extends cfg c (snd (offset_loop cfg b ends gid path j pos (seen, c)))"
proof (induction pos arbitrary: j seen c)
  case (Cons po pos)
  have "emits cfg (committed_check cfg b ends gid q po)" for q
    by (auto simp: committed_check_def intro!: emit_intros split: option.split)
  then show ?case
    unfolding offset_loop.simps Let_def
    by (intro extends_trans [OF _ Cons.IH] emits_steps) (auto intro!: emit_intros)
qed simp

lemma consumer_loop_emits [emit_intros]: "emits cfg (consumer_loop cfg b ends i prevGID seen cos)"
  unfolding emits_def
proof
  fix c show "extends cfg c (consumer_loop cfg b ends i prevGID seen cos c)"
  proof (induction cos arbitrary: i prevGID seen c)
    case (Cons co cos)
    show ?case
      unfolding consumer_loop.simps Let_def split_beta
      by (intro extends_trans [OF extends_trans [OF emits_steps offset_loop_extends] Cons.IH])
        (auto simp: countCheck_def intro!: emit_intros)
  qed simp
qed

lemma dir_partition_loop_extends: "extends cfg c (dir_partition_loop cfg d path j seen ps c)"
proof (induction ps arbitrary: j seen c)
  case (Cons p ps)
  show ?case
    unfolding dir_partition_loop.simps Let_def
    by (intro extends_trans [OF emits_steps Cons.IH]) (auto intro!: emit_intros)
qed simp

lemma dir_loop_emits [emit_intros]: "emits cfg (dir_loop cfg i seen ds)"
  unfolding emits_def
proof
  fix c show "extends cfg c (dir_loop cfg i seen ds c)"
  proof (induction ds arbitrary: i seen c)
    case (Cons d ds)
    show ?case
      unfolding dir_loop.simps Let_def
      by (intro extends_trans [OF extends_trans [OF emits_steps dir_partition_loop_extends] Cons.IH])
        (auto simp: dir_checks_def intro!: emit_intros)
  qed simp
qed

lemma checkData_emits [emit_intros]: "emits cfg (checkData cfg b)"
  unfolding emits_def
proof
  fix c
  define c1 where "c1 = (case wb_cluster b of
            None \<Rightarrow> c
          | Some cl \<Rightarrow>
              on (wcl_broker_count cl \<noteq> int (wcl_brokers cl))
                (failCheck cfg ''data.broker_count'' ''$.cluster''
                   [AInt (wcl_broker_count cl), AInt (int (wcl_brokers cl))]) c)"
  obtain ends c2 where loop: "topic_loop cfg 0 [] {} (wb_topics b) (Map.empty, c1) = (ends, c2)"
    by (metis prod.exhaust)
  have "extends cfg c c1"
    by (auto simp: c1_def intro!: emitsD [OF emits_on [OF emits_single(1)]] split: option.split)
  moreover have "extends cfg c1 c2" using topic_loop_extends [of cfg c1] loop by (metis snd_conv)
  moreover have "extends cfg c2 (checkData cfg b c)"
    unfolding checkData_def c1_def [symmetric] Let_def loop prod.case checkLogDirs_def
    by (rule emits_steps) (auto intro!: emit_intros)
  ultimately show "extends cfg c (checkData cfg b c)" using extends_trans by blast
qed

lemma checkBatch_emits: "emits cfg (checkBatch cfg order key b)"
  unfolding checkBatch_def by (rule emits_steps_fun) (auto intro!: emit_intros)

subsection \<open>Properties\<close>

definition fresh_checker :: "gotime \<Rightarrow> 64 word \<Rightarrow> string set \<Rightarrow> checker" where
  "fresh_checker now seq warned =
     \<lparr>ck_now = now, ck_seq = seq, ck_out = [], ck_warned = warned\<rparr>"

text \<open>\<open>DefaultSections\<close> is spelled out in the mock, and equal to the collector's list.\<close>

definition DefaultSections :: "string list" where
  "DefaultSections =
     [''cluster'',
      ''topics'', ''topics_window'', ''topics_lso'', ''topics_end'',
      ''topics_max_timestamp'', ''topics_local_start'', ''topics_remote_end'',
      ''groups'', ''offsets'',
      ''epoch_probes'',
      ''log_dirs'', ''reassignments'', ''topic_configs'', ''broker_configs'',
      ''share_groups'', ''broker_rpc'']"

lemma DefaultSections_eq: "DefaultSections = sectionNames"
  by (simp add: DefaultSections_def sectionNames_def)

text \<open>
  C8: the suite decides the contract. Outside the two modes, the checks over a decoded batch raise a
  fatal failure exactly when the batch breaks the declarative contract: its envelope, its sections,
  its data, its truncation block or its counters. The order of Go's map iteration does not matter,
  and neither does what earlier batches were warned about.
\<close>

theorem suite_decides_the_contract:
  assumes "normal cfg" "\<And>xs. set (order xs) = set xs"
  shows "accepting (checkBatch cfg order key b (fresh_checker now seq warned)) \<longleftrightarrow>
    envelope_ok cfg now key b \<and> sections_ok cfg b \<and> data_ok b \<and> truncation_ok b \<and> agent_ok b"
proof -
  have fresh: "accepting (fresh_checker now seq warned)" "ck_now (fresh_checker now seq warned) = now"
    by (simp_all add: fresh_checker_def accepting_def)
  show ?thesis
    by (auto simp: checkBatch_def checkEnvelope_clean [OF assms(1)] checkSections_clean [OF assms]
        checkData_clean [OF assms(1)] checkTruncation_clean [OF assms(1)]
        checkAgent_clean [OF assms(1)] fresh)
qed

text \<open>
  Under warn-only no batch is ever rejected, and under strict every finding is a rejection,
  whatever the batch holds.
\<close>

theorem modes_bind_every_check:
  "list_all (\<lambda>f. mc_strict cfg = mc_warn_only cfg \<or>
      fl_severity f = (if mc_strict cfg then SeverityFatal else SeverityWarn))
    (ck_out (checkBatch cfg order key b (fresh_checker now seq warned)))"
  using emitsD [OF checkBatch_emits, of cfg "fresh_checker now seq warned" order key b]
  by (auto simp: extends_def fresh_checker_def mode_ok_failure_def list_all_iff)

subsection \<open>Holes of the suite\<close>

text \<open>
  \<open>time.Sub\<close> saturates, and the negation of the least duration is itself: a clock that is more than
  292 years behind passes the skew check of every limit.
\<close>

lemma ancient_clock_passes:
  assumes "at \<le> now - 2 ^ 63" "0 \<le> limit"
  shows "\<not> limit < time_sub at now" "\<not> limit < wrap64 (- time_sub at now)"
proof -
  have sub: "time_sub at now = - (2 ^ 63)"
    using assms(1) by (simp add: time_sub_def math_MinInt64_def math_MaxInt64_def)
  have "wrap64 (2 ^ 63) = - (2 ^ 63)" by code_simp
  with sub assms(2) show "\<not> limit < time_sub at now" "\<not> limit < wrap64 (- time_sub at now)"
    by simp_all
qed

text \<open>The sum of the counters is taken modulo \<open>2 ^ 64\<close>, so a corrupt counter can hide in it.\<close>

lemma counter_sum_wraps:
  "\<exists>a. settled_sum a \<le> 5 \<and> wa_dropped a > 5"
  by (rule exI [of _ "\<lparr>wa_collected = 5, wa_exported = 1, wa_dropped = - 1, wa_rejected = 0,
      wa_queue_depth = 0, wa_last_export_error = []\<rparr>"]) (simp add: settled_sum_def)

text \<open>A batch whose sections dropped errors and that carries no truncation block passes.\<close>

lemma undeclared_truncation_passes:
  "\<exists>b. truncation_ok b \<and> section_sum ws_errors_dropped b = 3 \<and> wb_truncation b = None"
proof -
  let ?s = "\<lparr>ws_name = ''topics'', ws_status = ''partial'', ws_sampled_at = 1, ws_duration_ms = 0,
      ws_error_count = 0, ws_errors_collapsed = 0, ws_errors_dropped = 3\<rparr>"
  let ?b = "\<lparr>wb_schema_version = 1, wb_agent_version = [], wb_instance_id = [], wb_seq = 1,
      wb_collected_at = 1, wb_collection_ms = 0, wb_cluster = None, wb_topics = [], wb_groups = [],
      wb_offsets = [], wb_log_dirs = [],
      wb_agent = \<lparr>wa_collected = 1, wa_exported = 0, wa_dropped = 0, wa_rejected = 0,
        wa_queue_depth = 0, wa_last_export_error = []\<rparr>,
      wb_sections = [?s], wb_errors = [], wb_truncation = None, wb_selection = None\<rparr>"
  have "section_sum ws_errors_dropped ?b = 3"
    by (simp add: section_sum_def add64_def wrap64_id)
  then show ?thesis by (intro exI [of _ ?b]) (simp add: truncation_ok_def)
qed

subsection \<open>Witnesses\<close>

definition wit_mock :: mock_config where
  "wit_mock =
     \<lparr>mc_path = ''/v1/batches'', mc_api_key = [], mc_strict = False, mc_warn_only = False,
      mc_require = 0, mc_keep = 20, mc_max_body = 33554432, mc_clock_skew = 5 * minute,
      mc_max_errors = 1000, mc_sections = [''topics'', ''topics_end'', ''offsets''],
      mc_optional = []\<rparr>"

definition wit_section :: "string \<Rightarrow> gotime \<Rightarrow> int \<Rightarrow> wsection" where
  "wit_section name at errs =
     \<lparr>ws_name = name, ws_status = (if errs = 0 then ''ok'' else ''partial''), ws_sampled_at = at,
      ws_duration_ms = 2, ws_error_count = errs, ws_errors_collapsed = 0, ws_errors_dropped = 0\<rparr>"

definition wit_wire :: wbatch where
  "wit_wire =
     \<lparr>wb_schema_version = 1, wb_agent_version = ''1.0'', wb_instance_id = ''a'', wb_seq = 4,
      wb_collected_at = second, wb_collection_ms = 7,
      wb_cluster = Some \<lparr>wcl_broker_count = 3, wcl_brokers = 3\<rparr>,
      wb_topics = [\<lparr>wtp_name = ''t'', wtp_partition_count = 1, wtp_replication_factor = 1,
        wtp_partitions = [\<lparr>wp_id = 0, wp_leader = 1, wp_replicas = [1], wp_isr = [1],
          wp_start = Some 3, wp_end = Some 9, wp_lso = Some 8, wp_error_code = 0\<rparr>]\<rparr>],
      wb_groups = [\<lparr>wg_id = ''g'', wg_generation = 5, wg_member_count = 2, wg_members = 2\<rparr>],
      wb_offsets = [\<lparr>wc_group_id = ''g'', wc_offset_count = 1,
        wc_offsets = [\<lparr>wof_topic = ''t'', wof_partition = 0, wof_committed = Some 7\<rparr>]\<rparr>],
      wb_log_dirs = [],
      wb_agent = \<lparr>wa_collected = 4, wa_exported = 2, wa_dropped = 1, wa_rejected = 0,
        wa_queue_depth = 0, wa_last_export_error = []\<rparr>,
      wb_sections = [wit_section ''topics'' 10 1, wit_section ''topics_end'' 30 0,
        wit_section ''offsets'' 20 0],
      wb_errors = [\<lparr>we_section = ''topics'', we_kind = ''transport'', we_message = ''eof'', we_count = 1\<rparr>],
      wb_truncation = None, wb_selection = None\<rparr>"

theorem suite_decides_the_contract_witness:
  "accepting (checkBatch wit_mock id ''a-4'' wit_wire (fresh_checker second 4 {})) \<and>
   \<not> accepting (checkBatch wit_mock id ''a-3'' wit_wire (fresh_checker second 4 {}))"
proof -
  have n: "normal wit_mock" by (simp add: normal_def wit_mock_def)
  have "sections_ok wit_mock wit_wire" by code_simp
  moreover have "data_ok wit_wire" by code_simp
  moreover have "truncation_ok wit_wire" by code_simp
  moreover have "agent_ok wit_wire" by code_simp
  moreover have "envelope_ok wit_mock second ''a-4'' wit_wire \<and> \<not> envelope_ok wit_mock second ''a-3'' wit_wire"
    by code_simp
  ultimately show ?thesis
    using suite_decides_the_contract [OF n, of id] by simp
qed

end
