(* ===== verification/Mock_Server.thy ===== *)
theory Mock_Server
  imports Mock_Check_Props
begin

text \<open>
  The rest of \<open>src/internal/mockingest\<close>: the transport checks and the decoding of a request, the
  memory of earlier deliveries (\<open>checkState\<close>), the injected faults (\<open>faults.go\<close>), the run's books
  (\<open>record\<close> in \<open>report.go\<close>) and the request lifecycle (\<open>server.go\<close>).

  A request is the data the handler reads off \<open>http.Request\<close>. \<open>mime.ParseMediaType\<close>, gzip, SHA-256,
  the JSON decoder and the JSON encoder are the parameters \<open>mock_library\<close>: a gzip stream is the bytes
  it decompresses to, the error that follows them and the error of \<open>Close\<close>. What a reader of the
  terminal sees (\<open>report\<close>, \<open>Summary\<close>) is in \<open>Mock_Report\<close>.
\<close>

subsection \<open>Faults\<close>

record faults =
  ft_fail_first :: int
  ft_fail_status :: int
  ft_every_nth :: int
  ft_every_nth_status :: int
  ft_retry_after_sec :: int
  ft_delay_ms :: int
  ft_delay_first :: int
  ft_drop_every :: int
  ft_drop_first :: int
  ft_terminal_once :: int

definition no_faults :: faults where
  "no_faults =
     \<lparr>ft_fail_first = 0, ft_fail_status = 0, ft_every_nth = 0, ft_every_nth_status = 0,
      ft_retry_after_sec = 0, ft_delay_ms = 0, ft_delay_first = 0, ft_drop_every = 0,
      ft_drop_first = 0, ft_terminal_once = 0\<rparr>"

definition withDefaults :: "faults \<Rightarrow> faults" where
  "withDefaults f =
     f\<lparr>ft_fail_status := (if ft_fail_status f = 0 then 500 else ft_fail_status f),
       ft_every_nth_status := (if ft_every_nth_status f = 0 then 429 else ft_every_nth_status f),
       ft_retry_after_sec := (if ft_retry_after_sec f = 0 then 1 else ft_retry_after_sec f)\<rparr>"

definition armed :: "faults \<Rightarrow> bool" where
  "armed f \<longleftrightarrow>
     ft_fail_first f > 0 \<or> ft_every_nth f > 0 \<or> ft_delay_ms f > 0 \<or> ft_drop_every f > 0 \<or>
     ft_drop_first f > 0 \<or> ft_terminal_once f > 0"

datatype fault_kind = FaultNone | FaultStatus | FaultDrop

record injected =
  in_kind :: fault_kind
  in_status :: int
  in_retry_after :: int
  in_delay :: duration
  in_reason :: string

definition no_injection :: injected where
  "no_injection =
     \<lparr>in_kind = FaultNone, in_status = 0, in_retry_after = 0, in_delay = 0, in_reason = []\<rparr>"

definition fault_active :: "injected \<Rightarrow> bool" where
  "fault_active f \<longleftrightarrow> in_kind f \<noteq> FaultNone \<or> in_delay f > 0"

subsection \<open>The server\<close>

record delivery =
  dl_hash :: string
  dl_seq :: "64 word"
  dl_acked :: bool
  dl_truncated :: bool
  dl_count :: nat

record inst_state =
  is_last_acked :: "64 word"
  is_last_seen :: "64 word"
  is_seen :: "(string \<times> delivery) list"
  is_last_agent :: wagent
  is_have_last :: bool
  is_sent4xx :: nat

record mock_stats =
  ms_requests :: nat
  ms_ok :: nat
  ms_accepted :: nat
  ms_fatal :: nat
  ms_warn :: nat
  ms_duplicates :: nat
  ms_seq_gaps :: int
  ms_faults_injected :: nat
  ms_bytes_wire :: nat
  ms_bytes_decoded :: nat

record server =
  sv_faults :: faults
  sv_terminal_armed :: bool
  sv_stats :: mock_stats
  sv_failures :: "failure list"
  sv_bodies :: "string list"
  sv_instances :: "(string \<times> inst_state) list"
  sv_warned :: "string set"
  sv_fault_hits :: "(string \<times> nat) list"
  sv_sizes :: "nat list"
  sv_sent4xx :: nat
  sv_done :: bool
  sv_start :: gotime

definition zero_wagent :: wagent where
  "zero_wagent =
     \<lparr>wa_collected = 0, wa_exported = 0, wa_dropped = 0, wa_rejected = 0, wa_queue_depth = 0,
      wa_last_export_error = []\<rparr>"

definition zero_inst :: inst_state where
  "zero_inst =
     \<lparr>is_last_acked = 0, is_last_seen = 0, is_seen = [], is_last_agent = zero_wagent,
      is_have_last = False, is_sent4xx = 0\<rparr>"

definition zero_stats :: mock_stats where
  "zero_stats =
     \<lparr>ms_requests = 0, ms_ok = 0, ms_accepted = 0, ms_fatal = 0, ms_warn = 0, ms_duplicates = 0,
      ms_seq_gaps = 0, ms_faults_injected = 0, ms_bytes_wire = 0, ms_bytes_decoded = 0\<rparr>"

definition DefaultPath :: string where "DefaultPath = ''/v1/batches''"
definition defaultKeep :: int where "defaultKeep = 20"
definition defaultMaxBodyBytes :: int where "defaultMaxBodyBytes = 33554432"
definition defaultClockSkew :: duration where "defaultClockSkew = 5 * minute"
definition defaultMaxErrors :: int where "defaultMaxErrors = 1000"
definition sizeWindow :: nat where "sizeWindow = 512"
definition errBodyLimit :: nat where "errBodyLimit = 4096"
definition DefaultOptionalSections :: "string list" where "DefaultOptionalSections = []"

text \<open>\<open>New\<close>. Registering one pattern twice makes \<open>http.ServeMux\<close> panic.\<close>

datatype new_outcome = NewFails string | NewPanics | NewOK mock_config server

definition with_config_defaults :: "mock_config \<Rightarrow> mock_config" where
  "with_config_defaults cfg =
     cfg\<lparr>mc_path := (if mc_path cfg = [] then DefaultPath else mc_path cfg),
         mc_keep := (if mc_keep cfg \<le> 0 then defaultKeep else mc_keep cfg),
         mc_max_body := (if mc_max_body cfg \<le> 0 then defaultMaxBodyBytes else mc_max_body cfg),
         mc_clock_skew := (if mc_clock_skew cfg \<le> 0 then defaultClockSkew else mc_clock_skew cfg),
         mc_max_errors := (if mc_max_errors cfg \<le> 0 then defaultMaxErrors else mc_max_errors cfg),
         mc_sections := (if mc_sections cfg = [] then DefaultSections else mc_sections cfg)\<rparr>"

definition fresh_server :: "faults \<Rightarrow> gotime \<Rightarrow> server" where
  "fresh_server f now =
     \<lparr>sv_faults = withDefaults f, sv_terminal_armed = ft_terminal_once f > 0, sv_stats = zero_stats,
      sv_failures = [], sv_bodies = [], sv_instances = [], sv_warned = {}, sv_fault_hits = [],
      sv_sizes = [], sv_sent4xx = 0, sv_done = False, sv_start = now\<rparr>"

definition newServer :: "mock_config \<Rightarrow> faults \<Rightarrow> gotime \<Rightarrow> new_outcome" where
  "newServer cfg0 f now =
     (let cfg = with_config_defaults cfg0
      in if hd (mc_path cfg) \<noteq> CHR ''/'' then NewFails ''must start with /''
         else if mc_path cfg \<in> set [''/healthz'', ''/stats'', ''/batches'', ''/control'', ''/control/reset'']
         then NewFails ''collides with a control route''
         else if mc_strict cfg \<and> mc_warn_only cfg
         then NewFails ''strict and warn-only are mutually exclusive''
         else if mc_path cfg = ''/'' then NewPanics
         else NewOK cfg (fresh_server f now))"

definition SetFaults :: "faults \<Rightarrow> server \<Rightarrow> server" where
  "SetFaults f s = s\<lparr>sv_faults := withDefaults f, sv_terminal_armed := ft_terminal_once f > 0\<rparr>"

text \<open>\<open>Reset\<close>: everything but the channel \<open>done\<close>.\<close>

definition ResetServer :: "gotime \<Rightarrow> server \<Rightarrow> server" where
  "ResetServer now s = (fresh_server no_faults now)\<lparr>sv_done := sv_done s\<rparr>"

definition upd_stats :: "(mock_stats \<Rightarrow> mock_stats) \<Rightarrow> server \<Rightarrow> server" where
  "upd_stats f s = s\<lparr>sv_stats := f (sv_stats s)\<rparr>"

text \<open>\<open>decide\<close>: the fault for request \<open>n\<close>, which consumes the armed terminal response.\<close>

definition delay_part :: "faults \<Rightarrow> int \<Rightarrow> injected" where
  "delay_part f n =
     (if ft_delay_ms f > 0 \<and> (ft_delay_first f = 0 \<or> n \<le> ft_delay_first f)
      then no_injection\<lparr>in_delay := wrap64 (ft_delay_ms f * millisecond),
                        in_reason := ''delay_ms='' @ show_int (ft_delay_ms f)\<rparr>
      else no_injection)"

definition status_fault :: "int \<Rightarrow> string \<Rightarrow> int \<Rightarrow> injected \<Rightarrow> injected" where
  "status_fault status knob value out =
     out\<lparr>in_kind := FaultStatus, in_status := status, in_reason := knob @ ''='' @ show_int value\<rparr>"

definition drop_fault :: "string \<Rightarrow> int \<Rightarrow> injected \<Rightarrow> injected" where
  "drop_fault knob value out =
     out\<lparr>in_kind := FaultDrop, in_reason := knob @ ''='' @ show_int value\<rparr>"

definition pick_fault :: "faults \<Rightarrow> bool \<Rightarrow> int \<Rightarrow> injected \<Rightarrow> injected" where
  "pick_fault f ready n out =
     (if ft_terminal_once f > 0 \<and> ready
      then status_fault (ft_terminal_once f) ''terminal_once'' (ft_terminal_once f) out
      else if ft_drop_first f > 0 \<and> n \<le> ft_drop_first f
      then drop_fault ''drop_first'' (ft_drop_first f) out
      else if ft_drop_every f > 0 \<and> n mod ft_drop_every f = 0
      then drop_fault ''drop_every'' (ft_drop_every f) out
      else if ft_fail_first f > 0 \<and> n \<le> ft_fail_first f
      then status_fault (ft_fail_status f) ''fail_first'' (ft_fail_first f) out
      else if ft_every_nth f > 0 \<and> n mod ft_every_nth f = 0
      then status_fault (ft_every_nth_status f) ''every_nth'' (ft_every_nth f) out
      else out)"

definition with_retry_after :: "faults \<Rightarrow> injected \<Rightarrow> injected" where
  "with_retry_after f out =
     (if in_kind out = FaultStatus \<and> (in_status out = 429 \<or> in_status out = 503)
      then out\<lparr>in_retry_after := ft_retry_after_sec f\<rparr> else out)"

definition hit :: "string \<Rightarrow> (string \<times> nat) list \<Rightarrow> (string \<times> nat) list" where
  "hit reason hits =
     AList.update reason (Suc (case map_of hits reason of None \<Rightarrow> 0 | Some n \<Rightarrow> n)) hits"

definition decide :: "nat \<Rightarrow> server \<Rightarrow> injected \<times> server" where
  "decide n s =
     (let f = sv_faults s;
          out = with_retry_after f
            (pick_fault f (sv_terminal_armed s) (int n) (delay_part f (int n)));
          s1 = (if ft_terminal_once f > 0 then s\<lparr>sv_terminal_armed := False\<rparr> else s)
      in (out,
          if fault_active out
          then upd_stats (\<lambda>st. st\<lparr>ms_faults_injected := Suc (ms_faults_injected st)\<rparr>)
            (s1\<lparr>sv_fault_hits := hit (in_reason out) (sv_fault_hits s1)\<rparr>)
          else s1))"

subsection \<open>A request\<close>

record ingest_request =
  iq_method :: string
  iq_path :: string
  iq_api_key :: string
  iq_content_type :: string
  iq_key :: string
  iq_encoding :: string
  iq_content_length :: int
  iq_body :: string
  iq_body_err :: "string option"

record gz_stream =
  gz_bytes :: string
  gz_err :: "string option"
  gz_close :: "string option"

record mock_library =
  ml_media :: "string \<Rightarrow> string option"
  ml_gunzip :: "string \<Rightarrow> string + gz_stream"
  ml_sha :: "string \<Rightarrow> string"
  ml_decode :: "string \<Rightarrow> string + wbatch \<times> bool"
  ml_marshal :: "64 word \<Rightarrow> failure list \<Rightarrow> nat \<Rightarrow> string option"
  ml_range :: "by_name \<Rightarrow> by_name"

record result =
  re_n :: nat
  re_failures :: "failure list"
  re_raw :: string
  re_batch :: "wbatch option"
  re_key :: string
  re_instance :: string
  re_seq :: "64 word"
  re_hash :: string
  re_gzipped :: bool
  re_wire_len :: nat
  re_raw_len :: nat
  re_new_instance :: bool
  re_retry :: bool
  re_after_fault :: bool
  re_export_err :: string

definition fresh_result :: "nat \<Rightarrow> result" where
  "fresh_result n =
     \<lparr>re_n = n, re_failures = [], re_raw = [], re_batch = None, re_key = [], re_instance = [],
      re_seq = 0, re_hash = [], re_gzipped = False, re_wire_len = 0, re_raw_len = 0,
      re_new_instance = False, re_retry = False, re_after_fault = False, re_export_err = []\<rparr>"

definition checkTransport ::
    "mock_config \<Rightarrow> mock_library \<Rightarrow> ingest_request \<Rightarrow> result \<Rightarrow> checker \<Rightarrow> bool \<times> result \<times> checker" where
  "checkTransport cfg lib rq res c =
     (if iq_method rq \<noteq> ''POST'' then
        (False, res, failStatus cfg 405 ''transport.method'' [] [AStr (iq_method rq)] c)
      else if iq_path rq \<noteq> mc_path cfg then
        (False, res,
         failStatus cfg 404 ''transport.path'' [] [AStr (iq_path rq), AStr (mc_path cfg)] c)
      else if mc_api_key cfg \<noteq> [] \<and> iq_api_key rq \<noteq> mc_api_key cfg then
        (False, res, failStatus cfg 401 ''transport.api_key'' [] [] c)
      else
        (True, res\<lparr>re_key := iq_key rq\<rparr>,
         steps
           [on (ml_media lib (iq_content_type rq) \<noteq> Some ''application/json'')
              (failStatus cfg 415 ''transport.content_type'' [] [AStr (iq_content_type rq)]),
            on (iq_key rq = []) (failCheck cfg ''transport.idempotency_key'' [] []),
            on (iq_content_length rq < 0) (warnCheck cfg ''transport.content_length'' [] [])] c))"

text \<open>\<open>io.ReadAll(io.LimitReader(r, limit+1))\<close>: an error behind the limit is never read.\<close>

definition read_limited :: "int \<Rightarrow> string \<Rightarrow> string option \<Rightarrow> string + string" where
  "read_limited limit bytes err =
     (if int (length bytes) > limit then Inr (take (nat (limit + 1)) bytes)
      else case err of None \<Rightarrow> Inr bytes | Some e \<Rightarrow> Inl e)"

text \<open>
  The body as the switch on \<open>Content-Encoding\<close> leaves it; \<open>Inl\<close> is an early return. The ratio is a
  comparison of floats, which for sizes below \<open>2 ^ 50\<close> is the comparison of the fractions.
\<close>

definition decompress ::
    "mock_config \<Rightarrow> mock_library \<Rightarrow> string \<Rightarrow> string \<Rightarrow> checker \<Rightarrow> checker + string \<times> checker" where
  "decompress cfg lib enc wire c =
     (if enc = [] then
        if take 2 wire = [CHR 0x1F, CHR 0x8B]
        then Inl (failCheck cfg ''transport.gzip_undeclared'' [] [] c) else Inr (wire, c)
      else if enc = ''gzip'' then
        (case ml_gunzip lib wire of
           Inl e \<Rightarrow> Inl (failCheck cfg ''transport.gzip_decode'' [] [AStr e] c)
         | Inr z \<Rightarrow>
             (case read_limited (mc_max_body cfg) (gz_bytes z) (gz_err z) of
                Inl e \<Rightarrow> Inl (failCheck cfg ''transport.gzip_decode'' [] [AStr e] c)
              | Inr raw \<Rightarrow>
                  (case gz_close z of
                     Some e \<Rightarrow> Inl (failCheck cfg ''transport.gzip_decode'' [] [AStr e] c)
                   | None \<Rightarrow>
                       if int (length raw) > mc_max_body cfg
                       then Inl (failStatus cfg 413 ''transport.body_too_large'' []
                              [AInt (mc_max_body cfg)] c)
                       else Inr (raw, on (raw \<noteq> [] \<and> 5 * length wire > 3 * length raw)
                              (warnCheck cfg ''transport.compression_ratio'' []
                                 [AInt (int (length wire)), AInt (int (length raw))]) c))))
      else Inl (failCheck cfg ''transport.content_encoding'' [] [AStr enc] c))"

definition decode_raw ::
    "mock_config \<Rightarrow> mock_library \<Rightarrow> string \<Rightarrow> result \<Rightarrow> checker \<Rightarrow> bool \<times> result \<times> checker" where
  "decode_raw cfg lib raw res0 c =
     (let res = res0\<lparr>re_raw := raw, re_raw_len := length raw, re_hash := ml_sha lib raw\<rparr>
      in if trimSpace raw = [] then (False, res, failCheck cfg ''body.empty'' [] [] c)
         else if hd (trimSpace raw) \<noteq> CHR 0x7B
         then (False, res, failCheck cfg ''body.not_object'' [] [] c)
         else case ml_decode lib raw of
           Inl e \<Rightarrow> (False, res, failCheck cfg ''schema.decode'' [] [AStr e] c)
         | Inr (b, trailing) \<Rightarrow>
             (True, res\<lparr>re_batch := Some b\<rparr>,
              on trailing (failCheck cfg ''body.trailing_data'' [] []) c))"

definition decodeBody ::
    "mock_config \<Rightarrow> mock_library \<Rightarrow> ingest_request \<Rightarrow> result \<Rightarrow> checker \<Rightarrow> bool \<times> result \<times> checker" where
  "decodeBody cfg lib rq res c =
     (case read_limited (mc_max_body cfg) (iq_body rq) (iq_body_err rq) of
        Inl e \<Rightarrow> (False, res, failCheck cfg ''transport.body_read'' [] [AStr e] c)
      | Inr wire \<Rightarrow>
          (let res1 = res\<lparr>re_wire_len := length wire\<rparr>;
               res2 = res1\<lparr>re_gzipped := (iq_encoding rq = ''gzip'')\<rparr>
           in if int (length wire) > mc_max_body cfg then
                (False, res1,
                 failStatus cfg 413 ''transport.body_too_large'' [] [AInt (mc_max_body cfg)] c)
              else case decompress cfg lib (iq_encoding rq) wire c of
                Inl c1 \<Rightarrow> (False, res2, c1)
              | Inr (raw, c1) \<Rightarrow> decode_raw cfg lib raw res2 c1))"

subsection \<open>Memory\<close>

definition short :: "string \<Rightarrow> string" where
  "short h = (if length h > 12 then take 12 h else h)"

definition clampToInt :: "64 word \<Rightarrow> int" where
  "clampToInt v = (if uint v > math_MaxInt64 then math_MaxInt64 else uint v)"

text \<open>The delivery of a key: a redelivery is counted, and judged by what became of the earlier one.\<close>

definition note_delivery ::
    "mock_config \<Rightarrow> result \<Rightarrow> inst_state \<Rightarrow> checker \<Rightarrow> bool \<times> result \<times> inst_state \<times> checker" where
  "note_delivery cfg res inst c =
     (case map_of (is_seen inst) (re_key res) of
        Some d \<Rightarrow>
          (True, res\<lparr>re_retry := True, re_after_fault := dl_truncated d\<rparr>,
           inst\<lparr>is_seen := AList.update (re_key res) (d\<lparr>dl_count := Suc (dl_count d)\<rparr>) (is_seen inst)\<rparr>,
           if dl_hash d \<noteq> re_hash res
           then failCheck cfg ''idempotency.body_mismatch'' []
             [AStr (re_key res), AStr (short (re_hash res)), AStr (short (dl_hash d))] c
           else on (dl_acked d) (failCheck cfg ''idempotency.replay'' [] [AStr (re_key res)]) c)
      | None \<Rightarrow>
          (False, res,
           inst\<lparr>is_seen := AList.update (re_key res)
             \<lparr>dl_hash = re_hash res, dl_seq = re_seq res, dl_acked = False, dl_truncated = False,
              dl_count = 1\<rparr> (is_seen inst)\<rparr>, c))"

text \<open>The sequence number: the missing batches, whether the function returns here, the checker.\<close>

definition check_gap ::
    "mock_config \<Rightarrow> wagent \<Rightarrow> inst_state \<Rightarrow> int \<Rightarrow> checker \<Rightarrow> bool \<times> checker" where
  "check_gap cfg ag inst gap c =
     (if \<not> is_have_last inst then (False, c)
      else if wa_dropped ag < wa_dropped (is_last_agent inst) then
        (True, warnCheck cfg ''agent.counter_regression'' ''$.agent''
           [AInt (uint (wa_dropped (is_last_agent inst))), AInt (uint (wa_dropped ag))] c)
      else
        let dropped = clampToInt (wa_dropped ag - wa_dropped (is_last_agent inst))
        in (False, on (dropped \<noteq> gap)
              (warnCheck cfg ''idempotency.drop_accounting'' ''$.agent'' [AInt gap, AInt dropped]) c))"

definition check_sequence ::
    "mock_config \<Rightarrow> wagent \<Rightarrow> result \<Rightarrow> inst_state \<Rightarrow> checker \<Rightarrow> int \<times> bool \<times> checker" where
  "check_sequence cfg ag res inst c =
     (if re_retry res then (0, False, c)
      else if re_seq res \<le> is_last_acked inst then
        (0, False, failCheck cfg ''idempotency.seq_regression'' ''$.batch_seq''
           [AInt (uint (re_seq res)), AInt (uint (is_last_acked inst))] c)
      else if is_last_seen inst > 0 \<and> re_seq res > is_last_seen inst + 1 then
        let gap = clampToInt (re_seq res - is_last_seen inst - 1);
            c1 = warnCheck cfg ''idempotency.seq_gap'' ''$.batch_seq''
              [AInt (uint (is_last_seen inst)), AInt (uint (re_seq res)), AInt gap] c;
            (stop, c2) = check_gap cfg ag inst gap c1
        in (gap, stop, c2)
      else (0, False, c))"

text \<open>The agent's own counters, and what the instance remembers of this batch.\<close>

definition check_counters ::
    "mock_config \<Rightarrow> nat \<Rightarrow> wagent \<Rightarrow> inst_state \<Rightarrow> checker \<Rightarrow> string \<times> checker" where
  "check_counters cfg sent4xx ag inst c =
     (if is_have_last inst then
        let rejected = wa_rejected ag - wa_rejected (is_last_agent inst)
        in (if wa_last_export_error ag \<noteq> wa_last_export_error (is_last_agent inst)
            then wa_last_export_error ag else [],
            on (rejected > 0 \<and> sent4xx = is_sent4xx inst)
              (warnCheck cfg ''agent.rejected_unexplained'' ''$.agent'' [AInt (uint rejected)]) c)
      else (wa_last_export_error ag, c))"

definition remember_batch :: "nat \<Rightarrow> wagent \<Rightarrow> result \<Rightarrow> inst_state \<Rightarrow> inst_state" where
  "remember_batch sent4xx ag res inst =
     inst\<lparr>is_last_seen := (if re_seq res > is_last_seen inst then re_seq res else is_last_seen inst),
          is_last_agent := ag, is_have_last := True, is_sent4xx := sent4xx\<rparr>"

definition checkState ::
    "mock_config \<Rightarrow> wagent \<Rightarrow> result \<Rightarrow> checker \<Rightarrow> server \<Rightarrow> result \<times> checker \<times> server" where
  "checkState cfg ag res c s =
     (if re_instance res = [] \<or> re_key res = [] then (res, c, s)
      else
        let known = map_of (sv_instances s) (re_instance res);
            inst0 = (case known of None \<Rightarrow> zero_inst | Some i \<Rightarrow> i);
            res0 = res\<lparr>re_new_instance := (known = None)\<rparr>;
            (dup, res1, inst1, c1) = note_delivery cfg res0 inst0 c;
            (gap, stop, c2) = check_sequence cfg ag res1 inst1 c1;
            s1 = upd_stats (\<lambda>st. st\<lparr>ms_duplicates := ms_duplicates st + (if dup then 1 else 0),
                                   ms_seq_gaps := add64 (ms_seq_gaps st) gap\<rparr>) s;
            commit = (\<lambda>inst. s1\<lparr>sv_instances := AList.update (re_instance res) inst (sv_instances s1)\<rparr>)
        in if stop then (res1, c2, commit inst1)
           else
             let (err, c3) = check_counters cfg (sv_sent4xx s) ag inst1 c2
             in (res1\<lparr>re_export_err := err\<rparr>, c3, commit (remember_batch (sv_sent4xx s) ag res1 inst1)))"

definition upd_delivery ::
    "result \<Rightarrow> (delivery \<Rightarrow> delivery) \<Rightarrow> (inst_state \<Rightarrow> inst_state) \<Rightarrow> server \<Rightarrow> server" where
  "upd_delivery res fd fi s =
     (if re_instance res = [] \<or> re_key res = [] then s
      else case map_of (sv_instances s) (re_instance res) of
        None \<Rightarrow> s
      | Some inst \<Rightarrow>
          let inst1 = (case map_of (is_seen inst) (re_key res) of
                None \<Rightarrow> inst
              | Some d \<Rightarrow> inst\<lparr>is_seen := AList.update (re_key res) (fd d) (is_seen inst)\<rparr>)
          in s\<lparr>sv_instances := AList.update (re_instance res) (fi inst1) (sv_instances s)\<rparr>)"

definition markAcked :: "result \<Rightarrow> server \<Rightarrow> server" where
  "markAcked res = upd_delivery res (\<lambda>d. d\<lparr>dl_acked := True\<rparr>)
     (\<lambda>i. if re_seq res > is_last_acked i then i\<lparr>is_last_acked := re_seq res\<rparr> else i)"

definition markTruncated :: "result \<Rightarrow> server \<Rightarrow> server" where
  "markTruncated res = upd_delivery res (\<lambda>d. d\<lparr>dl_truncated := True\<rparr>) (\<lambda>i. i)"

subsection \<open>The request lifecycle\<close>

text \<open>
  \<open>validate\<close>: the ordinal of the request, the transport, the body, the suite, the memory. The
  failures of the checker become the result's at the end, whichever way the function returns.
\<close>

definition validate ::
    "mock_config \<Rightarrow> mock_library \<Rightarrow> gotime \<Rightarrow> ingest_request \<Rightarrow> server \<Rightarrow> result \<times> server" where
  "validate cfg lib now rq s0 =
     (let n = Suc (ms_requests (sv_stats s0));
          s = upd_stats (\<lambda>st. st\<lparr>ms_requests := n\<rparr>) s0;
          c0 = fresh_checker now 0 (sv_warned s);
          done = (\<lambda>res c s. (res\<lparr>re_failures := ck_out c\<rparr>, s\<lparr>sv_warned := ck_warned c\<rparr>));
          (ok, res, c) = checkTransport cfg lib rq (fresh_result n) c0
      in if \<not> ok then done res c s
         else
           let (ok1, res1, c1) = decodeBody cfg lib rq res c
           in case (ok1, re_batch res1) of
                (True, Some b) \<Rightarrow>
                  let res2 = res1\<lparr>re_seq := wb_seq b, re_instance := wb_instance_id b\<rparr>;
                      c2 = checkBatch cfg (ml_range lib) (re_key res2) b (c1\<lparr>ck_seq := wb_seq b\<rparr>);
                      (res3, c3, s3) = checkState cfg (wb_agent b) res2 c2 s
                  in done res3 c3 s3
              | _ \<Rightarrow> done res1 c1 s)"

text \<open>\<open>record\<close>: the books of the run; the batch is refused when a failure is fatal.\<close>

definition isFatal :: "failure \<Rightarrow> bool" where
  "isFatal f \<longleftrightarrow> fl_severity f = SeverityFatal"

definition keep_last :: "nat \<Rightarrow> 'a list \<Rightarrow> 'a list" where
  "keep_last n xs = (if length xs > n then tl xs else xs)"

definition recordResult :: "mock_config \<Rightarrow> result \<Rightarrow> server \<Rightarrow> bool \<times> server" where
  "recordResult cfg res s =
     (let fatal = list_ex isFatal (re_failures res);
          warns = length (filter (\<lambda>f. \<not> isFatal f) (re_failures res));
          s1 = upd_stats (\<lambda>st. st\<lparr>ms_warn := ms_warn st + warns,
                 ms_bytes_wire := ms_bytes_wire st + re_wire_len res,
                 ms_bytes_decoded := ms_bytes_decoded st + re_raw_len res,
                 ms_fatal := ms_fatal st + (if fatal then 1 else 0),
                 ms_ok := ms_ok st + (if fatal then 0 else 1)\<rparr>) s
      in (fatal,
          s1\<lparr>sv_failures := sv_failures s @ re_failures res,
             sv_sizes := (if re_raw_len res > 0 then keep_last sizeWindow (sv_sizes s @ [re_raw_len res])
                          else sv_sizes s),
             sv_sent4xx := sv_sent4xx s + (if fatal then 1 else 0),
             sv_bodies := (if re_raw res \<noteq> [] \<and> mc_keep cfg > 0
                           then keep_last (nat (mc_keep cfg)) (sv_bodies s @ [re_raw res])
                           else sv_bodies s)\<rparr>))"

definition noteAccepted :: "server \<Rightarrow> nat \<times> server" where
  "noteAccepted s =
     (let n = Suc (ms_accepted (sv_stats s)) in (n, upd_stats (\<lambda>st. st\<lparr>ms_accepted := n\<rparr>) s))"

definition noteTerminal :: "int \<Rightarrow> server \<Rightarrow> server" where
  "noteTerminal status s =
     (if status < 400 \<or> status \<ge> 500 then s else s\<lparr>sv_sent4xx := Suc (sv_sent4xx s)\<rparr>)"

definition finishRun :: "server \<Rightarrow> server" where
  "finishRun s = s\<lparr>sv_done := True\<rparr>"

text \<open>\<open>conformanceBody\<close>: the longest prefix of the fatal failures that fits the limit.\<close>

fun fit_failures :: "mock_library \<Rightarrow> 64 word \<Rightarrow> failure list \<Rightarrow> nat \<Rightarrow> string" where
  "fit_failures lib seq fatal n =
     (case ml_marshal lib seq (take n fatal) (length fatal - n) of
        None \<Rightarrow> ''{\"error\":\"conformance\"}''
      | Some body \<Rightarrow>
          if length body \<le> errBodyLimit - 64 \<or> n = 0 then body
          else fit_failures lib seq fatal (n - 1))"

declare fit_failures.simps [simp del]

definition conformanceBody :: "mock_library \<Rightarrow> 64 word \<Rightarrow> failure list \<Rightarrow> string" where
  "conformanceBody lib seq failures =
     (let fatal = filter isFatal failures in fit_failures lib seq fatal (length fatal))"

definition failure_status :: "failure list \<Rightarrow> nat" where
  "failure_status fs =
     (case List.find (\<lambda>f. isFatal f \<and> fl_status f \<noteq> 0) fs of None \<Rightarrow> 400 | Some f \<Rightarrow> fl_status f)"

text \<open>What the client gets; \<open>Unheard\<close> is an answer never written.\<close>

datatype response =
    Accepted "64 word"
  | Refused nat string
  | Faulted int int string
  | Dropped
  | DropUnavailable
  | Unheard

text \<open>What happens around a request: the clock, whether an injected delay elapses before the client
  gives up, whether the connection can be hijacked.\<close>

record surroundings =
  su_at :: gotime
  su_elapses :: bool
  su_hijack :: bool

definition accept :: "mock_config \<Rightarrow> result \<Rightarrow> server \<Rightarrow> response \<times> server" where
  "accept cfg res s =
     (let (n, s2) = noteAccepted (markAcked res s)
      in (Accepted (re_seq res),
          if mc_require cfg > 0 \<and> int n \<ge> mc_require cfg then finishRun s2 else s2))"

definition respond ::
    "mock_config \<Rightarrow> surroundings \<Rightarrow> result \<Rightarrow> injected \<Rightarrow> server \<Rightarrow> response \<times> server" where
  "respond cfg su res f s =
     (if in_delay f > 0 \<and> \<not> su_elapses su then (Unheard, markTruncated res s)
      else case in_kind f of
        FaultDrop \<Rightarrow> (if su_hijack su then Dropped else DropUnavailable, markTruncated res s)
      | FaultStatus \<Rightarrow>
          (Faulted (in_status f) (if in_retry_after f > 0 then in_retry_after f else 0) (in_reason f),
           noteTerminal (in_status f) s)
      | FaultNone \<Rightarrow> accept cfg res s)"

definition refuse :: "mock_config \<Rightarrow> mock_library \<Rightarrow> result \<Rightarrow> server \<Rightarrow> response \<times> server" where
  "refuse cfg lib res s =
     (Refused (failure_status (re_failures res)) (conformanceBody lib (re_seq res) (re_failures res)),
      if mc_require cfg > 0 then finishRun s else s)"

definition handleIngest ::
    "mock_config \<Rightarrow> mock_library \<Rightarrow> surroundings \<Rightarrow> ingest_request \<Rightarrow> server \<Rightarrow> response \<times> server" where
  "handleIngest cfg lib su rq s =
     (let (res, s1) = validate cfg lib (su_at su) rq s;
          (fatal, s2) = recordResult cfg res s1
      in if fatal then refuse cfg lib res s2
         else
           let (f, s3) = decide (re_n res) s2
           in respond cfg su res f s3)"

text \<open>The other routes that touch the state.\<close>

definition handleBatches :: "string \<Rightarrow> server \<Rightarrow> string list option" where
  "handleBatches v s =
     (if v = [] then Some (sv_bodies s)
      else case atoi v of
        None \<Rightarrow> None
      | Some n \<Rightarrow>
          if n < 0 then None
          else if n < int (length (sv_bodies s))
          then Some (drop (length (sv_bodies s) - nat n) (sv_bodies s)) else Some (sv_bodies s))"

definition handleControl :: "bool \<Rightarrow> faults option \<Rightarrow> server \<Rightarrow> (faults \<times> mock_stats) option \<times> server" where
  "handleControl post body s =
     (case (post, body) of
        (True, None) \<Rightarrow> (None, s)
      | (True, Some f) \<Rightarrow> (let s1 = SetFaults f s in (Some (sv_faults s1, sv_stats s1), s1))
      | (False, _) \<Rightarrow> (Some (sv_faults s, sv_stats s), s))"

definition percentile :: "nat list \<Rightarrow> nat \<Rightarrow> nat" where
  "percentile sorted_sizes p =
     (if sorted_sizes = [] then 0 else sorted_sizes ! (p * (length sorted_sizes - 1) div 100))"

end
