(* ===== verification/Mock_Ingest_Props.thy ===== *)
theory Mock_Ingest_Props
  imports Mock_Server
begin

text \<open>
  What the mock ingest guarantees over many requests. \<open>knows\<close> and \<open>acked\<close> read the memory of
  deliveries; \<open>validate_cases\<close> splits a request into one that was turned away and one whose batch
  went through the whole suite. The books are kept under every interleaving of requests in flight
  (\<open>mock_run\<close>), of which \<open>handleIngest\<close> is the serial one.
\<close>

subsection \<open>Memory\<close>

definition delivery_of :: "server \<Rightarrow> string \<Rightarrow> string \<Rightarrow> delivery option" where
  "delivery_of s inst key =
     (case map_of (sv_instances s) inst of None \<Rightarrow> None | Some i \<Rightarrow> map_of (is_seen i) key)"

definition acked :: "server \<Rightarrow> string \<Rightarrow> string \<Rightarrow> bool" where
  "acked s inst key \<longleftrightarrow> (case delivery_of s inst key of None \<Rightarrow> False | Some d \<Rightarrow> dl_acked d)"

definition last_acked :: "server \<Rightarrow> string \<Rightarrow> 64 word" where
  "last_acked s inst = (case map_of (sv_instances s) inst of None \<Rightarrow> 0 | Some i \<Rightarrow> is_last_acked i)"

lemma memory_cong:
  assumes "sv_instances s' = sv_instances s"
  shows "delivery_of s' = delivery_of s" "acked s' = acked s" "last_acked s' = last_acked s"
  using assms by (auto simp: fun_eq_iff delivery_of_def acked_def last_acked_def)

lemma upd_stats_fields [simp]:
  "sv_instances (upd_stats f s) = sv_instances s" "sv_faults (upd_stats f s) = sv_faults s"
  "sv_warned (upd_stats f s) = sv_warned s" "sv_stats (upd_stats f s) = f (sv_stats s)"
  "sv_terminal_armed (upd_stats f s) = sv_terminal_armed s" "sv_sizes (upd_stats f s) = sv_sizes s"
  "sv_bodies (upd_stats f s) = sv_bodies s" "sv_fault_hits (upd_stats f s) = sv_fault_hits s"
  "sv_sent4xx (upd_stats f s) = sv_sent4xx s" "sv_done (upd_stats f s) = sv_done s"
  "sv_failures (upd_stats f s) = sv_failures s"
  by (simp_all add: upd_stats_def)

lemma accepting_iff: "accepting c \<longleftrightarrow> \<not> list_ex isFatal (ck_out c)"
  by (auto simp: accepting_def isFatal_def list_all_iff list_ex_iff)
    (metis severity.exhaust)

lemma extends_accepting: "extends cfg c c' \<Longrightarrow> accepting c' \<Longrightarrow> accepting c"
  by (auto simp: extends_def accepting_def)

text \<open>What \<open>checkState\<close> does to the memory and to the verdict.\<close>

lemma note_delivery_props:
  assumes "note_delivery cfg res inst c = (dup, res', inst', c')" "normal cfg"
  shows "dup \<longleftrightarrow> map_of (is_seen inst) (re_key res) \<noteq> None"
    "re_retry res' \<longleftrightarrow> re_retry res \<or> dup"
    "re_key res' = re_key res" "re_instance res' = re_instance res" "re_seq res' = re_seq res"
    "re_n res' = re_n res" "re_batch res' = re_batch res" "re_hash res' = re_hash res"
    "re_raw res' = re_raw res"
    "is_last_acked inst' = is_last_acked inst" "is_last_seen inst' = is_last_seen inst"
    "map_of (is_seen inst') (re_key res) = Some (case map_of (is_seen inst) (re_key res) of
        None \<Rightarrow> \<lparr>dl_hash = re_hash res, dl_seq = re_seq res, dl_acked = False, dl_truncated = False,
              dl_count = 1\<rparr>
      | Some d \<Rightarrow> d\<lparr>dl_count := Suc (dl_count d)\<rparr>)"
    "k \<noteq> re_key res \<Longrightarrow> map_of (is_seen inst') k = map_of (is_seen inst) k"
    "accepting c' \<longleftrightarrow> accepting c \<and> (case map_of (is_seen inst) (re_key res) of
        None \<Rightarrow> True | Some d \<Rightarrow> dl_hash d = re_hash res \<and> \<not> dl_acked d)"
  using assms
  by (auto simp: note_delivery_def update_conv' accept_simps split: option.splits if_splits)

lemma check_sequence_props:
  assumes "check_sequence cfg ag res inst c = (gap, halt, c')" "normal cfg"
  shows "accepting c' \<longleftrightarrow> accepting c \<and> (re_retry res \<or> is_last_acked inst < re_seq res)"
  using assms
  by (auto simp: check_sequence_def check_gap_def Let_def accept_simps not_le not_less
      split: if_splits)

lemma check_counters_accepting:
  "normal cfg \<Longrightarrow> accepting (snd (check_counters cfg n ag inst c)) \<longleftrightarrow> accepting c"
  by (auto simp: check_counters_def Let_def accept_simps)

lemma remember_batch_fields [simp]:
  "is_seen (remember_batch n ag res inst) = is_seen inst"
  "is_last_acked (remember_batch n ag res inst) = is_last_acked inst"
  by (simp_all add: remember_batch_def)

lemma delivery_of_update:
  "delivery_of (s\<lparr>sv_instances := AList.update i inst (sv_instances s)\<rparr>) j k =
     (if j = i then map_of (is_seen inst) k else delivery_of s j k)"
  by (auto simp: delivery_of_def update_conv')

definition noted :: "string \<Rightarrow> 64 word \<Rightarrow> delivery option \<Rightarrow> delivery" where
  "noted hash seq d0 =
     (case d0 of
        None \<Rightarrow> \<lparr>dl_hash = hash, dl_seq = seq, dl_acked = False, dl_truncated = False, dl_count = 1\<rparr>
      | Some d \<Rightarrow> d\<lparr>dl_count := Suc (dl_count d)\<rparr>)"

lemma checkState_props:
  assumes "checkState cfg ag res c s = (res', c', s')" "normal cfg"
    and "re_instance res \<noteq> []" "re_key res \<noteq> []"
    and "\<not> re_retry res"
  shows "re_key res' = re_key res" "re_instance res' = re_instance res" "re_seq res' = re_seq res"
    "re_n res' = re_n res" "re_raw res' = re_raw res"
    "delivery_of s' i k = (if i = re_instance res \<and> k = re_key res
       then Some (noted (re_hash res) (re_seq res) (delivery_of s i k)) else delivery_of s i k)"
    "last_acked s' = last_acked s"
    "sv_faults s' = sv_faults s" "sv_terminal_armed s' = sv_terminal_armed s"
    "sv_warned s' = sv_warned s"
    "accepting c' \<longleftrightarrow> accepting c \<and>
       (case delivery_of s (re_instance res) (re_key res) of
          None \<Rightarrow> last_acked s (re_instance res) < re_seq res
        | Some d \<Rightarrow> dl_hash d = re_hash res \<and> \<not> dl_acked d)"
proof -
  define inst where "inst = (case map_of (sv_instances s) (re_instance res) of None \<Rightarrow> zero_inst | Some i \<Rightarrow> i)"
  define res0 where "res0 = res\<lparr>re_new_instance := (map_of (sv_instances s) (re_instance res) = None)\<rparr>"
  obtain dup res1 inst1 c1 where nd: "note_delivery cfg res0 inst c = (dup, res1, inst1, c1)"
    by (metis prod_cases4)
  obtain gap halt c2 where cs: "check_sequence cfg ag res1 inst1 c1 = (gap, halt, c2)"
    by (metis prod_cases3)
  obtain err c3 where cc: "check_counters cfg (sv_sent4xx s) ag inst1 c2 = (err, c3)"
    by (metis prod.exhaust)
  note n = note_delivery_props [OF nd assms(2)]
  have res0: "re_key res0 = re_key res" "re_instance res0 = re_instance res" "re_seq res0 = re_seq res"
    "re_n res0 = re_n res" "re_raw res0 = re_raw res" "re_hash res0 = re_hash res"
    "\<not> re_retry res0"
    using assms(5) by (simp_all add: res0_def)
  have seen: "map_of (is_seen inst) k = delivery_of s (re_instance res) k" for k
    by (simp add: inst_def delivery_of_def zero_inst_def split: option.split)
  have la: "is_last_acked inst = last_acked s (re_instance res)"
    by (simp add: inst_def last_acked_def zero_inst_def split: option.split)
  obtain inst2 where s': "sv_instances s' = AList.update (re_instance res) inst2 (sv_instances s)"
    "is_seen inst2 = is_seen inst1" "is_last_acked inst2 = is_last_acked inst1"
    "res' = res1 \<or> res' = res1\<lparr>re_export_err := err\<rparr>" "c' = c2 \<or> c' = c3"
    "sv_faults s' = sv_faults s" "sv_terminal_armed s' = sv_terminal_armed s"
    "sv_warned s' = sv_warned s"
    using assms(1,3,4) nd cs cc
    by (auto simp: checkState_def Let_def split_beta simp flip: inst_def res0_def split: if_splits)
  show "re_key res' = re_key res" "re_instance res' = re_instance res" "re_seq res' = re_seq res"
    "re_n res' = re_n res" "re_raw res' = re_raw res"
    using s'(4) n(3-6,9) res0 by auto
  show "sv_faults s' = sv_faults s" "sv_terminal_armed s' = sv_terminal_armed s"
    "sv_warned s' = sv_warned s"
    by (fact s')+
  show "delivery_of s' i k = (if i = re_instance res \<and> k = re_key res
       then Some (noted (re_hash res) (re_seq res) (delivery_of s i k)) else delivery_of s i k)"
  proof (cases "i = re_instance res")
    case True
    then have "delivery_of s' i k = map_of (is_seen inst1) k"
      by (simp add: delivery_of_def s'(1,2) update_conv')
    then show ?thesis
      using n(12) n(13) [of k] True by (cases "k = re_key res"; cases "delivery_of s (re_instance res) (re_key res)")
        (simp_all add: res0 seen noted_def)
  next
    case False
    then show ?thesis by (simp add: delivery_of_def s'(1) update_conv')
  qed
  show "last_acked s' = last_acked s"
    using n(10) la by (auto simp: fun_eq_iff last_acked_def s' update_conv' split: option.split)
  have "accepting c3 \<longleftrightarrow> accepting c2"
    using check_counters_accepting [OF assms(2), of "sv_sent4xx s" ag inst1 c2] cc by simp
  then have "accepting c' \<longleftrightarrow> accepting c2" using s'(5) by auto
  also have "\<dots> \<longleftrightarrow> accepting c1 \<and> (dup \<or> last_acked s (re_instance res) < re_seq res)"
    using check_sequence_props [OF cs assms(2)] n(2,5,10) res0 by (simp add: la)
  finally show "accepting c' \<longleftrightarrow> accepting c \<and>
       (case delivery_of s (re_instance res) (re_key res) of
          None \<Rightarrow> last_acked s (re_instance res) < re_seq res
        | Some d \<Rightarrow> dl_hash d = re_hash res \<and> \<not> dl_acked d)"
    using n(1,14) by (auto simp: res0 seen split: option.splits)
qed

subsection \<open>One request\<close>

text \<open>The request is well-formed: its body is the decompressed \<open>raw\<close>, which decodes to the one batch \<open>b\<close>.\<close>

definition body_of :: "mock_config \<Rightarrow> mock_library \<Rightarrow> ingest_request \<Rightarrow> string \<Rightarrow> bool" where
  "body_of cfg lib rq raw \<longleftrightarrow>
     int (length (iq_body rq)) \<le> mc_max_body cfg \<and> iq_body_err rq = None \<and>
     (iq_encoding rq = [] \<and> raw = iq_body rq \<and> take 2 raw \<noteq> [CHR 0x1F, CHR 0x8B] \<or>
      iq_encoding rq = ''gzip'' \<and> int (length raw) \<le> mc_max_body cfg \<and>
      ml_gunzip lib (iq_body rq) = Inr \<lparr>gz_bytes = raw, gz_err = None, gz_close = None\<rparr>)"

definition request_fine :: "mock_config \<Rightarrow> mock_library \<Rightarrow> ingest_request \<Rightarrow> string \<Rightarrow> wbatch \<Rightarrow> bool" where
  "request_fine cfg lib rq raw b \<longleftrightarrow>
     iq_method rq = ''POST'' \<and> iq_path rq = mc_path cfg \<and>
     (mc_api_key cfg = [] \<or> iq_api_key rq = mc_api_key cfg) \<and>
     ml_media lib (iq_content_type rq) = Some ''application/json'' \<and> iq_key rq \<noteq> [] \<and>
     body_of cfg lib rq raw \<and> trimSpace raw \<noteq> [] \<and> hd (trimSpace raw) = CHR 0x7B \<and>
     ml_decode lib raw = Inr (b, False)"

lemma clean_on_status [accept_simps]:
  "normal cfg \<Longrightarrow> accepting (on b (failStatus cfg n code path args) c) \<longleftrightarrow> \<not> b \<and> accepting c"
  by (auto simp: on_def accept_simps)

lemma checkTransport_extends: "extends cfg c (snd (snd (checkTransport cfg lib rq res c)))"
proof -
  have "extends cfg c (steps fs c)" if "fs = [on b1 (failStatus cfg n code path args),
      on b2 (failCheck cfg code' path' args'), on b3 (warnCheck cfg code'' path'' args'')]"
    for fs b1 b2 b3 n code path args code' path' args' code'' path'' args''
    unfolding that by (rule emits_steps) (auto intro!: emit_intros)
  then show ?thesis
    by (auto simp: checkTransport_def emitsD [OF emits_single(2)] simp del: steps_simps)
qed

lemma checkTransport_props:
  assumes "checkTransport cfg lib rq res c = (ok, res', c')" "normal cfg"
  shows "ok \<and> accepting c' \<longleftrightarrow> accepting c \<and>
      iq_method rq = ''POST'' \<and> iq_path rq = mc_path cfg \<and>
      (mc_api_key cfg = [] \<or> iq_api_key rq = mc_api_key cfg) \<and>
      ml_media lib (iq_content_type rq) = Some ''application/json'' \<and> iq_key rq \<noteq> []"
    "\<not> ok \<Longrightarrow> \<not> accepting c'"
    "ok \<Longrightarrow> res' = res\<lparr>re_key := iq_key rq\<rparr>"
  using assms by (auto simp: checkTransport_def accept_simps split: if_splits)

text \<open>The decompressed body and the checker, once the body was read.\<close>

lemma read_limited_Inr:
  "read_limited m bytes err = Inr xs \<and> int (length xs) \<le> m \<longleftrightarrow>
     xs = bytes \<and> int (length bytes) \<le> m \<and> err = None"
  by (cases err) (auto simp: read_limited_def split: if_splits)

lemma decompress_props:
  assumes "decompress cfg lib enc wire c = out"
  shows "normal cfg \<Longrightarrow> (case out of Inl c' \<Rightarrow> \<not> accepting c' | Inr (raw, c') \<Rightarrow> accepting c' \<longleftrightarrow> accepting c)"
    "out = Inr (raw, c') \<Longrightarrow>
       enc = [] \<and> raw = wire \<and> take 2 raw \<noteq> [CHR 0x1F, CHR 0x8B] \<or>
       enc = ''gzip'' \<and> int (length raw) \<le> mc_max_body cfg \<and>
       ml_gunzip lib wire = Inr \<lparr>gz_bytes = raw, gz_err = None, gz_close = None\<rparr>"
    "(enc = [] \<and> raw = wire \<and> take 2 raw \<noteq> [CHR 0x1F, CHR 0x8B] \<or>
       enc = ''gzip'' \<and> int (length raw) \<le> mc_max_body cfg \<and>
       ml_gunzip lib wire = Inr \<lparr>gz_bytes = raw, gz_err = None, gz_close = None\<rparr>) \<Longrightarrow>
     \<exists>c'. out = Inr (raw, c')"
    "extends cfg c (case out of Inl c' \<Rightarrow> c' | Inr (raw, c') \<Rightarrow> c')"
proof -
  note def = assms [symmetric, unfolded decompress_def]
  show "(case out of Inl c' \<Rightarrow> \<not> accepting c' | Inr (raw, c') \<Rightarrow> accepting c' \<longleftrightarrow> accepting c)"
    if "normal cfg"
    unfolding def using that by (auto simp: accept_simps split: sum.split option.split)
  show "enc = [] \<and> raw = wire \<and> take 2 raw \<noteq> [CHR 0x1F, CHR 0x8B] \<or>
       enc = ''gzip'' \<and> int (length raw) \<le> mc_max_body cfg \<and>
       ml_gunzip lib wire = Inr \<lparr>gz_bytes = raw, gz_err = None, gz_close = None\<rparr>"
    if "out = Inr (raw, c')"
  proof -
    have "\<exists>z. enc = ''gzip'' \<and> ml_gunzip lib wire = Inr z \<and> gz_close z = None \<and>
        read_limited (mc_max_body cfg) (gz_bytes z) (gz_err z) = Inr raw \<and>
        int (length raw) \<le> mc_max_body cfg" if "enc \<noteq> []"
      using that \<open>out = Inr (raw, c')\<close> unfolding def
      by (auto split: if_splits sum.splits option.splits)
    moreover have "raw = wire \<and> take 2 raw \<noteq> [CHR 0x1F, CHR 0x8B]" if "enc = []"
      using that \<open>out = Inr (raw, c')\<close> unfolding def by (auto split: if_splits)
    moreover have "ml_gunzip lib wire = Inr \<lparr>gz_bytes = raw, gz_err = None, gz_close = None\<rparr>"
      if "ml_gunzip lib wire = Inr z" "gz_close z = None" "int (length raw) \<le> mc_max_body cfg"
        "read_limited (mc_max_body cfg) (gz_bytes z) (gz_err z) = Inr raw" for z
      using that read_limited_Inr [of "mc_max_body cfg" "gz_bytes z" "gz_err z" raw]
      by (cases z) simp
    ultimately show ?thesis by blast
  qed
  show "\<exists>c'. out = Inr (raw, c')" if "enc = [] \<and> raw = wire \<and> take 2 raw \<noteq> [CHR 0x1F, CHR 0x8B] \<or>
       enc = ''gzip'' \<and> int (length raw) \<le> mc_max_body cfg \<and>
       ml_gunzip lib wire = Inr \<lparr>gz_bytes = raw, gz_err = None, gz_close = None\<rparr>"
    using that unfolding def by (auto simp: read_limited_def)
  show "extends cfg c (case out of Inl c' \<Rightarrow> c' | Inr (raw, c') \<Rightarrow> c')"
    unfolding def
    by (auto simp: emitsD [OF emits_single(1)] emitsD [OF emits_single(2)]
        emitsD [OF emits_on [OF emits_single(3)]] split: sum.split option.split)
qed

lemma decode_raw_extends: "extends cfg c (snd (snd (decode_raw cfg lib raw res c)))"
  by (auto simp: decode_raw_def Let_def emitsD [OF emits_single(1)]
      emitsD [OF emits_on [OF emits_single(1)]] split: sum.split)

lemma decodeBody_extends: "extends cfg c (snd (snd (decodeBody cfg lib rq res c)))"
proof (cases "read_limited (mc_max_body cfg) (iq_body rq) (iq_body_err rq)")
  case (Inl e)
  then show ?thesis by (simp add: decodeBody_def emitsD [OF emits_single(1)])
next
  case (Inr wire)
  note ex = decompress_props(4) [of cfg lib "iq_encoding rq" wire c, OF refl]
  show ?thesis
  proof (cases "int (length wire) > mc_max_body cfg")
    case True
    with Inr show ?thesis by (simp add: decodeBody_def Let_def emitsD [OF emits_single(2)])
  next
    case False
    with Inr ex show ?thesis
      by (auto simp: decodeBody_def Let_def intro: extends_trans [OF _ decode_raw_extends]
          split: sum.split)
  qed
qed

text \<open>The body decodes, and no check of it is fatal, exactly for a well-formed request.\<close>

lemma decode_raw_props:
  assumes "decode_raw cfg lib raw res c = (ok, res', c')" "normal cfg"
  shows "ok \<and> accepting c' \<longleftrightarrow> accepting c \<and> trimSpace raw \<noteq> [] \<and> hd (trimSpace raw) = CHR 0x7B \<and>
      (\<exists>b. ml_decode lib raw = Inr (b, False))"
    "\<not> ok \<Longrightarrow> \<not> accepting c'"
    "ok \<Longrightarrow> \<exists>b trailing. ml_decode lib raw = Inr (b, trailing) \<and>
       res' = res\<lparr>re_raw := raw, re_raw_len := length raw, re_hash := ml_sha lib raw, re_batch := Some b\<rparr>"
    "re_n res' = re_n res"
  using assms
  by (auto simp: decode_raw_def Let_def accept_simps split: if_splits sum.splits)

lemma body_of_reads:
  "body_of cfg lib rq raw \<longleftrightarrow>
     (\<exists>wire c1. read_limited (mc_max_body cfg) (iq_body rq) (iq_body_err rq) = Inr wire \<and>
        int (length wire) \<le> mc_max_body cfg \<and>
        decompress cfg lib (iq_encoding rq) wire c = Inr (raw, c1))"
  using read_limited_Inr [of "mc_max_body cfg" "iq_body rq" "iq_body_err rq"]
    decompress_props(2,3) [of cfg lib "iq_encoding rq" "iq_body rq" c _ raw, OF refl]
  unfolding body_of_def by metis

lemma body_of_unique: "body_of cfg lib rq raw \<Longrightarrow> body_of cfg lib rq raw' \<Longrightarrow> raw' = raw"
  by (auto simp: body_of_def)

lemma decodeBody_good:
  assumes "body_of cfg lib rq raw" "normal cfg"
  obtains c1 res1 where "accepting c1 \<longleftrightarrow> accepting c"
    "decodeBody cfg lib rq res c = decode_raw cfg lib raw res1 c1"
    "re_n res1 = re_n res" "re_key res1 = re_key res" "re_retry res1 = re_retry res"
proof -
  obtain wire c1 where w: "read_limited (mc_max_body cfg) (iq_body rq) (iq_body_err rq) = Inr wire"
    "int (length wire) \<le> mc_max_body cfg"
    "decompress cfg lib (iq_encoding rq) wire c = Inr (raw, c1)"
    using assms(1) body_of_reads by blast
  have "accepting c1 \<longleftrightarrow> accepting c"
    using decompress_props(1) [OF w(3) assms(2)] by simp
  with w show ?thesis
    by (intro that [of c1 "res\<lparr>re_wire_len := length wire, re_gzipped := (iq_encoding rq = ''gzip'')\<rparr>"])
      (simp_all add: decodeBody_def Let_def not_less)
qed

lemma decodeBody_bad:
  assumes "\<nexists>raw. body_of cfg lib rq raw" "normal cfg"
  obtains res' c' where "decodeBody cfg lib rq res c = (False, res', c')" "\<not> accepting c'"
    "re_n res' = re_n res"
proof (cases "read_limited (mc_max_body cfg) (iq_body rq) (iq_body_err rq)")
  case (Inl e)
  with assms(2) show ?thesis by (intro that) (auto simp: decodeBody_def accept_simps)
next
  case (Inr wire)
  show ?thesis
  proof (cases "int (length wire) > mc_max_body cfg")
    case True
    with Inr assms(2) show ?thesis
      by (intro that [of "res\<lparr>re_wire_len := length wire\<rparr>"])
        (auto simp: decodeBody_def Let_def accept_simps)
  next
    case False
    obtain c1 where "decompress cfg lib (iq_encoding rq) wire c = Inl c1"
      using assms(1) Inr False body_of_reads [of cfg lib rq _ c] not_less
      by (cases "decompress cfg lib (iq_encoding rq) wire c") (auto simp: not_less)
    with Inr False decompress_props(1) [of cfg lib "iq_encoding rq" wire c, OF _ assms(2)] show ?thesis
      by (intro that [of "res\<lparr>re_wire_len := length wire, re_gzipped := (iq_encoding rq = ''gzip'')\<rparr>"])
        (auto simp: decodeBody_def Let_def)
  qed
qed

text \<open>
  The whole contract of a batch, and the verdict of the memory on its delivery: a new key must carry
  a new sequence number, a redelivered key the same body, not acknowledged so far.
\<close>

definition contract :: "mock_config \<Rightarrow> gotime \<Rightarrow> string \<Rightarrow> wbatch \<Rightarrow> bool" where
  "contract cfg now key b \<longleftrightarrow>
     envelope_ok cfg now key b \<and> sections_ok cfg b \<and> data_ok b \<and> truncation_ok b \<and> agent_ok b"

definition deliverable :: "server \<Rightarrow> string \<Rightarrow> string \<Rightarrow> string \<Rightarrow> 64 word \<Rightarrow> bool" where
  "deliverable s inst key hash seq \<longleftrightarrow>
     (case delivery_of s inst key of
        None \<Rightarrow> last_acked s inst < seq
      | Some d \<Rightarrow> dl_hash d = hash \<and> \<not> dl_acked d)"

lemma checkBatch_clean:
  assumes "normal cfg" "\<And>xs. set (order xs) = set xs"
  shows "accepting (checkBatch cfg order key b c) \<longleftrightarrow> contract cfg (ck_now c) key b \<and> accepting c"
  by (auto simp: checkBatch_def checkEnvelope_clean [OF assms(1)] checkSections_clean [OF assms]
      checkData_clean [OF assms(1)] checkTruncation_clean [OF assms(1)] checkAgent_clean [OF assms(1)]
      contract_def)

text \<open>A request that is turned away before the suite leaves the memory alone.\<close>

lemma validate_early:
  assumes "normal cfg" "\<nexists>raw b trailing. body_of cfg lib rq raw \<and> ml_decode lib raw = Inr (b, trailing) \<and>
      fst (checkTransport cfg lib rq (fresh_result n) c) \<and>
      trimSpace raw \<noteq> [] \<and> hd (trimSpace raw) = CHR 0x7B"
    and "validate cfg lib now rq s = (res, s')"
    and "n = Suc (ms_requests (sv_stats s))" "c = fresh_checker now 0 (sv_warned s)"
  shows "list_ex isFatal (re_failures res)" "re_n res = n"
    "\<exists>w. s' = upd_stats (\<lambda>st. st\<lparr>ms_requests := n\<rparr>) s\<lparr>sv_warned := w\<rparr>"
proof -
  obtain ok res1 c1 where tr: "checkTransport cfg lib rq (fresh_result n) c = (ok, res1, c1)"
    by (metis prod_cases3)
  obtain ok2 res2 c2 where db: "decodeBody cfg lib rq res1 c1 = (ok2, res2, c2)"
    by (metis prod_cases3)
  have n1: "re_n res1 = n"
    using tr by (auto simp: checkTransport_def fresh_result_def split: if_splits)
  have bad: "\<not> ok2 \<and> \<not> accepting c2 \<and> re_n res2 = n" if ok
  proof (cases "\<exists>raw. body_of cfg lib rq raw")
    case True
    then obtain raw where raw: "body_of cfg lib rq raw" by blast
    obtain c3 res3 where d: "decodeBody cfg lib rq res1 c1 = decode_raw cfg lib raw res3 c3"
      "re_n res3 = re_n res1"
      using decodeBody_good [OF raw assms(1), of c1 res1] by metis
    have "\<not> (trimSpace raw \<noteq> [] \<and> hd (trimSpace raw) = CHR 0x7B \<and>
        (\<exists>b trailing. ml_decode lib raw = Inr (b, trailing)))"
      using assms(2) raw that tr by auto
    then have "decode_raw cfg lib raw res3 c3 = (ok2, res2, c2) \<Longrightarrow> \<not> ok2"
      by (auto simp: decode_raw_def Let_def split: if_splits sum.splits)
    then show ?thesis
      using decode_raw_props(2,4) [of cfg lib raw res3 c3 ok2 res2 c2, OF _ assms(1)] d db n1 by simp
  next
    case False
    from decodeBody_bad [OF this assms(1), of res1 c1] db n1 show ?thesis by auto
  qed
  have "\<not> accepting c1" if "\<not> ok" using checkTransport_props(2) [OF tr assms(1)] that by blast
  with bad n1 tr db assms(3)
  show "list_ex isFatal (re_failures res)" "re_n res = n"
    "\<exists>w. s' = upd_stats (\<lambda>st. st\<lparr>ms_requests := n\<rparr>) s\<lparr>sv_warned := w\<rparr>"
    by (auto simp: validate_def Let_def accepting_iff simp flip: assms(4,5) split: if_splits)
qed

text \<open>A request whose batch the suite sees.\<close>

lemma extends_now: "extends cfg c c' \<Longrightarrow> ck_now c' = ck_now c"
  by (simp add: extends_def)

lemma accepting_seq [simp]: "accepting (c\<lparr>ck_seq := n\<rparr>) \<longleftrightarrow> accepting c"
  by (simp add: accepting_def)

definition reaches_suite :: "mock_config \<Rightarrow> mock_library \<Rightarrow> ingest_request \<Rightarrow> string \<Rightarrow> wbatch \<Rightarrow> bool \<Rightarrow> bool" where
  "reaches_suite cfg lib rq raw b trailing \<longleftrightarrow>
     iq_method rq = ''POST'' \<and> iq_path rq = mc_path cfg \<and>
     (mc_api_key cfg = [] \<or> iq_api_key rq = mc_api_key cfg) \<and>
     body_of cfg lib rq raw \<and> trimSpace raw \<noteq> [] \<and> hd (trimSpace raw) = CHR 0x7B \<and>
     ml_decode lib raw = Inr (b, trailing)"

lemma request_fine_reaches:
  "request_fine cfg lib rq raw b \<longleftrightarrow> reaches_suite cfg lib rq raw b False \<and>
     ml_media lib (iq_content_type rq) = Some ''application/json'' \<and> iq_key rq \<noteq> []"
  by (auto simp: request_fine_def reaches_suite_def)

lemma checkTransport_fst:
  "fst (checkTransport cfg lib rq res c) \<longleftrightarrow>
     iq_method rq = ''POST'' \<and> iq_path rq = mc_path cfg \<and>
     (mc_api_key cfg = [] \<or> iq_api_key rq = mc_api_key cfg)"
  by (auto simp: checkTransport_def)

lemma validate_suite:
  assumes n: "normal cfg" and order: "\<And>xs. set (ml_range lib xs) = set xs"
    and rs: "reaches_suite cfg lib rq raw b trailing"
    and v: "validate cfg lib now rq s = (res, s')"
  obtains res2 c3 s1 res3 c4 s2 where
    "re_instance res2 = wb_instance_id b" "re_key res2 = iq_key rq" "re_seq res2 = wb_seq b"
    "re_hash res2 = ml_sha lib raw" "re_n res2 = Suc (ms_requests (sv_stats s))" "\<not> re_retry res2"
    "accepting c3 \<longleftrightarrow> request_fine cfg lib rq raw b \<and> \<not> trailing \<and> contract cfg now (iq_key rq) b"
    "s1 = upd_stats (\<lambda>st. st\<lparr>ms_requests := Suc (ms_requests (sv_stats s))\<rparr>) s"
    "checkState cfg (wb_agent b) res2 c3 s1 = (res3, c4, s2)"
    "res = res3\<lparr>re_failures := ck_out c4\<rparr>" "s' = s2\<lparr>sv_warned := ck_warned c4\<rparr>"
proof -
  define m where "m = Suc (ms_requests (sv_stats s))"
  define s1 where "s1 = upd_stats (\<lambda>st. st\<lparr>ms_requests := m\<rparr>) s"
  define c0 where "c0 = fresh_checker now 0 (sv_warned s)"
  have c0: "accepting c0" "ck_now c0 = now" by (simp_all add: c0_def fresh_checker_def accepting_def)
  obtain ok res1 c1 where tr: "checkTransport cfg lib rq (fresh_result m) c0 = (ok, res1, c1)"
    by (metis prod_cases3)
  have ok: ok using checkTransport_fst [of cfg lib rq "fresh_result m" c0] rs tr
    by (simp add: reaches_suite_def)
  note t = checkTransport_props [OF tr n]
  have c1: "accepting c1 \<longleftrightarrow> ml_media lib (iq_content_type rq) = Some ''application/json'' \<and> iq_key rq \<noteq> []"
    using t(1) ok c0 rs by (simp add: reaches_suite_def)
  have res1: "res1 = (fresh_result m)\<lparr>re_key := iq_key rq\<rparr>" by (rule t(3) [OF ok])
  obtain c1' res1' where d: "accepting c1' \<longleftrightarrow> accepting c1"
    "decodeBody cfg lib rq res1 c1 = decode_raw cfg lib raw res1' c1'"
    "re_n res1' = re_n res1" "re_key res1' = re_key res1" "re_retry res1' = re_retry res1"
    using decodeBody_good [of cfg lib rq raw c1 res1] rs n by (auto simp: reaches_suite_def)
  define res2 where "res2 = res1'\<lparr>re_raw := raw, re_raw_len := length raw, re_hash := ml_sha lib raw,
      re_batch := Some b, re_seq := wb_seq b, re_instance := wb_instance_id b\<rparr>"
  define c2 where "c2 = on trailing (failCheck cfg ''body.trailing_data'' [] []) c1'"
  have db: "decodeBody cfg lib rq res1 c1 =
      (True, res1'\<lparr>re_raw := raw, re_raw_len := length raw, re_hash := ml_sha lib raw,
        re_batch := Some b\<rparr>, c2)"
    using rs unfolding d(2) by (simp add: decode_raw_def reaches_suite_def Let_def c2_def)
  have c2: "accepting c2 \<longleftrightarrow> request_fine cfg lib rq raw b \<and> \<not> trailing"
  proof -
    have "accepting c2 \<longleftrightarrow> \<not> trailing \<and> accepting c1" using n by (simp add: c2_def accept_simps d(1))
    then show ?thesis using c1 rs by (auto simp: request_fine_reaches reaches_suite_def)
  qed
  have now: "ck_now c2 = now"
    using extends_now [OF extends_trans [OF checkTransport_extends decodeBody_extends]] tr db c0(2)
    by (metis snd_conv)
  define c3 where "c3 = checkBatch cfg (ml_range lib) (iq_key rq) b (c2\<lparr>ck_seq := wb_seq b\<rparr>)"
  have c3: "accepting c3 \<longleftrightarrow> request_fine cfg lib rq raw b \<and> \<not> trailing \<and> contract cfg now (iq_key rq) b"
    unfolding c3_def checkBatch_clean [OF n order] by (auto simp: c2 now)
  have key: "re_key res2 = iq_key rq" by (simp add: res2_def d(4) res1)
  obtain res3 c4 s2 where cs: "checkState cfg (wb_agent b) res2 c3 s1 = (res3, c4, s2)"
    by (metis prod_cases3)
  have v': "res = res3\<lparr>re_failures := ck_out c4\<rparr>" "s' = s2\<lparr>sv_warned := ck_warned c4\<rparr>"
    using v tr ok db cs key
    by (simp_all add: validate_def Let_def s1_def c0_def m_def res2_def c3_def split: prod.splits)
  show ?thesis
    by (rule that [OF _ key _ _ _ _ c3 s1_def [unfolded m_def] cs v'])
      (simp_all add: res2_def d(3,5) res1 fresh_result_def m_def)
qed

text \<open>The verdict on a request, and what it leaves in the memory.\<close>

definition same_memory :: "server \<Rightarrow> server \<Rightarrow> bool" where
  "same_memory s s' \<longleftrightarrow>
     acked s' = acked s \<and> last_acked s' = last_acked s \<and> sv_faults s' = sv_faults s \<and>
     sv_terminal_armed s' = sv_terminal_armed s \<and>
     (\<forall>i k d. delivery_of s i k = Some d \<longrightarrow>
        (\<exists>d'. delivery_of s' i k = Some d' \<and> dl_hash d' = dl_hash d \<and> dl_truncated d' = dl_truncated d))"

lemma same_memory_cong:
  assumes "sv_instances s' = sv_instances s" "sv_faults s' = sv_faults s"
    "sv_terminal_armed s' = sv_terminal_armed s"
  shows "same_memory s s'"
  using memory_cong [OF assms(1)] assms(2,3) by (simp add: same_memory_def)

lemma contract_names: "contract cfg now key b \<Longrightarrow> wb_instance_id b \<noteq> []"
  by (simp add: contract_def envelope_ok_def)

lemma checkState_off: "re_instance res = [] \<or> re_key res = [] \<Longrightarrow> checkState cfg ag res c s = (res, c, s)"
  by (simp add: checkState_def)

lemma acked_noted:
  assumes "\<And>i k. delivery_of s' i k = (if i = inst \<and> k = key
      then Some (noted hash seq (delivery_of s i k)) else delivery_of s i k)"
  shows "acked s' = acked s"
    "delivery_of s i k = Some d \<Longrightarrow> \<exists>d'. delivery_of s' i k = Some d' \<and> dl_hash d' = dl_hash d \<and>
       dl_truncated d' = dl_truncated d"
  by (auto simp: fun_eq_iff acked_def assms noted_def split: option.split)

lemma validate_props:
  assumes n: "normal cfg" and order: "\<And>xs. set (ml_range lib xs) = set xs"
    and v: "validate cfg lib now rq s = (res, s')"
  shows "\<not> list_ex isFatal (re_failures res) \<longleftrightarrow>
      (\<exists>raw b. request_fine cfg lib rq raw b \<and> contract cfg now (iq_key rq) b \<and>
         deliverable s (wb_instance_id b) (iq_key rq) (ml_sha lib raw) (wb_seq b))"
    "same_memory s s'" "re_n res = Suc (ms_requests (sv_stats s))"
    "request_fine cfg lib rq raw b \<Longrightarrow> contract cfg now (iq_key rq) b \<Longrightarrow>
       re_instance res = wb_instance_id b \<and> re_key res = iq_key rq \<and> re_seq res = wb_seq b \<and>
       delivery_of s' (wb_instance_id b) (iq_key rq) =
         Some (noted (ml_sha lib raw) (wb_seq b) (delivery_of s (wb_instance_id b) (iq_key rq)))"
proof -
  have "(\<not> list_ex isFatal (re_failures res) \<longleftrightarrow>
      (\<exists>raw b. request_fine cfg lib rq raw b \<and> contract cfg now (iq_key rq) b \<and>
         deliverable s (wb_instance_id b) (iq_key rq) (ml_sha lib raw) (wb_seq b))) \<and>
    same_memory s s' \<and> re_n res = Suc (ms_requests (sv_stats s)) \<and>
    (\<forall>raw b. request_fine cfg lib rq raw b \<longrightarrow> contract cfg now (iq_key rq) b \<longrightarrow>
       re_instance res = wb_instance_id b \<and> re_key res = iq_key rq \<and> re_seq res = wb_seq b \<and>
       delivery_of s' (wb_instance_id b) (iq_key rq) =
         Some (noted (ml_sha lib raw) (wb_seq b) (delivery_of s (wb_instance_id b) (iq_key rq))))"
  proof (cases "\<exists>raw b trailing. reaches_suite cfg lib rq raw b trailing")
    case False
    then have no: "\<nexists>raw b. request_fine cfg lib rq raw b" by (auto simp: request_fine_reaches)
    have early: "\<nexists>raw b trailing. body_of cfg lib rq raw \<and> ml_decode lib raw = Inr (b, trailing) \<and>
        fst (checkTransport cfg lib rq (fresh_result (Suc (ms_requests (sv_stats s))))
          (fresh_checker now 0 (sv_warned s))) \<and> trimSpace raw \<noteq> [] \<and> hd (trimSpace raw) = CHR 0x7B"
      using False unfolding checkTransport_fst reaches_suite_def by blast
    note e = validate_early [OF n early v refl refl]
    obtain w where s': "s' = upd_stats (\<lambda>st. st\<lparr>ms_requests := Suc (ms_requests (sv_stats s))\<rparr>) s\<lparr>sv_warned := w\<rparr>"
      using e(3) by blast
    have "same_memory s s'"
      by (rule same_memory_cong) (simp_all add: s')
    with e(1,2) no show ?thesis by blast
  next
    case True
    then obtain raw b trailing where rs: "reaches_suite cfg lib rq raw b trailing" by blast
    obtain res2 c3 s1 res3 c4 s2 where st:
      "re_instance res2 = wb_instance_id b" "re_key res2 = iq_key rq" "re_seq res2 = wb_seq b"
      "re_hash res2 = ml_sha lib raw" "re_n res2 = Suc (ms_requests (sv_stats s))" "\<not> re_retry res2"
      "accepting c3 \<longleftrightarrow> request_fine cfg lib rq raw b \<and> \<not> trailing \<and> contract cfg now (iq_key rq) b"
      "s1 = upd_stats (\<lambda>st. st\<lparr>ms_requests := Suc (ms_requests (sv_stats s))\<rparr>) s"
      "checkState cfg (wb_agent b) res2 c3 s1 = (res3, c4, s2)"
      "res = res3\<lparr>re_failures := ck_out c4\<rparr>" "s' = s2\<lparr>sv_warned := ck_warned c4\<rparr>"
      by (rule validate_suite [OF n order rs v])
    have mem1: "delivery_of s1 = delivery_of s" "acked s1 = acked s" "last_acked s1 = last_acked s"
      using memory_cong [of s1 s] by (simp_all add: st(8))
    have mem2: "delivery_of s' = delivery_of s2" "acked s' = acked s2" "last_acked s' = last_acked s2"
      using memory_cong [of s' s2] by (simp_all add: st(11))
    have only: "raw' = raw \<and> b' = b" if "request_fine cfg lib rq raw' b'" for raw' b'
      using that rs body_of_unique unfolding request_fine_reaches reaches_suite_def by fastforce
    have fatal: "\<not> list_ex isFatal (re_failures res) \<longleftrightarrow> accepting c4"
      by (simp add: st(10) accepting_iff)
    show ?thesis
    proof (cases "wb_instance_id b = [] \<or> iq_key rq = []")
      case True
      then have off: "res3 = res2" "c4 = c3" "s2 = s1"
        using checkState_off [of res2 cfg "wb_agent b" c3 s1] st(1,2,9) by auto
      have no: "\<not> (request_fine cfg lib rq raw b \<and> contract cfg now (iq_key rq) b)"
        using True by (auto simp: contract_names request_fine_def)
      have "same_memory s s'"
        by (rule same_memory_cong) (simp_all add: off st(8,11))
      moreover have "list_ex isFatal (re_failures res)" using fatal no st(7) off(2) by blast
      moreover have "\<nexists>raw b. request_fine cfg lib rq raw b \<and> contract cfg now (iq_key rq) b"
        using no only by blast
      moreover have "re_n res = Suc (ms_requests (sv_stats s))" by (simp add: st(5,10) off(1))
      ultimately show ?thesis by blast
    next
      case False
      then have ne: "re_instance res2 \<noteq> []" "re_key res2 \<noteq> []" using st(1,2) by auto
      note c = checkState_props [OF st(9) n ne st(6)]
      have del: "delivery_of s' i k = (if i = wb_instance_id b \<and> k = iq_key rq
          then Some (noted (ml_sha lib raw) (wb_seq b) (delivery_of s i k)) else delivery_of s i k)" for i k
        by (simp add: mem2 c(6) mem1 st(1-4))
      have "same_memory s s'"
      proof -
        have "last_acked s' = last_acked s" by (simp only: mem2(3) c(7) mem1(3))
        moreover have "sv_faults s' = sv_faults s" "sv_terminal_armed s' = sv_terminal_armed s"
          by (simp_all add: st(8,11) c(8,9))
        ultimately show ?thesis using acked_noted [OF del] by (auto simp: same_memory_def)
      qed
      moreover have "\<not> list_ex isFatal (re_failures res) \<longleftrightarrow>
          (request_fine cfg lib rq raw b \<and> contract cfg now (iq_key rq) b \<and>
           deliverable s (wb_instance_id b) (iq_key rq) (ml_sha lib raw) (wb_seq b))"
        unfolding fatal c(11) st(7) deliverable_def mem1 st(1-4)
        using rs by (auto simp: request_fine_reaches reaches_suite_def)
      moreover have "re_instance res = wb_instance_id b" "re_key res = iq_key rq"
        "re_seq res = wb_seq b" "re_n res = Suc (ms_requests (sv_stats s))"
        by (simp_all add: st(1-3,5,10) c(1-4))
      moreover have "delivery_of s' (wb_instance_id b) (iq_key rq) = Some (noted (ml_sha lib raw)
          (wb_seq b) (delivery_of s (wb_instance_id b) (iq_key rq)))"
        by (simp add: del)
      ultimately show ?thesis using only by blast
    qed
  qed
  then show "\<not> list_ex isFatal (re_failures res) \<longleftrightarrow>
      (\<exists>raw b. request_fine cfg lib rq raw b \<and> contract cfg now (iq_key rq) b \<and>
         deliverable s (wb_instance_id b) (iq_key rq) (ml_sha lib raw) (wb_seq b))"
    "same_memory s s'" "re_n res = Suc (ms_requests (sv_stats s))"
    "request_fine cfg lib rq raw b \<Longrightarrow> contract cfg now (iq_key rq) b \<Longrightarrow>
       re_instance res = wb_instance_id b \<and> re_key res = iq_key rq \<and> re_seq res = wb_seq b \<and>
       delivery_of s' (wb_instance_id b) (iq_key rq) =
         Some (noted (ml_sha lib raw) (wb_seq b) (delivery_of s (wb_instance_id b) (iq_key rq)))"
    by blast+
qed

end
