(* ===== verification/Mock_Delivery.thy ===== *)
theory Mock_Delivery
  imports Mock_Ingest_Props
begin

text \<open>
  Deliveries, end to end: the serial life of the mock ingest (\<open>handleIngest\<close> in \<open>server.go\<close>), which
  acknowledges a key at most once between two resets, and the HTTP exporter's retry loop (\<open>Export\<close>,
  \<open>internal/export/http.go\<close>) run against it.
\<close>

subsection \<open>What a request leaves behind\<close>

lemma recordResult_fields:
  "fst (recordResult cfg res s) = list_ex isFatal (re_failures res)"
  "sv_instances (snd (recordResult cfg res s)) = sv_instances s"
  "sv_faults (snd (recordResult cfg res s)) = sv_faults s"
  "sv_terminal_armed (snd (recordResult cfg res s)) = sv_terminal_armed s"
  "ms_requests (sv_stats (snd (recordResult cfg res s))) = ms_requests (sv_stats s)"
  by (simp_all add: recordResult_def Let_def)

definition chosen :: "server \<Rightarrow> injected" where
  "chosen s =
     with_retry_after (sv_faults s)
       (pick_fault (sv_faults s) (sv_terminal_armed s) (int (Suc (ms_requests (sv_stats s))))
         (delay_part (sv_faults s) (int (Suc (ms_requests (sv_stats s))))))"

lemma decide_fields:
  "sv_instances (snd (decide n s)) = sv_instances s"
  "sv_faults (snd (decide n s)) = sv_faults s"
  "ms_requests (sv_stats (snd (decide n s))) = ms_requests (sv_stats s)"
  "sv_terminal_armed (snd (decide n s)) = (ft_terminal_once (sv_faults s) \<le> 0 \<and> sv_terminal_armed s)"
  by (auto simp: decide_def Let_def)

lemma decide_fst:
  "fst (decide n s) = with_retry_after (sv_faults s)
     (pick_fault (sv_faults s) (sv_terminal_armed s) (int n) (delay_part (sv_faults s) (int n)))"
  by (simp add: decide_def Let_def)

lemma upd_delivery_fields [simp]:
  "sv_faults (upd_delivery res fd fi s) = sv_faults s"
  "sv_stats (upd_delivery res fd fi s) = sv_stats s"
  "sv_terminal_armed (upd_delivery res fd fi s) = sv_terminal_armed s"
  "sv_done (upd_delivery res fd fi s) = sv_done s" "sv_sizes (upd_delivery res fd fi s) = sv_sizes s"
  "sv_bodies (upd_delivery res fd fi s) = sv_bodies s"
  "sv_fault_hits (upd_delivery res fd fi s) = sv_fault_hits s"
  "sv_sent4xx (upd_delivery res fd fi s) = sv_sent4xx s"
  by (auto simp: upd_delivery_def Let_def split: option.split)

lemma delivery_of_upd:
  assumes "\<And>i. is_seen (fi i) = is_seen i" "re_instance res \<noteq> []" "re_key res \<noteq> []"
  shows "delivery_of (upd_delivery res fd fi s) i k =
    (if i = re_instance res \<and> k = re_key res then map_option fd (delivery_of s i k)
     else delivery_of s i k)"
  using assms
  by (auto simp: upd_delivery_def delivery_of_def update_conv' Let_def split: option.split)

lemma delivery_of_upd_off:
  "re_instance res = [] \<or> re_key res = [] \<Longrightarrow> upd_delivery res fd fi s = s"
  by (simp add: upd_delivery_def)

lemma markTruncated_memory:
  "acked (markTruncated res s) = acked s" "last_acked (markTruncated res s) = last_acked s"
  "delivery_of s i k = Some d \<Longrightarrow>
     \<exists>d'. delivery_of (markTruncated res s) i k = Some d' \<and> dl_hash d' = dl_hash d"
  "delivery_of s i k = None \<Longrightarrow> delivery_of (markTruncated res s) i k = None"
proof -
  have del: "delivery_of (markTruncated res s) i k = map_option (\<lambda>d.
      if re_instance res \<noteq> [] \<and> i = re_instance res \<and> k = re_key res \<and> k \<noteq> [] then d\<lparr>dl_truncated := True\<rparr> else d)
      (delivery_of s i k)" for i k
    using delivery_of_upd [of "\<lambda>i. i" res "\<lambda>d. d\<lparr>dl_truncated := True\<rparr>" s i k]
    by (cases "re_instance res = [] \<or> re_key res = []")
      (auto simp: markTruncated_def delivery_of_upd_off option.map_ident)
  show "acked (markTruncated res s) = acked s"
    by (auto simp: fun_eq_iff acked_def del split: option.split)
  show "last_acked (markTruncated res s) = last_acked s"
    by (auto simp: fun_eq_iff last_acked_def markTruncated_def upd_delivery_def Let_def update_conv'
        split: option.split)
  show "delivery_of s i k = Some d \<Longrightarrow>
     \<exists>d'. delivery_of (markTruncated res s) i k = Some d' \<and> dl_hash d' = dl_hash d"
    "delivery_of s i k = None \<Longrightarrow> delivery_of (markTruncated res s) i k = None"
    by (auto simp: del)
qed

lemma markAcked_memory:
  "acked s i k \<Longrightarrow> acked (markAcked res s) i k"
  "re_instance res \<noteq> [] \<Longrightarrow> re_key res \<noteq> [] \<Longrightarrow> delivery_of s (re_instance res) (re_key res) \<noteq> None \<Longrightarrow>
     acked (markAcked res s) (re_instance res) (re_key res)"
proof -
  let ?fi = "\<lambda>i. if re_seq res > is_last_acked i then i\<lparr>is_last_acked := re_seq res\<rparr> else i"
  have fi: "is_seen (?fi i) = is_seen i" for i :: inst_state by simp
  have del: "delivery_of (markAcked res s) i k =
      (if i = re_instance res \<and> k = re_key res then map_option (\<lambda>d. d\<lparr>dl_acked := True\<rparr>) (delivery_of s i k)
       else delivery_of s i k)" if "re_instance res \<noteq> []" "re_key res \<noteq> []" for i k
    unfolding markAcked_def by (rule delivery_of_upd [OF fi that])
  show "acked (markAcked res s) i k" if "acked s i k"
    using that del by (cases "re_instance res = [] \<or> re_key res = []")
      (auto simp: markAcked_def delivery_of_upd_off acked_def split: option.splits)
  show "acked (markAcked res s) (re_instance res) (re_key res)" if "re_instance res \<noteq> []"
    "re_key res \<noteq> []" "delivery_of s (re_instance res) (re_key res) \<noteq> None"
    using that by (auto simp: acked_def del)
qed

subsection \<open>One request, again\<close>

lemma accept_props:
  assumes "accept cfg res s = (resp, s')"
  shows "resp = Accepted (re_seq res)" "sv_instances s' = sv_instances (markAcked res s)"
    "sv_faults s' = sv_faults s" "sv_terminal_armed s' = sv_terminal_armed s"
    "ms_requests (sv_stats s') = ms_requests (sv_stats s)"
  using assms by (auto simp: accept_def noteAccepted_def finishRun_def markAcked_def Let_def split: if_splits)

lemma same_memory_delivery:
  assumes "same_memory s s'" "acked s i k" shows "acked s' i k"
  using assms by (simp add: same_memory_def)

lemma noteTerminal_fields [simp]:
  "sv_instances (noteTerminal n s) = sv_instances s" "sv_faults (noteTerminal n s) = sv_faults s"
  "sv_stats (noteTerminal n s) = sv_stats s" "sv_terminal_armed (noteTerminal n s) = sv_terminal_armed s"
  "sv_sizes (noteTerminal n s) = sv_sizes s" "sv_bodies (noteTerminal n s) = sv_bodies s"
  "sv_fault_hits (noteTerminal n s) = sv_fault_hits s" "sv_done (noteTerminal n s) = sv_done s"
  by (simp_all add: noteTerminal_def)

lemma validate_control:
  assumes "validate cfg lib now rq s = (res, s')"
  shows "ms_requests (sv_stats s') = Suc (ms_requests (sv_stats s))"
  using assms
  by (auto simp: validate_def checkState_def Let_def split: prod.splits if_splits option.splits bool.splits)

text \<open>A request that is not refused: its response, and the state behind it.\<close>

definition outcome_of :: "surroundings \<Rightarrow> 64 word \<Rightarrow> injected \<Rightarrow> response" where
  "outcome_of su seq f =
     (if in_delay f > 0 \<and> \<not> su_elapses su then Unheard
      else case in_kind f of
        FaultDrop \<Rightarrow> (if su_hijack su then Dropped else DropUnavailable)
      | FaultStatus \<Rightarrow>
          Faulted (in_status f) (if in_retry_after f > 0 then in_retry_after f else 0) (in_reason f)
      | FaultNone \<Rightarrow> Accepted seq)"

lemma respond_props:
  assumes "respond cfg su res f s = (resp, s')"
  shows "resp = outcome_of su (re_seq res) f"
    "sv_faults s' = sv_faults s" "sv_terminal_armed s' = sv_terminal_armed s"
    "ms_requests (sv_stats s') = ms_requests (sv_stats s)"
    "resp \<noteq> Accepted (re_seq res) \<Longrightarrow>
       sv_instances s' = sv_instances s \<or> sv_instances s' = sv_instances (markTruncated res s)"
    "resp = Accepted (re_seq res) \<Longrightarrow> sv_instances s' = sv_instances (markAcked res s)"
  using assms
  by (auto simp: respond_def outcome_of_def markTruncated_def split: if_splits fault_kind.splits
      dest: accept_props)

lemma handleIngest_fate:
  assumes n: "normal cfg" and order: "\<And>xs. set (ml_range lib xs) = set xs"
    and h: "handleIngest cfg lib su rq s = (resp, s')"
  shows "(\<exists>status body. resp = Refused status body) \<longleftrightarrow>
      \<not> (\<exists>raw b. request_fine cfg lib rq raw b \<and> contract cfg (su_at su) (iq_key rq) b \<and>
         deliverable s (wb_instance_id b) (iq_key rq) (ml_sha lib raw) (wb_seq b))"
    "acked s i k \<Longrightarrow> acked s' i k"
    "sv_faults s' = sv_faults s"
    "ms_requests (sv_stats s') = Suc (ms_requests (sv_stats s))"
    "request_fine cfg lib rq raw b \<Longrightarrow> contract cfg (su_at su) (iq_key rq) b \<Longrightarrow>
     deliverable s (wb_instance_id b) (iq_key rq) (ml_sha lib raw) (wb_seq b) \<Longrightarrow>
       resp = outcome_of su (wb_seq b) (chosen s) \<and>
       sv_terminal_armed s' = (ft_terminal_once (sv_faults s) \<le> 0 \<and> sv_terminal_armed s) \<and>
       (if resp = Accepted (wb_seq b) then acked s' (wb_instance_id b) (iq_key rq)
        else acked s' = acked s \<and>
          deliverable s' (wb_instance_id b) (iq_key rq) (ml_sha lib raw) (wb_seq b))"
proof -
  obtain res s1 where v: "validate cfg lib (su_at su) rq s = (res, s1)" by (metis prod.exhaust)
  define fatal where "fatal = fst (recordResult cfg res s1)"
  define s2 where "s2 = snd (recordResult cfg res s1)"
  define f where "f = fst (decide (re_n res) s2)"
  define s3 where "s3 = snd (decide (re_n res) s2)"
  note r = recordResult_fields [of cfg res s1, folded fatal_def s2_def]
  note d = decide_fields [of "re_n res" s2, folded s3_def]
  note vp = validate_props [OF n order v]
  have mem1: "acked s1 = acked s" "last_acked s1 = last_acked s" "sv_faults s1 = sv_faults s"
    "sv_terminal_armed s1 = sv_terminal_armed s"
    using vp(2) by (simp_all add: same_memory_def)
  have req: "ms_requests (sv_stats s1) = Suc (ms_requests (sv_stats s))" by (rule validate_control [OF v])
  have out: "(resp, s') = (if fatal then refuse cfg lib res s2 else respond cfg su res f s3)"
  proof -
    have "recordResult cfg res s1 = (fatal, s2)" "decide (re_n res) s2 = (f, s3)"
      by (simp_all add: fatal_def s2_def f_def s3_def)
    then show ?thesis using h v by (auto simp: handleIngest_def Let_def)
  qed
  have mem2: "acked s2 = acked s" "last_acked s2 = last_acked s" "delivery_of s2 = delivery_of s1"
    using memory_cong [OF r(2)] mem1 by simp_all
  have mem3: "acked s3 = acked s" "last_acked s3 = last_acked s" "delivery_of s3 = delivery_of s1"
    using memory_cong [OF d(1)] mem2 by simp_all
  have f: "f = chosen s"
    by (simp add: f_def decide_fst chosen_def r(3,4) mem1 vp(3))
  have ref: "\<exists>status body. resp = Refused status body" "sv_instances s' = sv_instances s2"
    "sv_faults s' = sv_faults s2" "ms_requests (sv_stats s') = ms_requests (sv_stats s2)" if fatal
    using out that by (auto simp: refuse_def finishRun_def)
  have resp: "respond cfg su res f s3 = (resp, s')" if "\<not> fatal" using out that by simp
  note rp = respond_props [OF resp]
  show verdict: "(\<exists>status body. resp = Refused status body) \<longleftrightarrow>
      \<not> (\<exists>raw b. request_fine cfg lib rq raw b \<and> contract cfg (su_at su) (iq_key rq) b \<and>
         deliverable s (wb_instance_id b) (iq_key rq) (ml_sha lib raw) (wb_seq b))"
  proof -
    have "(\<exists>status body. resp = Refused status body) \<longleftrightarrow> fatal"
    proof (cases fatal)
      case False
      then show ?thesis using rp(1) by (simp add: outcome_of_def split: fault_kind.split)
    qed (use ref(1) in blast)
    then show ?thesis unfolding r(1) vp(1) [symmetric] by blast
  qed
  show "sv_faults s' = sv_faults s" using ref(3) rp(2) r(3) d(2) mem1 by (cases fatal) simp_all
  show "ms_requests (sv_stats s') = Suc (ms_requests (sv_stats s))"
    using ref(4) rp(4) r(5) d(3) req by (cases fatal) simp_all
  show "acked s' i k" if "acked s i k"
  proof (cases fatal)
    case True
    then show ?thesis using memory_cong [OF ref(2)] mem2 that by simp
  next
    case False
    have "acked s3 i k" using mem3 that by simp
    then have "acked (markAcked res s3) i k" "acked (markTruncated res s3) i k"
      by (simp_all add: markAcked_memory markTruncated_memory)
    then show ?thesis
      using rp(5,6) [OF False] memory_cong(2) [of s'] \<open>acked s3 i k\<close> by metis
  qed
  show "resp = outcome_of su (wb_seq b) (chosen s) \<and>
       sv_terminal_armed s' = (ft_terminal_once (sv_faults s) \<le> 0 \<and> sv_terminal_armed s) \<and>
       (if resp = Accepted (wb_seq b) then acked s' (wb_instance_id b) (iq_key rq)
        else acked s' = acked s \<and>
          deliverable s' (wb_instance_id b) (iq_key rq) (ml_sha lib raw) (wb_seq b))"
    if fine: "request_fine cfg lib rq raw b" and con: "contract cfg (su_at su) (iq_key rq) b"
      and del: "deliverable s (wb_instance_id b) (iq_key rq) (ml_sha lib raw) (wb_seq b)"
  proof -
    have "\<not> fatal" using vp(1) fine con del unfolding r(1) by blast
    note rp = rp [OF this]
    have res: "re_instance res = wb_instance_id b" "re_key res = iq_key rq" "re_seq res = wb_seq b"
      "delivery_of s1 (wb_instance_id b) (iq_key rq) =
         Some (noted (ml_sha lib raw) (wb_seq b) (delivery_of s (wb_instance_id b) (iq_key rq)))"
      using vp(4) [OF fine con] by blast+
    have ne: "re_instance res \<noteq> []" "re_key res \<noteq> []"
      using contract_names [OF con] fine res by (auto simp: request_fine_def)
    have dl: "dl_hash (noted (ml_sha lib raw) (wb_seq b) (delivery_of s (wb_instance_id b) (iq_key rq))) = ml_sha lib raw"
      "\<not> dl_acked (noted (ml_sha lib raw) (wb_seq b) (delivery_of s (wb_instance_id b) (iq_key rq)))"
      using del by (auto simp: deliverable_def noted_def split: option.splits)
    have "acked s' (wb_instance_id b) (iq_key rq)" if "resp = Accepted (wb_seq b)"
    proof -
      have "acked (markAcked res s3) (re_instance res) (re_key res)"
        by (rule markAcked_memory(2) [OF ne]) (simp add: mem3 res)
      then show ?thesis using memory_cong(2) [OF rp(6)] that res by simp
    qed
    moreover have "acked s' = acked s \<and>
        deliverable s' (wb_instance_id b) (iq_key rq) (ml_sha lib raw) (wb_seq b)"
      if no: "resp \<noteq> Accepted (wb_seq b)"
    proof -
      have cases: "sv_instances s' = sv_instances s3 \<or> sv_instances s' = sv_instances (markTruncated res s3)"
        using rp(5) no res by simp
      obtain d' where d': "delivery_of (markTruncated res s3) (wb_instance_id b) (iq_key rq) = Some d'"
        "dl_hash d' = ml_sha lib raw"
        using markTruncated_memory(3) [of s3 "wb_instance_id b" "iq_key rq" _ res] mem3(3) res(4) dl(1)
        by auto
      have ak: "acked s' = acked s"
        using cases memory_cong(2) [of s'] mem3(1) markTruncated_memory(1) by metis
      obtain d'' where "delivery_of s' (wb_instance_id b) (iq_key rq) = Some d''" "dl_hash d'' = ml_sha lib raw"
        using cases memory_cong(1) [of s'] d' mem3(3) res(4) dl(1) by metis
      moreover have "\<not> acked s' (wb_instance_id b) (iq_key rq)"
        using del unfolding ak by (auto simp: deliverable_def acked_def split: option.splits)
      ultimately have "deliverable s' (wb_instance_id b) (iq_key rq) (ml_sha lib raw) (wb_seq b)"
        by (simp add: deliverable_def acked_def)
      then show ?thesis using ak by blast
    qed
    ultimately show ?thesis
      using rp(1,3) d(4) r(3,4) mem1 by (auto simp: f res(3))
  qed
qed

subsection \<open>A key is accepted at most once\<close>

text \<open>
  The calls that change the server: a request to the ingest, new faults posted to \<open>/control\<close>, and
  \<open>/control/reset\<close> (with the clock it reads). The other routes read only. Each call is served to
  its end before the next.
\<close>

datatype server_call = Ingest surroundings ingest_request | Control faults | Reset gotime

definition is_reset :: "server_call \<Rightarrow> bool" where
  "is_reset call = (case call of Reset _ \<Rightarrow> True | _ \<Rightarrow> False)"

fun serve_call :: "mock_config \<Rightarrow> mock_library \<Rightarrow> server_call \<Rightarrow> server \<Rightarrow> server" where
  "serve_call cfg lib (Ingest su rq) s = snd (handleIngest cfg lib su rq s)"
| "serve_call cfg lib (Control f) s = SetFaults f s"
| "serve_call cfg lib (Reset now) s = ResetServer now s"

definition serve :: "mock_config \<Rightarrow> mock_library \<Rightarrow> server_call list \<Rightarrow> server \<Rightarrow> server" where
  "serve cfg lib calls s = fold (serve_call cfg lib) calls s"

lemma serve_acked:
  assumes "normal cfg" "\<And>xs. set (ml_range lib xs) = set xs" "acked s i k" "\<not> list_ex is_reset calls"
  shows "acked (serve cfg lib calls s) i k"
  using assms(3,4)
proof (induction calls arbitrary: s)
  case (Cons call calls)
  have "acked (serve_call cfg lib call s) i k"
  proof (cases call)
    case (Ingest su rq)
    then show ?thesis
      using handleIngest_fate(2) [OF assms(1,2) prod.collapse [symmetric] Cons.prems(1), of su rq] by simp
  next
    case (Control f)
    then show ?thesis using Cons.prems memory_cong(2) [of "SetFaults f s" s] by (simp add: SetFaults_def)
  next
    case (Reset now)
    then show ?thesis using Cons.prems(2) by (simp add: is_reset_def)
  qed
  then show ?case using Cons.IH Cons.prems(2) by (simp add: serve_def)
qed (simp add: serve_def)

text \<open>A reset forgets every delivery: whatever came before, a conforming batch is accepted anew.\<close>

lemma reset_accepts:
  assumes "normal cfg" "\<And>xs. set (ml_range lib xs) = set xs"
    and "request_fine cfg lib rq raw b" "contract cfg (su_at su) (iq_key rq) b" "0 < wb_seq b"
  shows "fst (handleIngest cfg lib su rq (ResetServer now s)) = Accepted (wb_seq b)"
proof -
  let ?s = "ResetServer now s"
  have "deliverable ?s (wb_instance_id b) (iq_key rq) (ml_sha lib raw) (wb_seq b)"
    using assms(5) by (simp add: deliverable_def delivery_of_def last_acked_def ResetServer_def fresh_server_def)
  from handleIngest_fate(5) [OF assms(1,2) prod.collapse [symmetric] assms(3,4) this]
  have "fst (handleIngest cfg lib su rq ?s) = outcome_of su (wb_seq b) (chosen ?s)" by blast
  also have "\<dots> = Accepted (wb_seq b)"
    by (simp add: outcome_of_def chosen_def pick_fault_def delay_part_def with_retry_after_def
        ResetServer_def fresh_server_def withDefaults_def no_faults_def no_injection_def)
  finally show ?thesis .
qed

lemma wireKey_instance:
  assumes "wireKey b = wireKey b'" "wb_instance_id b \<noteq> []" "wb_instance_id b' \<noteq> []"
  shows "wb_instance_id b = wb_instance_id b'"
proof -
  have "CHR ''-'' \<notin> set (digits m)" for m
    using digits_props [of m] by (auto simp: list_all_iff is_digit_def)
  then show ?thesis
    using append_last_split [of "wb_instance_id b" "CHR ''-''" "digits (unat (wb_seq b))"
        "wb_instance_id b'" "digits (unat (wb_seq b'))"] assms
    by (simp add: wireKey_def)
qed


subsection \<open>The exporter's retry loop\<close>

text \<open>
  The step of \<open>send_loop\<close>: it posts, unless a wait is abandoned. \<open>posted\<close> is the part after the
  wait.
\<close>

definition posted ::
    "(string \<Rightarrow> gotime option) \<Rightarrow> http_exporter \<Rightarrow> (nat \<Rightarrow> attempt_env) \<Rightarrow> gotime \<Rightarrow> nat \<Rightarrow> nat \<Rightarrow>
     counters \<Rightarrow> (gotime \<times> duration) list \<Rightarrow> (counters \<times> (gotime \<times> duration) list \<times> reply list) option" where
  "posted pt e orc deadline n attempt c waits =
     (let a = orc attempt in
            case send pt (at_reply_now a) (at_reply a) of
              None \<Rightarrow> Some (count_exported c, waits, [at_reply a])
            | Some err \<Rightarrow>
                (let rest = (\<lambda>ra. map_option (\<lambda>(c', ws, rs). (c', waits @ ws, at_reply a # rs))
                       (send_loop pt e orc deadline n (attempt + 1)
                         (Some (send_error_text err)) ra c))
                 in case err of
                      PlainError _ \<Rightarrow> rest 0
                    | HTTPError code ra _ \<Rightarrow>
                        if \<not> retryableStatus code
                        then Some (recordError (Some (send_error_text err))
                               (c\<lparr>ct_rejected := ct_rejected c + 1\<rparr>), waits, [at_reply a])
                        else rest ra))"

lemma send_loop_first: "send_loop pt e orc dl (Suc n) 0 err ra c = posted pt e orc dl n 0 c []"
  by (simp add: send_loop.simps posted_def Let_def)

lemma send_loop_step:
  assumes "attempt > 0" "send_loop pt e orc dl (Suc n) attempt err ra c = Some (c', ws, rs)"
  shows "rs = [] \<or> (\<exists>c1 w. posted pt e orc dl n attempt c1 w = Some (c', ws, rs))"
    "\<not> at_shutdown (orc attempt) \<Longrightarrow> at_now (orc attempt) + maxBackoff \<le> dl \<Longrightarrow> ra \<le> maxBackoff \<Longrightarrow>
       \<exists>c1 w. posted pt e orc dl n attempt c1 w = Some (c', ws, rs)"
proof -
  obtain delay where delay: "(if ra \<le> 0 then backoff (hx_base_delay e) attempt (at_draw (orc attempt))
      else Some ra) = Some delay" "0 \<le> delay" "ra \<le> maxBackoff \<Longrightarrow> delay \<le> maxBackoff"
    using backoff_range [of "hx_base_delay e" attempt "at_draw (orc attempt)"]
    by (cases "ra \<le> 0") auto
  have step: "send_loop pt e orc dl (Suc n) attempt err ra c =
      (let a = orc attempt; remaining = dl - at_now a
              in if remaining \<le> 0 \<or> delay > remaining
                 then Some (drop_batch (''export abandoned after '' @ duration_string (hx_budget e) @
                          '' retry budget: '' @ the err) c, [], [])
                 else let c1 = c\<lparr>ct_retries := ct_retries c + 1\<rparr>
                      in if delay > 0 \<and> at_shutdown a
                         then Some (drop_batch (''export abandoned during shutdown: '' @ the err) c1,
                                [(at_now a, delay)], [])
                         else posted pt e orc dl n attempt c1 [(at_now a, delay)])"
    using delay(1) assms(1) unfolding send_loop.simps posted_def Let_def
    by (simp only: if_not_P [of "attempt = 0"] option.case)
  show "rs = [] \<or> (\<exists>c1 w. posted pt e orc dl n attempt c1 w = Some (c', ws, rs))"
    using assms(2) unfolding step by (auto simp: Let_def split: if_splits)
  have pos: "0 < maxBackoff" by (simp add: maxBackoff_def second_def)
  show "\<exists>c1 w. posted pt e orc dl n attempt c1 w = Some (c', ws, rs)"
    if "\<not> at_shutdown (orc attempt)" "at_now (orc attempt) + maxBackoff \<le> dl" "ra \<le> maxBackoff"
    using assms(2) delay(3) that pos unfolding step by (auto simp: Let_def split: if_splits)
qed

lemma posted_cases:
  assumes "posted pt e orc dl n attempt c w = Some (c', ws, rs)"
  shows "rs = [at_reply (orc attempt)] \<and> terminal (at_reply (orc attempt)) \<or>
    (\<exists>err ra c1 ws1 rs1. send_loop pt e orc dl n (Suc attempt) err ra c1 = Some (c', ws1, rs1) \<and>
       rs = at_reply (orc attempt) # rs1 \<and>
       (ra = 0 \<or> (\<exists>code body. send pt (at_reply_now (orc attempt)) (at_reply (orc attempt)) =
          Some (HTTPError code ra body))))"
proof (cases "send pt (at_reply_now (orc attempt)) (at_reply (orc attempt))")
  case None
  then have "terminal (at_reply (orc attempt))" by (simp add: send_None accepted_terminal)
  with None assms show ?thesis by (auto simp: posted_def Let_def)
next
  case (Some err)
  show ?thesis
  proof (cases err)
    case (PlainError x)
    with Some assms show ?thesis by (auto simp: posted_def Let_def)
  next
    case (HTTPError code ra body)
    with Some assms send_HTTP [of pt _ "at_reply (orc attempt)" code ra body] show ?thesis
      by (auto simp: posted_def Let_def split: if_splits) blast
  qed
qed

lemma send_loop_replies:
  "send_loop pt e orc dl n attempt err ra c = Some (c', ws, rs) \<Longrightarrow>
     rs = map (\<lambda>k. at_reply (orc k)) [attempt ..< attempt + length rs]"
proof (induction n arbitrary: attempt err ra c c' ws rs)
  case 0
  then show ?case by (simp add: send_loop.simps)
next
  case (Suc n)
  have "rs = map (\<lambda>k. at_reply (orc k)) [attempt ..< attempt + length rs]"
    if "posted pt e orc dl n attempt c1 w = Some (c', ws, rs)" for c1 w
    using posted_cases [OF that]
  proof
    assume "rs = [at_reply (orc attempt)] \<and> terminal (at_reply (orc attempt))"
    then show ?thesis by simp
  next
    assume "\<exists>err ra c1 ws1 rs1. send_loop pt e orc dl n (Suc attempt) err ra c1 = Some (c', ws1, rs1) \<and>
       rs = at_reply (orc attempt) # rs1 \<and>
       (ra = 0 \<or> (\<exists>code body. send pt (at_reply_now (orc attempt)) (at_reply (orc attempt)) =
          Some (HTTPError code ra body)))"
    then obtain err' ra' c1' ws1 rs1 where
      "send_loop pt e orc dl n (Suc attempt) err' ra' c1' = Some (c', ws1, rs1)"
      "rs = at_reply (orc attempt) # rs1" by blast
    with Suc.IH [OF this(1)] show ?thesis by (simp add: upt_conv_Cons del: upt_Suc)
  qed
  then show ?case
    using send_loop_step(1) [of attempt pt e orc dl n err ra c c' ws rs] Suc.prems
    by (cases "attempt = 0") (auto simp: send_loop_first)
qed

lemma send_loop_roomy:
  assumes "\<And>k. \<not> at_shutdown (orc k) \<and> at_now (orc k) + maxBackoff \<le> dl"
    and "send_loop pt e orc dl n attempt err ra c = Some (c', ws, rs)" "ra \<le> maxBackoff"
    and "\<And>k code ra body. k < attempt + length rs \<Longrightarrow>
      send pt (at_reply_now (orc k)) (at_reply (orc k)) = Some (HTTPError code ra body) \<Longrightarrow> ra \<le> maxBackoff"
  shows "length rs = n \<or> rs \<noteq> [] \<and> terminal (last rs)"
  using assms(2-4)
proof (induction n arbitrary: attempt err ra c c' ws rs)
  case 0
  then show ?case by (simp add: send_loop.simps)
next
  case (Suc n)
  have pos: "0 \<le> maxBackoff" by (simp add: maxBackoff_def second_def)
  have "\<exists>c1 w. posted pt e orc dl n attempt c1 w = Some (c', ws, rs)"
    using send_loop_step(2) [of attempt pt e orc dl n err ra c c' ws rs] Suc.prems assms(1)
    by (cases "attempt = 0") (auto simp: send_loop_first)
  then obtain c1 w where "posted pt e orc dl n attempt c1 w = Some (c', ws, rs)" by blast
  from posted_cases [OF this] show ?case
  proof
    assume "rs = [at_reply (orc attempt)] \<and> terminal (at_reply (orc attempt))"
    then show ?thesis by simp
  next
    assume "\<exists>err ra c1 ws1 rs1. send_loop pt e orc dl n (Suc attempt) err ra c1 = Some (c', ws1, rs1) \<and>
       rs = at_reply (orc attempt) # rs1 \<and>
       (ra = 0 \<or> (\<exists>code body. send pt (at_reply_now (orc attempt)) (at_reply (orc attempt)) =
          Some (HTTPError code ra body)))"
    then obtain err' ra' c1' ws1 rs1 where r:
      "send_loop pt e orc dl n (Suc attempt) err' ra' c1' = Some (c', ws1, rs1)"
      "rs = at_reply (orc attempt) # rs1"
      "ra' = 0 \<or> (\<exists>code body. send pt (at_reply_now (orc attempt)) (at_reply (orc attempt)) =
          Some (HTTPError code ra' body))" by blast
    then have "ra' \<le> maxBackoff" using Suc.prems(3) [of attempt] pos by auto
    from Suc.IH [OF r(1) this] Suc.prems(3) show ?thesis by (auto simp: r(2))
  qed
qed

subsection \<open>The exporter against the mock\<close>

text \<open>The answer as the exporter's client sees it; a connection without one is a transport error.\<close>

definition reply_of :: "response \<Rightarrow> reply" where
  "reply_of resp =
     (case resp of
        Accepted seq \<Rightarrow> Response 200 [] []
      | Refused status body \<Rightarrow> Response (int status) [] body
      | Faulted status ra reason \<Rightarrow>
          Response status (if ra > 0 then show_int ra else []) (''injected fault '' @ reason)
      | Dropped \<Rightarrow> SendFailed ''EOF''
      | DropUnavailable \<Rightarrow> Response 502 [] ''drop unavailable''
      | Unheard \<Rightarrow> SendFailed ''timeout'')"

text \<open>The server before the \<open>k\<close>-th attempt of one request, and its answer to it.\<close>

fun attempt_state ::
    "mock_config \<Rightarrow> mock_library \<Rightarrow> (nat \<Rightarrow> surroundings) \<Rightarrow> ingest_request \<Rightarrow> server \<Rightarrow> nat \<Rightarrow> server" where
  "attempt_state cfg lib su rq s 0 = s"
| "attempt_state cfg lib su rq s (Suc k) =
     snd (handleIngest cfg lib (su k) rq (attempt_state cfg lib su rq s k))"

definition attempt_response ::
    "mock_config \<Rightarrow> mock_library \<Rightarrow> (nat \<Rightarrow> surroundings) \<Rightarrow> ingest_request \<Rightarrow> server \<Rightarrow> nat \<Rightarrow> response" where
  "attempt_response cfg lib su rq s k =
     fst (handleIngest cfg lib (su k) rq (attempt_state cfg lib su rq s k))"

text \<open>Faults that answer with an error status.\<close>

definition error_faults :: "faults \<Rightarrow> bool" where
  "error_faults f \<longleftrightarrow>
     400 \<le> ft_fail_status f \<and> 400 \<le> ft_every_nth_status f \<and>
     (ft_terminal_once f \<le> 0 \<or> 400 \<le> ft_terminal_once f)"

lemma with_retry_after_fields [simp]:
  "in_kind (with_retry_after f out) = in_kind out" "in_status (with_retry_after f out) = in_status out"
  "in_delay (with_retry_after f out) = in_delay out"
  by (simp_all add: with_retry_after_def)

lemma fault_fields [simp]:
  "in_kind (status_fault n knob v out) = FaultStatus" "in_status (status_fault n knob v out) = n"
  "in_kind (drop_fault knob v out) = FaultDrop"
  "in_delay (status_fault n knob v out) = in_delay out" "in_delay (drop_fault knob v out) = in_delay out"
  "in_kind (delay_part f n) = FaultNone"
  by (simp_all add: status_fault_def drop_fault_def delay_part_def no_injection_def)

lemma pick_fault_cases:
  obtains (none) "pick_fault f ready n out = out"
  | (drop) knob v where "pick_fault f ready n out = drop_fault knob v out"
  | (once) knob v where "ft_terminal_once f > 0" "ready"
      "pick_fault f ready n out = status_fault (ft_terminal_once f) knob v out"
  | (status) status knob v where "status = ft_fail_status f \<or> status = ft_every_nth_status f"
      "pick_fault f ready n out = status_fault status knob v out"
proof (cases "ft_terminal_once f > 0 \<and> ready")
  case True
  then show ?thesis by (intro once) (auto simp: pick_fault_def)
next
  case no1: False
  show ?thesis
  proof (cases "ft_drop_first f > 0 \<and> n \<le> ft_drop_first f \<or> ft_drop_every f > 0 \<and> n mod ft_drop_every f = 0")
    case True
    with no1 drop show ?thesis by (cases "ft_drop_first f > 0 \<and> n \<le> ft_drop_first f") (auto simp: pick_fault_def)
  next
    case no2: False
    show ?thesis
    proof (cases "ft_fail_first f > 0 \<and> n \<le> ft_fail_first f")
      case True
      with no1 no2 show ?thesis by (intro status [of "ft_fail_status f"]) (auto simp: pick_fault_def)
    next
      case False
      with no1 no2 none status [of "ft_every_nth_status f"] show ?thesis
        by (cases "ft_every_nth f > 0 \<and> n mod ft_every_nth f = 0") (auto simp: pick_fault_def)
    qed
  qed
qed

lemma chosen_status:
  assumes "error_faults (sv_faults s)" "in_kind (chosen s) = FaultStatus"
  shows "400 \<le> in_status (chosen s)"
proof -
  define n where "n = int (Suc (ms_requests (sv_stats s)))"
  let ?f = "sv_faults s"
  let ?d = "delay_part ?f n"
  let ?p = "pick_fault ?f (sv_terminal_armed s) n ?d"
  have "in_kind ?p = FaultStatus" using assms(2) by (simp add: chosen_def n_def)
  moreover have "in_status (chosen s) = in_status ?p" by (simp add: chosen_def n_def)
  ultimately show ?thesis
    using assms(1)
    by (cases rule: pick_fault_cases [of ?f "sv_terminal_armed s" n ?d])
      (auto simp: error_faults_def)
qed

lemma outcome_accepted:
  assumes "error_faults (sv_faults s)"
  shows "accepted_reply (reply_of (outcome_of su seq (chosen s))) \<longleftrightarrow>
    outcome_of su seq (chosen s) = Accepted seq"
  using chosen_status [OF assms]
  by (auto simp: accepted_reply_def reply_of_def outcome_of_def split: fault_kind.split)

text \<open>Until an attempt is accepted the request stays deliverable, and no attempt is refused.\<close>

lemma attempts_until_accepted:
  assumes n: "normal cfg" and order: "\<And>xs. set (ml_range lib xs) = set xs"
    and fine: "request_fine cfg lib rq raw b"
    and con: "\<And>k. contract cfg (su_at (su k)) (iq_key rq) b"
    and del: "deliverable s (wb_instance_id b) (iq_key rq) (ml_sha lib raw) (wb_seq b)"
    and before: "\<And>j. j < k \<Longrightarrow> attempt_response cfg lib su rq s j \<noteq> Accepted (wb_seq b)"
  shows "deliverable (attempt_state cfg lib su rq s k) (wb_instance_id b) (iq_key rq) (ml_sha lib raw) (wb_seq b)"
    "sv_faults (attempt_state cfg lib su rq s k) = sv_faults s"
    "ms_requests (sv_stats (attempt_state cfg lib su rq s k)) = ms_requests (sv_stats s) + k"
    "attempt_response cfg lib su rq s k = outcome_of (su k) (wb_seq b) (chosen (attempt_state cfg lib su rq s k))"
    "acked (attempt_state cfg lib su rq s (Suc k)) (wb_instance_id b) (iq_key rq) \<longleftrightarrow>
       attempt_response cfg lib su rq s k = Accepted (wb_seq b)"
proof -
  let ?st = "attempt_state cfg lib su rq s"
  have main: "deliverable (?st k) (wb_instance_id b) (iq_key rq) (ml_sha lib raw) (wb_seq b) \<and>
      sv_faults (?st k) = sv_faults s \<and> ms_requests (sv_stats (?st k)) = ms_requests (sv_stats s) + k"
    using before
  proof (induction k)
    case 0
    then show ?case using del by simp
  next
    case (Suc k)
    then have IH: "deliverable (?st k) (wb_instance_id b) (iq_key rq) (ml_sha lib raw) (wb_seq b)"
      "sv_faults (?st k) = sv_faults s" "ms_requests (sv_stats (?st k)) = ms_requests (sv_stats s) + k"
      by auto
    note fate = handleIngest_fate [OF n order prod.collapse [symmetric], where su = "su k" and rq = rq and s = "?st k"]
    have "fst (handleIngest cfg lib (su k) rq (?st k)) \<noteq> Accepted (wb_seq b)"
      using Suc.prems [of k] by (simp add: attempt_response_def)
    with fate(5) [OF fine con IH(1)] fate(3,4) IH show ?case by simp
  qed
  then show "deliverable (?st k) (wb_instance_id b) (iq_key rq) (ml_sha lib raw) (wb_seq b)"
    "sv_faults (?st k) = sv_faults s" "ms_requests (sv_stats (?st k)) = ms_requests (sv_stats s) + k"
    by auto
  note fate = handleIngest_fate(5) [OF n order prod.collapse [symmetric] fine con conjunct1 [OF main]]
  show "attempt_response cfg lib su rq s k = outcome_of (su k) (wb_seq b) (chosen (?st k))"
    using fate [of k] by (simp add: attempt_response_def)
  have "\<not> acked (?st k) (wb_instance_id b) (iq_key rq)"
    using main by (auto simp: deliverable_def acked_def split: option.splits)
  then show "acked (?st (Suc k)) (wb_instance_id b) (iq_key rq) \<longleftrightarrow>
       attempt_response cfg lib su rq s k = Accepted (wb_seq b)"
    using fate [of k] by (auto simp: attempt_response_def split: if_splits)
qed

text \<open>
  The first attempts, none of which was accepted; the replies the loop got are the server's.
\<close>

lemma sendWithRetry_replies:
  assumes "sendWithRetry pt e orc start c = Some (c', waits, rs)"
    and "\<And>k. at_reply (orc k) = reply_of (resp k)"
    and "k < length rs"
  shows "rs ! k = reply_of (resp k)"
  using send_loop_replies [of pt e orc "start + hx_budget e" "nat (hx_max_retries e + 1)" 0 None 0 c c' waits rs]
    assms by (metis (no_types, lifting) add_0 diff_zero length_map length_upt nth_map nth_upt sendWithRetry_def)

lemma loop_ok_last:
  assumes "loop_ok dl n c (c', waits, rs)"
  shows "\<And>k. Suc k < length rs \<Longrightarrow> \<not> terminal (rs ! k)"
    "ct_exported c' = ct_exported c + (if rs \<noteq> [] \<and> accepted_reply (rs ! (length rs - 1)) then 1 else 0)"
proof -
  show "\<not> terminal (rs ! k)" if "Suc k < length rs" for k
  proof -
    have "rs ! k \<in> set (butlast rs)"
      using that by (metis Suc_lessE diff_Suc_1 length_butlast lessI less_SucE nth_butlast nth_mem
          Suc_less_eq2 less_diff_conv Suc_eq_plus1)
    with assms show ?thesis by (simp add: loop_ok_def)
  qed
  show "ct_exported c' = ct_exported c + (if rs \<noteq> [] \<and> accepted_reply (rs ! (length rs - 1)) then 1 else 0)"
    using assms by (cases "rs = []") (simp_all add: loop_ok_def last_conv_nth)
qed

lemma delivery_run:
  assumes n: "normal cfg" and order: "\<And>xs. set (ml_range lib xs) = set xs"
    and fine: "request_fine cfg lib rq raw b"
    and con: "\<And>k. contract cfg (su_at (su k)) (iq_key rq) b"
    and del: "deliverable s (wb_instance_id b) (iq_key rq) (ml_sha lib raw) (wb_seq b)"
    and faults: "error_faults (sv_faults s)"
    and replies: "\<And>k. at_reply (orc k) = reply_of (attempt_response cfg lib su rq s k)"
  shows "\<exists>c' waits rs. sendWithRetry pt e orc start c = Some (c', waits, rs) \<and>
    (\<forall>k < length rs. rs ! k = reply_of (attempt_response cfg lib su rq s k) \<and>
       attempt_response cfg lib su rq s k =
         outcome_of (su k) (wb_seq b) (chosen (attempt_state cfg lib su rq s k)) \<and>
       sv_faults (attempt_state cfg lib su rq s k) = sv_faults s \<and>
       ms_requests (sv_stats (attempt_state cfg lib su rq s k)) = ms_requests (sv_stats s) + k) \<and>
    ct_exported c' = ct_exported c +
      (if acked (attempt_state cfg lib su rq s (length rs)) (wb_instance_id b) (iq_key rq) then 1 else 0) \<and>
    (\<forall>k. length rs = Suc k \<longrightarrow>
       acked (attempt_state cfg lib su rq s (length rs)) (wb_instance_id b) (iq_key rq) =
         (attempt_response cfg lib su rq s k = Accepted (wb_seq b)))"
proof -
  let ?resp = "attempt_response cfg lib su rq s"
  let ?st = "attempt_state cfg lib su rq s"
  obtain c' waits rs where sent: "sendWithRetry pt e orc start c = Some (c', waits, rs)"
    "loop_ok (start + hx_budget e) (nat (hx_max_retries e + 1)) c (c', waits, rs)"
    by (rule sendWithRetry_ok)
  note until = attempts_until_accepted [OF n order fine con del]
  have rs: "rs ! k = reply_of (?resp k)" if "k < length rs" for k
    by (rule sendWithRetry_replies [OF sent(1) replies that])
  have "?resp j \<noteq> Accepted (wb_seq b)" if "Suc j < length rs" for j
  proof
    assume "?resp j = Accepted (wb_seq b)"
    then have "terminal (rs ! j)" using rs [of j] that by (simp add: reply_of_def terminal_def)
    then show False using loop_ok_last(1) [OF sent(2) that] by simp
  qed
  then have before: "?resp j \<noteq> Accepted (wb_seq b)" if "j < k" "k < length rs" for j k
    using that by simp
  have out: "?resp k = outcome_of (su k) (wb_seq b) (chosen (?st k))" "sv_faults (?st k) = sv_faults s"
    "ms_requests (sv_stats (?st k)) = ms_requests (sv_stats s) + k"
    "acked (?st (Suc k)) (wb_instance_id b) (iq_key rq) \<longleftrightarrow> ?resp k = Accepted (wb_seq b)"
    if "k < length rs" for k
    using until [OF before [OF _ that]] by blast+
  have "ct_exported c' = ct_exported c +
      (if acked (?st (length rs)) (wb_instance_id b) (iq_key rq) then 1 else 0)"
  proof (cases "rs = []")
    case True
    have "\<not> acked s (wb_instance_id b) (iq_key rq)"
      using del by (auto simp: deliverable_def acked_def split: option.splits)
    with True loop_ok_last(2) [OF sent(2)] show ?thesis by simp
  next
    case False
    then obtain k where k: "length rs = Suc k" by (cases rs) auto
    have "accepted_reply (rs ! k) \<longleftrightarrow> ?resp k = Accepted (wb_seq b)"
      using outcome_accepted [of "?st k" "su k" "wb_seq b"] faults rs [of k] out(1,2) [of k] k by simp
    then show ?thesis using loop_ok_last(2) [OF sent(2)] out(4) [of k] k False by simp
  qed
  with sent(1) rs out show ?thesis
    by (intro exI [of _ c'] exI [of _ waits] exI [of _ rs] conjI allI impI) simp_all
qed

text \<open>
  C9: the exporter and the ingest agree. The exporter retries one conforming batch against the mock,
  under any faults that answer with error statuses, any lost connections and any clocks: the loop
  returns, no attempt is refused by the conformance suite, and the exporter counts the batch as
  exported exactly when the ingest has acknowledged its key.
\<close>

theorem exporter_and_ingest_agree:
  assumes n: "normal cfg" and order: "\<And>xs. set (ml_range lib xs) = set xs"
    and fine: "request_fine cfg lib rq raw b"
    and con: "\<And>k. contract cfg (su_at (su k)) (iq_key rq) b"
    and del: "deliverable s (wb_instance_id b) (iq_key rq) (ml_sha lib raw) (wb_seq b)"
    and faults: "error_faults (sv_faults s)"
    and replies: "\<And>k. at_reply (orc k) = reply_of (attempt_response cfg lib su rq s k)"
  shows "\<exists>c' waits rs. sendWithRetry pt e orc start c = Some (c', waits, rs) \<and>
    list_all (\<lambda>k. \<nexists>status body. attempt_response cfg lib su rq s k = Refused status body) [0 ..< length rs] \<and>
    ct_exported c' = ct_exported c +
      (if acked (attempt_state cfg lib su rq s (length rs)) (wb_instance_id b) (iq_key rq) then 1 else 0)"
proof -
  obtain c' waits rs where run: "sendWithRetry pt e orc start c = Some (c', waits, rs)"
    "\<forall>k < length rs. rs ! k = reply_of (attempt_response cfg lib su rq s k) \<and>
       attempt_response cfg lib su rq s k =
         outcome_of (su k) (wb_seq b) (chosen (attempt_state cfg lib su rq s k)) \<and>
       sv_faults (attempt_state cfg lib su rq s k) = sv_faults s \<and>
       ms_requests (sv_stats (attempt_state cfg lib su rq s k)) = ms_requests (sv_stats s) + k"
    "ct_exported c' = ct_exported c +
      (if acked (attempt_state cfg lib su rq s (length rs)) (wb_instance_id b) (iq_key rq) then 1 else 0)"
    using delivery_run [OF assms, of pt e start c] by (elim exE conjE) (rule that)
  have "\<nexists>status body. attempt_response cfg lib su rq s k = Refused status body" if "k < length rs" for k
    using run(2) [rule_format, OF that] by (auto simp: outcome_of_def split: fault_kind.split)
  then show ?thesis using run(1,3) by (auto simp: list_all_iff)
qed

text \<open>An outage: the first requests fail or are dropped, and nothing else is injected.\<close>

definition outage :: "faults \<Rightarrow> int \<Rightarrow> bool" where
  "outage f until \<longleftrightarrow>
     ft_terminal_once f \<le> 0 \<and> ft_drop_every f \<le> 0 \<and> ft_every_nth f \<le> 0 \<and> ft_delay_ms f \<le> 0 \<and>
     ft_drop_first f \<le> until \<and> ft_fail_first f \<le> until \<and> retryableStatus (ft_fail_status f) \<and>
     400 \<le> ft_fail_status f \<and> 0 < ft_retry_after_sec f \<and> ft_retry_after_sec f \<le> 30 \<and>
     400 \<le> ft_every_nth_status f"

lemma outage_faults: "outage f until \<Longrightarrow> error_faults f"
  by (simp add: outage_def error_faults_def)

lemma outage_chosen:
  assumes "outage (sv_faults s) until"
  shows "in_delay (chosen s) \<le> 0" "in_retry_after (chosen s) \<le> 30"
    "in_kind (chosen s) = FaultStatus \<Longrightarrow> retryableStatus (in_status (chosen s))"
    "until < int (Suc (ms_requests (sv_stats s))) \<Longrightarrow> in_kind (chosen s) = FaultNone"
  using assms
  by (auto simp: chosen_def outage_def pick_fault_def delay_part_def with_retry_after_def
      status_fault_def drop_fault_def no_injection_def)

lemma retry_hint:
  assumes "0 < ra" "ra \<le> 30"
  shows "parseRetryAfter pt now (show_int ra) \<le> maxBackoff"
proof -
  have "atoi (show_int ra) = Some ra"
    by (rule atoi_show_int) (use assms in \<open>simp_all add: math_MinInt64_def math_MaxInt64_def\<close>)
  moreover have "secs_to_duration ra = ra * second"
  proof -
    have "secs_to_duration ra = wrap64 (ra * second)"
      by (simp add: secs_to_duration_def wrap64_def)
    also have "\<dots> = ra * second" by (rule wrap64_id) (use assms in \<open>simp_all add: second_def\<close>)
    finally show ?thesis .
  qed
  ultimately show ?thesis
    using assms digits_props [of "nat ra"]
    by (simp add: parseRetryAfter_def show_int_def clampRetryAfter_def maxBackoff_def second_def
        maxRetryAfter_def minute_def)
qed

text \<open>A reply of the mock during an outage asks for no more patience than the exporter has.\<close>

lemma outage_hint:
  assumes "outage (sv_faults st) until"
    and "reply = reply_of (outcome_of su seq (chosen st))"
    and "send pt now reply = Some (HTTPError code ra body)"
  shows "ra \<le> maxBackoff"
proof -
  have "ra = parseRetryAfter pt now [] \<or>
      in_retry_after (chosen st) > 0 \<and> ra = parseRetryAfter pt now (show_int (in_retry_after (chosen st)))"
    using assms(2,3) by (auto simp: send_def reply_of_def outcome_of_def split: if_splits fault_kind.splits)
  then show ?thesis
    using retry_hint outage_chosen(2) [OF assms(1)] by (auto simp: parseRetryAfter_def maxBackoff_def second_def)
qed

text \<open>A reply that ends the loop during an outage is the acceptance.\<close>

lemma outage_terminal:
  assumes "outage (sv_faults st) until" "terminal (reply_of (outcome_of su seq (chosen st)))"
  shows "outcome_of su seq (chosen st) = Accepted seq"
  using assms(2) outage_chosen(1,3) [OF assms(1)] chosen_status [OF outage_faults [OF assms(1)]]
  by (auto simp: terminal_def reply_of_def outcome_of_def retryableStatus_def split: fault_kind.splits if_splits)

lemma outage_delivers:
  assumes n: "normal cfg" and order: "\<And>xs. set (ml_range lib xs) = set xs"
    and fine: "request_fine cfg lib rq raw b"
    and con: "\<And>k. contract cfg (su_at (su k)) (iq_key rq) b"
    and del: "deliverable s (wb_instance_id b) (iq_key rq) (ml_sha lib raw) (wb_seq b)"
    and faults: "outage (sv_faults s) (int (ms_requests (sv_stats s)) + hx_max_retries e)"
    and retries: "0 \<le> hx_max_retries e"
    and replies: "\<And>k. at_reply (orc k) = reply_of (attempt_response cfg lib su rq s k)"
    and room: "\<And>k. \<not> at_shutdown (orc k) \<and> at_now (orc k) + maxBackoff \<le> start + hx_budget e"
  shows "\<exists>c' waits rs. sendWithRetry pt e orc start c = Some (c', waits, rs) \<and>
    ct_exported c' = ct_exported c + 1 \<and>
    acked (attempt_state cfg lib su rq s (length rs)) (wb_instance_id b) (iq_key rq)"
proof -
  let ?resp = "attempt_response cfg lib su rq s"
  let ?st = "attempt_state cfg lib su rq s"
  obtain c' waits rs where run: "sendWithRetry pt e orc start c = Some (c', waits, rs)"
    and at: "\<forall>k < length rs. rs ! k = reply_of (?resp k) \<and>
       ?resp k = outcome_of (su k) (wb_seq b) (chosen (?st k)) \<and> sv_faults (?st k) = sv_faults s \<and>
       ms_requests (sv_stats (?st k)) = ms_requests (sv_stats s) + k"
    and books: "ct_exported c' = ct_exported c +
      (if acked (?st (length rs)) (wb_instance_id b) (iq_key rq) then 1 else 0)"
    and last: "\<forall>k. length rs = Suc k \<longrightarrow>
       acked (?st (length rs)) (wb_instance_id b) (iq_key rq) = (?resp k = Accepted (wb_seq b))"
    using delivery_run [OF n order fine con del outage_faults [OF faults] replies, of pt e start c]
    by (elim exE conjE) (rule that)
  have o': "outage (sv_faults (?st k)) (int (ms_requests (sv_stats s)) + hx_max_retries e)"
    and out: "?resp k = outcome_of (su k) (wb_seq b) (chosen (?st k))" if "k < length rs" for k
    using at that faults by simp_all
  have hint: "ra \<le> maxBackoff" if "k < 0 + length rs"
    "send pt (at_reply_now (orc k)) (at_reply (orc k)) = Some (HTTPError code ra body)" for k code ra body
    using outage_hint [OF o' _ that(2)] out replies that(1) by simp
  have stops: "length rs = nat (hx_max_retries e + 1) \<or> rs \<noteq> [] \<and> terminal (List.last rs)"
    using send_loop_roomy [OF room run [unfolded sendWithRetry_def] _ hint]
    by (simp add: maxBackoff_def second_def)
  then obtain k where k: "length rs = Suc k" using retries by (cases rs) auto
  then have k': "k < length rs" "List.last rs = rs ! k"
    by (simp_all add: last_conv_nth flip: length_greater_0_conv)
  have "?resp k = Accepted (wb_seq b)"
  proof (cases "terminal (rs ! k)")
    case True
    then show ?thesis using outage_terminal [OF o' [OF k'(1)]] at out k'(1) by simp
  next
    case False
    then have "int k = hx_max_retries e" using stops k k'(2) retries by simp
    then show ?thesis
      using outage_chosen(1,4) [OF o' [OF k'(1)]] out at k'(1) by (simp add: outcome_of_def)
  qed
  then show ?thesis using run books last [rule_format, OF k] k by auto
qed

text \<open>
  C37: an outage shorter than the retries loses nothing. When the mock fails or drops only requests
  up to the exporter's last attempt, asks for at most 30 seconds of patience, and the attempts fit
  the retry budget, the batch is exported and acknowledged.
\<close>

theorem short_outage_loses_nothing:
  assumes n: "normal cfg" and order: "\<And>xs. set (ml_range lib xs) = set xs"
    and fine: "request_fine cfg lib rq raw b"
    and con: "\<And>k. contract cfg (su_at (su k)) (iq_key rq) b"
    and del: "deliverable s (wb_instance_id b) (iq_key rq) (ml_sha lib raw) (wb_seq b)"
    and faults: "outage (sv_faults s) (int (ms_requests (sv_stats s)) + hx_max_retries e)"
    and retries: "0 \<le> hx_max_retries e"
    and replies: "\<And>k. at_reply (orc k) = reply_of (attempt_response cfg lib su rq s k)"
    and room: "\<And>k. \<not> at_shutdown (orc k) \<and> at_now (orc k) + maxBackoff \<le> start + hx_budget e"
  shows "\<exists>c' waits rs. sendWithRetry pt e orc start c = Some (c', waits, rs) \<and>
    ct_exported c' = ct_exported c + 1 \<and>
    acked (attempt_state cfg lib su rq s (length rs)) (wb_instance_id b) (iq_key rq)"
  by (rule outage_delivers [OF assms])

subsection \<open>Witnesses\<close>

definition wit_lib :: mock_library where
  "wit_lib =
     \<lparr>ml_media = Some, ml_gunzip = (\<lambda>wire. Inr \<lparr>gz_bytes = wire, gz_err = None, gz_close = None\<rparr>),
      ml_sha = id, ml_decode = (\<lambda>raw. if raw = ''{}'' then Inr (wit_wire, False) else Inl ''bad''),
      ml_marshal = (\<lambda>seq fs total. None), ml_range = id\<rparr>"

definition wit_post :: ingest_request where
  "wit_post =
     \<lparr>iq_method = ''POST'', iq_path = ''/v1/batches'', iq_api_key = [],
      iq_content_type = ''application/json'', iq_key = ''a-4'', iq_encoding = ''gzip'',
      iq_content_length = 2, iq_body = ''{}'', iq_body_err = None\<rparr>"

definition wit_su :: surroundings where
  "wit_su = \<lparr>su_at = second, su_elapses = True, su_hijack = True\<rparr>"

text \<open>A server whose first answer is 500, and one without faults.\<close>

definition wit_server :: "int \<Rightarrow> server" where
  "wit_server fails = fresh_server (no_faults\<lparr>ft_fail_first := fails\<rparr>) 0"

definition wit_attempts :: "nat \<Rightarrow> attempt_env" where
  "wit_attempts k =
     \<lparr>at_now = 0, at_draw = 0, at_shutdown = False,
      at_reply = reply_of (attempt_response wit_mock wit_lib (\<lambda>_. wit_su) wit_post (wit_server 1) k),
      at_reply_now = 0\<rparr>"

definition wit_exporter :: http_exporter where
  "wit_exporter =
     NewHTTPExporter \<lparr>xc_mode = ''http'', xc_endpoint = ''http://ingest'', xc_api_key = [],
       xc_queue_size = 0, xc_max_retries = 3, xc_base_delay = 0, xc_timeout = 0, xc_path = [],
       xc_max_mb = 0, xc_max_backups = 0, xc_sync = False\<rparr>"

lemma wit_body: "trimSpace ''{}'' = ''{}''"
  by (rule trimSpace_solid) (simp_all add: solid_def)

lemma wit_delivery_facts:
  "normal wit_mock" "request_fine wit_mock wit_lib wit_post ''{}'' wit_wire"
  "contract wit_mock (su_at wit_su) (iq_key wit_post) wit_wire"
  "deliverable (wit_server n) (wb_instance_id wit_wire) (iq_key wit_post) (ml_sha wit_lib ''{}'')
     (wb_seq wit_wire)"
  "set (ml_range wit_lib xs) = set xs"
proof -
  show "normal wit_mock" by (simp add: normal_def wit_mock_def)
  show "request_fine wit_mock wit_lib wit_post ''{}'' wit_wire"
    by (simp add: request_fine_def body_of_def wit_mock_def wit_lib_def wit_post_def wit_body)
  have "envelope_ok wit_mock second ''a-4'' wit_wire" "sections_ok wit_mock wit_wire" "data_ok wit_wire"
    "truncation_ok wit_wire" "agent_ok wit_wire" by code_simp+
  then show "contract wit_mock (su_at wit_su) (iq_key wit_post) wit_wire"
    by (simp add: contract_def wit_su_def wit_post_def)
  show "deliverable (wit_server n) (wb_instance_id wit_wire) (iq_key wit_post) (ml_sha wit_lib ''{}'')
     (wb_seq wit_wire)"
    by (simp add: deliverable_def delivery_of_def last_acked_def wit_server_def fresh_server_def wit_wire_def)
  show "set (ml_range wit_lib xs) = set xs" by (simp add: wit_lib_def)
qed

lemma wit_first: "outcome_of wit_su (wb_seq wit_wire) (chosen (wit_server 0)) = Accepted (wb_seq wit_wire)"
  by (simp add: outcome_of_def chosen_def pick_fault_def delay_part_def with_retry_after_def wit_server_def
      fresh_server_def withDefaults_def no_faults_def no_injection_def)

lemma wit_outage:
  "outage (sv_faults (wit_server 1)) (int (ms_requests (sv_stats (wit_server 1))) + hx_max_retries wit_exporter)"
  by code_simp

lemma wit_post_key: "iq_key wit_post = ''a-4''" "wb_instance_id wit_wire = ''a''"
  by (simp_all add: wit_post_def wit_wire_def)

lemma wit_room: "maxBackoff \<le> hx_budget wit_exporter" "0 \<le> hx_max_retries wit_exporter"
  by code_simp+


theorem exporter_and_ingest_agree_witness:
  "\<exists>c' waits rs. sendWithRetry (\<lambda>_. None) wit_exporter wit_attempts 0 zero_counters = Some (c', waits, rs) \<and>
    list_all (\<lambda>k. \<nexists>status body.
      attempt_response wit_mock wit_lib (\<lambda>_. wit_su) wit_post (wit_server 1) k = Refused status body)
      [0 ..< length rs] \<and>
    ct_exported c' = ct_exported zero_counters +
      (if acked (attempt_state wit_mock wit_lib (\<lambda>_. wit_su) wit_post (wit_server 1) (length rs)) ''a'' ''a-4''
       then 1 else 0)"
  using exporter_and_ingest_agree [where su = "\<lambda>_. wit_su" and orc = wit_attempts and pt = "\<lambda>_. None" and
      e = wit_exporter and start = 0 and c = zero_counters,
      OF wit_delivery_facts(1,5,2,3) wit_delivery_facts(4) [of 1]]
  by (simp add: wit_attempts_def outage_faults [OF wit_outage] wit_post_key)

theorem short_outage_loses_nothing_witness:
  "\<exists>c' waits rs. sendWithRetry (\<lambda>_. None) wit_exporter wit_attempts 0 zero_counters = Some (c', waits, rs) \<and>
    ct_exported c' = ct_exported zero_counters + 1 \<and>
    acked (attempt_state wit_mock wit_lib (\<lambda>_. wit_su) wit_post (wit_server 1) (length rs)) ''a'' ''a-4''"
  using short_outage_loses_nothing [where su = "\<lambda>_. wit_su" and orc = wit_attempts and pt = "\<lambda>_. None" and
      e = wit_exporter and start = 0 and c = zero_counters,
      OF wit_delivery_facts(1,5,2,3) wit_delivery_facts(4) [of 1]]
  by (simp add: wit_attempts_def wit_outage wit_post_key wit_room)

end
