(* ===== verification/Conformance.thy ===== *)
theory Conformance
  imports Agent Mock_Delivery
begin

text \<open>
  The collector, the agent and the ingest together: which batches the agent ships satisfy the
  contract the conformance suite of \<open>src/internal/mockingest\<close> decides (\<open>contract\<close>). What the code
  itself owes is proved of every batch: the envelope's version and key, the names, the order, the
  statuses and the error counts of the sections, the attribution of the errors, the truncation
  block, the agent's counters, and the counts and signs of the inventories. What is left is named:
  \<open>surroundings_ok\<close> collects what clocks, the build and the configuration decide, and \<open>answers_ok\<close>
  what the brokers' answers decide.
\<close>

subsection \<open>What the phases owe\<close>

lemma cluster_count:
  "fst (collectCluster c answer) = Some cl \<Longrightarrow> cl_broker_count cl = length (cl_brokers cl)"
  by (auto simp: collectCluster_def Let_def split: prod.splits if_splits)

lemma topic_counts:
  assumes "t \<in> set (fst (collectTopics c cl tds r))"
  shows "t_partition_count t = length (t_partitions t)"
    "p \<in> set (t_partitions t) \<Longrightarrow> nonneg_opt (p_start_offset p) \<and>
       nonneg_opt (p_last_stable_offset p) \<and> nonneg_opt (p_end_offset p)"
proof -
  have ne: "selected c tds \<noteq> []" using assms collectTopics_empty by (metis empty_iff empty_set)
  then obtain l where tds: "tds = Some l" by (cases tds) (auto simp: selected_def)
  have "fst (collectTopics c cl tds r) =
      map (topic_of (the_samples c cl r (map td_topic (selected c tds)))) (selected c tds)"
    using collectTopics_eq ne tds by (simp add: Let_def)
  then obtain sp td where t: "t = topic_of sp td" using assms by auto
  then show "t_partition_count t = length (t_partitions t)" by (simp add: topic_of_def)
  show "nonneg_opt (p_start_offset p) \<and> nonneg_opt (p_last_stable_offset p) \<and>
      nonneg_opt (p_end_offset p)" if "p \<in> set (t_partitions t)"
    using topic_offsets_nonneg that unfolding t by blast
qed

lemma group_counts:
  assumes "g \<in> set (fst (collectGroups c dgs dcgs ids types err at))"
  shows "g_member_count g = length (g_members g)"
proof -
  define sec where "sec = snd (request (cn_codes c) ''DescribeGroups'' (snd (dgs ids))
    (snd (request (cn_codes c) ''ListGroups'' err (c_newSectionAt (cn_limits c) ''groups'' at))))"
  define described where "described = fst (dgs ids)"
  have "fst (collectGroups c dgs dcgs ids types err at) = [] \<or>
      fst (collectGroups c dgs dcgs ids types err at) =
        fst (enrichConsumerGroups c dcgs (map (build_group types) described)
          (snd (build_groups (cn_codes c) types described sec)))"
    by (simp add: collectGroups_def Let_def split_beta build_groups_fst sec_def described_def)
  then obtain sec' where g: "g \<in> set (fst (enrichConsumerGroups c dcgs
      (map (build_group types) described) sec'))"
    using assms by auto
  have "list_all2 overlays (map (build_group types) described)
      (fst (enrichConsumerGroups c dcgs (map (build_group types) described) sec'))"
    by (rule enrich_overlays)
  then obtain d where o': "overlays (build_group types d) g"
    using g unfolding list_all2_map1 by (auto simp: list_all2_conv_all_nth in_set_conv_nth)
  show ?thesis unfolding overlays_members(4,5) [OF o'] by (simp add: build_group_def Let_def)
qed

definition rows_of :: "consumer_offset \<Rightarrow> partition_offset list" where
  "rows_of co = (case co_offsets co of None \<Rightarrow> [] | Some rows \<Rightarrow> rows)"

lemma offset_counts:
  assumes "co \<in> set (fst (collectOffsets c fetch ids err internal))"
  shows "co_offset_count co = length (rows_of co)" "po \<in> set (rows_of co) \<Longrightarrow> nonneg_opt (po_offset po)"
proof -
  have "ids \<noteq> []" using assms by (auto simp: collectOffsets_def Let_def)
  from conjunct2 [OF collectOffsets_rows [OF this, of c fetch err internal]] assms
  have "case co_offsets co of None \<Rightarrow> co_offset_count co = 0
       | Some rows \<Rightarrow> co_error_code co = 0 \<and> co_offset_count co = length rows \<and>
           (\<forall>po \<in> set rows. offset_kept c internal (po_topic po) \<and> nonneg_opt (po_offset po))" by blast
  then show "co_offset_count co = length (rows_of co)" "po \<in> set (rows_of co) \<Longrightarrow> nonneg_opt (po_offset po)"
    by (simp_all add: rows_of_def split: option.splits)
qed

text \<open>The inventories of a collected batch are the phases'.\<close>

lemma Collect_inventories:
  obtains ids types err at ids' err' internal tds r where
    "ba_cluster (fst (Collect c env st)) = fst (collectCluster c (ce_metadata env))"
    "ba_groups (fst (Collect c env st)) =
       fst (collectGroups c (ce_describe env) (ce_describe_consumer env) ids types err at)"
    "ba_offsets (fst (Collect c env st)) = fst (collectOffsets c (ce_fetch env) ids' err' internal)"
    "map no_window (ba_topics (fst (Collect c env st))) =
       map no_window (fst (collectTopics c (ce_lists env) tds r))"
proof -
  obtain n probed where st: "st = (n, probed)" by (cases st)
  define v where "v = collect_vars c env (cadence_of (cn_opts c) n) probed"
  note vars = collect_vars_fix [OF v_def]
  have keep: "ba_cluster (finalize c b secs) = ba_cluster b" "ba_groups (finalize c b secs) = ba_groups b"
    "ba_offsets (finalize c b secs) = ba_offsets b" "ba_topics (finalize c b secs) = ba_topics b" for b secs
    by (simp_all add: finalize_def split_beta Let_def)
  have b: "fst (Collect c env st) = assemble c env v" by (simp add: Collect_def st Let_def flip: v_def)
  have topics: "map no_window (fst (attach_window c v)) = map no_window (v_topics v)"
    by (simp add: attach_window_def attach_def attachTopics_frame split_beta split: option.split)
  have fst4: "ba_cluster (fst (Collect c env st)) = v_cluster v"
    "ba_groups (fst (Collect c env st)) = v_groups v" "ba_offsets (fst (Collect c env st)) = v_offsets v"
    "map no_window (ba_topics (fst (Collect c env st))) = map no_window (v_topics v)"
    by (simp_all add: b assemble_def keep draft_batch_def topics)
  show ?thesis
    by (rule that) (unfold fst4, rule arg_cong [OF vars(1), of fst, unfolded fst_conv],
      rule arg_cong [OF vars(4), of fst, unfolded fst_conv],
      rule arg_cong [OF vars(5), of fst, unfolded fst_conv],
      rule arg_cong [OF arg_cong [OF vars(6), of fst, unfolded fst_conv]])
qed

text \<open>The truncation block of a collected batch, over its sections.\<close>

lemma Collect_truncated:
  "ba_truncation (fst (Collect c env st)) =
     (let secs = ba_sections (fst (Collect c env st));
          t = \<lparr>tr_collapsed = sum_list (map sw_errors_collapsed secs),
               tr_dropped = sum_list (map sw_errors_dropped secs)\<rparr>
      in if t = no_truncation then None else Some t)"
  by (rule Collect_blocks [of c env st]) (simp add: finish_def comp_def Let_def)

lemma Collect_selection:
  "ba_selection (fst (Collect c env st)) = selection_of (cn_opts c)"
  by (simp add: Collect_def split_beta Let_def assemble_def finalize_def)

subsection \<open>A batch, decoded\<close>

lemma decoded_key: "ba_seq b < 2 ^ 64 \<Longrightarrow> wireKey (decoded b) = idempotencyKey b"
  by (simp add: wireKey_def idempotencyKey_def decoded_def unat_of_nat)

lemma decoded_no_window: "decoded_topic (no_window t) = decoded_topic t"
  by (simp add: decoded_topic_def no_window_def decoded_partition_def comp_def)

lemma decoded_found:
  "map_of (map (\<lambda>s. (ws_name s, s)) (map decoded_section secs)) name =
     map_option decoded_section (map_of (map (\<lambda>s. (sw_name s, s)) secs) name)"
  by (induction secs) (simp_all add: decoded_section_def)

lemma section_sum_nat:
  assumes "\<And>s. f (decoded_section s) = int (g s)" "wb_sections b = map decoded_section secs"
    and "int (sum_list (map g secs)) \<le> math_MaxInt64"
  shows "section_sum f b = int (sum_list (map g secs))"
proof -
  have "fold (\<lambda>sec n. add64 n (f sec)) (map decoded_section ss) (int m) = int (m + sum_list (map g ss))"
    if "int (m + sum_list (map g ss)) \<le> math_MaxInt64" for ss m
    using that
  proof (induction ss arbitrary: m)
    case (Cons s ss)
    have "add64 (int m) (f (decoded_section s)) = int (m + g s)"
      using Cons.prems assms(1) by (simp add: add64_def wrap64_id math_MaxInt64_def)
    with Cons.IH [of "m + g s"] Cons.prems show ?case by (simp add: add.assoc)
  qed simp
  from this [of 0 secs] assms(2,3) show ?thesis by (simp add: section_sum_def)
qed

lemma canon_default:
  assumes "mc_sections cfg = DefaultSections"
  shows "List.map_filter (canon cfg) sectionNames = [0 ..< length sectionNames]"
proof -
  have "canon cfg = map_of (rev (zip sectionNames [0 ..< length sectionNames]))"
    by (simp add: canon_def fun_eq_iff assms DefaultSections_eq)
  moreover have "List.map_filter (map_of (rev (zip sectionNames [0 ..< length sectionNames]))) sectionNames =
      [0 ..< length sectionNames]" by code_simp
  ultimately show ?thesis by simp
qed

lemma sectionNames_ne: "[] \<notin> set sectionNames" and distinct_sectionNames: "distinct sectionNames"
  by (simp_all add: sectionNames_def)

lemma status_text_valid: "status_text st \<in> set validStatuses"
  by (cases st) (simp_all add: validStatuses_def)

lemma map_filter_comp: "List.map_filter f (map g xs) = List.map_filter (\<lambda>x. f (g x)) xs"
  by (induction xs) (simp_all split: option.split)

subsection \<open>What is left to the surroundings and to the brokers\<close>

text \<open>The build, the configured identity, the clocks, the errors' texts and the selection's entries.\<close>

definition sampled :: "batch \<Rightarrow> string \<Rightarrow> gotime" where
  "sampled b name =
     (case map_of (map (\<lambda>s. (sw_name s, s)) (ba_sections b)) name of
        None \<Rightarrow> 0 | Some s \<Rightarrow> sw_sampled_at s)"

definition surroundings_ok :: "mock_config \<Rightarrow> gotime \<Rightarrow> batch \<Rightarrow> bool" where
  "surroundings_ok cfg now b \<longleftrightarrow>
     ba_agent_version b \<noteq> [] \<and> ba_instance_id b \<noteq> [] \<and> ba_collected_at b \<noteq> 0 \<and>
     \<not> mc_clock_skew cfg < time_sub (ba_collected_at b) now \<and>
     \<not> mc_clock_skew cfg < wrap64 (- time_sub (ba_collected_at b) now) \<and> 0 \<le> ba_collection_ms b \<and>
     list_all (\<lambda>s. sw_sampled_at s \<noteq> 0 \<and> 0 \<le> sw_duration_ms s) (ba_sections b) \<and>
     sampled b ''topics'' \<le> sampled b ''topics_end'' \<and>
     list_all (\<lambda>e. ce_message e \<noteq> []) (ba_errors b) \<and>
     (case ba_selection b of None \<Rightarrow> True
      | Some s \<Rightarrow> list_all (\<lambda>e. trimSpace e \<noteq> []) (sel_topic_include s @ sel_topic_exclude s @
          sel_group_include s @ sel_group_exclude s))"

text \<open>Names given twice, offsets that run backwards, and directories with impossible figures.\<close>

definition answers_ok :: "wbatch \<Rightarrow> bool" where
  "answers_ok b \<longleftrightarrow>
     distinct (map wtp_name (wb_topics b)) \<and>
     list_all (\<lambda>t. distinct (map wp_id (wtp_partitions t)) \<and>
       list_all (\<lambda>p. \<not> below (wp_end p) (wp_start p)) (wtp_partitions t)) (wb_topics b) \<and>
     distinct (map wg_id (wb_groups b)) \<and> distinct (concat (map consumer_keys (wb_offsets b))) \<and>
     distinct (map (\<lambda>d. (wd_broker d, wd_dir d)) (wb_log_dirs b)) \<and> list_all dir_ok (wb_log_dirs b)"

subsection \<open>The blocks of the contract\<close>

lemma stamp_fields [simp]:
  "ba_sections (stamp a now b) = ba_sections b" "ba_errors (stamp a now b) = ba_errors b"
  "ba_truncation (stamp a now b) = ba_truncation b" "ba_selection (stamp a now b) = ba_selection b"
  "ba_topics (stamp a now b) = ba_topics b" "ba_groups (stamp a now b) = ba_groups b"
  "ba_offsets (stamp a now b) = ba_offsets b" "ba_log_dirs (stamp a now b) = ba_log_dirs b"
  "ba_schema_version (stamp a now b) = schema_version"
  "ba_cluster (stamp a now b) = map_option (\<lambda>cl. cl\<lparr>cl_capabilities := ag_caps a\<rparr>) (ba_cluster b)"
  by (simp_all add: stamp_def Let_def)

lemma decoded_sections:
  assumes names: "map sw_name (ba_sections b) = sectionNames"
    and counts: "list_all (\<lambda>sw. sw_error_count sw =
       int (length (filter (\<lambda>e. ce_section e = sw_name sw) (ba_errors b)))) (ba_sections b)"
    and attributed: "ce_section ` set (ba_errors b) \<subseteq> set sectionNames"
    and cfg: "mc_sections cfg = DefaultSections"
  shows "sections_ok cfg (decoded b) \<longleftrightarrow>
    list_all (\<lambda>s. sw_sampled_at s \<noteq> 0 \<and> 0 \<le> sw_duration_ms s) (ba_sections b) \<and>
    sampled b ''topics'' \<le> sampled b ''topics_end'' \<and> list_all (\<lambda>e. ce_message e \<noteq> []) (ba_errors b)"
proof -
  let ?w = "decoded b"
  have secs: "wb_sections ?w = map decoded_section (ba_sections b)" "wb_errors ?w = map decoded_error (ba_errors b)"
    by (simp_all add: decoded_def)
  have n: "names_of ?w = sectionNames"
    by (simp add: names_of_def secs comp_def decoded_section_def names)
  have rows: "list_all row_ok (wb_sections ?w) \<longleftrightarrow>
      list_all (\<lambda>s. sw_sampled_at s \<noteq> 0 \<and> 0 \<le> sw_duration_ms s) (ba_sections b)"
  proof -
    have "sw_name s \<noteq> []" if "s \<in> set (ba_sections b)" for s
      using that names [symmetric] by (metis (no_types) image_eqI list.set_map sectionNames_ne)
    then show ?thesis
      by (auto simp: secs list_all_iff row_ok_def decoded_section_def status_text_valid)
  qed
  have "positions cfg (wb_sections ?w) = map int (List.map_filter (canon cfg) sectionNames)"
    by (simp add: positions_def secs map_filter_comp decoded_section_def flip: names)
  then have pos: "sorted_wrt (<) (positions cfg (wb_sections ?w))"
    unfolding canon_default [OF cfg] by (simp add: sorted_wrt_map)
  have found: "found ?w name = map_option decoded_section (map_of (map (\<lambda>s. (sw_name s, s)) (ba_sections b)) name)"
    for name unfolding found_def secs by (rule decoded_found)
  have some: "\<exists>s. map_of (map (\<lambda>s. (sw_name s, s)) (ba_sections b)) name = Some s"
    if "name \<in> set sectionNames" for name
  proof -
    have "name \<in> sw_name ` set (ba_sections b)" using that unfolding names [symmetric] by simp
    then have "map_of (map (\<lambda>s. (sw_name s, s)) (ba_sections b)) name \<noteq> None"
      by (simp add: map_of_eq_None_iff image_image)
    then show ?thesis by blast
  qed
  obtain t e where te: "map_of (map (\<lambda>s. (sw_name s, s)) (ba_sections b)) ''topics'' = Some t"
    "map_of (map (\<lambda>s. (sw_name s, s)) (ba_sections b)) ''topics_end'' = Some e"
    using some [of "''topics''"] some [of "''topics_end''"] by (auto simp: sectionNames_def)
  have errs: "list_all (\<lambda>e. we_section e \<in> set (names_of ?w) \<and> we_message e \<noteq> []) (wb_errors ?w) \<longleftrightarrow>
      list_all (\<lambda>e. ce_message e \<noteq> []) (ba_errors b)"
    using attributed unfolding n by (auto simp: secs list_all_iff decoded_error_def)
  have cnt: "list_all (\<lambda>s. ws_error_count s = counted ?w (ws_name s)) (wb_sections ?w)"
    using counts by (simp add: secs list_all_iff counted_def decoded_section_def filter_map comp_def decoded_error_def)
  show ?thesis
    unfolding sections_ok_def
    by (simp add: rows n pos errs [unfolded n] cnt cfg DefaultSections_eq found te sampled_def decoded_section_def
        distinct_sectionNames)
qed

lemma decoded_truncated:
  assumes trunc: "ba_truncation b =
     (let t = \<lparr>tr_collapsed = sum_list (map sw_errors_collapsed (ba_sections b)),
               tr_dropped = sum_list (map sw_errors_dropped (ba_sections b))\<rparr>
      in if t = no_truncation then None else Some t)"
    and sel: "ba_selection b = selection_of op"
    and fits: "int (sum_list (map sw_errors_collapsed (ba_sections b))) \<le> math_MaxInt64"
      "int (sum_list (map sw_errors_dropped (ba_sections b))) \<le> math_MaxInt64"
  shows "truncation_ok (decoded b) \<longleftrightarrow>
    (case ba_selection b of None \<Rightarrow> True
     | Some s \<Rightarrow> list_all (\<lambda>e. trimSpace e \<noteq> []) (sel_topic_include s @ sel_topic_exclude s @
         sel_group_include s @ sel_group_exclude s))"
proof -
  have "wb_sections (decoded b) = map decoded_section (ba_sections b)" by (simp add: decoded_def)
  then have sums: "section_sum ws_errors_collapsed (decoded b) = int (sum_list (map sw_errors_collapsed (ba_sections b)))"
    "section_sum ws_errors_dropped (decoded b) = int (sum_list (map sw_errors_dropped (ba_sections b)))"
    using fits by (auto intro!: section_sum_nat simp: decoded_section_def)
  have counts: "list_all (\<lambda>e. 0 \<le> we_count e) (wb_errors (decoded b))"
    by (simp add: decoded_def decoded_error_def list_all_iff)
  have block: "case wb_truncation (decoded b) of None \<Rightarrow> True
      | Some t \<Rightarrow> (wt_collapsed t \<noteq> 0 \<or> wt_dropped t \<noteq> 0) \<and>
          wt_collapsed t = section_sum ws_errors_collapsed (decoded b) \<and>
          wt_dropped t = section_sum ws_errors_dropped (decoded b)"
    unfolding sums by (auto simp: decoded_def trunc decoded_truncation_def no_truncation_def Let_def)
  have nonempty: "ba_selection b = Some s \<Longrightarrow> sel_topic_include s \<noteq> [] \<or> sel_topic_exclude s \<noteq> [] \<or>
      sel_group_include s \<noteq> [] \<or> sel_group_exclude s \<noteq> [] \<or> sel_group_states s \<noteq> [] \<or> sel_include_internal s" for s
    by (auto simp: sel selection_of_def Let_def split: if_splits)
  have selection: "wb_selection (decoded b) = ba_selection b" by (simp add: decoded_def)
  show ?thesis
    using counts block nonempty
    by (cases "ba_selection b") (simp_all add: truncation_ok_def selection selection_ok_wire_def)
qed

lemma decoded_data:
  assumes cluster: "\<And>cl. ba_cluster b = Some cl \<Longrightarrow> cl_broker_count cl = length (cl_brokers cl)"
    and topics: "map no_window (ba_topics b) = map no_window ts"
      "\<And>t. t \<in> set ts \<Longrightarrow> t_partition_count t = length (t_partitions t)"
      "\<And>t p. t \<in> set ts \<Longrightarrow> p \<in> set (t_partitions t) \<Longrightarrow> nonneg_opt (p_start_offset p) \<and>
         nonneg_opt (p_last_stable_offset p) \<and> nonneg_opt (p_end_offset p)"
    and groups: "\<And>g. g \<in> set (ba_groups b) \<Longrightarrow> g_member_count g = length (g_members g)"
    and offsets: "\<And>co. co \<in> set (ba_offsets b) \<Longrightarrow> co_offset_count co = length (rows_of co)"
      "\<And>co po. co \<in> set (ba_offsets b) \<Longrightarrow> po \<in> set (rows_of co) \<Longrightarrow> nonneg_opt (po_offset po)"
  shows "data_ok (decoded b) \<longleftrightarrow> answers_ok (decoded b)"
proof -
  have neg: "negative v \<longleftrightarrow> \<not> nonneg_opt v" for v by (auto simp: negative_def nonneg_opt_def split: option.splits)
  have "map decoded_topic (ba_topics b) = map decoded_topic ts"
    using arg_cong [OF topics(1), of "map decoded_topic"] by (simp add: comp_def decoded_no_window)
  then have t: "wb_topics (decoded b) = map decoded_topic ts" by (simp add: decoded_def)
  have topic: "topic_ok (decoded_topic x) \<longleftrightarrow> distinct (map wp_id (wtp_partitions (decoded_topic x))) \<and>
      list_all (\<lambda>p. \<not> below (wp_end p) (wp_start p)) (wtp_partitions (decoded_topic x))" if "x \<in> set ts" for x
    using topics(2,3) [OF that]
    by (auto simp: topic_ok_def decoded_topic_def partition_ok_def list_all_iff decoded_partition_def neg)
  have "list_all (\<lambda>g. wg_member_count g = int (wg_members g)) (wb_groups (decoded b))"
    using groups by (auto simp: decoded_def decoded_group_def list_all_iff)
  moreover have "list_all (\<lambda>co. wc_offset_count co = int (length (wc_offsets co)) \<and>
       list_all (\<lambda>po. \<not> negative (wof_committed po)) (wc_offsets co)) (wb_offsets (decoded b))"
    using offsets by (auto simp: decoded_def decoded_consumer_def list_all_iff neg rows_of_def)
  moreover have "case wb_cluster (decoded b) of None \<Rightarrow> True | Some cl \<Rightarrow> wcl_broker_count cl = int (wcl_brokers cl)"
    using cluster by (auto simp: decoded_def split: option.split)
  moreover have "list_all topic_ok (wb_topics (decoded b)) \<longleftrightarrow>
      list_all (\<lambda>t. distinct (map wp_id (wtp_partitions t)) \<and>
       list_all (\<lambda>p. \<not> below (wp_end p) (wp_start p)) (wtp_partitions t)) (wb_topics (decoded b))"
    using topic by (simp add: t list_all_iff)
  ultimately show ?thesis by (simp add: data_ok_def answers_ok_def)
qed

lemma of_nat_word_mono: "m \<le> n \<Longrightarrow> n < 2 ^ 64 \<Longrightarrow> (of_nat m :: 64 word) \<le> of_nat n"
  by (simp add: word_le_nat_alt unat_of_nat)

lemma stamped_counters:
  assumes seq: "ag_seq a = Suc n" "ag_seq a < 2 ^ 64"
    and books: "settled (pipe_counters (ag_exporter a)) \<le> n"
  shows "agent_ok (decoded (stamp a now b))"
proof -
  let ?s = "pipe_stats (ag_exporter a)"
  have st: "st_exported ?s + st_dropped ?s + st_rejected ?s = settled (pipe_counters (ag_exporter a))"
    by (cases "ag_exporter a")
      (simp_all add: pipe_stats_def pipe_counters_def HTTPStats_def counters_snapshot_def settled_def)
  have le: "st_exported ?s + st_dropped ?s + st_rejected ?s < ag_seq a" using st books seq by simp
  have e: "(of_nat (st_exported ?s) :: 64 word) < of_nat (ag_seq a)"
    using le seq(2) by (simp add: word_less_nat_alt unat_of_nat)
  have "(of_nat (st_exported ?s) + of_nat (st_dropped ?s) + of_nat (st_rejected ?s) :: 64 word) =
      of_nat (st_exported ?s + st_dropped ?s + st_rejected ?s)" by simp
  also have "\<dots> \<le> of_nat (ag_seq a)" using le seq(2) by (intro of_nat_word_mono) simp_all
  finally show ?thesis
    using e by (simp add: agent_ok_def decoded_def decoded_agent_def stamp_def Let_def settled_sum_def)
qed

lemma shipped_batch:
  assumes "cy_batch cy = Some b0" "runCycle a cy = Some (a', Some b)"
  obtains "b = stamp (a\<lparr>ag_seq := ag_seq a + 1\<rparr>) (cy_now cy) b0" "ag_seq a' = ag_seq a + 1" "\<not> cy_stopped cy"
  using assms by (auto simp: runCycle_def Let_def split: if_splits option.splits)

lemma shipped_conforms:
  assumes cycle: "cy_batch cy = Some (fst (Collect c env st))" "runCycle a cy = Some (a', Some b)"
    and books: "settled (pipe_counters (ag_exporter a)) \<le> ag_seq a" "ag_seq a' < 2 ^ 64"
    and fits: "int (sum_list (map sw_errors_collapsed (ba_sections b))) \<le> math_MaxInt64"
      "int (sum_list (map sw_errors_dropped (ba_sections b))) \<le> math_MaxInt64"
    and cfg: "mc_sections cfg = DefaultSections"
  shows "contract cfg now (idempotencyKey b) (decoded b) \<longleftrightarrow>
    surroundings_ok cfg now b \<and> answers_ok (decoded b)"
proof -
  let ?b0 = "fst (Collect c env st)"
  define a1 where "a1 = a\<lparr>ag_seq := ag_seq a + 1\<rparr>"
  have b: "b = stamp a1 (cy_now cy) ?b0" and seq: "ag_seq a' = Suc (ag_seq a)"
    using shipped_batch [OF cycle] by (auto simp: a1_def)
  have n: "ba_seq b = Suc (ag_seq a)" by (simp add: b a1_def)
  note all = Collect_books [of c env st]
  have secs: "sections_ok cfg (decoded b) \<longleftrightarrow>
      list_all (\<lambda>s. sw_sampled_at s \<noteq> 0 \<and> 0 \<le> sw_duration_ms s) (ba_sections b) \<and>
      sampled b ''topics'' \<le> sampled b ''topics_end'' \<and> list_all (\<lambda>e. ce_message e \<noteq> []) (ba_errors b)"
    using all by (intro decoded_sections) (simp_all add: b cfg)
  have trunc: "truncation_ok (decoded b) \<longleftrightarrow>
      (case ba_selection b of None \<Rightarrow> True
       | Some s \<Rightarrow> list_all (\<lambda>e. trimSpace e \<noteq> []) (sel_topic_include s @ sel_topic_exclude s @
           sel_group_include s @ sel_group_exclude s))"
    using Collect_truncated Collect_selection fits by (intro decoded_truncated) (simp_all add: b Let_def)
  have data: "data_ok (decoded b) \<longleftrightarrow> answers_ok (decoded b)"
  proof (rule Collect_inventories [of c env st])
    fix ids types err at ids' err' internal tds r
    assume inv: "ba_cluster ?b0 = fst (collectCluster c (ce_metadata env))"
      "ba_groups ?b0 = fst (collectGroups c (ce_describe env) (ce_describe_consumer env) ids types err at)"
      "ba_offsets ?b0 = fst (collectOffsets c (ce_fetch env) ids' err' internal)"
      "map no_window (ba_topics ?b0) = map no_window (fst (collectTopics c (ce_lists env) tds r))"
    show ?thesis
      by (rule decoded_data [of _ "fst (collectTopics c (ce_lists env) tds r)"])
        (auto simp: b inv topic_counts group_counts offset_counts dest: cluster_count)
  qed
  have agent: "agent_ok (decoded b)"
    unfolding b by (rule stamped_counters [of _ "ag_seq a"]) (use books seq in \<open>simp_all add: a1_def\<close>)
  have key: "wireKey (decoded b) = idempotencyKey b"
    using books(2) seq n by (intro decoded_key) simp
  have "unat (wb_seq (decoded b)) = Suc (ag_seq a)"
    using books(2) seq n by (simp add: decoded_def unat_of_nat del: of_nat_Suc)
  then have "wb_seq (decoded b) \<noteq> 0" by auto
  then have env: "envelope_ok cfg now (idempotencyKey b) (decoded b) \<longleftrightarrow>
      ba_agent_version b \<noteq> [] \<and> ba_instance_id b \<noteq> [] \<and> ba_collected_at b \<noteq> 0 \<and>
      \<not> mc_clock_skew cfg < time_sub (ba_collected_at b) now \<and>
      \<not> mc_clock_skew cfg < wrap64 (- time_sub (ba_collected_at b) now) \<and> 0 \<le> ba_collection_ms b"
    using key by (simp add: envelope_ok_def) (simp add: decoded_def b)
  show ?thesis
    unfolding contract_def secs trunc data env surroundings_ok_def using agent by blast
qed

text \<open>The books of the agent stay in order: what is settled was handed over before.\<close>

lemma books_after_run:
  assumes "pipe_ok (ag_exporter a)"
    and "settled (pipe_counters (ag_exporter a)) + pipe_pending (ag_exporter a) \<le> ag_seq a"
    and "run_cycles a cys = Some (a', bs)"
  shows "settled (pipe_counters (ag_exporter a')) + pipe_pending (ag_exporter a') \<le> ag_seq a'"
proof -
  have "length (filter (\<lambda>cy. ships cy \<and> cy_ctx cy = None) cys) \<le> length (filter ships cys)"
    by (induction cys) auto
  then show ?thesis using run_cycles_spec [OF assms(1), of cys] assms(2,3) by auto
qed

subsection \<open>On the wire\<close>

text \<open>
  The request \<open>send\<close> posts, as the server's handler sees it: \<open>bytes.NewReader\<close> sets the content
  length, and the headers are those of \<open>request_headers\<close>.
\<close>

definition posted_request :: "string \<Rightarrow> http_exporter \<Rightarrow> queued \<Rightarrow> ingest_request" where
  "posted_request path e q =
     (let header = (\<lambda>name. case map_of (request_headers e q) name of None \<Rightarrow> [] | Some v \<Rightarrow> v)
      in \<lparr>iq_method = ''POST'', iq_path = path, iq_api_key = header ''X-API-Key'',
          iq_content_type = header ''Content-Type'', iq_key = header ''Idempotency-Key'',
          iq_encoding = header ''Content-Encoding'', iq_content_length = int (length (qd_body q)),
          iq_body = qd_body q, iq_body_err = None\<rparr>)"

text \<open>
  What the two programs rely on in the library between them: \<open>encoding/json\<close> prints a batch as an
  object the decoder reads back, and \<open>gzip\<close> and its reader invert each other.
\<close>

definition wire_inverts ::
    "mock_library \<Rightarrow> marshal \<Rightarrow> (string \<Rightarrow> string + string) \<Rightarrow> batch \<Rightarrow> string \<Rightarrow> bool" where
  "wire_inverts lib marshal gz b json \<longleftrightarrow>
     marshal b = Inr json \<and> json \<noteq> [] \<and> hd json = CHR 0x7B \<and> last json = CHR 0x7D \<and>
     (\<forall>raw z. gz raw = Inr z \<longrightarrow> ml_gunzip lib z = Inr \<lparr>gz_bytes = raw, gz_err = None, gz_close = None\<rparr>) \<and>
     ml_decode lib (json @ [CHR 0x0A]) = Inr (decoded b, False) \<and>
     ml_media lib ''application/json'' = Some ''application/json''"

lemma newline_char: "CHR 0x0A = char_of (n :: nat) \<longleftrightarrow> n mod 256 = 10" "char_of (n :: nat) = CHR 0x0A \<longleftrightarrow> n mod 256 = 10"
proof -
  show "char_of (n :: nat) = CHR 0x0A \<longleftrightarrow> n mod 256 = 10" by (simp add: char_of_eq_iff take_bit_eq_mod)
  then show "CHR 0x0A = char_of (n :: nat) \<longleftrightarrow> n mod 256 = 10" by metis
qed

lemma newline_words:
  "list_all (\<lambda>w. w = [CHR 0x0A] \<or> hd w \<noteq> CHR 0x0A \<and> w \<noteq> []) (map rev space_runes)"
  "[CHR 0x0A] \<in> set (map rev space_runes)"
  by (simp_all add: space_runes_def upt_rec newline_char)

lemma leading_newline: "leading (map rev space_runes) (CHR 0x0A # t) = 1"
proof -
  let ?fs = "filter (\<lambda>w. w \<noteq> [] \<and> take (length w) (CHR 0x0A # t) = w) (map rev space_runes)"
  have "w = [CHR 0x0A]" if "w \<in> set ?fs" for w
  proof -
    have w: "w \<noteq> []" "take (length w) (CHR 0x0A # t) = w" "w \<in> set (map rev space_runes)" using that by auto
    then have "hd w = CHR 0x0A" by (cases w) auto
    with newline_words(1) w(3) show ?thesis by (auto simp: list_all_iff)
  qed
  moreover have "?fs \<noteq> []" using newline_words(2) by (auto simp: filter_empty_conv)
  ultimately have "hd ?fs = [CHR 0x0A]" "?fs \<noteq> []" using hd_in_set [of ?fs] by blast+
  then show ?thesis by (cases ?fs) (auto simp: leading_def)
qed

lemma trim_line:
  assumes "json \<noteq> []" "hd json = CHR 0x7B" "last json = CHR 0x7D"
  shows "trimSpace (json @ [CHR 0x0A]) = json"
proof -
  have solid: "solid (CHR 0x7B)" "solid (CHR 0x7D)" by (simp_all add: solid_def)
  have front: "leading space_runes (json @ [CHR 0x0A]) = 0"
    using space_runes_not_solid solid(1) assms(1,2) by (intro leading_0) (auto simp: list_all_iff)
  have tail: "leading (map rev space_runes) (rev json) = 0"
    using space_runes_not_solid solid(2) assms(1,3) by (intro leading_0) (auto simp: list_all_iff hd_rev)
  show ?thesis
    by (simp add: trimSpace_def trim_left.simps [of space_runes] front
        trim_left.simps [of "map rev space_runes" "CHR 0x0A # rev json"] leading_newline
        trim_left.simps [of "map rev space_runes" "rev json"] tail)
qed

lemma posted_request_fields:
  "iq_method (posted_request path e q) = ''POST''" "iq_path (posted_request path e q) = path"
  "iq_api_key (posted_request path e q) = hx_api_key e"
  "iq_content_type (posted_request path e q) = ''application/json''"
  "iq_key (posted_request path e q) = qd_key q" "iq_encoding (posted_request path e q) = ''gzip''"
  "iq_body (posted_request path e q) = qd_body q" "iq_body_err (posted_request path e q) = None"
  by (simp_all add: posted_request_def request_headers_def Let_def)

lemma posted_fine:
  assumes wire: "wire_inverts lib marshal gz b json" "encodeBody marshal gz (Some b) = Inr z"
    and size: "int (length z) \<le> mc_max_body cfg" "int (length json) < mc_max_body cfg"
    and key: "mc_api_key cfg = [] \<or> mc_api_key cfg = hx_api_key e"
  shows "request_fine cfg lib (posted_request (mc_path cfg) e (queued_of z b)) (json @ [CHR 0x0A]) (decoded b)"
proof -
  have z: "gz (json @ [CHR 0x0A]) = Inr z"
    using wire by (auto simp: encodeBody_def encodeLine_def wire_inverts_def split: sum.splits)
  have "idempotencyKey b \<noteq> []" by (simp add: idempotencyKey_def)
  then show ?thesis
    using wire(1) size key z trim_line [of json]
    by (auto simp: request_fine_def body_of_def posted_request_fields queued_of_def wire_inverts_def)
qed

subsection \<open>Properties\<close>

text \<open>
  C6: the agent ships only conforming batches. Whatever failed in a cycle, the batch the agent
  hands to its exporter satisfies the contract the conformance suite decides, under the key the
  exporter sends, exactly when its surroundings are sound (a build version, an identity, clocks that
  run and agree with the server's, errors with a text, no blank selection entry) and the brokers'
  answers do not contradict themselves (no name twice, no end offset below a start offset, no
  impossible directory). Section names, order, statuses, counts and attributions, the truncation
  block, the counts and signs of the inventories and the agent's counters are always right.
\<close>

theorem shipped_batch_conforms:
  assumes "cy_batch cy = Some (fst (Collect c env st))" "runCycle a cy = Some (a', Some b)"
    and "settled (pipe_counters (ag_exporter a)) \<le> ag_seq a" "ag_seq a' < 2 ^ 64"
    and "int (sum_list (map sw_errors_collapsed (ba_sections b))) \<le> math_MaxInt64"
      "int (sum_list (map sw_errors_dropped (ba_sections b))) \<le> math_MaxInt64"
    and "mc_sections cfg = DefaultSections"
  shows "contract cfg now (idempotencyKey b) (decoded b) \<longleftrightarrow>
    surroundings_ok cfg now b \<and> answers_ok (decoded b)"
  by (rule shipped_conforms [OF assms])

text \<open>
  C5: from the brokers to the ingest. A batch the agent collected in sound surroundings is printed,
  compressed, posted and, through an outage shorter than the exporter's retries, decoded, checked,
  accepted and counted: the exporter reports it exported and the ingest has acknowledged its key.
\<close>

theorem collected_batch_is_delivered:
  assumes cycle: "cy_batch cy = Some (fst (Collect c env st))" "runCycle a cy = Some (a', Some b)"
    and books: "settled (pipe_counters (ag_exporter a)) \<le> ag_seq a" "ag_seq a' < 2 ^ 64"
    and fits: "int (sum_list (map sw_errors_collapsed (ba_sections b))) \<le> math_MaxInt64"
      "int (sum_list (map sw_errors_dropped (ba_sections b))) \<le> math_MaxInt64"
    and sound: "\<And>k. surroundings_ok cfg (su_at (su k)) b" "answers_ok (decoded b)"
    and mock: "normal cfg" "mc_sections cfg = DefaultSections"
      "mc_api_key cfg = [] \<or> mc_api_key cfg = hx_api_key e" "\<And>xs. set (ml_range lib xs) = set xs"
    and wire: "wire_inverts lib marshal gz b json" "encodeBody marshal gz (Some b) = Inr z"
      "int (length z) \<le> mc_max_body cfg" "int (length json) < mc_max_body cfg"
    and rq: "rq = posted_request (mc_path cfg) e (queued_of z b)"
    and del: "deliverable s (ba_instance_id b) (idempotencyKey b) (ml_sha lib (json @ [CHR 0x0A])) (of_nat (ba_seq b))"
    and outage: "outage (sv_faults s) (int (ms_requests (sv_stats s)) + hx_max_retries e)"
    and retries: "0 \<le> hx_max_retries e"
    and replies: "\<And>k. at_reply (orc k) = reply_of (attempt_response cfg lib su rq s k)"
    and room: "\<And>k. \<not> at_shutdown (orc k) \<and> at_now (orc k) + maxBackoff \<le> start + hx_budget e"
  shows "\<exists>c' waits rs. sendWithRetry pt e orc start ct = Some (c', waits, rs) \<and>
    ct_exported c' = ct_exported ct + 1 \<and>
    acked (attempt_state cfg lib su rq s (length rs)) (ba_instance_id b) (idempotencyKey b)"
proof -
  have dec: "wb_instance_id (decoded b) = ba_instance_id b" "wb_seq (decoded b) = of_nat (ba_seq b)"
    by (simp_all add: decoded_def)
  have key: "iq_key rq = idempotencyKey b" by (simp add: rq posted_request_fields queued_of_def)
  have con: "contract cfg (su_at (su k)) (iq_key rq) (decoded b)" for k
    unfolding key using shipped_conforms [OF cycle books fits mock(2)] sound by blast
  have fine: "request_fine cfg lib rq (json @ [CHR 0x0A]) (decoded b)"
    unfolding rq by (rule posted_fine [OF wire mock(3)])
  show ?thesis
    using outage_delivers [OF mock(1,4) fine con _ outage retries replies room] del
    by (simp add: dec key)
qed

subsection \<open>Witnesses\<close>

text \<open>
  A cycle over a cluster with a topic, a group and two failures, shipped by an agent in good order.
\<close>

definition wit_clocked :: collector where
  "wit_clocked = wit_collector\<lparr>cn_clock := (\<lambda>_. (second, second)), cn_opts := wit_options
     \<lparr>op_window := False, op_log_dirs := False, op_max_timestamp := False, op_configs := False,
      op_reassignments := False, op_epoch_probes := False, op_share_groups := False, op_tiered := False\<rparr>\<rparr>"

definition wit_day :: cycle_env where
  "wit_day = wit_env\<lparr>ce_start := second, ce_list_start := second, ce_end := second\<rparr>"

definition wit_collected :: batch where
  "wit_collected = fst (Collect wit_clocked wit_day (0, []))"

definition wit_shipped :: batch where
  "wit_shipped = stamp (wit_agent\<lparr>ag_seq := 1\<rparr>) second wit_collected"

definition wit_ingest :: mock_config where
  "wit_ingest = wit_mock\<lparr>mc_sections := DefaultSections\<rparr>"

lemma wit_shipped_sound:
  "surroundings_ok wit_ingest second wit_shipped \<and> answers_ok (decoded wit_shipped) \<and>
   sum_list (map sw_errors_collapsed (ba_sections wit_shipped)) = 0 \<and>
   sum_list (map sw_errors_dropped (ba_sections wit_shipped)) = 0 \<and>
   length (ba_topics wit_shipped) = 1 \<and> length (ba_errors wit_shipped) = 4"
  by code_simp

lemma wit_shipped_cycle:
  obtains a' where "runCycle wit_agent (wit_cycle (Some wit_collected) False) = Some (a', Some wit_shipped)"
    "ag_seq a' = 1"
proof -
  have "ships (wit_cycle (Some wit_collected) False)" "pipe_ok (ag_exporter wit_agent)"
    by (simp_all add: ships_def wit_cycle_def wit_agent_def pipe_ok_def)
  from runCycle_ships [OF this] obtain a' b where run:
    "runCycle wit_agent (wit_cycle (Some wit_collected) False) = Some (a', Some b)" by blast
  have "cy_batch (wit_cycle (Some wit_collected) False) = Some wit_collected" by (simp add: wit_cycle_def)
  from shipped_batch [OF this run] have "b = wit_shipped" "ag_seq a' = 1"
    by (simp_all add: wit_shipped_def wit_cycle_def wit_agent_def)
  with run that show ?thesis by blast
qed

lemma wit_agent_books: "settled (pipe_counters (ag_exporter wit_agent)) \<le> ag_seq wit_agent"
  by (simp add: wit_agent_def pipe_counters_def)

lemma wit_fits:
  "int (sum_list (map sw_errors_collapsed (ba_sections wit_shipped))) \<le> math_MaxInt64"
  "int (sum_list (map sw_errors_dropped (ba_sections wit_shipped))) \<le> math_MaxInt64"
proof -
  have range: "0 \<le> math_MaxInt64" by (simp add: math_MaxInt64_def)
  have "sum_list (map sw_errors_collapsed (ba_sections wit_shipped)) = 0"
    "sum_list (map sw_errors_dropped (ba_sections wit_shipped)) = 0" using wit_shipped_sound by blast+
  with range show "int (sum_list (map sw_errors_collapsed (ba_sections wit_shipped))) \<le> math_MaxInt64"
    "int (sum_list (map sw_errors_dropped (ba_sections wit_shipped))) \<le> math_MaxInt64"
    by (simp_all only: of_nat_0)
qed

theorem shipped_batch_conforms_witness:
  "contract wit_ingest second (idempotencyKey wit_shipped) (decoded wit_shipped) \<and>
   length (ba_topics wit_shipped) = 1 \<and> length (ba_errors wit_shipped) = 4"
proof -
  obtain a' where run: "runCycle wit_agent (wit_cycle (Some wit_collected) False) = Some (a', Some wit_shipped)"
    "ag_seq a' = 1" by (rule wit_shipped_cycle)
  show ?thesis
    using shipped_batch_conforms [OF _ run(1) wit_agent_books _ wit_fits, of wit_clocked wit_day "(0, [])"
        wit_ingest second] wit_shipped_sound
    by (simp add: run(2) wit_cycle_def wit_collected_def wit_ingest_def)
qed

definition wit_wire_lib :: mock_library where
  "wit_wire_lib = wit_lib\<lparr>ml_decode := (\<lambda>raw. if raw = ''{}'' @ [CHR 0x0A] then Inr (decoded wit_shipped, False)
     else Inl ''bad'')\<rparr>"

definition wit_sent :: ingest_request where
  "wit_sent = posted_request (mc_path wit_ingest) wit_exporter (queued_of (''{}'' @ [CHR 0x0A]) wit_shipped)"

definition wit_tries :: "nat \<Rightarrow> attempt_env" where
  "wit_tries k =
     \<lparr>at_now = 0, at_draw = 0, at_shutdown = False,
      at_reply = reply_of (attempt_response wit_ingest wit_wire_lib (\<lambda>_. wit_su) wit_sent (wit_server 1) k),
      at_reply_now = 0\<rparr>"

lemma wit_wire_facts:
  "normal wit_ingest" "mc_sections wit_ingest = DefaultSections" "mc_api_key wit_ingest = []"
  "wire_inverts wit_wire_lib braces Inr wit_shipped ''{}''"
  "encodeBody braces Inr (Some wit_shipped) = Inr (''{}'' @ [CHR 0x0A])"
  "int (length (''{}'' @ [CHR 0x0A])) \<le> mc_max_body wit_ingest" "int (length ''{}'') < mc_max_body wit_ingest"
  "deliverable (wit_server 1) i k h 1"
  by (simp_all add: wit_ingest_def wit_mock_def normal_def wire_inverts_def braces_def wit_wire_lib_def
      wit_lib_def encodeBody_def encodeLine_def deliverable_def delivery_of_def last_acked_def
      wit_server_def fresh_server_def)

theorem collected_batch_is_delivered_witness:
  "\<exists>c' waits rs. sendWithRetry (\<lambda>_. None) wit_exporter wit_tries 0 zero_counters = Some (c', waits, rs) \<and>
    ct_exported c' = 1 \<and>
    acked (attempt_state wit_ingest wit_wire_lib (\<lambda>_. wit_su) wit_sent (wit_server 1) (length rs))
      (ba_instance_id wit_shipped) (idempotencyKey wit_shipped)"
proof -
  obtain a' where run: "runCycle wit_agent (wit_cycle (Some wit_collected) False) = Some (a', Some wit_shipped)"
    "ag_seq a' = 1" by (rule wit_shipped_cycle)
  have "cy_batch (wit_cycle (Some wit_collected) False) = Some (fst (Collect wit_clocked wit_day (0, [])))"
    by (simp add: wit_cycle_def wit_collected_def)
  note delivered = collected_batch_is_delivered [where su = "\<lambda>_. wit_su" and orc = wit_tries and
      pt = "\<lambda>_. None" and start = 0 and ct = zero_counters, OF this run(1) wit_agent_books _ wit_fits _ _
      wit_wire_facts(1,2) _ _ wit_wire_facts(4,5,6,7) wit_sent_def _ wit_outage wit_room(2)]
  have "ba_seq wit_shipped = 1" by (simp add: wit_shipped_def)
  then show ?thesis
    using delivered wit_shipped_sound wit_wire_facts(3,8) wit_room(1)
    by (simp add: run(2) wit_su_def wit_wire_lib_def wit_lib_def wit_tries_def zero_counters_def)
qed

end
