(* ===== verification/Hooks.thy ===== *)
theory Hooks
  imports Wire Strconv
begin

text \<open>
  \<open>src/internal/kafka/hooks.go\<close>: the accumulator behind the broker RPC section, and the latency
  histogram of \<open>internal/metrics/types.go\<close> it is made of.

  The mutex makes every hook and the snapshot one step on the state. A Go map of accumulators is an
  association list; a pointer into it is an update of the list at its key. A hook returns \<open>None\<close>
  when it panics, which \<open>observe\<close> would do on an index out of range. A string is its bytes;
  \<open>kmsg.NameForKey\<close> is a parameter.
\<close>

subsection \<open>State\<close>

record api_accum =
  aa_e2e :: latency_histogram
  aa_write_wait :: latency_histogram
  aa_errors :: uint64
  aa_written :: int64
  aa_read :: int64

record broker_accum =
  bk_apis :: "(int16 \<times> api_accum) list"
  bk_attempts :: uint64
  bk_failures :: uint64
  bk_latency :: latency_histogram
  bk_disconnects :: uint64
  bk_last_err :: string
  bk_throttle_events :: uint64
  bk_throttled :: duration

record rpc_hooks =
  rh_since :: gotime
  rh_brokers :: "(int32 \<times> broker_accum) list"

definition zero_api :: api_accum where
  "zero_api = \<lparr>aa_e2e = zero_histogram, aa_write_wait = zero_histogram, aa_errors = 0,
     aa_written = 0, aa_read = 0\<rparr>"

definition zero_broker :: broker_accum where
  "zero_broker = \<lparr>bk_apis = [], bk_attempts = 0, bk_failures = 0, bk_latency = zero_histogram,
     bk_disconnects = 0, bk_last_err = [], bk_throttle_events = 0, bk_throttled = 0\<rparr>"

definition newRPCHooks :: "gotime \<Rightarrow> rpc_hooks" where
  "newRPCHooks start = \<lparr>rh_since = start, rh_brokers = []\<rparr>"

text \<open>\<open>h.broker(id)\<close> and \<open>b.api(key)\<close> create the accumulator they return.\<close>

definition broker_of :: "rpc_hooks \<Rightarrow> int32 \<Rightarrow> broker_accum" where
  "broker_of h nodeID = (case map_of (rh_brokers h) nodeID of None \<Rightarrow> zero_broker | Some b \<Rightarrow> b)"

definition set_broker :: "int32 \<Rightarrow> broker_accum \<Rightarrow> rpc_hooks \<Rightarrow> rpc_hooks" where
  "set_broker nodeID b h = h\<lparr>rh_brokers := AList.update nodeID b (rh_brokers h)\<rparr>"

definition api_of :: "broker_accum \<Rightarrow> int16 \<Rightarrow> api_accum" where
  "api_of b key = (case map_of (bk_apis b) key of None \<Rightarrow> zero_api | Some a \<Rightarrow> a)"

definition set_api :: "int16 \<Rightarrow> api_accum \<Rightarrow> broker_accum \<Rightarrow> broker_accum" where
  "set_api key a b = b\<lparr>bk_apis := AList.update key a (bk_apis b)\<rparr>"

subsection \<open>Strings\<close>

definition maxConnectErrLen :: nat where "maxConnectErrLen = 256"

definition byte :: "char \<Rightarrow> nat" where "byte c = of_char c"

definition cont :: "nat \<Rightarrow> nat \<Rightarrow> char \<Rightarrow> bool" where "cont lo hi c \<longleftrightarrow> lo \<le> byte c \<and> byte c \<le> hi"

text \<open>
  The tables of \<open>unicode/utf8\<close>: the width of the rune a byte leads, and the range of the byte after
  it. \<open>rune_width\<close> is the width of the rune a string starts with, 0 if there is none.
\<close>

definition lead :: "char \<Rightarrow> nat \<times> nat \<times> nat" where
  "lead a =
     (if byte a < 128 then (1, 128, 191)
      else if cont 194 223 a then (2, 128, 191)
      else if byte a = 224 then (3, 160, 191)
      else if byte a = 237 then (3, 128, 159)
      else if cont 225 239 a then (3, 128, 191)
      else if byte a = 240 then (4, 144, 191)
      else if byte a = 244 then (4, 128, 143)
      else if cont 241 243 a then (4, 128, 191)
      else (0, 128, 191))"

definition conts :: "nat \<Rightarrow> nat \<Rightarrow> string \<Rightarrow> bool" where
  "conts lo hi v \<longleftrightarrow> v = [] \<or> (cont lo hi (hd v) \<and> list_all (cont 128 191) (tl v))"

fun rune_width :: "string \<Rightarrow> nat" where
  "rune_width [] = 0"
| "rune_width (a # u) =
     (let (w, lo, hi) = lead a; v = take (w - 1) u
      in if length v = w - 1 \<and> conts lo hi v then w else 0)"

text \<open>\<open>strings.ToValidUTF8(s, "")\<close> drops every byte that no valid rune covers.\<close>

function to_valid_utf8 :: "string \<Rightarrow> string" where
  "to_valid_utf8 s =
     (if s = [] then []
      else if rune_width s = 0 then to_valid_utf8 (tl s)
      else take (rune_width s) s @ to_valid_utf8 (drop (rune_width s) s))"
  by pat_completeness auto
termination by (relation "measure length") auto

declare to_valid_utf8.simps [simp del]

function valid_utf8 :: "string \<Rightarrow> bool" where
  "valid_utf8 s =
     (if s = [] then True else if rune_width s = 0 then False
      else valid_utf8 (drop (rune_width s) s))"
  by pat_completeness auto
termination by (relation "measure length") auto

declare valid_utf8.simps [simp del]

definition truncate_string :: "string \<Rightarrow> nat \<Rightarrow> string" where
  "truncate_string s mx = (if length s \<le> mx then s else to_valid_utf8 (take mx s))"

definition isUpper :: "char \<Rightarrow> bool" where "isUpper c \<longleftrightarrow> 65 \<le> byte c \<and> byte c \<le> 90"

text \<open>\<open>s[i-1]\<close> is only read at \<open>i > 0\<close>.\<close>

definition startsWord :: "string \<Rightarrow> nat \<Rightarrow> bool" where
  "startsWord s i =
     (if \<not> isUpper (s ! (i - 1)) then True
      else if i + 1 \<ge> length s \<or> isUpper (s ! (i + 1)) then False
      else \<not> (s ! (i + 1) = CHR ''s'' \<and> (i + 2 \<ge> length s \<or> isUpper (s ! (i + 2)))))"

definition lower :: "char \<Rightarrow> char" where
  "lower c = (if isUpper c then char_of (byte c + 32) else c)"

definition snakeCase :: "string \<Rightarrow> string" where
  "snakeCase s =
     concat (map (\<lambda>i. (if i > 0 \<and> isUpper (s ! i) \<and> startsWord s i then ''_'' else []) @
       [lower (s ! i)]) [0 ..< length s])"

definition apiName :: "(int16 \<Rightarrow> string) \<Rightarrow> int16 \<Rightarrow> string" where
  "apiName nameForKey key =
     (let name = nameForKey key
      in if name = [] \<or> name = ''Unknown'' then ''unknown_'' @ show_int key else snakeCase name)"

subsection \<open>The hooks\<close>

record broker_e2e =
  e2_written :: int64
  e2_read :: int64
  e2_failed :: bool
  e2_duration :: duration
  e2_write_wait :: duration

definition OnBrokerE2E :: "int32 \<Rightarrow> int16 \<Rightarrow> broker_e2e \<Rightarrow> rpc_hooks \<Rightarrow> rpc_hooks option" where
  "OnBrokerE2E nodeID key e2e h =
     (let b = broker_of h nodeID;
          a0 = api_of b key;
          a = a0\<lparr>aa_written := aa_written a0 + e2_written e2e, aa_read := aa_read a0 + e2_read e2e\<rparr>;
          put = (\<lambda>a. set_broker nodeID (set_api key a b) h)
      in if e2_failed e2e then Some (put (a\<lparr>aa_errors := aa_errors a + 1\<rparr>))
         else case observe (aa_e2e a) (e2_duration e2e) of
           None \<Rightarrow> None
         | Some e \<Rightarrow>
             (case observe (aa_write_wait a) (e2_write_wait e2e) of
                None \<Rightarrow> None
              | Some w \<Rightarrow> Some (put (a\<lparr>aa_e2e := e, aa_write_wait := w\<rparr>))))"

definition OnBrokerConnect ::
    "int32 \<Rightarrow> duration \<Rightarrow> string option \<Rightarrow> rpc_hooks \<Rightarrow> rpc_hooks option" where
  "OnBrokerConnect nodeID initDur err h =
     (let b0 = broker_of h nodeID;
          b = b0\<lparr>bk_attempts := bk_attempts b0 + 1\<rparr>
      in case err of
           Some msg \<Rightarrow>
             Some (set_broker nodeID (b\<lparr>bk_failures := bk_failures b + 1,
               bk_last_err := truncate_string msg maxConnectErrLen\<rparr>) h)
         | None \<Rightarrow>
             (case observe (bk_latency b) initDur of
                None \<Rightarrow> None
              | Some l \<Rightarrow> Some (set_broker nodeID (b\<lparr>bk_latency := l\<rparr>) h)))"

definition OnBrokerDisconnect :: "int32 \<Rightarrow> rpc_hooks \<Rightarrow> rpc_hooks" where
  "OnBrokerDisconnect nodeID h =
     (let b = broker_of h nodeID
      in set_broker nodeID (b\<lparr>bk_disconnects := bk_disconnects b + 1\<rparr>) h)"

definition OnBrokerThrottle :: "int32 \<Rightarrow> duration \<Rightarrow> rpc_hooks \<Rightarrow> rpc_hooks" where
  "OnBrokerThrottle nodeID interval h =
     (let b = broker_of h nodeID
      in set_broker nodeID (b\<lparr>bk_throttle_events := bk_throttle_events b + 1,
           bk_throttled := bk_throttled b + interval\<rparr>) h)"

subsection \<open>The snapshot\<close>

definition api_row :: "(int16 \<Rightarrow> string) \<Rightarrow> int16 \<times> api_accum \<Rightarrow> broker_api_rpc" where
  "api_row nameForKey ka =
     \<lparr>ar_api = apiName nameForKey (fst ka), ar_e2e = ensure_buckets (aa_e2e (snd ka)),
      ar_write_wait = ensure_buckets (aa_write_wait (snd ka)), ar_errors = aa_errors (snd ka),
      ar_bytes_written = aa_written (snd ka), ar_bytes_read = aa_read (snd ka)\<rparr>"

definition broker_row :: "(int16 \<Rightarrow> string) \<Rightarrow> int32 \<times> broker_accum \<Rightarrow> broker_rpc" where
  "broker_row nameForKey ib =
     \<lparr>br_broker_id = fst ib,
      br_requests = sort_key ar_api (map (api_row nameForKey) (bk_apis (snd ib))),
      br_connect_attempts = bk_attempts (snd ib), br_connect_failures = bk_failures (snd ib),
      br_connect_latency = ensure_buckets (bk_latency (snd ib)),
      br_disconnects = bk_disconnects (snd ib), br_last_connect_error = bk_last_err (snd ib),
      br_throttle_events = bk_throttle_events (snd ib),
      br_throttled_ms = milliseconds (bk_throttled (snd ib))\<rparr>"

definition snapshot :: "(int16 \<Rightarrow> string) \<Rightarrow> gotime \<Rightarrow> rpc_hooks \<Rightarrow> rpc_stats \<times> rpc_hooks" where
  "snapshot nameForKey now h =
     (let window = (if now - rh_since h < 0 then 0 else now - rh_since h)
      in (\<lparr>rs_window_ms = milliseconds window,
           rs_brokers = sort_key br_broker_id (map (broker_row nameForKey) (rh_brokers h))\<rparr>,
          h\<lparr>rh_brokers := [], rh_since := now\<rparr>))"

text \<open>\<open>Client.RPCSnapshot\<close>: nil when the hooks were not installed.\<close>

definition RPCSnapshot ::
    "(int16 \<Rightarrow> string) \<Rightarrow> gotime \<Rightarrow> rpc_hooks option \<Rightarrow> rpc_stats option \<times> rpc_hooks option" where
  "RPCSnapshot nameForKey now rpc =
     (case rpc of
        None \<Rightarrow> (None, None)
      | Some h \<Rightarrow> (let (st, h') = snapshot nameForKey now h in (Some st, Some h')))"

subsection \<open>Histograms\<close>

definition hist_ok :: "latency_histogram \<Rightarrow> bool" where
  "hist_ok h \<longleftrightarrow>
     (case h_counts h of
        None \<Rightarrow> h = zero_histogram
      | Some cs \<Rightarrow> h_bounds h = default_latency_bounds_us \<and>
          length cs = length default_latency_bounds_us + 1 \<and> sum_list cs = h_count h \<and>
          (\<forall>n \<in> set cs. 0 \<le> n) \<and> 0 \<le> h_sum_us h \<and>
          (case h_max_us h of None \<Rightarrow> h_count h = 0 \<and> h_sum_us h = 0
           | Some m \<Rightarrow> 0 < h_count h \<and> 0 \<le> m \<and> m \<le> h_sum_us h \<and> h_sum_us h \<le> m * h_count h))"

lemma hist_ok_zero [simp]: "hist_ok zero_histogram"
  by (simp add: hist_ok_def zero_histogram_def)

lemma ensure_buckets_idem [simp]: "ensure_buckets (ensure_buckets h) = ensure_buckets h"
  by (cases "h_counts h") (simp_all add: ensure_buckets_def)

lemma ensure_buckets_ok: "hist_ok h \<Longrightarrow> hist_ok (ensure_buckets h)"
  by (auto simp: hist_ok_def ensure_buckets_def zero_histogram_def sum_list_replicate
      split: option.splits)

lemma ensure_buckets_fields [simp]:
  "h_count (ensure_buckets h) = h_count h" "h_sum_us (ensure_buckets h) = h_sum_us h"
  "h_max_us (ensure_buckets h) = h_max_us h" "h_counts (ensure_buckets h) \<noteq> None"
  by (simp_all add: ensure_buckets_def split: option.split)

lemma bucket_index_le: "bucket_index bs us \<le> length bs"
  by (induction bs) auto

lemma sum_list_update_int:
  fixes cs :: "int list"
  shows "i < length cs \<Longrightarrow> sum_list (cs[i := cs ! i + 1]) = sum_list cs + 1"
proof (induction cs arbitrary: i)
  case (Cons c cs)
  then show ?case by (cases i) auto
qed simp

lemma observe_ok:
  assumes "hist_ok h"
  obtains h' where "observe h d = Some h'" "hist_ok h'" "h_count h' = h_count h + 1"
proof -
  define g where "g = ensure_buckets h"
  have g: "hist_ok g" "h_counts g \<noteq> None" using assms by (simp_all add: g_def ensure_buckets_ok)
  then obtain cs where cs: "h_counts g = Some cs" by auto
  let ?us = "if microseconds d < 0 then 0 else microseconds d"
  let ?i = "bucket_index (h_bounds g) ?us"
  have inv: "h_bounds g = default_latency_bounds_us" "length cs = Suc (length default_latency_bounds_us)"
    "sum_list cs = h_count g" "\<forall>n \<in> set cs. 0 \<le> n" "0 \<le> h_sum_us g"
    using g(1) cs by (simp_all add: hist_ok_def)
  have i: "?i < length cs"
    using bucket_index_le [of "h_bounds g" ?us] by (simp add: inv(1,2) less_Suc_eq_le)
  let ?h = "g\<lparr>h_count := h_count g + 1, h_sum_us := h_sum_us g + ?us,
      h_max_us := (case h_max_us g of None \<Rightarrow> Some ?us
         | Some m \<Rightarrow> if ?us > m then Some ?us else Some m),
      h_counts := Some (cs[?i := cs ! ?i + 1])\<rparr>"
  have eq: "observe h d = Some ?h"
    using i cs unfolding observe_def g_def [symmetric] Let_def by simp
  have c0: "0 \<le> h_count g" using inv(3,4) by (metis sum_list_nonneg)
  have nn: "\<forall>n \<in> set (cs[?i := cs ! ?i + 1]). 0 \<le> n"
    using inv(4) i by (auto dest!: set_update_subset_insert [THEN subsetD])
  have "hist_ok ?h"
  proof (cases "h_max_us g")
    case None
    then have "h_count g = 0" "h_sum_us g = 0" using g(1) cs by (simp_all add: hist_ok_def)
    then show ?thesis using inv nn i None by (simp add: hist_ok_def sum_list_update_int)
  next
    case (Some m)
    then have m: "0 < h_count g" "0 \<le> m" "m \<le> h_sum_us g" "h_sum_us g \<le> m * h_count g"
      using g(1) cs by (simp_all add: hist_ok_def)
    have "h_sum_us g + ?us \<le> max ?us m * (h_count g + 1)"
    proof -
      have "h_sum_us g \<le> max ?us m * h_count g"
        using m(4) mult_right_mono [of m "max ?us m" "h_count g"] c0 by linarith
      then show ?thesis by (simp add: algebra_simps)
    qed
    moreover have "max ?us m \<le> h_sum_us g + ?us" using m(2,3) by auto
    ultimately show ?thesis
      using inv nn i Some m by (simp add: hist_ok_def sum_list_update_int max_def split: if_splits)
  qed
  then show thesis using that [OF eq] by (simp add: g_def)
qed

subsection \<open>Runs of the hooks\<close>

datatype hook_event =
    E2E int32 int16 broker_e2e
  | Connect int32 duration "string option"
  | Disconnect int32
  | Throttle int32 duration
  | Snapshot gotime

text \<open>The hooks and the snapshots in the order they take the mutex, with the snapshots taken.\<close>

fun hook_step ::
    "(int16 \<Rightarrow> string) \<Rightarrow> hook_event \<Rightarrow> rpc_hooks \<Rightarrow> (rpc_stats list \<times> rpc_hooks) option" where
  "hook_step nk (E2E i key e) h = map_option (Pair []) (OnBrokerE2E i key e h)"
| "hook_step nk (Connect i d err) h = map_option (Pair []) (OnBrokerConnect i d err h)"
| "hook_step nk (Disconnect i) h = Some ([], OnBrokerDisconnect i h)"
| "hook_step nk (Throttle i d) h = Some ([], OnBrokerThrottle i d h)"
| "hook_step nk (Snapshot now) h = (let (st, h') = snapshot nk now h in Some ([st], h'))"

fun run_hooks ::
    "(int16 \<Rightarrow> string) \<Rightarrow> hook_event list \<Rightarrow> rpc_hooks \<Rightarrow> (rpc_stats list \<times> rpc_hooks) option" where
  "run_hooks nk [] h = Some ([], h)"
| "run_hooks nk (e # es) h =
     (case hook_step nk e h of
        None \<Rightarrow> None
      | Some (sts, h') \<Rightarrow> map_option (\<lambda>(rest, h''). (sts @ rest, h'')) (run_hooks nk es h'))"

text \<open>What an event counts for, what the accumulator holds, and what a snapshot reports of a broker.\<close>

datatype tally =
    Served | Errors | Written | Read | Attempts | Failures | Connects | Disconnects | Throttles

fun event_tally :: "tally \<Rightarrow> int32 \<Rightarrow> hook_event \<Rightarrow> int" where
  "event_tally Served i (E2E j key e) = (if i = j \<and> \<not> e2_failed e then 1 else 0)"
| "event_tally Errors i (E2E j key e) = (if i = j \<and> e2_failed e then 1 else 0)"
| "event_tally Written i (E2E j key e) = (if i = j then e2_written e else 0)"
| "event_tally Read i (E2E j key e) = (if i = j then e2_read e else 0)"
| "event_tally Attempts i (Connect j d err) = (if i = j then 1 else 0)"
| "event_tally Failures i (Connect j d err) = (if i = j \<and> err \<noteq> None then 1 else 0)"
| "event_tally Connects i (Connect j d err) = (if i = j \<and> err = None then 1 else 0)"
| "event_tally Disconnects i (Disconnect j) = (if i = j then 1 else 0)"
| "event_tally Throttles i (Throttle j d) = (if i = j then 1 else 0)"
| "event_tally _ i _ = 0"

fun api_tally :: "tally \<Rightarrow> api_accum \<Rightarrow> int" where
  "api_tally Served a = h_count (aa_e2e a)"
| "api_tally Errors a = int (aa_errors a)"
| "api_tally Written a = aa_written a"
| "api_tally Read a = aa_read a"
| "api_tally _ a = 0"

fun broker_tally :: "tally \<Rightarrow> broker_accum \<Rightarrow> int" where
  "broker_tally Attempts b = int (bk_attempts b)"
| "broker_tally Failures b = int (bk_failures b)"
| "broker_tally Connects b = h_count (bk_latency b)"
| "broker_tally Disconnects b = int (bk_disconnects b)"
| "broker_tally Throttles b = int (bk_throttle_events b)"
| "broker_tally t b = (\<Sum>ka \<leftarrow> bk_apis b. api_tally t (snd ka))"

definition hooks_tally :: "tally \<Rightarrow> int32 \<Rightarrow> rpc_hooks \<Rightarrow> int" where
  "hooks_tally t i h = broker_tally t (broker_of h i)"

fun request_tally :: "tally \<Rightarrow> broker_api_rpc \<Rightarrow> int" where
  "request_tally Served r = h_count (ar_e2e r)"
| "request_tally Errors r = int (ar_errors r)"
| "request_tally Written r = ar_bytes_written r"
| "request_tally Read r = ar_bytes_read r"
| "request_tally _ r = 0"

fun row_tally :: "tally \<Rightarrow> broker_rpc \<Rightarrow> int" where
  "row_tally Attempts b = int (br_connect_attempts b)"
| "row_tally Failures b = int (br_connect_failures b)"
| "row_tally Connects b = h_count (br_connect_latency b)"
| "row_tally Disconnects b = int (br_disconnects b)"
| "row_tally Throttles b = int (br_throttle_events b)"
| "row_tally t b = sum_list (map (request_tally t) (br_requests b))"

definition stats_tally :: "tally \<Rightarrow> int32 \<Rightarrow> rpc_stats \<Rightarrow> int" where
  "stats_tally t i st = sum_list (map (row_tally t) (filter (\<lambda>b. br_broker_id b = i) (rs_brokers st)))"

subsection \<open>Conservation\<close>

lemma sum_alist_update:
  fixes f :: "'v \<Rightarrow> int"
  assumes "distinct (map fst al)"
  shows "(\<Sum>ka \<leftarrow> AList.update key v al. f (snd ka)) =
    (\<Sum>ka \<leftarrow> al. f (snd ka)) - (case map_of al key of None \<Rightarrow> 0 | Some w \<Rightarrow> f w) + f v"
  using assms
proof (induction al)
  case (Cons p al)
  obtain k w where p: "p = (k, w)" by (cases p)
  show ?case
  proof (cases "k = key")
    case True
    with Cons.prems p show ?thesis by simp
  next
    case False
    with Cons p show ?thesis by simp
  qed
qed simp

definition accum_ok :: "broker_accum \<Rightarrow> bool" where
  "accum_ok b \<longleftrightarrow> distinct (map fst (bk_apis b)) \<and> hist_ok (bk_latency b) \<and>
     (\<forall>(k, a) \<in> set (bk_apis b). hist_ok (aa_e2e a) \<and> hist_ok (aa_write_wait a) \<and>
        h_count (aa_e2e a) = h_count (aa_write_wait a))"

definition hooks_ok :: "rpc_hooks \<Rightarrow> bool" where
  "hooks_ok h \<longleftrightarrow> distinct (map fst (rh_brokers h)) \<and> (\<forall>(i, b) \<in> set (rh_brokers h). accum_ok b)"

lemma hooks_ok_new [simp]: "hooks_ok (newRPCHooks t)"
  by (simp add: hooks_ok_def newRPCHooks_def)

lemma accum_ok_zero [simp]: "accum_ok zero_broker"
  by (simp add: accum_ok_def zero_broker_def)

lemma broker_of_ok: "hooks_ok h \<Longrightarrow> accum_ok (broker_of h i)"
  by (auto simp: hooks_ok_def broker_of_def split: option.split dest: map_of_SomeD)

lemma api_of_ok:
  assumes "accum_ok b"
  shows "hist_ok (aa_e2e (api_of b k)) \<and> hist_ok (aa_write_wait (api_of b k)) \<and>
    h_count (aa_e2e (api_of b k)) = h_count (aa_write_wait (api_of b k))"
proof (cases "map_of (bk_apis b) k")
  case None
  then show ?thesis by (simp add: api_of_def zero_api_def)
next
  case (Some a)
  then have "(k, a) \<in> set (bk_apis b)" by (rule map_of_SomeD)
  with assms Some show ?thesis by (fastforce simp: accum_ok_def api_of_def)
qed

lemma alist_update_cases:
  "distinct (map fst al) \<Longrightarrow> x \<in> set (AList.update k v al) \<Longrightarrow> x = (k, v) \<or> x \<in> set al"
  by (induction al) (auto split: if_splits)

lemma set_broker_ok: "hooks_ok h \<Longrightarrow> accum_ok b \<Longrightarrow> hooks_ok (set_broker i b h)"
  by (auto simp: hooks_ok_def set_broker_def distinct_update dest!: alist_update_cases)

lemma set_api_ok:
  "accum_ok b \<Longrightarrow> hist_ok (aa_e2e a) \<Longrightarrow> hist_ok (aa_write_wait a) \<Longrightarrow>
     h_count (aa_e2e a) = h_count (aa_write_wait a) \<Longrightarrow> accum_ok (set_api k a b)"
  by (auto simp: accum_ok_def set_api_def distinct_update dest!: alist_update_cases)

lemma broker_of_set: "broker_of (set_broker i b h) j = (if i = j then b else broker_of h j)"
  by (simp add: broker_of_def set_broker_def update_conv' split: option.split)

lemma set_api_tally:
  assumes "accum_ok b"
  shows "broker_tally t (set_api k a b) =
    broker_tally t b - api_tally t (api_of b k) + api_tally t a"
proof -
  have z: "api_tally t zero_api = 0" for t
    by (cases t) (simp_all add: zero_api_def zero_histogram_def)
  have sum: "(\<Sum>ka \<leftarrow> AList.update k a (bk_apis b). api_tally t (snd ka)) =
      (\<Sum>ka \<leftarrow> bk_apis b. api_tally t (snd ka)) - api_tally t (api_of b k) + api_tally t a" for t
    using sum_alist_update [of "bk_apis b" "api_tally t" k a] assms
    by (cases "map_of (bk_apis b) k") (simp_all add: accum_ok_def api_of_def z)
  show ?thesis
    using sum [of Served] sum [of Errors] sum [of Written] sum [of Read]
    by (cases t) (simp_all add: set_api_def)
qed

text \<open>One hook: it never panics, keeps the invariant, and counts what it saw.\<close>

lemma E2E_step:
  assumes "hooks_ok h"
  obtains h' where "OnBrokerE2E i key e h = Some h'" "hooks_ok h'"
    "\<And>t j. hooks_tally t j h' = hooks_tally t j h + event_tally t j (E2E i key e)"
proof -
  define b where "b = broker_of h i"
  define a where "a = api_of b key"
  have b: "accum_ok b" using assms by (simp add: b_def broker_of_ok)
  have a: "hist_ok (aa_e2e a)" "hist_ok (aa_write_wait a)"
    "h_count (aa_e2e a) = h_count (aa_write_wait a)" using api_of_ok [OF b] by (simp_all add: a_def)
  obtain l where l: "observe (aa_e2e a) (e2_duration e) = Some l" "hist_ok l"
    "h_count l = h_count (aa_e2e a) + 1" by (rule observe_ok [OF a(1)])
  obtain w where w: "observe (aa_write_wait a) (e2_write_wait e) = Some w" "hist_ok w"
    "h_count w = h_count (aa_write_wait a) + 1" by (rule observe_ok [OF a(2)])
  define a' where "a' = (if e2_failed e
    then a\<lparr>aa_written := aa_written a + e2_written e, aa_read := aa_read a + e2_read e,
           aa_errors := aa_errors a + 1\<rparr>
    else a\<lparr>aa_written := aa_written a + e2_written e, aa_read := aa_read a + e2_read e,
           aa_e2e := l, aa_write_wait := w\<rparr>)"
  have eq: "OnBrokerE2E i key e h = Some (set_broker i (set_api key a' b) h)"
    by (simp add: OnBrokerE2E_def Let_def a'_def l w flip: b_def a_def)
  have ok: "hooks_ok (set_broker i (set_api key a' b) h)"
    by (intro set_broker_ok set_api_ok assms b) (simp_all add: a'_def a l w)
  have t: "hooks_tally t j (set_broker i (set_api key a' b) h) =
      hooks_tally t j h + event_tally t j (E2E i key e)" for t j
  proof -
    have "api_tally t a' - api_tally t a = event_tally t i (E2E i key e)"
      by (cases t) (simp_all add: a'_def l(3))
    moreover have "event_tally t j (E2E i key e) = 0" if "i \<noteq> j"
      using that by (cases t) auto
    moreover have "hooks_tally t j (set_broker i (set_api key a' b) h) =
        (if i = j then broker_tally t b - api_tally t a + api_tally t a' else hooks_tally t j h)"
      by (simp add: hooks_tally_def broker_of_set set_api_tally [OF b] a_def)
    ultimately show ?thesis by (auto simp: hooks_tally_def b_def)
  qed
  show thesis by (rule that [OF eq ok t])
qed

lemma Connect_step:
  assumes "hooks_ok h"
  obtains h' where "OnBrokerConnect i d err h = Some h'" "hooks_ok h'"
    "\<And>t j. hooks_tally t j h' = hooks_tally t j h + event_tally t j (Connect i d err)"
proof -
  define b where "b = broker_of h i"
  have b: "accum_ok b" using assms by (simp add: b_def broker_of_ok)
  then have "hist_ok (bk_latency b)" by (simp add: accum_ok_def)
  then obtain l where l: "observe (bk_latency b) d = Some l" "hist_ok l"
    "h_count l = h_count (bk_latency b) + 1" by (rule observe_ok)
  define b' where "b' = (case err of
      Some msg \<Rightarrow> b\<lparr>bk_attempts := bk_attempts b + 1, bk_failures := bk_failures b + 1,
        bk_last_err := truncate_string msg maxConnectErrLen\<rparr>
    | None \<Rightarrow> b\<lparr>bk_attempts := bk_attempts b + 1, bk_latency := l\<rparr>)"
  have eq: "OnBrokerConnect i d err h = Some (set_broker i b' h)"
    by (simp add: OnBrokerConnect_def Let_def b'_def l flip: b_def split: option.split)
  have ok: "hooks_ok (set_broker i b' h)"
    using b l(2) by (intro set_broker_ok assms) (simp add: b'_def accum_ok_def split: option.split)
  have t: "hooks_tally t j (set_broker i b' h) =
      hooks_tally t j h + event_tally t j (Connect i d err)" for t j
    by (cases t; cases err) (simp_all add: hooks_tally_def broker_of_set b'_def b_def
        l(3) [unfolded b_def])
  show thesis by (rule that [OF eq ok t])
qed

lemma simple_hooks_step:
  assumes "hooks_ok h"
  shows "hooks_ok (OnBrokerDisconnect i h)" "hooks_ok (OnBrokerThrottle i d h)"
    "hooks_tally t j (OnBrokerDisconnect i h) = hooks_tally t j h + event_tally t j (Disconnect i)"
    "hooks_tally t j (OnBrokerThrottle i d h) = hooks_tally t j h + event_tally t j (Throttle i d)"
proof -
  have b: "accum_ok (broker_of h i)" using assms by (rule broker_of_ok)
  show "hooks_ok (OnBrokerDisconnect i h)" "hooks_ok (OnBrokerThrottle i d h)"
    using b unfolding OnBrokerDisconnect_def OnBrokerThrottle_def Let_def
    by (intro set_broker_ok assms; simp add: accum_ok_def)+
  show "hooks_tally t j (OnBrokerDisconnect i h) = hooks_tally t j h + event_tally t j (Disconnect i)"
    by (cases t) (simp_all add: hooks_tally_def OnBrokerDisconnect_def Let_def broker_of_set)
  show "hooks_tally t j (OnBrokerThrottle i d h) = hooks_tally t j h + event_tally t j (Throttle i d)"
    by (cases t) (simp_all add: hooks_tally_def OnBrokerThrottle_def Let_def broker_of_set)
qed

lemma sum_list_sort_key:
  fixes f :: "'a \<Rightarrow> int"
  shows "sum_list (map f (sort_key k xs)) = sum_list (map f xs)"
  by (metis mset_map mset_sort sum_mset_sum_list)

lemma row_tally_row: "row_tally t (broker_row nk ib) = broker_tally t (snd ib)"
proof -
  have r: "request_tally t (api_row nk ka) = api_tally t (snd ka)" for ka
    by (cases t) (simp_all add: api_row_def)
  have "sum_list (map (request_tally t) (br_requests (broker_row nk ib))) =
      (\<Sum>ka \<leftarrow> bk_apis (snd ib). api_tally t (snd ka))"
    by (simp add: broker_row_def sum_list_sort_key comp_def r)
  then show ?thesis by (cases t) (simp_all add: broker_row_def)
qed

lemma sum_filter_id:
  assumes "distinct (map fst al)"
  shows "sum_list (map (\<lambda>ib. broker_tally t (snd ib)) (filter (\<lambda>ib. fst ib = j) al)) =
    (case map_of al j of None \<Rightarrow> broker_tally t zero_broker | Some b \<Rightarrow> broker_tally t b)"
  using assms
proof (induction al)
  case Nil
  show ?case by (cases t) (simp_all add: zero_broker_def zero_histogram_def)
next
  case (Cons p al)
  obtain i b where p: "p = (i, b)" by (cases p)
  show ?case
  proof (cases "i = j")
    case True
    then have "filter (\<lambda>ib. fst ib = j) al = []"
      using Cons.prems p by (auto simp: filter_empty_conv)
    with True p show ?thesis by simp
  next
    case False
    with Cons p show ?thesis by simp
  qed
qed

lemma snapshot_tally:
  assumes "hooks_ok h"
  shows "stats_tally t j (fst (snapshot nk now h)) = hooks_tally t j h"
    and "hooks_tally t j (snd (snapshot nk now h)) = 0" and "hooks_ok (snd (snapshot nk now h))"
proof -
  have "stats_tally t j (fst (snapshot nk now h)) =
      sum_list (map (row_tally t) (filter (\<lambda>b. br_broker_id b = j)
        (map (broker_row nk) (rh_brokers h))))"
    by (simp add: stats_tally_def snapshot_def Let_def filter_sort sum_list_sort_key)
  also have "\<dots> = sum_list (map (\<lambda>ib. broker_tally t (snd ib))
      (filter (\<lambda>ib. fst ib = j) (rh_brokers h)))"
  proof -
    have "br_broker_id (broker_row nk ib) = fst ib" for ib by (simp add: broker_row_def)
    then show ?thesis
      by (simp add: filter_map comp_def row_tally_row)
  qed
  finally show "stats_tally t j (fst (snapshot nk now h)) = hooks_tally t j h"
    using assms by (simp add: sum_filter_id hooks_ok_def hooks_tally_def broker_of_def
        split: option.split)
  show "hooks_tally t j (snd (snapshot nk now h)) = 0"
    by (cases t) (simp_all add: hooks_tally_def snapshot_def broker_of_def zero_broker_def
        zero_histogram_def)
  show "hooks_ok (snd (snapshot nk now h))" by (simp add: snapshot_def hooks_ok_def)
qed

lemma hook_step_ok:
  assumes "hooks_ok h"
  obtains sts h' where "hook_step nk e h = Some (sts, h')" "hooks_ok h'"
    "\<And>t j. sum_list (map (stats_tally t j) sts) + hooks_tally t j h' =
      hooks_tally t j h + event_tally t j e"
proof (cases e)
  case (E2E i key r)
  obtain h' where "OnBrokerE2E i key r h = Some h'" "hooks_ok h'"
    "\<And>t j. hooks_tally t j h' = hooks_tally t j h + event_tally t j (E2E i key r)"
    using E2E_step [OF assms] by blast
  with E2E that [of "[]" h'] show thesis by simp
next
  case (Connect i d err)
  obtain h' where "OnBrokerConnect i d err h = Some h'" "hooks_ok h'"
    "\<And>t j. hooks_tally t j h' = hooks_tally t j h + event_tally t j (Connect i d err)"
    using Connect_step [OF assms] by blast
  with Connect that [of "[]" h'] show thesis by simp
next
  case (Disconnect i)
  with that [of "[]" "OnBrokerDisconnect i h"] simple_hooks_step [OF assms] show thesis by simp
next
  case (Throttle i d)
  with that [of "[]" "OnBrokerThrottle i d h"] simple_hooks_step [OF assms] show thesis by simp
next
  case (Snapshot now)
  have "event_tally t j (Snapshot now) = 0" for t j by (cases t) simp_all
  with Snapshot that [of "[fst (snapshot nk now h)]" "snd (snapshot nk now h)"]
    snapshot_tally [OF assms] show thesis by (simp add: split_beta Let_def)
qed

lemma run_hooks_ok:
  "hooks_ok h \<Longrightarrow> \<exists>sts h'. run_hooks nk es h = Some (sts, h') \<and> hooks_ok h' \<and>
     (\<forall>t j. sum_list (map (stats_tally t j) sts) + hooks_tally t j h' =
        hooks_tally t j h + sum_list (map (event_tally t j) es))"
proof (induction es arbitrary: h)
  case (Cons e es)
  obtain sts h1 where s: "hook_step nk e h = Some (sts, h1)" "hooks_ok h1"
    "\<And>t j. sum_list (map (stats_tally t j) sts) + hooks_tally t j h1 =
      hooks_tally t j h + event_tally t j e" using hook_step_ok [OF Cons.prems] by blast
  from Cons.IH [OF s(2)] obtain rest h2 where r: "run_hooks nk es h1 = Some (rest, h2)" "hooks_ok h2"
    "\<And>t j. sum_list (map (stats_tally t j) rest) + hooks_tally t j h2 =
        hooks_tally t j h1 + sum_list (map (event_tally t j) es)" by blast
  have "sum_list (map (stats_tally t j) (sts @ rest)) + hooks_tally t j h2 =
      hooks_tally t j h + sum_list (map (event_tally t j) (e # es))" for t j
    using s(3) [of t j] r(3) [of t j] by simp
  with s(1) r(1,2) show ?case by simp
qed simp

subsection \<open>Cutting and renaming strings\<close>

lemma lead_range: "fst (lead a) \<le> 4" "128 \<le> fst (snd (lead a))" "snd (snd (lead a)) \<le> 191"
  by (simp_all add: lead_def)

lemma rune_width_eq:
  "rune_width (a # u) =
     (if length (take (fst (lead a) - 1) u) = fst (lead a) - 1 \<and>
         conts (fst (snd (lead a))) (snd (snd (lead a))) (take (fst (lead a) - 1) u)
      then fst (lead a) else 0)"
  by (simp add: Let_def split_beta)

declare rune_width.simps(2) [simp del]

lemma rune_width_le: "rune_width s \<le> length s" "rune_width s \<le> 4"
  using lead_range(1) by (cases s; force simp: rune_width_eq)+

text \<open>A rune is known by its own bytes: what follows it does not matter, and a part is no rune.\<close>

lemma rune_width_prefix:
  assumes "rune_width s = w" "w \<noteq> 0"
  shows "rune_width (take w s @ t) = w"
proof -
  obtain a u where s: "s = a # u" using assms by (cases s) auto
  let ?v = "take (w - 1) u"
  have w: "fst (lead a) = w" "length ?v = w - 1"
    "conts (fst (snd (lead a))) (snd (snd (lead a))) ?v"
    using assms unfolding s by (auto simp: rune_width_eq split: if_splits)
  have "take (w - 1) (?v @ t) = ?v" using w(2) by simp
  then have "rune_width (a # (?v @ t)) = w"
    unfolding rune_width_eq w(1) using w(2,3) by simp
  moreover have "take w s @ t = a # (?v @ t)" using assms(2) by (simp add: s take_Cons')
  ultimately show ?thesis by simp
qed

lemma rune_width_cont: "cont 128 191 c \<Longrightarrow> rune_width (c # s) = 0"
  by (simp add: rune_width_eq lead_def cont_def)

lemma rune_conts:
  assumes "rune_width (a # s) = Suc w"
  shows "\<forall>c \<in> set (take w s). cont 128 191 c"
proof -
  have c: "conts (fst (snd (lead a))) (snd (snd (lead a))) (take w s)"
    using assms by (auto simp: rune_width_eq split: if_splits)
  show ?thesis
  proof (cases "take w s")
    case (Cons d ds)
    then have "cont (fst (snd (lead a))) (snd (snd (lead a))) d" "\<forall>c \<in> set ds. cont 128 191 c"
      using c by (auto simp: conts_def list_all_iff)
    moreover from this(1) have "cont 128 191 d"
      using lead_range(2,3) [of a] by (auto simp: cont_def)
    ultimately show ?thesis using Cons by simp
  qed auto
qed

lemma rune_width_part:
  assumes "rune_width s = w" "k < w" "0 < k"
  shows "rune_width (take k s) = 0"
proof -
  obtain a u where s: "s = a # u" using assms by (cases s) auto
  have "fst (lead a) = w" using assms unfolding s by (auto simp: rune_width_eq split: if_splits)
  moreover have "take k s = a # take (k - 1) u" using assms(3) by (simp add: s take_Cons')
  ultimately show ?thesis using assms(2,3) by (auto simp: rune_width_eq)
qed

lemma to_valid_conts: "\<forall>c \<in> set s. cont 128 191 c \<Longrightarrow> to_valid_utf8 s = []"
proof (induction s)
  case (Cons c s)
  then show ?case
    by (subst to_valid_utf8.simps) (simp add: rune_width_cont)
qed (simp add: to_valid_utf8.simps)

lemma to_valid_utf8_valid: "valid_utf8 (to_valid_utf8 s)"
proof (induction s rule: to_valid_utf8.induct)
  case (1 s)
  let ?w = "rune_width s"
  show ?case
  proof (cases "s = [] \<or> ?w = 0")
    case True
    with 1 show ?thesis
      by (subst to_valid_utf8.simps) (auto simp: valid_utf8.simps [of "[]"])
  next
    case False
    then have w: "rune_width (take ?w s @ to_valid_utf8 (drop ?w s)) = ?w"
      by (simp add: rune_width_prefix)
    have "drop ?w (take ?w s @ to_valid_utf8 (drop ?w s)) = to_valid_utf8 (drop ?w s)"
      using rune_width_le(1) [of s] by simp
    with False 1 w have "valid_utf8 (take ?w s @ to_valid_utf8 (drop ?w s))"
      by (subst valid_utf8.simps) simp
    with False show ?thesis by (subst to_valid_utf8.simps) simp
  qed
qed

lemma to_valid_utf8_length: "length (to_valid_utf8 s) \<le> length s"
proof (induction s rule: to_valid_utf8.induct)
  case (1 s)
  show ?case
    using 1 rune_width_le(1) [of s]
    by (subst to_valid_utf8.simps) (auto simp: le_diff_conv)
qed

lemma to_valid_utf8_cut:
  "valid_utf8 s \<Longrightarrow> mx \<le> length s \<Longrightarrow>
     \<exists>n. to_valid_utf8 (take mx s) = take n s \<and> n \<le> mx \<and> mx < n + 4"
proof (induction s arbitrary: mx rule: valid_utf8.induct)
  case (1 s)
  let ?w = "rune_width s"
  show ?case
  proof (cases "s = [] \<or> mx = 0")
    case True
    then have "take mx s = []" "mx = 0" using "1.prems" by auto
    then show ?thesis by (intro exI [of _ 0]) (simp add: to_valid_utf8.simps)
  next
    case False
    then have w: "?w \<noteq> 0" "valid_utf8 (drop ?w s)"
      using "1.prems"(1) by (subst (asm) valid_utf8.simps; simp split: if_splits)+
    show ?thesis
    proof (cases "mx < ?w")
      case True
      obtain a u where s: "s = a # u" using False by (cases s) auto
      have "rune_width (take mx s) = 0" using rune_width_part [OF refl True] False by simp
      then have "to_valid_utf8 (take mx s) = to_valid_utf8 (take (mx - 1) u)"
        using False s by (subst to_valid_utf8.simps) (simp add: take_Cons')
      also have "\<dots> = []"
      proof (rule to_valid_conts)
        have "take (mx - 1) u = take (mx - 1) (take (?w - 1) u)" using True by simp
        then show "\<forall>c \<in> set (take (mx - 1) u). cont 128 191 c"
          using rune_conts [of a u "?w - 1"] w(1) s
          by (metis Suc_pred' in_set_takeD not_gr_zero)
      qed
      finally show ?thesis
        using True rune_width_le(2) [of s] by (intro exI [of _ 0]) simp
    next
      case False
      have tk: "take mx s = take ?w s @ take (mx - ?w) (drop ?w s)"
        using False by (metis le_add_diff_inverse not_less take_add)
      have wl: "?w \<le> length s" by (rule rune_width_le)
      have "rune_width (take mx s) = ?w"
        unfolding tk by (rule rune_width_prefix [OF refl w(1)])
      moreover have "take mx s \<noteq> []" using False w(1) \<open>\<not> (s = [] \<or> mx = 0)\<close> by simp
      ultimately have "to_valid_utf8 (take mx s) =
          take ?w (take mx s) @ to_valid_utf8 (drop ?w (take mx s))"
        using w(1) by (subst to_valid_utf8.simps) simp
      also have "\<dots> = take ?w s @ to_valid_utf8 (take (mx - ?w) (drop ?w s))"
        using False by (simp add: min_def drop_take)
      finally have eq: "to_valid_utf8 (take mx s) =
          take ?w s @ to_valid_utf8 (take (mx - ?w) (drop ?w s))" .
      have "\<exists>n. to_valid_utf8 (take (mx - ?w) (drop ?w s)) = take n (drop ?w s) \<and>
          n \<le> mx - ?w \<and> mx - ?w < n + 4"
        using "1.IH" [of "mx - ?w"] w "1.prems"(2) \<open>\<not> (s = [] \<or> mx = 0)\<close> by simp
      then obtain n where n: "to_valid_utf8 (take (mx - ?w) (drop ?w s)) = take n (drop ?w s)"
        "n \<le> mx - ?w" "mx - ?w < n + 4" by blast
      have "take (?w + n) s = take ?w s @ take n (drop ?w s)" by (rule take_add)
      with n eq False show ?thesis by (intro exI [of _ "?w + n"]) auto
    qed
  qed
qed

lemma lower_not_upper: "\<not> isUpper (lower c)"
  by (auto simp: lower_def isUpper_def byte_def of_char_of)

lemma lower_underscore: "lower c = CHR ''_'' \<longleftrightarrow> c = CHR ''_''"
proof
  assume l: "lower c = CHR ''_''"
  show "c = CHR ''_''"
  proof (cases "isUpper c")
    case True
    then have "of_char (lower c) = (of_char c + 32 :: nat)"
      by (simp add: lower_def isUpper_def byte_def of_char_of)
    then have "of_char c + 32 = (95 :: nat)" unfolding l by simp
    with True show ?thesis by (simp add: isUpper_def byte_def)
  next
    case False
    with l show ?thesis by (simp add: lower_def)
  qed
qed (simp add: lower_def isUpper_def byte_def)

subsection \<open>Properties\<close>

text \<open>
  C15: no observation is lost or counted twice: whatever order the hooks and the snapshots take
  the lock in, no hook panics, and for every broker the successful and failed requests, the bytes,
  the dials and their outcomes, the disconnects and the throttles of all snapshots and of the open
  window add up to what the hooks were told.
\<close>

theorem hooks_conserve:
  "\<exists>sts h. run_hooks nk es (newRPCHooks t0) = Some (sts, h) \<and>
     (\<forall>t i. sum_list (map (stats_tally t i) sts) + hooks_tally t i h =
        sum_list (map (event_tally t i) es))"
proof -
  have "hooks_tally t i (newRPCHooks t0) = 0" for t i
    by (cases t) (simp_all add: hooks_tally_def newRPCHooks_def broker_of_def zero_broker_def
        zero_histogram_def)
  then show ?thesis using run_hooks_ok [of "newRPCHooks t0" nk es] by auto
qed

text \<open>
  Cutting a connect error keeps it encodable: the result is at most \<open>max\<close> bytes when it was
  cut and valid UTF-8, and of a valid message it is a prefix that loses at most three bytes more.
\<close>

theorem truncate_utf8:
  assumes "length s > mx"
  shows "length (truncate_string s mx) \<le> mx \<and> valid_utf8 (truncate_string s mx) \<and>
    (valid_utf8 s \<longrightarrow> (\<exists>n. truncate_string s mx = take n s \<and> n \<le> mx \<and> mx < n + 4))"
proof -
  have eq: "truncate_string s mx = to_valid_utf8 (take mx s)"
    using assms by (simp add: truncate_string_def)
  have "length (to_valid_utf8 (take mx s)) \<le> mx"
    using to_valid_utf8_length [of "take mx s"] by simp
  then show ?thesis
    unfolding eq using to_valid_utf8_valid to_valid_utf8_cut [of s mx] assms by simp
qed

text \<open>
  An API name keeps its letters: \<open>snakeCase\<close> only lowers them and adds underscores.
\<close>

theorem snakeCase_letters:
  assumes "CHR ''_'' \<notin> set s"
  shows "filter (\<lambda>c. c \<noteq> CHR ''_'') (snakeCase s) = map lower s \<and>
    list_all (\<lambda>c. \<not> isUpper c) (snakeCase s)"
proof -
  let ?u = "\<lambda>i. if i > 0 \<and> isUpper (s ! i) \<and> startsWord s i then ''_'' else []"
  have "filter (\<lambda>c. c \<noteq> CHR ''_'') (concat (map (\<lambda>i. ?u i @ [lower (s ! i)]) is)) =
      map (\<lambda>i. lower (s ! i)) is" if "set is \<subseteq> {..< length s}" for "is"
    using that assms
    by (induction "is") (auto simp: lower_underscore dest!: nth_mem)
  from this [of "[0 ..< length s]"]
  have "filter (\<lambda>c. c \<noteq> CHR ''_'') (snakeCase s) = map (\<lambda>i. lower (s ! i)) [0 ..< length s]"
    unfolding snakeCase_def by (simp add: atLeast0LessThan)
  also have "\<dots> = map lower (map (nth s) [0 ..< length s])" by simp
  also have "\<dots> = map lower s" by (simp only: map_nth)
  finally have "filter (\<lambda>c. c \<noteq> CHR ''_'') (snakeCase s) = map lower s" .
  moreover have "list_all (\<lambda>c. \<not> isUpper c) ((if b then ''_'' else []) @ [lower c])" for b c
    using lower_not_upper [of c] by (simp add: isUpper_def [of "CHR ''_''"] byte_def)
  then have "list_all (\<lambda>c. \<not> isUpper c) (snakeCase s)"
    unfolding snakeCase_def list_all_iff set_concat set_map by blast
  ultimately show ?thesis by blast
qed

theorem truncate_utf8_witness:
  "valid_utf8 (truncate_string [CHR ''a'', CHR 0xC3, CHR 0xA9] 2) \<and>
   truncate_string [CHR ''a'', CHR 0xC3, CHR 0xA9] 2 = ''a''"
proof -
  have "length [CHR ''a'', CHR 0xC3, CHR 0xA9] > 2" by simp
  moreover have "truncate_string [CHR ''a'', CHR 0xC3, CHR 0xA9] 2 = ''a''" by code_simp
  ultimately show ?thesis using truncate_utf8 by blast
qed

theorem snakeCase_letters_witness:
  "filter (\<lambda>c. c \<noteq> CHR ''_'') (snakeCase ''SASLHandshake'') = ''saslhandshake'' \<and>
   snakeCase ''SASLHandshake'' = ''sasl_handshake'' \<and> snakeCase ''DescribeACLs'' = ''describe_acls''"
proof -
  have "CHR ''_'' \<notin> set ''SASLHandshake''" by simp
  moreover have "map lower ''SASLHandshake'' = ''saslhandshake''" by code_simp
  moreover have "snakeCase ''SASLHandshake'' = ''sasl_handshake''"
    "snakeCase ''DescribeACLs'' = ''describe_acls''" by code_simp+
  ultimately show ?thesis using snakeCase_letters by metis
qed

end
