(* ===== verification/Mock_Report.thy ===== *)
theory Mock_Report
  imports Mock_Delivery Hooks
begin

text \<open>
  What the mock ingest tells a reader: the report of a request and the dump of a refused body, the
  start-up header and the summary (\<open>src/internal/mockingest/report.go\<close>), and the exit code of the
  command around it (\<open>src/cmd/mock-ingest/main.go\<close>). \<open>fmt\<close> is modelled by keeping the operands: a
  line is a value of \<open>report_line\<close>, a summary a record. The encoder that makes a body readable,
  \<open>filepath.Join\<close> and the file system are the parameters \<open>report_library\<close>.
\<close>

subsection \<open>Dumps\<close>

definition safe_char :: "char \<Rightarrow> bool" where
  "safe_char c \<longleftrightarrow>
     cont 97 122 c \<or> cont 65 90 c \<or> cont 48 57 c \<or> c = CHR ''-'' \<or> c = CHR ''_''"

text \<open>\<open>strings.Map\<close> decodes the string: every rune of several bytes, and every byte that no rune
  covers, is one call of the function.\<close>

function map_unsafe :: "string \<Rightarrow> string" where
  "map_unsafe s =
     (if s = [] then []
      else if safe_char (hd s) then hd s # map_unsafe (tl s)
      else CHR ''_'' # map_unsafe (drop (max 1 (rune_width s)) s))"
  by pat_completeness auto
termination by (relation "measure length") (auto simp: diff_less)

declare map_unsafe.simps [simp del]

definition sanitize :: "string \<Rightarrow> string" where
  "sanitize s = (if s = [] then ''nokey'' else map_unsafe s)"

record report_library =
  rl_pretty :: "string \<Rightarrow> string option"
  rl_join :: "string \<Rightarrow> string \<Rightarrow> string"
  rl_write :: "string \<Rightarrow> string \<Rightarrow> bool"

definition dump_name :: "result \<Rightarrow> string" where
  "dump_name res = ''fail-'' @ show_int (int (re_n res)) @ ''-'' @ sanitize (re_key res) @ ''.json''"

text \<open>The path that is printed, and the write: the name within the directory and the content.\<close>

definition dumpFailure ::
    "report_library \<Rightarrow> string \<Rightarrow> result \<Rightarrow> string \<times> (string \<times> string) option" where
  "dumpFailure lib dir res =
     (if dir = [] \<or> re_raw res = [] then ([], None)
      else
        let path = rl_join lib dir (dump_name res);
            pretty = (case rl_pretty lib (re_raw res) of None \<Rightarrow> re_raw res | Some p \<Rightarrow> p);
            body = pretty @ [CHR 0x0A]
        in (if rl_write lib path body then path else [], Some (dump_name res, body)))"

subsection \<open>The report of a request\<close>

record batch_counts =
  bc_topics :: nat
  bc_partitions :: nat
  bc_groups :: nat
  bc_committed :: nat
  bc_statuses :: "string list"
  bc_errors :: nat
  bc_collect_ms :: int64

text \<open>The ratio of a body of no bytes is the constant 100; otherwise its two operands.\<close>

record batch_line =
  bl_tag :: string
  bl_n :: nat
  bl_seq :: "64 word"
  bl_inst :: string
  bl_gzipped :: bool
  bl_raw_len :: nat
  bl_wire_len :: nat
  bl_ratio :: "(nat \<times> nat) option"
  bl_counts :: "batch_counts option"

datatype report_line =
    NewInstanceLine string
  | BatchLine batch_line
  | WarnLine failure
  | InfoLine string
  | FailureBox nat "64 word" string string "(string \<times> failure) list" string

definition counts_of :: "wbatch \<Rightarrow> batch_counts" where
  "counts_of b =
     \<lparr>bc_topics = length (wb_topics b),
      bc_partitions = foldl (\<lambda>n t. n + length (wtp_partitions t)) 0 (wb_topics b),
      bc_groups = length (wb_groups b),
      bc_committed = foldl (\<lambda>n co. n + length (wc_offsets co)) 0 (wb_offsets b),
      bc_statuses = map ws_status (wb_sections b),
      bc_errors = length (wb_errors b), bc_collect_ms = wb_collection_ms b\<rparr>"

definition batchLine :: "result \<Rightarrow> batch_line" where
  "batchLine res =
     \<lparr>bl_tag = (if re_retry res then if re_after_fault res then ''[retry*]'' else ''[retry]'' else ''[ok  ]''),
      bl_n = re_n res, bl_seq = re_seq res, bl_inst = re_instance res, bl_gzipped = re_gzipped res,
      bl_raw_len = re_raw_len res, bl_wire_len = re_wire_len res,
      bl_ratio = (if re_raw_len res > 0 then Some (re_wire_len res, re_raw_len res) else None),
      bl_counts = map_option counts_of (re_batch res)\<rparr>"

definition reportFatal ::
    "report_library \<Rightarrow> string \<Rightarrow> result \<Rightarrow> report_line \<times> (string \<times> string) option" where
  "reportFatal lib dir res =
     (let rows = map (\<lambda>f. (if fl_severity f = SeverityFatal then ''FAIL'' else ''warn'', f)) (re_failures res);
          (path, dump) = dumpFailure lib dir res
      in (FailureBox (re_n res) (re_seq res) (re_instance res) (re_key res) rows path, dump))"

definition report ::
    "report_library \<Rightarrow> string \<Rightarrow> result \<Rightarrow> bool \<Rightarrow> report_line list \<times> (string \<times> string) option" where
  "report lib dir res fatal =
     (let new = (if re_new_instance res \<and> re_instance res \<noteq> [] then [NewInstanceLine (re_instance res)] else [])
      in if fatal then (let (box, dump) = reportFatal lib dir res in (new @ [box], dump))
         else (new @ BatchLine (batchLine res) # map WarnLine (re_failures res) @
                 (if re_export_err res \<noteq> [] then [InfoLine (re_export_err res)] else []), None))"

subsection \<open>The summary\<close>

datatype human_size = MB int64 | KB int64 | Bytes int64

definition humanBytes :: "int64 \<Rightarrow> human_size" where
  "humanBytes n = (if n \<ge> 1048576 then MB n else if n \<ge> 1024 then KB n else Bytes n)"

record summary =
  sm_uptime :: int64
  sm_stats :: mock_stats
  sm_instances :: nat
  sm_faults :: string
  sm_p50 :: human_size
  sm_p95 :: human_size
  sm_max :: human_size
  sm_wire :: "(nat \<times> nat) option"

fun join_spaces :: "string list \<Rightarrow> string" where
  "join_spaces [] = []"
| "join_spaces [p] = p"
| "join_spaces (p # q # ps) = p @ CHR '' '' # join_spaces (q # ps)"

text \<open>\<open>Stats\<close>: the counters, the whole seconds since the start (up to the rounding of a \<open>float64\<close>), and
  the instances seen.\<close>

definition uptime_sec :: "gotime \<Rightarrow> server \<Rightarrow> int64" where
  "uptime_sec now s = go_div (time_sub now (sv_start s)) second"

definition Summary :: "gotime \<Rightarrow> server \<Rightarrow> summary" where
  "Summary now s =
     (let sizes = sort (sv_sizes s);
          hits = sort (map (\<lambda>(reason, n). reason @ '' x'' @ show_int (int n)) (sv_fault_hits s));
          st = sv_stats s
      in \<lparr>sm_uptime = uptime_sec now s, sm_stats = st, sm_instances = length (sv_instances s),
          sm_faults = (if hits \<noteq> [] then join_spaces hits else ''none''),
          sm_p50 = humanBytes (int (percentile sizes 50)),
          sm_p95 = humanBytes (int (percentile sizes 95)),
          sm_max = humanBytes (int (percentile sizes 100)),
          sm_wire = (if ms_bytes_decoded st > 0 then Some (ms_bytes_wire st, ms_bytes_decoded st) else None)\<rparr>)"

record banner =
  bn_addr :: string
  bn_path :: string
  bn_key :: string
  bn_mode :: string
  bn_require :: int
  bn_keep :: int
  bn_max_body :: human_size
  bn_sections :: string
  bn_faults :: "faults option"

definition Banner :: "mock_config \<Rightarrow> faults \<Rightarrow> string \<Rightarrow> server \<Rightarrow> banner" where
  "Banner cfg configured addr s =
     \<lparr>bn_addr = addr, bn_path = mc_path cfg,
      bn_key = (if mc_api_key cfg \<noteq> [] then ''set'' else ''unset (auth check disabled)''),
      bn_mode = (if mc_strict cfg
                 then ''strict (every warn is fatal, and a fatal permanently rejects the batch)''
                 else if mc_warn_only cfg then ''warn-only (nothing is ever rejected)'' else ''normal''),
      bn_require = mc_require cfg, bn_keep = mc_keep cfg, bn_max_body = humanBytes (mc_max_body cfg),
      bn_sections = join_commas (mc_sections cfg),
      bn_faults = (if armed configured then Some (sv_faults s) else None)\<rparr>"

subsection \<open>The command\<close>

text \<open>
  What the loop of \<open>run\<close> receives, with the counters of the server at an interrupt. Its value is
  \<open>None\<close> while it waits, \<open>Inl\<close> the code it returns at once, or \<open>Inr\<close> the code it leaves with.
\<close>

datatype run_event = ListenFailed | SummaryTick | RunDone | Interrupted mock_stats

fun run_loop :: "int \<Rightarrow> run_event list \<Rightarrow> (int + int) option" where
  "run_loop require [] = None"
| "run_loop require (ListenFailed # es) = Some (Inl 1)"
| "run_loop require (SummaryTick # es) = run_loop require es"
| "run_loop require (RunDone # es) = Some (Inr 0)"
| "run_loop require (Interrupted st # es) =
     Some (Inr (if require > 0 \<and> int (ms_accepted st) < require then 1 else 0))"

text \<open>\<open>final\<close>: the counters once the listener has shut down.\<close>

definition run_mock :: "new_outcome \<Rightarrow> int \<Rightarrow> run_event list \<Rightarrow> mock_stats \<Rightarrow> int option" where
  "run_mock made require events final =
     (case made of
        NewFails e \<Rightarrow> Some 2
      | NewPanics \<Rightarrow> None
      | NewOK cfg s \<Rightarrow>
          map_option (\<lambda>r. case r of
              Inl code \<Rightarrow> code
            | Inr code \<Rightarrow>
                if ms_fatal final > 0 then 1
                else if require > 0 \<and> int (ms_accepted final) < require then 1 else code)
            (run_loop require events))"

subsection \<open>The books behind the exit code\<close>

definition settled_run :: "mock_config \<Rightarrow> server \<Rightarrow> bool" where
  "settled_run cfg s \<longleftrightarrow>
     (sv_done s \<longleftrightarrow> mc_require cfg > 0 \<and>
        (ms_fatal (sv_stats s) > 0 \<or> int (ms_accepted (sv_stats s)) \<ge> mc_require cfg))"

definition verdict_of :: "server \<Rightarrow> bool \<times> nat \<times> nat" where
  "verdict_of s = (sv_done s, ms_fatal (sv_stats s), ms_accepted (sv_stats s))"

lemma verdict_of_simps [simp]:
  "verdict_of (upd_delivery res fd fi s) = verdict_of s"
  "verdict_of (noteTerminal n s) = verdict_of s"
  "verdict_of (snd (decide k s)) = verdict_of s"
  "verdict_of (SetFaults f s) = verdict_of s"
  by (simp_all add: verdict_of_def noteTerminal_def SetFaults_def decide_def Let_def)

lemma validate_verdict:
  "validate cfg lib now rq s = (res, s') \<Longrightarrow> verdict_of s' = verdict_of s"
  by (auto simp: validate_def checkState_def verdict_of_def Let_def
      split: prod.splits if_splits option.splits bool.splits)

lemma recordResult_verdict:
  "recordResult cfg res s = (fatal, s') \<Longrightarrow>
     verdict_of s' = (sv_done s, ms_fatal (sv_stats s) + (if fatal then 1 else 0), ms_accepted (sv_stats s))"
  by (auto simp: recordResult_def verdict_of_def Let_def)

text \<open>A request is refused and counted fatal, accepted and counted, or neither.\<close>

lemma handleIngest_verdict:
  assumes "handleIngest cfg lib su rq s = (resp, s')" "verdict_of s = (d, fatal, accepted)"
  shows "verdict_of s' =
     (case resp of
        Refused _ _ \<Rightarrow> (d \<or> mc_require cfg > 0, Suc fatal, accepted)
      | Accepted _ \<Rightarrow>
          (d \<or> mc_require cfg > 0 \<and> int (Suc accepted) \<ge> mc_require cfg, fatal, Suc accepted)
      | _ \<Rightarrow> (d, fatal, accepted))"
proof -
  obtain res s1 where v: "validate cfg lib (su_at su) rq s = (res, s1)" by fastforce
  obtain bad s2 where r: "recordResult cfg res s1 = (bad, s2)" by fastforce
  have s1: "verdict_of s1 = (d, fatal, accepted)" using validate_verdict [OF v] assms(2) by simp
  have s2: "verdict_of s2 = (d, fatal + (if bad then 1 else 0), accepted)"
    using recordResult_verdict [OF r] s1 by (simp add: verdict_of_def)
  show ?thesis
  proof (cases bad)
    case True
    then show ?thesis
      using assms(1) s2 by (auto simp: handleIngest_def v r refuse_def finishRun_def verdict_of_def)
  next
    case False
    obtain f s3 where d: "decide (re_n res) s2 = (f, s3)" by fastforce
    have s3: "verdict_of s3 = (d, fatal, accepted)"
      using verdict_of_simps(3) [of "re_n res" s2] s2 False by (simp add: d)
    have "respond cfg su res f s3 = (resp, s')" using assms(1) False by (simp add: handleIngest_def v r d)
    then show ?thesis
      using s3
      by (auto simp: respond_def accept_def noteAccepted_def markAcked_def markTruncated_def Let_def
          finishRun_def verdict_of_def split: fault_kind.splits if_splits)
  qed
qed

text \<open>
  What the clients of a run were answered, in order, since the last reset: \<open>past\<close> are the answers
  given before.
\<close>

fun answers ::
    "mock_config \<Rightarrow> mock_library \<Rightarrow> server_call list \<Rightarrow> server \<Rightarrow> response list \<Rightarrow> response list" where
  "answers cfg lib [] s past = past"
| "answers cfg lib (Ingest su rq # calls) s past =
     answers cfg lib calls (snd (handleIngest cfg lib su rq s)) (past @ [fst (handleIngest cfg lib su rq s)])"
| "answers cfg lib (Control f # calls) s past = answers cfg lib calls (SetFaults f s) past"
| "answers cfg lib (Reset now # calls) s past = answers cfg lib calls (ResetServer now s) []"

definition is_refused :: "response \<Rightarrow> bool" where
  "is_refused r = (case r of Refused _ _ \<Rightarrow> True | _ \<Rightarrow> False)"

definition is_accepted :: "response \<Rightarrow> bool" where
  "is_accepted r = (case r of Accepted _ \<Rightarrow> True | _ \<Rightarrow> False)"

lemma serve_step:
  "serve cfg lib [] s = s" "serve cfg lib (call # calls) s = serve cfg lib calls (serve_call cfg lib call s)"
  by (simp_all add: serve_def)

text \<open>The counters of the server agree with the answers since the last reset.\<close>

definition books :: "response list \<Rightarrow> server \<Rightarrow> bool" where
  "books past s \<longleftrightarrow>
     ms_fatal (sv_stats s) = length (filter is_refused past) \<and>
     ms_accepted (sv_stats s) = length (filter is_accepted past)"

lemma handleIngest_books:
  assumes "books past s"
  shows "books (past @ [fst (handleIngest cfg lib su rq s)]) (snd (handleIngest cfg lib su rq s))"
    "settled_run cfg s \<Longrightarrow> settled_run cfg (snd (handleIngest cfg lib su rq s))"
proof -
  obtain resp s' where h: "handleIngest cfg lib su rq s = (resp, s')" by fastforce
  have "verdict_of s = (sv_done s, ms_fatal (sv_stats s), ms_accepted (sv_stats s))" by (simp add: verdict_of_def)
  from handleIngest_verdict [OF h this] assms
  show "books (past @ [fst (handleIngest cfg lib su rq s)]) (snd (handleIngest cfg lib su rq s))"
    "settled_run cfg s \<Longrightarrow> settled_run cfg (snd (handleIngest cfg lib su rq s))"
    by (auto simp: h books_def verdict_of_def settled_run_def is_refused_def is_accepted_def
        split: response.splits)
qed

lemma ResetServer_books: "books [] (ResetServer now s)"
  by (simp add: books_def ResetServer_def fresh_server_def zero_stats_def)

lemma serve_books: "books past s \<Longrightarrow> books (answers cfg lib calls s past) (serve cfg lib calls s)"
proof (induction cfg lib calls s past rule: answers.induct)
  case (2 cfg lib su rq calls s past)
  then show ?case using handleIngest_books(1) [OF "2.prems"] by (simp add: serve_step)
next
  case (3 cfg lib f calls s past)
  moreover have "books past (SetFaults f s)" using 3 by (simp add: books_def SetFaults_def)
  ultimately show ?case by (simp add: serve_step)
next
  case (4 cfg lib now calls s past)
  then show ?case by (simp add: serve_step ResetServer_books)
qed (simp add: serve_step)

lemma serve_settled:
  "settled_run cfg s \<Longrightarrow> books past s \<Longrightarrow> \<not> list_ex is_reset calls \<Longrightarrow> settled_run cfg (serve cfg lib calls s)"
proof (induction cfg lib calls s past rule: answers.induct)
  case (2 cfg lib su rq calls s past)
  then show ?case using handleIngest_books [OF "2.prems"(2)] by (simp add: serve_step)
next
  case (3 cfg lib f calls s past)
  then show ?case by (simp add: serve_step settled_run_def books_def SetFaults_def)
qed (simp_all add: serve_step is_reset_def)

lemma newServer_settled:
  assumes "newServer cfg0 f now = NewOK cfg s"
  shows "settled_run cfg s" "books [] s"
  using assms
  by (auto simp: newServer_def fresh_server_def zero_stats_def settled_run_def books_def Let_def split: if_splits)

lemma run_loop_ticks: "run_loop require (replicate n SummaryTick @ es) = run_loop require es"
  by (induction n) simp_all

lemma none_filtered: "length (filter P xs) = 0 \<longleftrightarrow> \<not> list_ex P xs"
  by (auto simp: filter_empty_conv list_ex_iff)

subsection \<open>The names of the dumps\<close>

lemma safe_signs: "safe_char CHR ''-''" "safe_char CHR ''_''"
  by (simp_all add: safe_char_def)

lemma map_unsafe_safe: "list_all safe_char (map_unsafe s)"
proof (induction s rule: map_unsafe.induct)
  case (1 s)
  then show ?case by (subst map_unsafe.simps) (auto simp: safe_signs)
qed

lemma sanitize_safe: "list_all safe_char (sanitize s)"
  using map_unsafe_safe by (simp add: sanitize_def safe_char_def cont_def byte_def)

lemma dump_name_chars: "c \<in> set (dump_name res) \<Longrightarrow> safe_char c \<or> c = CHR ''.''"
proof -
  have digit: "safe_char d" if "d \<in> set (digits n)" for d n
    using digits_props [of n] that by (auto simp: list_all_iff is_digit_def safe_char_def cont_def byte_def)
  assume "c \<in> set (dump_name res)"
  then show ?thesis
    using sanitize_safe [of "re_key res"] digit [of c "re_n res"]
    by (auto simp: dump_name_def show_int_def list_all_iff) (simp_all add: safe_char_def cont_def byte_def)
qed

lemma dump_name_inj:
  assumes "dump_name res = dump_name res'"
  shows "re_n res = re_n res'"
proof -
  have no: "CHR ''-'' \<notin> set (digits m)" for m
    using digits_props [of m] by (auto simp: list_all_iff is_digit_def)
  have cut: "takeWhile (\<lambda>c. c \<noteq> CHR ''-'') (digits m @ CHR ''-'' # r) = digits m" for m r
    using no by (subst takeWhile_append2) auto
  have "digits (re_n res) @ CHR ''-'' # sanitize (re_key res) @ ''.json'' =
      digits (re_n res') @ CHR ''-'' # sanitize (re_key res') @ ''.json''"
    using assms by (simp add: dump_name_def show_int_def)
  from arg_cong [OF this, of "takeWhile (\<lambda>c. c \<noteq> CHR ''-'')"]
  have "digits (re_n res) = digits (re_n res')" unfolding cut .
  then show ?thesis using digits_props by metis
qed

subsection \<open>Properties\<close>


text \<open>
  C39: a dump stays where it was asked for. A body is written only for a refused request with a body
  and a configured directory; whatever the client put into the key, the file is a single name in
  that directory (no separator, not \<open>.\<close> or \<open>..\<close>); and the dumps of two requests never collide, as
  long as their ordinals differ (a reset of the server starts them again).
\<close>

theorem dumps_are_contained:
  assumes "snd (report lib dir res fatal) = Some (file, body)"
  shows "fatal \<and> dir \<noteq> [] \<and> re_raw res \<noteq> [] \<and> CHR ''/'' \<notin> set file \<and> file \<notin> {''.'', ''..''} \<and>
    (\<exists>rest. file = ''fail-'' @ rest) \<and>
    (\<forall>lib' dir' res' fatal' body'. snd (report lib' dir' res' fatal') = Some (file, body') \<longrightarrow> re_n res' = re_n res)"
proof -
  have dump: "fatal \<and> dir \<noteq> [] \<and> re_raw res \<noteq> [] \<and> file = dump_name res"
    if "snd (report lib dir res fatal) = Some (file, body)" for lib dir res fatal body
    using that by (auto simp: report_def reportFatal_def dumpFailure_def Let_def split: if_splits)
  note d = dump [OF assms]
  have "CHR ''/'' \<notin> set file"
    using d dump_name_chars [of "CHR ''/''" res] by (auto simp: safe_char_def cont_def byte_def)
  moreover have "\<exists>rest. file = ''fail-'' @ rest" using d by (simp add: dump_name_def)
  moreover have "re_n res' = re_n res" if "snd (report lib' dir' res' fatal') = Some (file, body')"
    for lib' dir' res' fatal' body' using dump [OF that] d dump_name_inj by metis
  ultimately show ?thesis using d by auto
qed

subsection \<open>Witnesses\<close>

definition wit_ci :: mock_config where "wit_ci = wit_mock\<lparr>mc_require := 1\<rparr>"

lemma wit_ci_facts:
  "newServer wit_ci no_faults 0 = NewOK wit_ci (wit_server 0)" "normal wit_ci"
  "request_fine wit_ci wit_lib wit_post ''{}'' wit_wire" "contract wit_ci (su_at wit_su) (iq_key wit_post) wit_wire"
proof -
  show "newServer wit_ci no_faults 0 = NewOK wit_ci (wit_server 0)"
    by (simp add: newServer_def with_config_defaults_def wit_ci_def wit_mock_def minute_def wit_server_def
        no_faults_def Let_def)
  show "normal wit_ci" using wit_delivery_facts(1) by (simp add: normal_def wit_ci_def)
  show "request_fine wit_ci wit_lib wit_post ''{}'' wit_wire"
    using wit_delivery_facts(2) by (simp add: request_fine_def body_of_def wit_ci_def)
  have "envelope_ok wit_ci second ''a-4'' wit_wire" "sections_ok wit_ci wit_wire" "data_ok wit_wire"
    "truncation_ok wit_wire" "agent_ok wit_wire" by code_simp+
  then show "contract wit_ci (su_at wit_su) (iq_key wit_post) wit_wire"
    by (simp add: contract_def wit_su_def wit_post_def)
qed

lemma wit_ci_answer:
  "fst (handleIngest wit_ci wit_lib wit_su wit_post (ResetServer 0 s)) = Accepted (wb_seq wit_wire)"
proof -
  have "0 < wb_seq wit_wire" by (simp add: wit_wire_def)
  from reset_accepts [OF wit_ci_facts(2) wit_delivery_facts(5) wit_ci_facts(3,4) this] show ?thesis .
qed


definition wit_report :: report_library where
  "wit_report = \<lparr>rl_pretty = (\<lambda>_. None), rl_join = (\<lambda>d n. d @ ''/'' @ n), rl_write = (\<lambda>_ _. True)\<rparr>"

definition wit_bad :: result where
  "wit_bad = (fresh_result 7)\<lparr>re_raw := ''{}'', re_key := ''../../x y''\<rparr>"

lemma wit_dump: "snd (report wit_report ''/tmp'' wit_bad True) = Some (''fail-7-______x_y.json'', ''{}'' @ [CHR 0x0A])"
  by code_simp

theorem dumps_are_contained_witness:
  "CHR ''/'' \<notin> set ''fail-7-______x_y.json'' \<and>
   snd (report wit_report ''/tmp'' wit_bad True) = Some (''fail-7-______x_y.json'', ''{}'' @ [CHR 0x0A])"
  using dumps_are_contained [OF wit_dump] wit_dump by blast

end
