(* ===== verification/Mock_Schema.thy ===== *)
theory Mock_Schema
  imports Strconv
begin

text \<open>
  The frozen schema of the wire contract, \<open>src/internal/mockingest/schema.go\<close>: \<open>FieldPaths\<close> walks a Go
  type by reflection and renders every JSON path it can produce, one line per field. What
  \<open>reflect.Type\<close> answers is a \<open>go_universe\<close>: the declarations of the named types, and which types
  carry a marshaler of their own. A declared type of kind slice may contain itself, and \<open>unwrap\<close>
  has no stack, so the walk is a partial function: \<open>None\<close> is a walk that does not end.

  The lemmas give the two halves of the contract: the walk ends on every universe whose containers
  are well-founded (\<open>FieldPaths_returns\<close>), and then the lines are exactly the JSON paths
  (\<open>json_path\<close>) of a type that does not contain itself (\<open>FieldPaths_exact\<close>).
\<close>

subsection \<open>Go types\<close>

text \<open>
  A predeclared type, a declared type by its printed name, the composite types, a struct literal
  with the text \<open>reflect\<close> prints for it, and every other kind (interfaces, functions, channels). The
  tag of a field is the list of its key and value pairs, which \<open>Tag.Lookup\<close> searches from the left.
\<close>

datatype go_type =
    TBasic string
  | TNamed string
  | TPointer go_type
  | TSlice go_type
  | TArray nat go_type
  | TMap go_type go_type
  | TStruct string "go_field list"
  | TOther string
and go_field =
    Field (f_name: string) (f_exported: bool) (f_anonymous: bool)
      (f_tag: "(string \<times> string) list") (f_type: go_type)

record go_universe =
  gu_decls :: "(string \<times> go_type) list"
  gu_marshals :: "go_type \<Rightarrow> bool"

definition underlying :: "go_universe \<Rightarrow> go_type \<Rightarrow> go_type" where
  "underlying G t =
     (case t of
        TNamed n \<Rightarrow> (case map_of (gu_decls G) n of None \<Rightarrow> TOther n | Some u \<Rightarrow> u)
      | _ \<Rightarrow> t)"

text \<open>\<open>t.String()\<close>.\<close>

fun type_text :: "go_type \<Rightarrow> string" where
  "type_text (TBasic n) = n"
| "type_text (TNamed n) = n"
| "type_text (TPointer t) = ''*'' @ type_text t"
| "type_text (TSlice t) = ''[]'' @ type_text t"
| "type_text (TArray k t) = ''['' @ digits k @ '']'' @ type_text t"
| "type_text (TMap k t) = ''map['' @ type_text k @ '']'' @ type_text t"
| "type_text (TStruct s fs) = s"
| "type_text (TOther s) = s"

text \<open>\<open>Kind() == Struct\<close>, with the fields; and \<open>Elem()\<close> with what the path gains by it.\<close>

definition struct_fields :: "go_universe \<Rightarrow> go_type \<Rightarrow> go_field list option" where
  "struct_fields G t = (case underlying G t of TStruct _ fs \<Rightarrow> Some fs | _ \<Rightarrow> None)"

definition type_elem :: "go_universe \<Rightarrow> go_type \<Rightarrow> (go_type \<times> string) option" where
  "type_elem G t =
     (case underlying G t of
        TPointer e \<Rightarrow> Some (e, [])
      | TSlice e \<Rightarrow> Some (e, ''[]'')
      | TArray _ e \<Rightarrow> Some (e, ''[]'')
      | TMap _ e \<Rightarrow> Some (e, ''{}'')
      | _ \<Rightarrow> None)"

definition timeType :: go_type where "timeType = TNamed ''time.Time''"

definition isLeaf :: "go_universe \<Rightarrow> go_type \<Rightarrow> bool" where
  "isLeaf G t \<longleftrightarrow>
     t = timeType \<or> gu_marshals G t \<or> gu_marshals G (TPointer t) \<or>
     struct_fields G t = None \<and> type_elem G t = None"

subsection \<open>The walk\<close>

definition jsonName :: "go_field \<Rightarrow> string \<times> bool \<times> bool" where
  "jsonName f =
     (case map_of (f_tag f) ''json'' of
        None \<Rightarrow> if f_anonymous f then ([], False, False) else (f_name f, False, False)
      | Some tag \<Rightarrow>
          (let parts = split_commas tag; omitempty = ''omitempty'' \<in> set (tl parts)
           in if hd parts = ''-'' \<and> length parts = 1 then ([], False, True)
              else (if hd parts = [] \<and> \<not> f_anonymous f then f_name f else hd parts, omitempty, False)))"

definition is_pointer :: "go_universe \<Rightarrow> go_type \<Rightarrow> bool" where
  "is_pointer G t \<longleftrightarrow> (case underlying G t of TPointer _ \<Rightarrow> True | _ \<Rightarrow> False)"

definition path_line :: "go_universe \<Rightarrow> string \<Rightarrow> go_type \<Rightarrow> bool \<Rightarrow> string" where
  "path_line G path t omitempty =
     path @ '' '' @ type_text t @ (if is_pointer G t then '' nullable'' else []) @
     (if omitempty then '' omitempty'' else [])"

partial_function (option) unwrap :: "go_universe \<Rightarrow> go_type \<Rightarrow> string \<Rightarrow> (go_type \<times> string) option" where
  "unwrap G t sfx =
     (if isLeaf G t then Some (t, sfx)
      else case type_elem G t of
             None \<Rightarrow> Some (t, sfx)
           | Some (e, s) \<Rightarrow> unwrap G e (sfx @ s))"

text \<open>The loop over the fields of a struct: the lines of each, in order.\<close>

fun gather :: "('a \<Rightarrow> 'b list option) \<Rightarrow> 'a list \<Rightarrow> 'b list option" where
  "gather f [] = Some []"
| "gather f (x # xs) = Option.bind (f x) (\<lambda>ys. Option.bind (gather f xs) (\<lambda>zs. Some (ys @ zs)))"

lemma gather_mono [partial_function_mono]:
  assumes "\<And>x. mono_option (\<lambda>h. f h x)"
  shows "mono_option (\<lambda>h. gather (f h) xs)"
proof (induction xs)
  case (Cons x xs)
  have "mono_option (\<lambda>h. Option.bind (f h x) (\<lambda>ys. Option.bind (gather (f h) xs) (\<lambda>zs. Some (ys @ zs))))"
    by (intro partial_function_mono assms Cons)
  then show ?case by simp
qed (simp add: partial_function_mono)

definition join_path :: "string \<Rightarrow> string \<Rightarrow> string" where
  "join_path pfx name = (if pfx = [] then name else pfx @ ''.'' @ name)"

text \<open>One turn of the loop over the fields; \<open>walk\<close> is the recursive call.\<close>

definition field_lines ::
    "go_universe \<Rightarrow> (string \<Rightarrow> go_type \<Rightarrow> string list option) \<Rightarrow> string \<Rightarrow> go_field \<Rightarrow> string list option" where
  "field_lines G walk pfx f =
     (if \<not> f_exported f \<and> \<not> f_anonymous f then Some []
      else case jsonName f of (name, omitempty, skip) \<Rightarrow>
        if skip then Some []
        else if name = [] \<and> f_anonymous f then
          Option.bind (unwrap G (f_type f) []) (\<lambda>(inner, _). walk pfx inner)
        else
          Option.bind (unwrap G (f_type f) []) (\<lambda>(inner, sfx).
            Option.bind (if isLeaf G inner then Some [] else walk (join_path pfx name @ sfx) inner)
              (\<lambda>rest. Some (path_line G (join_path pfx name) (f_type f) omitempty # rest))))"

lemma field_lines_mono [partial_function_mono]:
  assumes "\<And>p u. mono_option (\<lambda>h. walk h p u)"
  shows "mono_option (\<lambda>h. field_lines G (walk h) pfx f)"
  unfolding field_lines_def split_beta by (intro partial_function_mono assms)

partial_function (option) walkStruct ::
    "go_universe \<Rightarrow> string \<Rightarrow> go_type \<Rightarrow> go_type list \<Rightarrow> string list option" where
  "walkStruct G pfx t stack =
     (case struct_fields G t of
        None \<Rightarrow> Some []
      | Some fs \<Rightarrow>
          if t \<in> set stack then Some []
          else gather (field_lines G (\<lambda>p u. walkStruct G p u (t # stack)) pfx) fs)"

definition FieldPaths :: "go_universe \<Rightarrow> go_type \<Rightarrow> string list option" where
  "FieldPaths G t = map_option sort (walkStruct G [] t [])"

subsection \<open>The walk ends\<close>

text \<open>
  \<open>core\<close> is the declared type at the bottom of a composite one. A declaration contains that type
  when it is not a struct, and \<open>unwrap\<close> ends when no declaration contains itself in this way.
\<close>

fun core :: "go_type \<Rightarrow> string option" where
  "core (TNamed n) = Some n"
| "core (TPointer t) = core t"
| "core (TSlice t) = core t"
| "core (TArray k t) = core t"
| "core (TMap k t) = core t"
| "core _ = None"

definition contains :: "go_universe \<Rightarrow> (string \<times> string) set" where
  "contains G = {(m, n). \<exists>u. map_of (gu_decls G) n = Some u \<and> core u = Some m}"

lemma finite_contains: "finite (contains G)"
proof -
  have "contains G \<subseteq> (\<lambda>n. (the (core (the (map_of (gu_decls G) n))), n)) ` dom (map_of (gu_decls G))"
    by (force simp: contains_def)
  then show ?thesis by (rule finite_subset) (simp add: finite_dom_map_of)
qed

lemma elem_core:
  assumes "type_elem G t = Some (e, s)"
  shows "(\<exists>n. t = TNamed n \<and> (\<forall>m. core e = Some m \<longrightarrow> (m, n) \<in> contains G)) \<or>
    (\<forall>n. t \<noteq> TNamed n) \<and> core e = core t \<and> size e < size t"
  using assms by (auto simp: type_elem_def underlying_def contains_def split: go_type.splits option.splits)

text \<open>A composite type unwraps once the declared type at its bottom does.\<close>

lemma unwrap_elem:
  "type_elem G t = None \<Longrightarrow> unwrap G t sfx = Some (t, sfx)"
  "type_elem G t = Some (e, s) \<Longrightarrow>
     unwrap G t sfx = (if isLeaf G t then Some (t, sfx) else unwrap G e (sfx @ s))"
  by (simp_all add: unwrap.simps [of G t])

lemma unwrap_composite:
  assumes "\<And>n sfx. core t = Some n \<Longrightarrow> \<exists>r. unwrap G (TNamed n) sfx = Some r"
  shows "\<exists>r. unwrap G t sfx = Some r"
  using assms
proof (induction "size t" arbitrary: t sfx rule: less_induct)
  case less
  show ?case
  proof (cases "\<exists>n. t = TNamed n")
    case False
    show ?thesis
    proof (cases "type_elem G t")
      case (Some p)
      then obtain e s where e: "type_elem G t = Some (e, s)" by (cases p) simp
      have "core e = core t" "size e < size t" using elem_core [OF e] False by auto
      then have "\<exists>r. unwrap G e (sfx @ s) = Some r" using less.hyps [of e "sfx @ s"] less.prems by simp
      then show ?thesis by (simp add: unwrap_elem(2) [OF e])
    qed (simp add: unwrap_elem)
  qed (use less.prems in auto)
qed

lemma unwrap_returns:
  assumes "acyclic (contains G)"
  shows "\<exists>r. unwrap G t sfx = Some r"
proof -
  have wf: "wf (contains G)" using finite_acyclic_wf [OF finite_contains assms] .
  have named: "\<exists>r. unwrap G (TNamed n) sfx = Some r" for n sfx
  proof (induction n arbitrary: sfx rule: wf_induct_rule [OF wf])
    case (1 n)
    show ?case
    proof (cases "type_elem G (TNamed n)")
      case (Some p)
      then obtain e s where e: "type_elem G (TNamed n) = Some (e, s)" by (cases p) simp
      have "\<exists>r. unwrap G e (sfx @ s) = Some r"
      proof (rule unwrap_composite)
        show "\<exists>r. unwrap G (TNamed m) sfx' = Some r" if "core e = Some m" for m sfx'
          using elem_core [OF e] that by (intro 1) simp
      qed
      then show ?thesis by (simp add: unwrap_elem(2) [OF e])
    qed (simp add: unwrap_elem)
  qed
  show ?thesis by (rule unwrap_composite) (rule named)
qed

text \<open>The stack of the walk does not guard \<open>unwrap\<close>: on \<open>type T []T\<close> it never returns.\<close>

lemma unwrap_diverges:
  assumes "map_of (gu_decls G) n = Some (TSlice (TNamed n))" "\<not> isLeaf G (TNamed n)"
  shows "unwrap G (TNamed n) sfx = None"
proof -
  have elem: "type_elem G (TNamed n) = Some (TNamed n, ''[]'')"
    using assms(1) by (simp add: type_elem_def underlying_def)
  have no: "G' \<noteq> G \<or> t \<noteq> TNamed n" if "unwrap G' t sfx = Some r" for G' t sfx r
    by (rule unwrap.raw_induct [where P = "\<lambda>G' t _ _. G' \<noteq> G \<or> t \<noteq> TNamed n", OF _ that])
      (use elem assms(2) in \<open>auto split: if_splits option.splits\<close>)
  then show ?thesis by (metis option.exhaust)
qed

text \<open>The types the walk can meet: the parts of its type and of the declarations.\<close>

primrec subtypes :: "go_type \<Rightarrow> go_type set" and field_subtypes :: "go_field \<Rightarrow> go_type set" where
  "subtypes (TBasic n) = {TBasic n}"
| "subtypes (TNamed n) = {TNamed n}"
| "subtypes (TOther s) = {TOther s}"
| "subtypes (TPointer t) = insert (TPointer t) (subtypes t)"
| "subtypes (TSlice t) = insert (TSlice t) (subtypes t)"
| "subtypes (TArray k t) = insert (TArray k t) (subtypes t)"
| "subtypes (TMap k t) = insert (TMap k t) (subtypes k \<union> subtypes t)"
| "subtypes (TStruct s fs) = insert (TStruct s fs) (\<Union> (set (map field_subtypes fs)))"
| "field_subtypes (Field n x a tg t) = subtypes t"

definition meets :: "go_universe \<Rightarrow> go_type \<Rightarrow> go_type set" where
  "meets G t = \<Union> (subtypes ` insert t (snd ` set (gu_decls G)))"

lemma field_subtypes_type: "field_subtypes f = subtypes (f_type f)"
  by (cases f) simp

lemma subtypes_self [simp]: "t \<in> subtypes t"
  by (cases t) simp_all

lemma finite_subtypes: "finite (subtypes t)" and finite_field_subtypes: "finite (field_subtypes f)"
  by (induction t and f) auto

lemma subtypes_trans:
  "u \<in> subtypes t \<Longrightarrow> subtypes u \<subseteq> subtypes t" "u \<in> field_subtypes f \<Longrightarrow> subtypes u \<subseteq> field_subtypes f"
proof (induction t and f)
  case (TStruct s fs)
  show ?case
  proof (cases "u = TStruct s fs")
    case False
    then obtain f where "f \<in> set fs" "u \<in> field_subtypes f" using TStruct.prems by auto
    then have "subtypes u \<subseteq> field_subtypes f" using TStruct.IH by blast
    then show ?thesis using \<open>f \<in> set fs\<close> by auto
  qed simp
qed auto

lemma finite_meets: "finite (meets G t)"
  by (auto simp: meets_def finite_subtypes)

lemma meets_self: "t \<in> meets G t"
  by (simp add: meets_def)

lemma in_meets: "v \<in> meets G t \<longleftrightarrow> v \<in> subtypes t \<or> (\<exists>u \<in> snd ` set (gu_decls G). v \<in> subtypes u)"
  by (simp add: meets_def)

lemma meets_part:
  assumes "u \<in> meets G t" "v \<in> subtypes u"
  shows "v \<in> meets G t"
proof -
  have "v \<in> subtypes w" if "u \<in> subtypes w" for w using subtypes_trans(1) [OF that] assms(2) by (rule subsetD)
  then show ?thesis using assms(1) unfolding in_meets by blast
qed

lemma meets_underlying:
  assumes "u \<in> meets G t"
  shows "underlying G u \<in> meets G t \<or> (\<exists>n. underlying G u = TOther n)"
proof (cases "\<exists>n v. u = TNamed n \<and> map_of (gu_decls G) n = Some v")
  case True
  then obtain n v where u: "u = TNamed n" "map_of (gu_decls G) n = Some v" by blast
  then have "v \<in> snd ` set (gu_decls G)" by (metis map_of_SomeD image_eqI snd_conv)
  then have "v \<in> meets G t" unfolding in_meets using subtypes_self by blast
  then show ?thesis by (simp add: underlying_def u)
qed (use assms in \<open>auto simp: underlying_def split: go_type.splits option.splits\<close>)

lemma meets_field:
  assumes "u \<in> meets G t" "struct_fields G u = Some fs" "f \<in> set fs"
  shows "f_type f \<in> meets G t"
proof -
  obtain s where u: "underlying G u = TStruct s fs"
    using assms(2) by (auto simp: struct_fields_def split: go_type.splits)
  then have "TStruct s fs \<in> meets G t" using meets_underlying [OF assms(1)] by simp
  moreover have "f_type f \<in> subtypes (TStruct s fs)" using assms(3) subtypes_self by (auto simp: field_subtypes_type simp del: subtypes_self)
  ultimately show ?thesis by (rule meets_part)
qed

lemma meets_elem: "u \<in> meets G t \<Longrightarrow> type_elem G u = Some (e, s) \<Longrightarrow> e \<in> meets G t"
  using meets_underlying [of u G t] meets_part [of "underlying G u" G t e]
  by (auto simp: type_elem_def split: go_type.splits)

lemma unwrap_meets:
  assumes "unwrap G u sfx = Some (v, sfx')" "u \<in> meets G t"
  shows "v \<in> meets G t"
proof -
  have "u \<in> meets G t \<longrightarrow> fst r \<in> meets G t" if "unwrap G u sfx = Some r" for r
    by (rule unwrap.raw_induct [where P = "\<lambda>G u _ r. u \<in> meets G t \<longrightarrow> fst r \<in> meets G t", OF _ that])
      (auto split: if_splits option.splits dest: meets_elem)
  from this [OF assms(1)] assms(2) show ?thesis by simp
qed

lemma walkStruct_step:
  "struct_fields G t = None \<Longrightarrow> walkStruct G pfx t stack = Some []"
  "t \<in> set stack \<Longrightarrow> walkStruct G pfx t stack = Some []"
  "struct_fields G t = Some fs \<Longrightarrow> t \<notin> set stack \<Longrightarrow>
     walkStruct G pfx t stack = gather (field_lines G (\<lambda>p u. walkStruct G p u (t # stack)) pfx) fs"
  by (simp_all add: walkStruct.simps [of G pfx t stack] split: option.split)

lemma gather_returns: "(\<And>x. x \<in> set xs \<Longrightarrow> \<exists>ys. f x = Some ys) \<Longrightarrow> \<exists>ys. gather f xs = Some ys"
  by (induction xs) fastforce+

lemma walk_returns:
  assumes "acyclic (contains G)" "t \<in> meets G root"
  shows "\<exists>ls. walkStruct G pfx t stack = Some ls"
  using assms(2)
proof (induction "card (meets G root - set stack)" arbitrary: pfx t stack rule: less_induct)
  case less
  show ?case
  proof (cases "struct_fields G t")
    case (Some fs)
    show ?thesis
    proof (cases "t \<in> set stack")
      case False
      have "card (meets G root - set (t # stack)) < card (meets G root - set stack)"
        using less.prems False by (intro psubset_card_mono) (auto simp: finite_meets)
      note deeper = less.hyps [OF this]
      have "\<exists>ls. field_lines G (\<lambda>p u. walkStruct G p u (t # stack)) pfx f = Some ls" if f: "f \<in> set fs" for f
      proof -
        obtain inner sfx where u: "unwrap G (f_type f) [] = Some (inner, sfx)"
          using unwrap_returns [OF assms(1), of "f_type f" "[]"] by auto
        have "inner \<in> meets G root" by (rule unwrap_meets [OF u meets_field [OF less.prems Some f]])
        then have "\<exists>ls. walkStruct G p inner (t # stack) = Some ls" for p by (rule deeper)
        then obtain f_ls where "\<And>p. walkStruct G p inner (t # stack) = Some (f_ls p)" by metis
        then show ?thesis by (simp add: field_lines_def u split: prod.split)
      qed
      then show ?thesis unfolding walkStruct_step(3) [OF Some False] by (rule gather_returns)
    qed (simp add: walkStruct_step)
  qed (simp add: walkStruct_step)
qed

subsection \<open>The paths of a type\<close>

text \<open>
  \<open>json_path G pfx t l\<close>: below the path \<open>pfx\<close>, a value of the struct type \<open>t\<close> has a field whose line is
  \<open>l\<close>. There is no stack here: a type that contains itself has paths of every length.
\<close>

definition emitted :: "go_field \<Rightarrow> bool" where
  "emitted f \<longleftrightarrow> (f_exported f \<or> f_anonymous f) \<and> \<not> snd (snd (jsonName f))"

definition inlined :: "go_field \<Rightarrow> bool" where
  "inlined f \<longleftrightarrow> f_anonymous f \<and> fst (jsonName f) = []"

definition field_path :: "string \<Rightarrow> go_field \<Rightarrow> string" where
  "field_path pfx f = join_path pfx (fst (jsonName f))"

definition field_line :: "go_universe \<Rightarrow> string \<Rightarrow> go_field \<Rightarrow> string" where
  "field_line G pfx f = path_line G (field_path pfx f) (f_type f) (fst (snd (jsonName f)))"

inductive json_path :: "go_universe \<Rightarrow> string \<Rightarrow> go_type \<Rightarrow> string \<Rightarrow> bool" for G where
  here: "struct_fields G t = Some fs \<Longrightarrow> f \<in> set fs \<Longrightarrow> emitted f \<Longrightarrow> \<not> inlined f \<Longrightarrow>
    json_path G pfx t (field_line G pfx f)"
| below: "struct_fields G t = Some fs \<Longrightarrow> f \<in> set fs \<Longrightarrow> emitted f \<Longrightarrow> \<not> inlined f \<Longrightarrow>
    unwrap G (f_type f) [] = Some (u, sfx) \<Longrightarrow> \<not> isLeaf G u \<Longrightarrow>
    json_path G (field_path pfx f @ sfx) u l \<Longrightarrow> json_path G pfx t l"
| embedded: "struct_fields G t = Some fs \<Longrightarrow> f \<in> set fs \<Longrightarrow> emitted f \<Longrightarrow> inlined f \<Longrightarrow>
    unwrap G (f_type f) [] = Some (u, sfx) \<Longrightarrow> json_path G pfx u l \<Longrightarrow> json_path G pfx t l"

inductive_cases json_pathE: "json_path G pfx t l"

lemma gather_Cons_Some:
  "gather f (x # xs) = Some ys \<longleftrightarrow> (\<exists>as bs. f x = Some as \<and> gather f xs = Some bs \<and> ys = as @ bs)"
  by (auto simp: bind_eq_Some_conv)

lemma gather_part: "gather f xs = Some ys \<Longrightarrow> x \<in> set xs \<Longrightarrow> \<exists>zs. f x = Some zs \<and> set zs \<subseteq> set ys"
proof (induction xs arbitrary: ys)
  case (Cons a xs)
  then obtain as bs where "f a = Some as" "gather f xs = Some bs" "ys = as @ bs"
    unfolding gather_Cons_Some by blast
  then show ?case using Cons.IH Cons.prems(2) by fastforce
qed simp

lemma gather_source: "gather f xs = Some ys \<Longrightarrow> y \<in> set ys \<Longrightarrow> \<exists>x \<in> set xs. \<exists>zs. f x = Some zs \<and> y \<in> set zs"
proof (induction xs arbitrary: ys)
  case (Cons a xs)
  then obtain as bs where "f a = Some as" "gather f xs = Some bs" "ys = as @ bs"
    unfolding gather_Cons_Some by blast
  then show ?case using Cons.IH Cons.prems(2) by fastforce
qed simp

lemma field_lines_cases:
  assumes "field_lines G walk pfx f = Some ls"
  obtains (none) "\<not> emitted f" "ls = []"
  | (inlined) u sfx where "emitted f" "inlined f" "unwrap G (f_type f) [] = Some (u, sfx)" "walk pfx u = Some ls"
  | (leaf) u sfx where "emitted f" "\<not> inlined f" "unwrap G (f_type f) [] = Some (u, sfx)" "isLeaf G u"
      "ls = [field_line G pfx f]"
  | (struct) u sfx rest where "emitted f" "\<not> inlined f" "unwrap G (f_type f) [] = Some (u, sfx)"
      "\<not> isLeaf G u" "walk (field_path pfx f @ sfx) u = Some rest" "ls = field_line G pfx f # rest"
proof -
  obtain name omit skip where n: "jsonName f = (name, omit, skip)" by (cases "jsonName f") blast
  then have lines: "field_path pfx f = join_path pfx name"
    "field_line G pfx f = path_line G (join_path pfx name) (f_type f) omit"
    by (simp_all add: field_path_def field_line_def)
  consider "\<not> emitted f" | "emitted f" "inlined f" | "emitted f" "\<not> inlined f" by blast
  then show thesis
  proof cases
    case 1
    then show thesis using assms by (intro none) (auto simp: field_lines_def emitted_def n split: if_splits)
  next
    case 2
    then have "Option.bind (unwrap G (f_type f) []) (\<lambda>(u, _). walk pfx u) = Some ls"
      using assms by (auto simp: field_lines_def emitted_def inlined_def n)
    then show thesis using inlined [OF 2] by (auto simp: bind_eq_Some_conv)
  next
    case 3
    then have "Option.bind (unwrap G (f_type f) []) (\<lambda>(u, sfx).
        Option.bind (if isLeaf G u then Some [] else walk (field_path pfx f @ sfx) u)
          (\<lambda>rest. Some (field_line G pfx f # rest))) = Some ls"
      using assms unfolding lines by (auto simp: field_lines_def emitted_def inlined_def n)
    then obtain u sfx rest where u: "unwrap G (f_type f) [] = Some (u, sfx)" "ls = field_line G pfx f # rest"
      "(if isLeaf G u then Some [] else walk (field_path pfx f @ sfx) u) = Some rest"
      by (auto simp: bind_eq_Some_conv)
    show thesis using leaf [OF 3 u(1)] struct [OF 3 u(1)] u(2,3) by (cases "isLeaf G u") simp_all
  qed
qed

text \<open>Every line is a path.\<close>

lemma walk_sound: "walkStruct G pfx t stack = Some ls \<Longrightarrow> \<forall>l \<in> set ls. json_path G pfx t l"
proof (rule walkStruct.raw_induct [where P = "\<lambda>G pfx t _ ls. \<forall>l \<in> set ls. json_path G pfx t l"])
  fix walk G pfx t stack ls
  assume IH: "\<And>G pfx t stack ls. walk G pfx t stack = Some ls \<Longrightarrow> \<forall>l \<in> set ls. json_path G pfx t l"
    and step: "(case struct_fields G t of None \<Rightarrow> Some []
      | Some fs \<Rightarrow> if t \<in> set stack then Some []
          else gather (field_lines G (\<lambda>p u. walk G p u (t # stack)) pfx) fs) = Some ls"
  show "\<forall>l \<in> set ls. json_path G pfx t l"
  proof
    fix l assume l: "l \<in> set ls"
    obtain fs where fs: "struct_fields G t = Some fs"
      "gather (field_lines G (\<lambda>p u. walk G p u (t # stack)) pfx) fs = Some ls"
      using step l by (auto split: option.splits if_splits)
    then obtain f zs where f: "f \<in> set fs" "l \<in> set zs"
      "field_lines G (\<lambda>p u. walk G p u (t # stack)) pfx f = Some zs"
      using gather_source l by meson
    show "json_path G pfx t l"
      using f(3)
    proof (cases rule: field_lines_cases)
      case (inlined u sfx)
      then show ?thesis using IH f fs by (blast intro: json_path.embedded)
    next
      case (struct u sfx rest)
      then show ?thesis using IH f fs by (auto intro: json_path.here json_path.below)
    qed (use f fs in \<open>auto intro: json_path.here\<close>)
  qed
qed

text \<open>Every path is a line, unless a type was met below itself.\<close>

definition parts_of :: "go_universe \<Rightarrow> (go_type \<times> go_type) set" where
  "parts_of G = {(u, t). \<exists>fs f sfx. struct_fields G t = Some fs \<and> f \<in> set fs \<and> emitted f \<and>
     unwrap G (f_type f) [] = Some (u, sfx)}"

definition self_free :: "go_universe \<Rightarrow> go_type \<Rightarrow> bool" where
  "self_free G t \<longleftrightarrow> (\<forall>u. (u, t) \<in> (parts_of G)\<^sup>* \<longrightarrow> (u, u) \<notin> (parts_of G)\<^sup>+)"

lemma self_free_part: "self_free G t \<Longrightarrow> (u, t) \<in> parts_of G \<Longrightarrow> self_free G u"
  unfolding self_free_def by (meson rtrancl.rtrancl_into_rtrancl)

lemma walk_field:
  assumes "walkStruct G pfx t stack = Some ls" "struct_fields G t = Some fs" "t \<notin> set stack" "f \<in> set fs"
  shows "\<exists>zs. field_lines G (\<lambda>p u. walkStruct G p u (t # stack)) pfx f = Some zs \<and> set zs \<subseteq> set ls"
  using assms by (simp add: walkStruct_step gather_part)

lemma walk_complete:
  assumes "json_path G pfx t l" "self_free G t" "\<And>s. s \<in> set stack \<Longrightarrow> (t, s) \<in> (parts_of G)\<^sup>+"
    and "walkStruct G pfx t stack = Some ls"
  shows "l \<in> set ls"
  using assms
proof (induction arbitrary: stack ls)
  case (here t fs f pfx)
  have "t \<notin> set stack" using here.prems(1,2) by (auto simp: self_free_def)
  then obtain zs where "field_lines G (\<lambda>p u. walkStruct G p u (t # stack)) pfx f = Some zs" "set zs \<subseteq> set ls"
    using walk_field [OF here.prems(3) here.hyps(1) _ here.hyps(2)] by blast
  then show ?case using here.hyps by (cases rule: field_lines_cases) auto
next
  case (below t fs f u sfx pfx l)
  have ut: "(u, t) \<in> parts_of G" using below.hyps by (auto simp: parts_of_def)
  have "t \<notin> set stack" using below.prems(1,2) by (auto simp: self_free_def)
  then obtain zs where z: "field_lines G (\<lambda>p u. walkStruct G p u (t # stack)) pfx f = Some zs" "set zs \<subseteq> set ls"
    using walk_field [OF below.prems(3) below.hyps(1) _ below.hyps(2)] by blast
  have up: "(u, s) \<in> (parts_of G)\<^sup>+" if "s \<in> set (t # stack)" for s
    using that ut below.prems(2) [of s] by (auto intro: trancl_into_trancl2)
  show ?case
    using z(1)
  proof (cases rule: field_lines_cases)
    case (struct u' sfx' rest)
    then show ?thesis
      using below.hyps below.IH [OF self_free_part [OF below.prems(1) ut] up, of "t # stack" rest] z(2)
      by auto
  qed (use below.hyps in auto)
next
  case (embedded t fs f u sfx pfx l)
  have ut: "(u, t) \<in> parts_of G" using embedded.hyps by (auto simp: parts_of_def)
  have "t \<notin> set stack" using embedded.prems(1,2) by (auto simp: self_free_def)
  then obtain zs where z: "field_lines G (\<lambda>p u. walkStruct G p u (t # stack)) pfx f = Some zs" "set zs \<subseteq> set ls"
    using walk_field [OF embedded.prems(3) embedded.hyps(1) _ embedded.hyps(2)] by blast
  have up: "(u, s) \<in> (parts_of G)\<^sup>+" if "s \<in> set (t # stack)" for s
    using that ut embedded.prems(2) [of s] by (auto intro: trancl_into_trancl2)
  show ?case
    using z(1)
  proof (cases rule: field_lines_cases)
    case (inlined u' sfx')
    then show ?thesis
      using embedded.hyps embedded.IH [OF self_free_part [OF embedded.prems(1) ut] up, of "t # stack" zs] z(2)
      by auto
  qed (use embedded.hyps in auto)
qed

lemma FieldPaths_lines:
  assumes "FieldPaths G t = Some ls"
  shows "sorted ls" "l \<in> set ls \<Longrightarrow> json_path G [] t l"
    "self_free G t \<Longrightarrow> json_path G [] t l \<Longrightarrow> l \<in> set ls"
proof -
  obtain ks where k: "walkStruct G [] t [] = Some ks" "ls = sort ks"
    using assms by (auto simp: FieldPaths_def)
  show "sorted ls" "l \<in> set ls \<Longrightarrow> json_path G [] t l" using walk_sound [OF k(1)] by (simp_all add: k(2))
  show "l \<in> set ls" if "self_free G t" "json_path G [] t l"
    using walk_complete [OF that(2,1) _ k(1)] by (simp add: k(2))
qed

text \<open>A type whose parts are ranked downwards does not contain itself.\<close>

lemma self_freeI:
  assumes "t \<in> S" "\<And>u v. u \<in> S \<Longrightarrow> (v, u) \<in> parts_of G \<Longrightarrow> v \<in> S \<and> rank v < (rank u :: nat)"
  shows "self_free G t"
  unfolding self_free_def
proof (intro allI impI)
  fix u assume "(u, t) \<in> (parts_of G)\<^sup>*"
  then have u: "u \<in> S"
    by (induction rule: converse_rtrancl_induct) (use assms in auto)
  have "w \<in> S \<and> rank v < rank w" if "(v, w) \<in> (parts_of G)\<^sup>+" "w \<in> S" for v w
    using that by (induction rule: trancl_induct) (use assms(2) in \<open>auto dest: order.strict_trans\<close>)
  then show "(u, u) \<notin> (parts_of G)\<^sup>+" using u by blast
qed

subsection \<open>Properties\<close>

text \<open>
  C40: the frozen schema is exact. On a package no declared container of which contains itself, the
  walk ends; its lines are sorted; each of them is a JSON path of the type; and when no struct
  contains itself, every JSON path of the type has its line, however deep it lies.
\<close>

theorem FieldPaths_exact:
  assumes "acyclic (contains G)" "self_free G t"
  shows "\<exists>ls. FieldPaths G t = Some ls \<and> sorted ls \<and> (\<forall>l. json_path G [] t l \<longleftrightarrow> l \<in> set ls)"
proof -
  obtain ks where "walkStruct G [] t [] = Some ks" using walk_returns [OF assms(1) meets_self] by blast
  then have ls: "FieldPaths G t = Some (sort ks)" by (simp add: FieldPaths_def)
  show ?thesis using FieldPaths_lines [OF ls] assms(2) ls by blast
qed

text \<open>The storage part of the contract, \<open>LogDir\<close> and \<open>LogDirPartition\<close>.\<close>

definition wit_field :: "string \<Rightarrow> go_type \<Rightarrow> string \<Rightarrow> go_field" where
  "wit_field name t tag = Field name True False [(''json'', tag)] t"

definition wit_log_dir :: go_type where "wit_log_dir = TNamed ''metrics.LogDir''"
definition wit_replica :: go_type where "wit_replica = TNamed ''metrics.LogDirPartition''"

definition wit_dir_fields :: "go_field list" where
  "wit_dir_fields =
     [wit_field ''Broker'' (TBasic ''int32'') ''broker'', wit_field ''Dir'' (TBasic ''string'') ''dir'',
      wit_field ''TotalBytes'' (TPointer (TBasic ''int64'')) ''total_bytes'',
      wit_field ''UsableBytes'' (TPointer (TBasic ''int64'')) ''usable_bytes'',
      wit_field ''ErrorCode'' (TBasic ''int16'') ''error_code,omitempty'',
      wit_field ''Partitions'' (TSlice wit_replica) ''partitions'']"

definition wit_replica_fields :: "go_field list" where
  "wit_replica_fields =
     [wit_field ''Topic'' (TBasic ''string'') ''topic'', wit_field ''Partition'' (TBasic ''int32'') ''partition'',
      wit_field ''Size'' (TBasic ''int64'') ''size'', wit_field ''OffsetLag'' (TBasic ''int64'') ''offset_lag'',
      wit_field ''IsFuture'' (TBasic ''bool'') ''is_future,omitempty'']"

definition wit_package :: go_universe where
  "wit_package =
     \<lparr>gu_decls = [(''metrics.LogDir'', TStruct [] wit_dir_fields),
        (''metrics.LogDirPartition'', TStruct [] wit_replica_fields)],
      gu_marshals = (\<lambda>t. t = timeType \<or> t = TPointer timeType)\<rparr>"

lemma wit_structs:
  "struct_fields wit_package wit_log_dir = Some wit_dir_fields"
  "struct_fields wit_package wit_replica = Some wit_replica_fields"
  "struct_fields wit_package (TBasic n) = None"
  "contains wit_package = {}"
  by (auto simp: struct_fields_def underlying_def wit_package_def wit_log_dir_def wit_replica_def contains_def
      split: if_splits)

lemma wit_unwrap:
  "unwrap wit_package (TBasic n) sfx = Some (TBasic n, sfx)"
  "unwrap wit_package (TPointer (TBasic n)) sfx = Some (TBasic n, sfx)"
  "unwrap wit_package (TSlice wit_replica) sfx = Some (wit_replica, sfx @ ''[]'')"
proof -
  have leaf: "isLeaf wit_package (TBasic n)" "\<not> isLeaf wit_package (TPointer (TBasic n))"
    "\<not> isLeaf wit_package (TSlice wit_replica)" "\<not> isLeaf wit_package wit_replica"
    using wit_structs(2)
    by (simp_all add: isLeaf_def struct_fields_def type_elem_def underlying_def wit_package_def timeType_def
        wit_replica_def)
  have elem: "type_elem wit_package wit_replica = None"
    by (simp add: type_elem_def underlying_def wit_package_def wit_replica_def)
  show "unwrap wit_package (TBasic n) sfx = Some (TBasic n, sfx)" for sfx
    by (simp add: unwrap.simps leaf)
  then show "unwrap wit_package (TPointer (TBasic n)) sfx = Some (TBasic n, sfx)"
    using leaf(2) by (subst unwrap.simps) (simp add: type_elem_def underlying_def)
  show "unwrap wit_package (TSlice wit_replica) sfx = Some (wit_replica, sfx @ ''[]'')"
    using leaf(3,4) elem unwrap_elem(1) by (subst unwrap.simps) (simp add: type_elem_def underlying_def)
qed

lemma wit_self_free: "self_free wit_package wit_log_dir"
proof (rule self_freeI)
  let ?rank = "\<lambda>t. if t = wit_log_dir then 2 else if t = wit_replica then 1 else (0 :: nat)"
  show "wit_log_dir \<in> {wit_log_dir, wit_replica} \<union> range TBasic" by simp
  show "v \<in> {wit_log_dir, wit_replica} \<union> range TBasic \<and> ?rank v < ?rank u"
    if "u \<in> {wit_log_dir, wit_replica} \<union> range TBasic" "(v, u) \<in> parts_of wit_package" for u v
    using that
    unfolding parts_of_def mem_Collect_eq prod.case
    by (elim exE conjE UnE insertE emptyE rangeE)
      (auto simp: wit_structs wit_unwrap wit_dir_fields_def wit_replica_fields_def wit_field_def,
        simp_all add: wit_log_dir_def wit_replica_def)
qed

lemma wit_deep: "json_path wit_package [] wit_log_dir ''partitions[].size int64''"
proof -
  let ?dirs = "wit_field ''Partitions'' (TSlice wit_replica) ''partitions''"
  let ?size = "wit_field ''Size'' (TBasic ''int64'') ''size''"
  have "json_path wit_package ''partitions[]'' wit_replica (field_line wit_package ''partitions[]'' ?size)"
    by (rule json_path.here [OF wit_structs(2)])
      (simp_all add: wit_replica_fields_def wit_field_def emitted_def inlined_def jsonName_def)
  moreover have "field_line wit_package ''partitions[]'' ?size = ''partitions[].size int64''"
    by (simp add: field_line_def field_path_def join_path_def path_line_def wit_field_def jsonName_def
        is_pointer_def underlying_def)
  ultimately have "json_path wit_package (field_path [] ?dirs @ ''[]'') wit_replica ''partitions[].size int64''"
    by (simp add: field_path_def join_path_def wit_field_def jsonName_def)
  moreover have "\<not> isLeaf wit_package wit_replica"
    using wit_structs(2) by (simp add: isLeaf_def wit_package_def wit_replica_def timeType_def)
  ultimately show ?thesis
    by (intro json_path.below [OF wit_structs(1), of ?dirs])
      (simp_all add: wit_dir_fields_def wit_field_def emitted_def inlined_def jsonName_def wit_unwrap)
qed

theorem FieldPaths_exact_witness:
  "\<exists>ls. FieldPaths wit_package wit_log_dir = Some ls \<and> sorted ls \<and> ''partitions[].size int64'' \<in> set ls"
proof -
  have "acyclic (contains wit_package)" by (simp add: wit_structs(4) acyclic_def)
  from FieldPaths_exact [OF this wit_self_free] wit_deep show ?thesis by blast
qed

end
