(* ===== verification/Commands.thy ===== *)
theory Commands
  imports Agent
begin

text \<open>
  The agent's command, \<open>src/cmd/agent/main.go\<close>: the flags, \<open>Load\<close>, \<open>New\<close>, \<open>Run\<close> and the deferred
  \<open>Close\<close>, as the exit code of the process, what is left of the Kafka client, and the batches handed
  to the exporter. The parse of the flags is the input \<open>invocation\<close>; what is written to the standard
  streams is left out. The other command, \<open>src/cmd/mock-ingest/main.go\<close>, is in \<open>Mock_Report\<close>.
\<close>

datatype invocation = BadFlags | AskedHelp | AskedVersion | NoFlags

text \<open>\<open>Run\<close> returns nil whatever its cycles did, and an error of \<open>Close\<close> is only printed. \<open>None\<close> is
  the panic of a cycle.\<close>

definition run_agent ::
    "go_library \<Rightarrow> env \<Rightarrow> startup \<Rightarrow> string \<Rightarrow> disk \<Rightarrow> cycle_input list \<Rightarrow> invocation \<Rightarrow>
       (int \<times> client_state \<times> batch list) option" where
  "run_agent lib env su version d cys call =
     (case call of
        BadFlags \<Rightarrow> Some (1, NoClient, [])
      | AskedHelp \<Rightarrow> Some (0, NoClient, [])
      | AskedVersion \<Rightarrow> Some (0, NoClient, [])
      | NoFlags \<Rightarrow>
          (case Load lib env of
             Inl problems \<Rightarrow> Some (1, NoClient, [])
           | Inr cfg \<Rightarrow>
               (case newAgent su cfg version of
                  (Inl e, client) \<Rightarrow> Some (1, client, [])
                | (Inr a, client) \<Rightarrow>
                    (case run_cycles a cys of
                       None \<Rightarrow> None
                     | Some (a', bs) \<Rightarrow> Some (0, snd (snd (agentClose d a')), bs)))))"

lemma newAgent_released: "fst (newAgent su cfg version) = Inl e \<Longrightarrow> snd (newAgent su cfg version) \<noteq> ClientOpen"
  by (auto simp: newAgent_def Let_def split: sum.splits option.splits prod.splits)

text \<open>Whatever happens, a run that returns has released its client, and one that fails to start has
  shipped nothing.\<close>

lemma run_agent_releases:
  assumes "run_agent lib env su version d cys call = Some (code, client, bs)"
  shows "client \<noteq> ClientOpen" "code \<noteq> 0 \<Longrightarrow> bs = []"
  using assms newAgent_released
  by (auto simp: run_agent_def agentClose_def split_beta split: invocation.splits sum.splits option.splits prod.splits)

end
