(* ===== verification/Spec2Isabelle.thy ===== *)
theory Spec2Isabelle
  imports Conformance Mock_Report Mock_Schema Commands
begin

text \<open>
  A verification library for the streamsight agent (Go, repository \<open>src/\<close>): a process that samples a
  Kafka cluster once per interval and ships what it saw as one JSON batch per cycle, and the mock
  ingest that checks such batches against the wire contract.

  \<^bold>\<open>The program.\<close> \<open>config.Load\<close> reads the environment once; \<open>agent.New\<close> builds the Kafka client, probes
  the brokers' capabilities, gates the options by them, and builds the collector and one of three
  exporters. Every cycle, \<open>Collector.Collect\<close> runs its phases in goroutines that wait for one another
  on channels, each filling one or more \<^emph>\<open>sections\<close> with its rows and its attributed errors; a final pass
  merges the errors under a global cap and assembles the batch. The agent numbers and stamps it and
  hands it to the exporter, which queues, retries and accounts for it. The mock ingest decodes a
  posted batch, runs a suite of checks over it, remembers deliveries by their idempotency key,
  injects faults, and keeps the books that decide the exit code of its command.

  \<^bold>\<open>Theories, from the ground up\<close> (paths are under \<open>src/internal/\<close> unless they start with \<open>cmd/\<close>).
  \<^item> \<open>Prelude\<close>: names of Go types, lemma collections, lists, maps and sums. \<open>Strconv\<close>: the functions of
    \<open>strconv\<close> and \<open>strings\<close> several parts use (decimal printing and parsing, trimming, splitting).
  \<^item> \<open>Wire\<close>: \<open>metrics/types.go\<close>, one record per struct, and the latency histogram.
  \<^item> \<open>GoError\<close>, \<open>Sections\<close>, \<open>Merge\<close>: \<open>collector/errors.go\<close> and \<open>limits.go\<close>: classification of errors,
    the section with its admission funnel, and the global merge. \<open>Section_Inv\<close> holds the invariant of
    a section and the accounting of the funnel, \<open>Section_Props\<close> the contract the phases use
    (\<open>recorder\<close>, a locale interpreted on the four recording operations).
  \<^item> \<open>Topic_Filter\<close>: \<open>collector/filter.go\<close>. \<open>Phase_Base\<close>: the collector's fixed state.
  \<^item> The phases, each with its properties: \<open>Offsets\<close> (\<open>offsets.go\<close>), \<open>Topics\<close> and \<open>Topics_Props\<close>
    (\<open>metadata.go\<close>), \<open>Window\<close> (\<open>throughput.go\<close>), \<open>Epochs\<close> and \<open>Epochs_Props\<close> (\<open>truncation.go\<close>), \<open>Reassign\<close>
    (\<open>reassign.go\<close>), \<open>LogDirs\<close> (\<open>logdirs.go\<close>), \<open>Configs\<close> (\<open>configs.go\<close>), \<open>Consumer_Groups\<close> (\<open>groups.go\<close>),
    \<open>ShareGroups\<close> (\<open>sharegroups.go\<close>), all of \<open>collector/\<close>.
  \<^item> \<open>Collector\<close>: \<open>collector/collector.go\<close> and \<open>rpc.go\<close>: cadences, the data flow of a cycle in one
    canonical order, the assembly and the final pass. \<open>Schedule\<close>: the goroutines as a step relation
    (\<open>cycle_run\<close>), over the locale \<open>task_graph\<close>: every interleaving gives the canonical result.
  \<^item> \<open>Hooks\<close> (\<open>kafka/hooks.go\<close>) and \<open>Capabilities\<close> (\<open>kafka/capabilities.go\<close> and parts of \<open>client.go\<close>).
  \<^item> \<open>Export\<close> (\<open>export/exporter.go\<close>, \<open>stdout.go\<close>, \<open>http.go\<close>) and \<open>File_Export\<close> (\<open>file.go\<close>): the three
    exporters, each an interpretation of the locale \<open>exporter\<close>; the HTTP queue under every
    interleaving of producer, worker and close (\<open>http_run\<close>); the life of the rotating file under
    every failure of the disk (\<open>file_run\<close>).
  \<^item> \<open>Agent_Config\<close> (\<open>config/config.go\<close>), \<open>Agent\<close> (\<open>agent/agent.go\<close>), \<open>Commands\<close> (\<open>cmd/agent/main.go\<close>).
  \<^item> \<open>Mock_Wire\<close> (a decoded batch), \<open>Mock_Check\<close> and \<open>Mock_Data\<close> (\<open>mockingest/check.go\<close>, the suite),
    \<open>Mock_Check_Props\<close> (the declarative \<open>contract\<close> the suite decides), \<open>Mock_Server\<close> (\<open>server.go\<close>,
    \<open>faults.go\<close>, the state checks, the books of \<open>report.go\<close>), \<open>Mock_Ingest_Props\<close> (what the server
    remembers), \<open>Mock_Delivery\<close> (the exporter's retry loop against the server), \<open>Mock_Report\<close> (the
    rest of \<open>report.go\<close> and \<open>cmd/mock-ingest/main.go\<close>), \<open>Mock_Schema\<close> (\<open>schema.go\<close>).
  \<^item> \<open>Conformance\<close>: collector, agent, exporter and ingest together.

  \<^bold>\<open>What the lemmas show\<close>, with the scope of each group.
  \<^item> Errors: what a section records is accounted for exactly while nothing is dropped, and after that as
    far as the code counts: \<open>errors_dropped\<close> is the number of refused failure modes, not of their
    occurrences. Entity errors never displace an actionable kind, in a section or in the batch; the
    global ceiling still cuts the request-scoped and actionable entries themselves when they alone
    exceed it. The global merge has a closed form, and a section's error count is the number of its
    entries in the batch. The outcome of \<open>requestPartial\<close> is stated for one call on a section that had
    not failed; a listing can ship data under an unauthorized section (\<open>partial_listing_reads_unauthorized\<close>).
  \<^item> Phases: for the start, last stable, end, local start and remote end offsets, a null offset and an ok
    section never meet (a \<open>max_timestamp\<close> of -1 is null under an ok section, as the code intends); no
    offset listing is issued without naming topics; the topic rows are exactly the selected topics, and
    under an ok \<open>log_dirs\<close> the directory rows exactly what the brokers reported; no configuration
    outside the allowlist leaves the cluster; an epoch question is retired only by an error-free answer.
  \<^item> The cycle: every batch carries every section once and in order; the schedule cannot deadlock, and its
    result does not depend on the interleaving. The start offsets precede the end offsets in every run;
    the committed offsets and the window precede them in every run that is not cancelled (a cancelled
    context releases that wait).
  \<^item> Startup: an accepted configuration satisfies the bounds that \<open>Load_valid_config\<close> lists, and is never
    refused later. \<open>EXPORT_FILE_MAX_MB\<close> is not among them (\<open>max_mb_overflows\<close>). Capabilities are minima
    over all brokers.
  \<^item> Delivery: every batch handed to a live exporter ends in exactly one counter or in the queue; the
    retry loop returns within its attempts and its budget; the queue loses nothing unaccounted. Files
    that held whole records still do, save the live file once its writer holds an error or is closed,
    which may end in a part of one record. Sequence numbers have no holes.
  \<^item> The ingest: the suite of checks decides the contract. Outside warn-only mode, and with requests
    served one at a time, a key is accepted at most once between two resets; the exit code is the
    verdict of the run since its last reset (\<open>/control/reset\<close> is a call of every run, \<open>server_call\<close>).
    Dumps stay in their directory; the frozen schema is exact.
  \<^item> Composition (\<open>shipped_batch_conforms\<close>, \<open>exporter_and_ingest_agree\<close>, \<open>collected_batch_is_delivered\<close>):
    what the collector assembles and the agent stamps satisfies the contract, up to named facts on
    clocks and brokers, and reaches the ingest's books through an outage shorter than the retries.

  \<^bold>\<open>Bounds.\<close> No definition has fuel. Loops are structural or come with a measure; the retry loop
  recurses on the number of attempts left, the field of the source that bounds it; two loops that
  need not end are \<open>partial_function (option)\<close> (\<open>unwrap\<close> and \<open>walkStruct\<close> of \<open>Mock_Schema\<close>), and when they
  end is proved. Integers are words, or \<open>int\<close> with the wrap-around written out (\<open>wrap64\<close>), where the
  code's arithmetic can overflow.

  \<^bold>\<open>Parameters.\<close> What is not in the repository is an argument: the answers of the Kafka client (\<open>kadm\<close>,
  \<open>kgo\<close>, \<open>kmsg\<close>, \<open>kerr\<close>; records such as \<open>cycle_env\<close> and \<open>startup\<close>), and, of the standard library, the
  regular expression engine, URL parsing, JSON, gzip, SHA-256, media types, HTTP dates, the clock,
  random draws and the file system. The hypotheses on them are named (\<open>regexp_ok\<close>, \<open>wire_inverts\<close>,
  \<open>good_disk\<close>) and every theorem with one has a witness.

  \<^bold>\<open>Not modelled.\<close> Log lines, metrics of the Go runtime, flag parsing, signals and tickers; the text
  \<open>fmt\<close> makes of the operands of a message of the ingest (the operands are kept);
  \<open>collector/client.go\<close>, an interface without code; the HTTP server's mux and connection handling.
  The mock ingest serves requests one at a time here; in the program a mutex guards each of its
  steps, and two requests may interleave between them. A context is modelled by what it makes
  calls answer and by the places where the code reads it.
\<close>

end
